(* ===== verification/Prelude.thy ===== *)
theory Prelude
  imports Main
begin

text \<open>
  Shared vocabulary of the development: the value of type \<open>error\<close> of the Go sources, results
  of functions returning a value and an error, 64-bit integers, decimal printing, and the
  generic list and map lemmas the components use.
\<close>

section \<open>Collections of facts\<close>

named_theorems go_defs \<open>definitions that evaluate closed instances of the model\<close>
named_theorems guard_simps \<open>characterisations of the guards of the code\<close>

section \<open>Go errors\<close>

text \<open>
  Go's interface type \<open>error\<close>. A function returning \<open>error\<close> returns an \<open>error option\<close> here
  (\<open>None\<close> is nil), and one returning \<open>(T, error)\<close> returns \<open>error + T\<close>. \<open>NewErr\<close> is
  \<open>errors.New\<close> of an anonymous error, \<open>Sentinel\<close> a package-level error variable, and \<open>Wrapf\<close>
  an error built by \<open>fmt.Errorf\<close> with the verb for wrapping.
\<close>

datatype error =
    NewErr string
  | Sentinel string
  | Wrapf string error

text \<open>\<open>errors.Is\<close>: does the chain of wrapped errors contain the target?\<close>

fun errors_is :: "error \<Rightarrow> error \<Rightarrow> bool" where
  "errors_is (Wrapf m e) t = (Wrapf m e = t \<or> errors_is e t)"
| "errors_is e t = (e = t)"

text \<open>A call to a server can go wrong on the way there, without effect, or on the way back, when the
  server has already done what it was asked to.\<close>

datatype fault = NoFault | LostRequest error | LostReply error

fun next_fault :: "fault list \<Rightarrow> fault" where
  "next_fault [] = NoFault"
| "next_fault (f # fs) = f"

section \<open>64-bit integers\<close>

text \<open>Go's \<open>int\<close> and \<open>int64\<close> are two's complement 64-bit integers whose arithmetic wraps.\<close>

definition wrap64 :: "int \<Rightarrow> int" where
  "wrap64 x = (x + 2 ^ 63) mod 2 ^ 64 - 2 ^ 63"

definition in_int64 :: "int \<Rightarrow> bool" where
  "in_int64 x \<longleftrightarrow> - (2 ^ 63) \<le> x \<and> x < 2 ^ 63"

lemma in_int64_wrap64 [simp, intro]: "in_int64 (wrap64 x)"
  by (simp add: in_int64_def wrap64_def)

lemma wrap64_id: "in_int64 x \<Longrightarrow> wrap64 x = x"
  by (simp add: in_int64_def wrap64_def)

lemma wrap64_add_left: "wrap64 (wrap64 x + y) = wrap64 (x + y)"
proof -
  have "(wrap64 x + y) + 2 ^ 63 = (x + 2 ^ 63) mod 2 ^ 64 + y"
    by (simp add: wrap64_def)
  moreover have "((x + 2 ^ 63) mod 2 ^ 64 + y) mod 2 ^ 64 = (x + y + 2 ^ 63) mod (2 ^ 64 :: int)"
    unfolding mod_add_left_eq by (rule arg_cong [where f = "\<lambda>t. t mod 2 ^ 64"]) simp
  ultimately show ?thesis by (simp only: wrap64_def [of "wrap64 x + y"] wrap64_def [of "x + y"])
qed

text \<open>Go's integer division truncates towards zero.\<close>

definition go_div :: "int \<Rightarrow> int \<Rightarrow> int" where
  "go_div a b = (let q = \<bar>a\<bar> div \<bar>b\<bar> in if (a < 0) = (b < 0) then q else - q)"

lemma go_div_nonneg: "0 \<le> a \<Longrightarrow> 0 < b \<Longrightarrow> go_div a b = a div b"
  by (simp add: go_div_def)

section \<open>Decimal printing, the verb for integers of \<open>fmt.Sprintf\<close>\<close>

fun digits_of_nat :: "nat \<Rightarrow> string" where
  "digits_of_nat n =
     (let low = [char_of (48 + n mod 10)]
      in if n < 10 then low else digits_of_nat (n div 10) @ low)"

declare digits_of_nat.simps [simp del]

definition string_of_int :: "int \<Rightarrow> string" where
  "string_of_int i =
     (if i < 0 then CHR ''-'' # digits_of_nat (nat (- i)) else digits_of_nat (nat i))"

lemma digits_of_nat_nonempty [simp]: "digits_of_nat n \<noteq> []"
  by (subst digits_of_nat.simps) (simp add: Let_def)

lemma string_of_int_nonempty [simp]: "string_of_int i \<noteq> []"
  by (simp add: string_of_int_def)

lemma length_digits_of_nat: "n < 10 ^ k \<Longrightarrow> 0 < k \<Longrightarrow> length (digits_of_nat n) \<le> k"
proof (induction k arbitrary: n)
  case 0
  then show ?case by simp
next
  case (Suc k)
  show ?case
  proof (cases "n < 10")
    case True
    then show ?thesis by (subst digits_of_nat.simps) (simp add: Let_def)
  next
    case False
    with Suc.prems have "0 < k" by (cases k) auto
    moreover from Suc.prems have "n div 10 < 10 ^ k" by (simp add: less_mult_imp_div_less mult.commute)
    ultimately have "length (digits_of_nat (n div 10)) \<le> k" by (rule Suc.IH [rotated])
    with False show ?thesis by (subst digits_of_nat.simps) (simp add: Let_def)
  qed
qed

section \<open>Reading decimal digits\<close>

definition is_digit :: "char \<Rightarrow> bool" where
  "is_digit c \<longleftrightarrow> 48 \<le> (of_char c :: nat) \<and> (of_char c :: nat) \<le> 57"

definition digits_value :: "string \<Rightarrow> int" where
  "digits_value s = foldl (\<lambda>n c. 10 * n + (int (of_char c :: nat) - 48)) 0 s"

lemma digits_value_append: "digits_value (xs @ [c]) = 10 * digits_value xs + (int (of_char c :: nat) - 48)"
  by (simp add: digits_value_def)

lemma digits_read_back: "digits_value (digits_of_nat n) = int n \<and> list_all is_digit (digits_of_nat n)"
proof (induction n rule: digits_of_nat.induct)
  case (1 n)
  let ?low = "char_of (48 + n mod 10) :: char"
  have l: "(of_char ?low :: nat) = 48 + n mod 10" by (simp add: of_char_of)
  have d: "is_digit ?low" unfolding is_digit_def l by simp
  show ?case
  proof (cases "n < 10")
    case True
    then have "digits_of_nat n = [?low]" by (subst digits_of_nat.simps) simp
    then show ?thesis using d l True by (simp add: digits_value_def)
  next
    case False
    then have "digits_of_nat n = digits_of_nat (n div 10) @ [?low]" by (subst digits_of_nat.simps) (simp add: Let_def)
    moreover have "digits_value (digits_of_nat (n div 10)) = int (n div 10) \<and> list_all is_digit (digits_of_nat (n div 10))"
      using 1 False by simp
    moreover have "10 * int (n div 10) + int (n mod 10) = int n" by presburger
    ultimately show ?thesis using d l by (simp add: digits_value_append)
  qed
qed

lemma string_of_int_value: "0 \<le> i \<Longrightarrow> digits_value (string_of_int i) = i \<and> list_all is_digit (string_of_int i)"
  using digits_read_back [of "nat i"] by (simp add: string_of_int_def)

lemma string_of_int_inject: "0 \<le> i \<Longrightarrow> 0 \<le> k \<Longrightarrow> string_of_int i = string_of_int k \<Longrightarrow> i = k"
  using string_of_int_value by metis

end
