(* ===== verification/Float64.thy ===== *)
theory Float64
  imports Prelude Complex_Main "HOL-Library.Log_Nat"
begin

text \<open>
  Go's \<open>float64\<close>: IEEE 754 binary64 with round-to-nearest, ties to even, as on amd64 (no fused
  multiply-add). A finite value is the rational it denotes, so arithmetic is exact rational
  arithmetic followed by one rounding. The two zeros are one value here: the sources never divide
  by a value that they have not tested against zero, and never print or inspect a sign bit, so
  the sign of a zero is not observable.
\<close>

section \<open>Rounding to 53 significant bits\<close>

definition pw :: "int \<Rightarrow> rat" where
  "pw e = (2::rat) powi e"

definition ilog2 :: "rat \<Rightarrow> int" where
  "ilog2 r = (case quotient_of r of (n, d) \<Rightarrow>
     let e = bitlen n - bitlen d in if pw e \<le> r then e else e - 1)"

definition rne :: "rat \<Rightarrow> int" where
  "rne x = (let f = \<lfloor>x\<rfloor>; r = x - of_int f in
     if r < 1/2 then f else if 1/2 < r then f + 1 else if even f then f else f + 1)"

definition fexp :: "rat \<Rightarrow> int" where
  "fexp x = (if x = 0 then -1074 else max (ilog2 \<bar>x\<bar> - 52) (-1074))"

definition fl :: "rat \<Rightarrow> rat" where
  "fl x = (let q = fexp x in of_int (rne (x / pw q)) * pw q)"

subsection \<open>Powers of two\<close>

lemma pw_pos [simp]: "0 < pw e"
  by (simp add: pw_def)

lemma pw_nz [simp]: "pw e \<noteq> 0"
  by (rule less_imp_neq [OF pw_pos, symmetric])

lemma pw_nonneg [simp]: "0 \<le> pw e"
  by (rule less_imp_le [OF pw_pos])

lemma pw_add: "pw (a + b) = pw a * pw b"
  by (simp add: pw_def power_int_add)

lemma pw_diff: "pw (a - b) = pw a / pw b"
  by (simp add: pw_def power_int_diff)

lemma pw_less_iff [simp]: "pw a < pw b \<longleftrightarrow> a < b"
proof
  assume "pw a < pw b"
  then show "a < b"
    by (rule contrapos_pp) (simp add: pw_def power_int_increasing not_less)
next
  assume "a < b"
  then show "pw a < pw b" by (simp add: pw_def power_int_strict_increasing)
qed

lemma pw_le_iff [simp]: "pw a \<le> pw b \<longleftrightarrow> a \<le> b"
  by (simp add: not_less [symmetric])

lemma pw_nat: "pw (int n) = 2 ^ n"
  by (simp add: pw_def)

lemma pw_of_nonneg: "0 \<le> e \<Longrightarrow> pw e = of_int (2 ^ nat e)"
  by (simp add: pw_def power_int_def)

lemma pw_numeral [simp]: "pw (numeral n) = 2 ^ numeral n"
  by (simp add: pw_def)

lemma pw_0 [simp]: "pw 0 = 1"
  by (simp add: pw_def)

lemma pw_1 [simp]: "pw 1 = 2"
  by (simp add: pw_def)

lemma pw_minus: "pw (- e) = 1 / pw e"
  by (simp add: pw_def power_int_minus divide_inverse)

lemma pw_minus_numeral: "pw (- numeral n) = 1 / 2 ^ numeral n"
  by (simp only: pw_minus pw_numeral)

lemma pw_plus_one: "pw (e + 1) = 2 * pw e"
  by (simp add: pw_add)

lemma pw_minus_one: "pw (e - 1) = pw e / 2"
  by (simp add: pw_diff)

subsection \<open>The binary exponent\<close>

lemma ilog2_bounds:
  assumes "0 < r"
  shows "pw (ilog2 r) \<le> r" and "r < pw (ilog2 r + 1)"
proof -
  obtain n d where q: "quotient_of r = (n, d)" by (cases "quotient_of r") auto
  then have r: "r = of_int n / of_int d" by (rule quotient_of_div)
  from q have d: "0 < d" by (rule quotient_of_denom_pos)
  with assms r have n: "0 < n" by (simp add: zero_less_divide_iff)
  have blo: "pw (bitlen k - 1) \<le> of_int k" and bhi: "of_int k < pw (bitlen k)" if "0 < k" for k
  proof -
    from that have "1 \<le> bitlen k" by (simp add: bitlen_alt_def)
    then have "pw (bitlen k - 1) = of_int (2 ^ nat (bitlen k - 1))" and "pw (bitlen k) = of_int (2 ^ nat (bitlen k))"
      by (simp_all add: pw_of_nonneg)
    with bitlen_bounds [OF that] show "pw (bitlen k - 1) \<le> of_int k" and "of_int k < pw (bitlen k)"
      by (simp_all only: of_int_le_iff of_int_less_iff)
  qed
  let ?e = "bitlen n - bitlen d"
  have "pw (bitlen n - 1) / pw (bitlen d) \<le> of_int n / of_int d"
    using blo [OF n] bhi [OF d] d n by (intro frac_le) auto
  then have lo: "pw (?e - 1) \<le> r" by (simp add: r pw_diff)
  have "of_int n / of_int d < pw (bitlen n) / pw (bitlen d - 1)"
    using bhi [OF n] blo [OF d] d n by (intro frac_less) auto
  then have hi: "r < pw (?e + 1)" by (simp add: r pw_diff pw_add)
  have il: "ilog2 r = (if pw ?e \<le> r then ?e else ?e - 1)" by (simp add: ilog2_def q)
  show "pw (ilog2 r) \<le> r" using lo by (simp add: il)
  show "r < pw (ilog2 r + 1)" using hi by (auto simp: il)
qed

lemma ilog2_less: "0 < x \<Longrightarrow> x < pw e \<Longrightarrow> ilog2 x < e"
  using ilog2_bounds(1) [of x] by (metis pw_less_iff order_le_less_trans)

lemma ilog2_ge: "0 < x \<Longrightarrow> pw e \<le> x \<Longrightarrow> e \<le> ilog2 x"
  using ilog2_bounds(2) [of x] pw_less_iff [of e "ilog2 x + 1"] by linarith

lemma ilog2_mono: "0 < x \<Longrightarrow> x \<le> y \<Longrightarrow> ilog2 x \<le> ilog2 y"
  using ilog2_bounds(1) [of x] by (intro ilog2_ge) auto

subsection \<open>Round half to even\<close>

lemma rne_cases: "rne x = \<lfloor>x\<rfloor> \<or> (rne x = \<lfloor>x\<rfloor> + 1 \<and> 1/2 \<le> x - of_int \<lfloor>x\<rfloor>)"
  by (simp add: rne_def Let_def)

lemma rne_of_int [simp]: "rne (of_int i) = i"
  by (simp add: rne_def)

lemma rne_error: "\<bar>of_int (rne x) - x\<bar> \<le> 1/2"
proof -
  define f where "f = \<lfloor>x\<rfloor>"
  have "of_int f \<le> x" and "x < of_int f + 1" unfolding f_def by linarith+
  then show ?thesis by (auto simp: rne_def Let_def abs_if f_def [symmetric])
qed

lemma rne_mono:
  assumes "x \<le> y"
  shows "rne x \<le> rne y"
proof (cases "\<lfloor>x\<rfloor> = \<lfloor>y\<rfloor>")
  case True
  with assms show ?thesis by (simp add: rne_def Let_def)
next
  case False
  with assms have "\<lfloor>x\<rfloor> + 1 \<le> \<lfloor>y\<rfloor>" using floor_mono [OF assms] by linarith
  with rne_cases [of x] rne_cases [of y] show ?thesis by linarith
qed

lemma rne_minus: "rne (- x) = - rne x"
proof (cases "x = of_int \<lfloor>x\<rfloor>")
  case True
  have "rne (- of_int \<lfloor>x\<rfloor>) = - rne (of_int \<lfloor>x\<rfloor> :: rat)"
    by (simp only: of_int_minus [symmetric] rne_of_int)
  with True show ?thesis by simp
next
  case False
  then have f: "\<lfloor>- x\<rfloor> = - \<lfloor>x\<rfloor> - 1" by linarith
  show ?thesis by (auto simp: rne_def Let_def f)
qed

lemma rne_le_int: "x \<le> of_int i \<Longrightarrow> rne x \<le> i"
  using rne_mono [of x "of_int i"] by simp

lemma rne_ge_int: "of_int i \<le> x \<Longrightarrow> i \<le> rne x"
  using rne_mono [of "of_int i" x] by simp

subsection \<open>Rounding is monotone, symmetric and the identity on binary64 values\<close>

lemma fexp_minus [simp]: "fexp (- x) = fexp x"
  by (simp add: fexp_def)

lemma fexp_ge: "-1074 \<le> fexp x"
  by (simp add: fexp_def)

lemma fl_0 [simp]: "fl 0 = 0"
  using rne_of_int [of 0] by (simp add: fl_def)

lemma fl_minus [simp]: "fl (- x) = - fl x"
  by (simp add: fl_def Let_def rne_minus)

lemma fl_nonneg: "0 \<le> x \<Longrightarrow> 0 \<le> fl x"
  using rne_ge_int [of 0 "x / pw (fexp x)"] by (simp add: fl_def Let_def)

lemma fexp_upper: "x \<noteq> 0 \<Longrightarrow> \<bar>x\<bar> < pw (fexp x + 53)"
proof -
  assume "x \<noteq> 0"
  then have "\<bar>x\<bar> < pw (ilog2 \<bar>x\<bar> + 1)" and "ilog2 \<bar>x\<bar> + 1 \<le> fexp x + 53"
    using ilog2_bounds(2) [of "\<bar>x\<bar>"] by (simp_all add: fexp_def)
  then show ?thesis by (meson less_le_trans pw_le_iff)
qed

lemma fexp_lower: "x \<noteq> 0 \<Longrightarrow> -1074 < fexp x \<Longrightarrow> pw (fexp x + 52) \<le> \<bar>x\<bar>"
  using ilog2_bounds(1) [of "\<bar>x\<bar>"] by (simp add: fexp_def max_def split: if_splits)

lemma fexp_mono: "0 \<le> x \<Longrightarrow> x \<le> y \<Longrightarrow> fexp x \<le> fexp y"
  using ilog2_mono [of x y] by (auto simp: fexp_def)

lemma fl_upper: "0 < x \<Longrightarrow> fl x \<le> pw (fexp x + 53)"
proof -
  assume "0 < x"
  then have "x / pw (fexp x) \<le> of_int (2 ^ 53)"
    using fexp_upper [of x] by (simp add: divide_le_eq pw_add mult.commute)
  then have "rne (x / pw (fexp x)) \<le> 2 ^ 53" by (rule rne_le_int)
  then have "(of_int (rne (x / pw (fexp x))) :: rat) \<le> of_int (2 ^ 53)"
    by (simp only: of_int_le_iff)
  then show ?thesis by (simp add: fl_def Let_def pw_add mult.commute)
qed

lemma fl_lower: "0 < x \<Longrightarrow> -1074 < fexp x \<Longrightarrow> pw (fexp x + 52) \<le> fl x"
proof -
  assume x: "0 < x" "-1074 < fexp x"
  then have "of_int (2 ^ 52) \<le> x / pw (fexp x)"
    using fexp_lower [of x] by (simp add: le_divide_eq pw_add mult.commute)
  then have "2 ^ 52 \<le> rne (x / pw (fexp x))" by (rule rne_ge_int)
  then have "of_int (2 ^ 52) \<le> (of_int (rne (x / pw (fexp x))) :: rat)"
    by (simp only: of_int_le_iff)
  then show ?thesis by (simp add: fl_def Let_def pw_add mult.commute)
qed

lemma fl_mono_pos:
  assumes "0 < x" and "x \<le> y"
  shows "fl x \<le> fl y"
proof (cases "fexp x = fexp y")
  case True
  have "x / pw (fexp y) \<le> y / pw (fexp y)" using assms by (simp add: divide_right_mono)
  then show ?thesis by (simp add: fl_def Let_def True rne_mono)
next
  case False
  with assms fexp_mono [of x y] have lt: "fexp x < fexp y" by simp
  have "fl x \<le> pw (fexp x + 53)" using assms(1) by (rule fl_upper)
  also have "\<dots> \<le> pw (fexp y + 52)" using lt by simp
  also have "\<dots> \<le> fl y" using lt assms fexp_ge [of x] by (intro fl_lower) auto
  finally show ?thesis .
qed

lemma fl_mono:
  assumes "x \<le> y"
  shows "fl x \<le> fl y"
proof -
  consider "0 < x" | "x \<le> 0" "0 \<le> y" | "y < 0" by linarith
  then show ?thesis
  proof cases
    case 1
    with assms show ?thesis by (intro fl_mono_pos)
  next
    case 2
    then have "0 \<le> fl (- x)" and "0 \<le> fl y" by (simp_all only: fl_nonneg neg_0_le_iff_le)
    then show ?thesis by simp
  next
    case 3
    with assms have "fl (- y) \<le> fl (- x)" by (intro fl_mono_pos) auto
    then show ?thesis by simp
  qed
qed

text \<open>Every number with at most 53 significant bits is its own rounding.\<close>

lemma fl_rep:
  assumes m: "\<bar>m\<bar> \<le> 2 ^ 53" and q: "-1074 \<le> q"
  shows "fl (of_int m * pw q) = of_int m * pw q"
proof (cases "m = 0")
  case False
  let ?y = "of_int m * pw q"
  have y: "?y \<noteq> 0" using False by simp
  have ay: "\<bar>?y\<bar> = of_int \<bar>m\<bar> * pw q" by (simp add: abs_mult)
  have mle: "(of_int \<bar>m\<bar> :: rat) \<le> of_int (2 ^ 53)" using m by (simp only: of_int_le_iff)
  then have "\<bar>?y\<bar> \<le> pw (q + 53)" unfolding ay by (simp add: pw_add mult.commute)
  then have "\<bar>?y\<bar> < pw (q + 54)" using pw_less_iff [of "q + 53" "q + 54"] by (simp del: pw_less_iff)
  then have il: "ilog2 \<bar>?y\<bar> < q + 54" using y by (intro ilog2_less) auto
  have whole: "fl ?y = ?y" if i: "?y / pw (fexp ?y) = of_int i" for i
  proof -
    have "fl ?y = of_int i * pw (fexp ?y)" unfolding fl_def Let_def i by simp
    with i show ?thesis by (simp add: divide_eq_eq)
  qed
  show ?thesis
  proof (cases "fexp ?y \<le> q")
    case True
    have "?y / pw (fexp ?y) = of_int m * pw (q - fexp ?y)" by (simp add: pw_diff)
    also have "\<dots> = of_int (m * 2 ^ nat (q - fexp ?y))" using True by (simp add: pw_of_nonneg)
    finally show ?thesis by (rule whole)
  next
    case False
    with il q y have f: "fexp ?y = q + 1" by (auto simp: fexp_def max_def split: if_splits)
    with q y have "pw (q + 53) \<le> \<bar>?y\<bar>" using fexp_lower [of ?y] by (simp add: add.assoc)
    then have "pw 53 * pw q \<le> of_int \<bar>m\<bar> * pw q" unfolding ay by (simp add: pw_add mult.commute)
    then have "(of_int (2 ^ 53) :: rat) \<le> of_int \<bar>m\<bar>" by simp
    then have "2 ^ 53 \<le> \<bar>m\<bar>" by (simp only: of_int_le_iff)
    with m have "m = 2 * 2 ^ 52 \<or> m = 2 * - (2 ^ 52)" by auto
    then obtain i where "m = 2 * i" by blast
    then have "?y / pw (fexp ?y) = of_int i" unfolding f by (simp add: pw_plus_one)
    then show ?thesis by (rule whole)
  qed
qed simp

lemma fl_idem [simp]: "fl (fl x) = fl x"
proof -
  have "\<bar>rne (x / pw (fexp x))\<bar> \<le> 2 ^ 53"
  proof (cases "x = 0")
    case False
    then have "\<bar>x\<bar> / pw (fexp x) \<le> of_int (2 ^ 53)"
      using fexp_upper [of x] by (simp add: divide_le_eq pw_add mult.commute)
    then have "x / pw (fexp x) \<le> of_int (2 ^ 53)" and "of_int (- (2 ^ 53)) \<le> x / pw (fexp x)"
      by (auto simp: abs_le_iff divide_le_eq le_divide_eq abs_if split: if_splits)
    then have "rne (x / pw (fexp x)) \<le> 2 ^ 53" and "- (2 ^ 53) \<le> rne (x / pw (fexp x))"
      using rne_le_int rne_ge_int by blast+
    then show ?thesis by simp
  qed (use rne_of_int [of 0] in simp)
  then show ?thesis unfolding fl_def [of x] Let_def by (intro fl_rep fexp_ge)
qed

lemma fl_of_int: "\<bar>i\<bar> \<le> 2 ^ 53 \<Longrightarrow> fl (of_int i) = of_int i"
  using fl_rep [of i 0] by simp

subsection \<open>The rounding error\<close>

lemma fl_error: "\<bar>fl x - x\<bar> \<le> pw (fexp x) / 2"
proof -
  have "fl x - x = (of_int (rne (x / pw (fexp x))) - x / pw (fexp x)) * pw (fexp x)"
    by (simp add: fl_def Let_def left_diff_distrib)
  then have "\<bar>fl x - x\<bar> = \<bar>of_int (rne (x / pw (fexp x))) - x / pw (fexp x)\<bar> * pw (fexp x)"
    by (simp add: abs_mult)
  also have "\<dots> \<le> 1/2 * pw (fexp x)" by (intro mult_right_mono rne_error) simp
  finally show ?thesis by simp
qed

lemma fl_rel_error:
  assumes "pw (-1022) \<le> \<bar>x\<bar>"
  shows "\<bar>fl x - x\<bar> \<le> \<bar>x\<bar> / 2 ^ 53"
proof -
  have x: "x \<noteq> 0" using assms less_le_trans [OF pw_pos [of "-1022"] assms] by auto
  then have "-1022 \<le> ilog2 \<bar>x\<bar>" using assms by (intro ilog2_ge) auto
  then have "fexp x = ilog2 \<bar>x\<bar> - 52" using x by (simp add: fexp_def)
  then have "pw (fexp x) / 2 = pw (ilog2 \<bar>x\<bar>) / 2 ^ 53" by (simp add: pw_diff)
  also have "\<dots> \<le> \<bar>x\<bar> / 2 ^ 53" using ilog2_bounds(1) [of "\<bar>x\<bar>"] x by simp
  finally show ?thesis using fl_error [of x] by linarith
qed

section \<open>The type and its operations\<close>

datatype float64 = NaN | PosInf | NegInf | Fin rat

definition rnd :: "rat \<Rightarrow> float64" where
  "rnd x = (let y = fl x in
     if 2 ^ 1024 \<le> y then PosInf else if y \<le> - (2 ^ 1024) then NegInf else Fin y)"

fun fsgn :: "float64 \<Rightarrow> int" where
  "fsgn NaN = 0"
| "fsgn PosInf = 1"
| "fsgn NegInf = -1"
| "fsgn (Fin a) = (if 0 < a then 1 else if a < 0 then -1 else 0)"

definition inf_of :: "int \<Rightarrow> float64" where
  "inf_of s = (if 0 < s then PosInf else if s < 0 then NegInf else NaN)"

instantiation float64 :: "{zero, one, plus, uminus, minus, times, inverse, abs, ord}"
begin

definition zero_float64 :: float64 where "0 = Fin 0"

definition one_float64 :: float64 where "1 = Fin 1"

fun plus_float64 :: "float64 \<Rightarrow> float64 \<Rightarrow> float64" where
  "Fin a + Fin b = rnd (a + b)"
| "NaN + _ = NaN"
| "_ + NaN = NaN"
| "PosInf + NegInf = NaN"
| "NegInf + PosInf = NaN"
| "PosInf + _ = PosInf"
| "_ + PosInf = PosInf"
| "NegInf + _ = NegInf"
| "_ + NegInf = NegInf"

fun uminus_float64 :: "float64 \<Rightarrow> float64" where
  "- Fin a = Fin (- a)"
| "- PosInf = NegInf"
| "- NegInf = PosInf"
| "- NaN = NaN"

definition minus_float64 :: "float64 \<Rightarrow> float64 \<Rightarrow> float64" where
  "x - y = x + (- y :: float64)"

fun times_float64 :: "float64 \<Rightarrow> float64 \<Rightarrow> float64" where
  "Fin a * Fin b = rnd (a * b)"
| "NaN * _ = NaN"
| "_ * NaN = NaN"
| "x * y = inf_of (fsgn x * fsgn y)"

fun divide_float64 :: "float64 \<Rightarrow> float64 \<Rightarrow> float64" where
  "divide (Fin a) (Fin b) = (if b = 0 then inf_of (fsgn (Fin a)) else rnd (a / b))"
| "divide NaN _ = NaN"
| "divide _ NaN = NaN"
| "divide (Fin a) _ = Fin 0"
| "divide x (Fin b) = inf_of (fsgn x * (if b < 0 then -1 else 1))"
| "divide _ _ = NaN"

definition inverse_float64 :: "float64 \<Rightarrow> float64" where
  "inverse x = divide 1 (x :: float64)"

fun abs_float64 :: "float64 \<Rightarrow> float64" where
  "\<bar>Fin a\<bar> = Fin \<bar>a\<bar>"
| "\<bar>NaN\<bar> = NaN"
| "\<bar>_\<bar> = PosInf"

text \<open>Go's ordering comparisons: false as soon as one side is a NaN.\<close>

fun less_float64 :: "float64 \<Rightarrow> float64 \<Rightarrow> bool" where
  "Fin a < Fin b \<longleftrightarrow> a < b"
| "NegInf < Fin b \<longleftrightarrow> True"
| "NegInf < PosInf \<longleftrightarrow> True"
| "Fin a < PosInf \<longleftrightarrow> True"
| "(_ :: float64) < _ \<longleftrightarrow> False"

definition less_eq_float64 :: "float64 \<Rightarrow> float64 \<Rightarrow> bool" where
  "x \<le> y \<longleftrightarrow> x < y \<or> (x = y \<and> x \<noteq> (NaN :: float64))"

instance ..

end

text \<open>Go's equality on floats: a NaN equals nothing, itself included.\<close>

definition feq :: "float64 \<Rightarrow> float64 \<Rightarrow> bool" where
  "feq x y \<longleftrightarrow> x = y \<and> x \<noteq> NaN"

text \<open>A float constant of the sources, rounded once from its exact value.\<close>

definition flt :: "rat \<Rightarrow> float64" where
  "flt r = rnd r"

text \<open>The conversions between \<open>int\<close>, \<open>int64\<close> and \<open>float64\<close>. Go leaves the conversion of a
  value that does not fit to the implementation: amd64 yields the least integer.\<close>

definition f64_of_int :: "int \<Rightarrow> float64" where
  "f64_of_int i = rnd (of_int i)"

definition rat_trunc :: "rat \<Rightarrow> int" where
  "rat_trunc r = (if 0 \<le> r then \<lfloor>r\<rfloor> else \<lceil>r\<rceil>)"

fun f64_to_int :: "float64 \<Rightarrow> int" where
  "f64_to_int (Fin r) = (if in_int64 (rat_trunc r) then rat_trunc r else - (2 ^ 63))"
| "f64_to_int _ = - (2 ^ 63)"

subsection \<open>Square root\<close>

primrec isqrt_bits :: "nat \<Rightarrow> int \<Rightarrow> int \<Rightarrow> int" where
  "isqrt_bits 0 n r = r"
| "isqrt_bits (Suc k) n r =
     (let c = r + 2 ^ k in isqrt_bits k n (if c * c \<le> n then c else r))"

text \<open>The argument is scaled by an even power of two to an integer of 111 to 114 bits; its integer
  root has more than the 54 bits that decide the rounding, and a half stands for the rest.\<close>

fun f64_sqrt :: "float64 \<Rightarrow> float64" where
  "f64_sqrt (Fin r) =
     (if r < 0 then NaN
      else if r = 0 then Fin 0
      else let k = 56 - ilog2 r div 2; n = \<lfloor>r * pw (2 * k)\<rfloor>; s = isqrt_bits 57 n 0;
               t = (if of_int (s * s) = r * pw (2 * k) then of_int s else of_int s + 1/2)
           in rnd (t / pw k))"
| "f64_sqrt PosInf = PosInf"
| "f64_sqrt NegInf = NaN"
| "f64_sqrt NaN = NaN"

subsection \<open>Binary64 values\<close>

fun is_f64 :: "float64 \<Rightarrow> bool" where
  "is_f64 (Fin r) \<longleftrightarrow> fl r = r \<and> \<bar>r\<bar> < 2 ^ 1024"
| "is_f64 _ \<longleftrightarrow> True"

fun is_fin :: "float64 \<Rightarrow> bool" where
  "is_fin (Fin r) \<longleftrightarrow> True"
| "is_fin _ \<longleftrightarrow> False"

fun valof :: "float64 \<Rightarrow> rat" where
  "valof (Fin r) = r"
| "valof _ = 0"

section \<open>Laws of the operations\<close>

subsection \<open>Rounding into the type\<close>

lemma is_f64_rnd [simp, intro]: "is_f64 (rnd x)"
  by (simp add: rnd_def Let_def abs_less_iff)

lemma is_f64_flt [simp, intro]: "is_f64 (flt x)"
  by (simp add: flt_def)

lemma is_f64_of_int [simp, intro]: "is_f64 (f64_of_int x)"
  by (simp add: f64_of_int_def)

lemma rnd_FinD: "rnd x = Fin y \<Longrightarrow> y = fl x \<and> \<bar>y\<bar> < 2 ^ 1024"
  by (auto simp: rnd_def Let_def split: if_splits)

lemma rnd_Fin: "\<bar>fl x\<bar> < 2 ^ 1024 \<Longrightarrow> rnd x = Fin (fl x)"
  by (auto simp: rnd_def Let_def abs_less_iff)

lemma rnd_not_NaN [simp]: "rnd x \<noteq> NaN" "NaN \<noteq> rnd x"
  by (simp_all add: rnd_def Let_def)

lemma rnd_id: "is_f64 (Fin r) \<Longrightarrow> rnd r = Fin r"
  by (simp add: rnd_Fin)

lemma fl_abs: "fl \<bar>x\<bar> = \<bar>fl x\<bar>"
  using fl_nonneg [of x] fl_nonneg [of "- x"] by (auto simp: abs_if)

lemma fl_abs_le: "\<bar>x\<bar> \<le> fl b \<Longrightarrow> \<bar>fl x\<bar> \<le> fl b"
  using fl_mono [of "\<bar>x\<bar>" "fl b"] by (simp add: fl_abs)

lemma rnd_bounded:
  assumes "\<bar>x\<bar> \<le> b" and "is_f64 (Fin b)"
  shows "rnd x = Fin (fl x)"
proof (rule rnd_Fin)
  from assms have "\<bar>fl x\<bar> \<le> b" using fl_abs_le [of x b] by simp
  with assms show "\<bar>fl x\<bar> < 2 ^ 1024" by simp
qed

lemma pw_is_f64: "-1022 \<le> e \<Longrightarrow> e < 1024 \<Longrightarrow> is_f64 (Fin (pw e))"
  using fl_rep [of 1 e] pw_less_iff [of e 1024] by (simp del: pw_less_iff)

lemma rne_eqI: "\<bar>x - of_int m\<bar> < 1/2 \<Longrightarrow> rne x = m"
  using rne_error [of x] by linarith

text \<open>To round a concrete number it is enough to name its exponent and its nearest significand.\<close>

lemma rnd_eqI:
  assumes q: "-1074 \<le> q" "q \<le> 970"
    and x: "pw (q + 52) \<le> \<bar>x\<bar>" "\<bar>x\<bar> < pw (q + 53)"
    and m: "\<bar>x - of_int m * pw q\<bar> < pw q / 2"
  shows "rnd x = Fin (of_int m * pw q)"
proof -
  have nz: "x \<noteq> 0" using x(1) less_le_trans [OF pw_pos x(1)] by auto
  then have "q + 52 \<le> ilog2 \<bar>x\<bar>" and "ilog2 \<bar>x\<bar> < q + 53"
    using x by (auto intro: ilog2_ge ilog2_less)
  then have f: "fexp x = q" using nz q by (simp add: fexp_def)
  have "x / pw q - of_int m = (x - of_int m * pw q) / pw q"
    by (simp add: diff_divide_distrib)
  then have "\<bar>x / pw q - of_int m\<bar> = \<bar>x - of_int m * pw q\<bar> / pw q" by simp
  also have "\<dots> < 1/2" using m by (simp add: divide_less_eq)
  finally have "rne (x / pw q) = m" by (rule rne_eqI)
  then have fl: "fl x = of_int m * pw q" by (simp add: fl_def f)
  have "\<bar>fl x\<bar> \<le> pw (fexp x + 53)" using fl_upper [of "\<bar>x\<bar>"] nz by (simp add: fl_abs fexp_def)
  also have "\<dots> < pw 1024" using q f by (simp del: pw_numeral)
  finally show ?thesis using fl by (simp add: rnd_Fin)
qed

subsection \<open>Every operation yields a binary64 value\<close>

lemma is_f64_Fin_minus [simp]: "is_f64 (Fin (- r)) = is_f64 (Fin r)"
  by simp

lemma is_f64_zero [simp, intro]: "is_f64 0" and is_f64_one [simp, intro]: "is_f64 1"
  using fl_of_int [of 1] by (simp_all add: zero_float64_def one_float64_def)

lemma is_f64_inf_of [simp, intro]: "is_f64 (inf_of s)"
  by (simp add: inf_of_def)

lemma is_f64_plus [simp, intro]: "is_f64 (x + y)"
  by (cases "(x, y)" rule: plus_float64.cases) auto

lemma is_f64_uminus [simp, intro]: "is_f64 x \<Longrightarrow> is_f64 (- x)"
  by (cases x) auto

lemma is_f64_minus [simp, intro]: "is_f64 (x - y)"
  by (simp add: minus_float64_def)

lemma is_f64_times [simp, intro]: "is_f64 (x * y)"
  by (cases "(x, y)" rule: times_float64.cases) auto

lemma divide_float64_eq: "x / y = divide x (y :: float64)"
  by simp

lemma is_f64_divide [simp, intro]: "is_f64 (x / y)"
  using fl_0 by (cases "(x, y)" rule: divide_float64.cases) auto

lemma is_f64_abs [simp, intro]: "is_f64 x \<Longrightarrow> is_f64 \<bar>x\<bar>"
  by (cases x) (auto simp: fl_abs)

lemma is_f64_sqrt [simp, intro]: "is_f64 (f64_sqrt x)"
  by (cases x) (auto simp: Let_def)

subsection \<open>Comparisons\<close>

lemma zero_less_Fin [simp]: "0 < Fin r \<longleftrightarrow> 0 < r" and Fin_less_zero [simp]: "Fin r < 0 \<longleftrightarrow> r < 0"
  by (simp_all add: zero_float64_def)

lemma Fin_le [simp]: "Fin a \<le> Fin b \<longleftrightarrow> a \<le> b"
  by (auto simp: less_eq_float64_def)

lemma zero_le_Fin [simp]: "0 \<le> Fin r \<longleftrightarrow> 0 \<le> r" and Fin_le_zero [simp]: "Fin r \<le> 0 \<longleftrightarrow> r \<le> 0"
  by (simp_all add: zero_float64_def)

lemma NaN_less [simp]: "\<not> NaN < x" "\<not> x < NaN"
  by (cases x; simp)+

lemma NaN_le [simp]: "\<not> NaN \<le> x" "\<not> x \<le> NaN"
  by (simp_all add: less_eq_float64_def)

lemma f64_less_trans: "(x :: float64) < y \<Longrightarrow> y < z \<Longrightarrow> x < z"
  by (cases x; cases y; cases z) auto

lemma f64_le_trans: "(x :: float64) \<le> y \<Longrightarrow> y \<le> z \<Longrightarrow> x \<le> z"
  by (auto simp: less_eq_float64_def intro: f64_less_trans)

lemma f64_le_less_trans: "(x :: float64) \<le> y \<Longrightarrow> y < z \<Longrightarrow> x < z"
  by (auto simp: less_eq_float64_def intro: f64_less_trans)

lemma f64_less_le_trans: "(x :: float64) < y \<Longrightarrow> y \<le> z \<Longrightarrow> x < z"
  by (auto simp: less_eq_float64_def intro: f64_less_trans)

lemma f64_not_less: "(x :: float64) \<noteq> NaN \<Longrightarrow> y \<noteq> NaN \<Longrightarrow> \<not> x < y \<longleftrightarrow> y \<le> x"
  by (cases x; cases y) (auto simp: less_eq_float64_def)

lemma f64_le_refl: "x \<noteq> NaN \<Longrightarrow> x \<le> (x :: float64)"
  by (simp add: less_eq_float64_def)

lemma f64_less_irrefl [simp]: "\<not> (x :: float64) < x"
  by (cases x) auto

lemma f64_less_not_sym: "(x :: float64) < y \<Longrightarrow> \<not> y < x \<and> \<not> y \<le> x"
  by (cases x; cases y) (auto simp: less_eq_float64_def)

lemma rnd_mono: "a \<le> b \<Longrightarrow> rnd a \<le> rnd b"
  using fl_mono [of a b] by (auto simp: rnd_def Let_def less_eq_float64_def)

lemma feq_Fin [simp]: "feq (Fin a) (Fin b) \<longleftrightarrow> a = b"
  by (simp add: feq_def)

lemma feq_zero [simp]: "feq x 0 \<longleftrightarrow> x = 0" and feq_NaN [simp]: "\<not> feq x NaN" "\<not> feq NaN x"
  by (auto simp: feq_def zero_float64_def)

subsection \<open>The square root\<close>

lemma isqrt_bits_bounds:
  assumes "0 \<le> r" and "r * r \<le> n" and "n < (r + 2 ^ k) * (r + 2 ^ k)"
  shows "r \<le> isqrt_bits k n r \<and> isqrt_bits k n r * isqrt_bits k n r \<le> n \<and>
    n < (isqrt_bits k n r + 1) * (isqrt_bits k n r + 1)"
  using assms
proof (induction k arbitrary: r)
  case 0
  then show ?case by simp
next
  case (Suc k)
  let ?c = "r + 2 ^ k"
  have "r + 2 ^ Suc k = ?c + 2 ^ k" by simp
  with Suc.prems have up: "n < (?c + 2 ^ k) * (?c + 2 ^ k)" by (simp only:)
  show ?case
  proof (cases "?c * ?c \<le> n")
    case True
    have "r \<le> ?c" by simp
    with True show ?thesis using Suc.IH [of ?c] Suc.prems up
      by (auto simp: Let_def intro: order_trans [of r ?c])
  next
    case False
    then show ?thesis using Suc.IH [of r] Suc.prems by (auto simp: Let_def)
  qed
qed

lemma isqrt_bits_nonneg: "0 \<le> r \<Longrightarrow> 0 \<le> isqrt_bits k n r"
  by (induction k arbitrary: r) (simp_all add: Let_def)

lemma f64_sqrt_nonneg: "0 \<le> x \<Longrightarrow> 0 \<le> f64_sqrt x"
proof (cases x)
  case (Fin r)
  assume "0 \<le> x"
  with Fin have r: "0 \<le> r" by simp
  show ?thesis
  proof (cases "r = 0")
    case False
    have "0 \<le> rnd (t / pw k)" if "0 \<le> t" for t k
      using rnd_mono [of 0 "t / pw k"] that rnd_id [of 0] by (simp add: zero_float64_def)
    then show ?thesis
      using r False Fin isqrt_bits_nonneg [of 0] by (simp add: Let_def)
  qed (use Fin in simp)
qed (simp_all add: zero_float64_def less_eq_float64_def)

subsection \<open>Finite sums and products\<close>

lemma zero_float64_Fin: "(0 :: float64) = Fin 0"
  by (rule zero_float64_def)

lemma f64_add_0 [simp]: "is_f64 x \<Longrightarrow> 0 + x = x" and f64_add_0_right [simp]: "is_f64 x \<Longrightarrow> x + 0 = x"
  by (cases x; simp add: zero_float64_def rnd_Fin)+

lemma f64_minus_Fin: "Fin a - Fin b = rnd (a - b)"
  by (simp add: minus_float64_def)

lemma f64_add_nonneg_ge: "is_f64 x \<Longrightarrow> x \<noteq> NaN \<Longrightarrow> 0 \<le> y \<Longrightarrow> x + y \<noteq> NaN \<Longrightarrow> x \<le> x + y"
proof (cases x; cases y)
  fix a b
  assume h: "is_f64 x" "0 \<le> y" "x = Fin a" "y = Fin b"
  then have "rnd a \<le> rnd (a + b)" by (intro rnd_mono) simp
  with h show "x \<le> x + y" by (simp add: rnd_Fin)
qed (auto simp: less_eq_float64_def zero_float64_def)

lemma f64_minus_nonneg_le: "is_f64 x \<Longrightarrow> x \<noteq> NaN \<Longrightarrow> 0 \<le> y \<Longrightarrow> x - y \<noteq> NaN \<Longrightarrow> x - y \<le> x"
proof (cases x; cases y)
  fix a b
  assume h: "is_f64 x" "0 \<le> y" "x = Fin a" "y = Fin b"
  then have "rnd (a - b) \<le> rnd a" by (intro rnd_mono) simp
  with h show "x - y \<le> x" by (simp add: rnd_Fin f64_minus_Fin)
qed (auto simp: less_eq_float64_def zero_float64_def minus_float64_def)

lemma f64_mult_nonneg: "0 \<le> x \<Longrightarrow> 0 \<le> y \<Longrightarrow> x * y \<noteq> NaN \<Longrightarrow> 0 \<le> x * (y :: float64)"
proof (cases x; cases y)
  fix a b
  assume h: "0 \<le> x" "0 \<le> y" "x = Fin a" "y = Fin b"
  then have "rnd 0 \<le> rnd (a * b)" by (intro rnd_mono) simp
  with h show "0 \<le> x * y" by (simp add: rnd_Fin zero_float64_def)
qed (auto simp: less_eq_float64_def zero_float64_def inf_of_def split: if_splits)

lemma f64_square_nonneg: "x * x \<noteq> NaN \<Longrightarrow> 0 \<le> x * (x :: float64)"
proof (cases x)
  fix a
  assume "x = Fin a"
  moreover have "rnd 0 \<le> rnd (a * a)" by (intro rnd_mono) simp
  ultimately show "0 \<le> x * x" by (simp add: rnd_Fin zero_float64_def)
qed (auto simp: less_eq_float64_def zero_float64_def inf_of_def)

lemma f64_add_nonneg: "0 \<le> x \<Longrightarrow> 0 \<le> y \<Longrightarrow> 0 \<le> x + (y :: float64)"
proof (cases x; cases y)
  fix a b
  assume h: "0 \<le> x" "0 \<le> y" "x = Fin a" "y = Fin b"
  then have "rnd 0 \<le> rnd (a + b)" by (intro rnd_mono) simp
  with h show "0 \<le> x + y" by (simp add: rnd_Fin zero_float64_def)
qed (auto simp: less_eq_float64_def zero_float64_def)

lemma f64_divide_nonneg: "0 \<le> x \<Longrightarrow> 0 < y \<Longrightarrow> x / y \<noteq> NaN \<Longrightarrow> 0 \<le> x / (y :: float64)"
proof (cases x; cases y)
  fix a b
  assume h: "0 \<le> x" "0 < y" "x = Fin a" "y = Fin b"
  then have "rnd 0 \<le> rnd (a / b)" by (intro rnd_mono) simp
  with h show "0 \<le> x / y" by (simp add: rnd_Fin zero_float64_def)
qed (auto simp: less_eq_float64_def zero_float64_def inf_of_def)

lemma f64_of_int_exact: "\<bar>i\<bar> \<le> 2 ^ 53 \<Longrightarrow> f64_of_int i = Fin (of_int i)"
proof -
  assume i: "\<bar>i\<bar> \<le> 2 ^ 53"
  then have "\<bar>of_int i :: rat\<bar> \<le> of_int (2 ^ 53)" by (simp only: of_int_abs [symmetric] of_int_le_iff)
  also have "\<dots> < 2 ^ 1024" by simp
  finally show ?thesis using i by (simp add: f64_of_int_def rnd_Fin fl_of_int)
qed

lemma f64_of_int_less_0 [simp]: "0 < i \<Longrightarrow> 0 < f64_of_int i"
proof -
  assume "0 < i"
  then have "rnd 1 \<le> f64_of_int i" unfolding f64_of_int_def by (intro rnd_mono) simp
  moreover have "0 < rnd 1" using f64_of_int_exact [of 1] by (simp add: f64_of_int_def)
  ultimately show ?thesis by (rule f64_less_le_trans [rotated])
qed

subsection \<open>Evaluating operations whose results are integers\<close>

lemma rnd_of_int: "\<bar>i\<bar> \<le> 2 ^ 53 \<Longrightarrow> rnd (of_int i) = Fin (of_int i)"
  using f64_of_int_exact [of i] by (simp add: f64_of_int_def)

lemma rnd_int_eval [simp]:
  "rnd 0 = Fin 0" "rnd 1 = Fin 1"
  "(numeral n :: int) \<le> 2 ^ 53 \<Longrightarrow> rnd (numeral n) = Fin (numeral n)"
  "(numeral n :: int) \<le> 2 ^ 53 \<Longrightarrow> rnd (- numeral n) = Fin (- numeral n)"
  using rnd_of_int [of 0] rnd_of_int [of 1] rnd_of_int [of "numeral n"] rnd_of_int [of "- numeral n"]
  by simp_all

lemma f64_of_int_eval [simp]:
  "f64_of_int 0 = Fin 0" "f64_of_int 1 = Fin 1"
  "(numeral n :: int) \<le> 2 ^ 53 \<Longrightarrow> f64_of_int (numeral n) = Fin (numeral n)"
  by (simp_all add: f64_of_int_def)

lemma flt_eval [simp]:
  "flt 0 = Fin 0" "flt 1 = Fin 1"
  "(numeral n :: int) \<le> 2 ^ 53 \<Longrightarrow> flt (numeral n) = Fin (numeral n)"
  by (simp_all add: flt_def)

subsection \<open>Relative error in the normal range\<close>

lemma rounding_bounds:
  assumes x: "pw (-1022) \<le> x"
  shows "x * (1 - 1 / 2 ^ 53) \<le> fl x" and "fl x \<le> x * (1 + 1 / 2 ^ 53)"
proof -
  have "0 < x" using less_le_trans [OF pw_pos x] .
  then have "pw (-1022) \<le> \<bar>x\<bar>" using x by simp
  then have "\<bar>fl x - x\<bar> \<le> \<bar>x\<bar> / 2 ^ 53" by (rule fl_rel_error)
  then have "x - x / 2 ^ 53 \<le> fl x" "fl x \<le> x + x / 2 ^ 53"
    using \<open>0 < x\<close> unfolding abs_le_iff by linarith+
  moreover have "x * (1 - 1 / 2 ^ 53) = x - x / 2 ^ 53" "x * (1 + 1 / 2 ^ 53) = x + x / 2 ^ 53"
    by (simp_all only: right_diff_distrib distrib_left mult_1_right times_divide_eq_right)
  ultimately show "x * (1 - 1 / 2 ^ 53) \<le> fl x" "fl x \<le> x * (1 + 1 / 2 ^ 53)" by (simp_all only:)
qed

lemma rnd_normal:
  assumes "pw (-1000) \<le> x" "x \<le> pw 1000"
  shows "\<exists>y. rnd x = Fin y \<and> x * (1 - 1 / 2 ^ 53) \<le> y \<and> y \<le> x * (1 + 1 / 2 ^ 53) \<and> 0 < y"
proof -
  have lo: "pw (-1022) \<le> x" using assms(1) by (rule order_trans [rotated]) (simp del: pw_numeral)
  then have b: "x * (1 - 1 / 2 ^ 53) \<le> fl x" "fl x \<le> x * (1 + 1 / 2 ^ 53)" by (rule rounding_bounds)+
  have x0: "0 < x" using less_le_trans [OF pw_pos assms(1)] .
  then have "0 < x * (1 - 1 / 2 ^ 53)" by simp
  then have "0 < fl x" using b(1) by (rule less_le_trans)
  moreover have "\<bar>x\<bar> \<le> pw 1000" using assms(2) x0 by simp
  then have "rnd x = Fin (fl x)" by (rule rnd_bounded [OF _ pw_is_f64]) simp_all
  ultimately show ?thesis using b by blast
qed

end
