(* ===== verification/GoTime.thy ===== *)
theory GoTime
  imports Prelude
begin

text \<open>
  Instants, the Indian market calendar of \<open>src/pkg/utils/time.go\<close> and the part of Go's package
  \<open>time\<close> it uses. A \<open>time.Time\<close> is an instant: the nanoseconds since the Unix epoch. A location
  is its offset from UTC in seconds: Asia/Kolkata has been UTC+05:30 without daylight saving
  since 1945, and its zone data is linked into the program by the import of \<open>time/tzdata\<close>.
\<close>

type_synonym Time = int
type_synonym Duration = int

section \<open>Instants and civil time\<close>

definition nsec :: int where "nsec = 10 ^ 9"

definition Second :: Duration where "Second = nsec"
definition Minute :: Duration where "Minute = 60 * nsec"
definition Hour :: Duration where "Hour = 3600 * nsec"

definition day_ns :: int where "day_ns = 86400 * nsec"

lemma nsec_pos [simp]: "0 < nsec" and day_ns_pos [simp]: "0 < day_ns"
  by (simp_all add: nsec_def day_ns_def)

definition LoadLocation :: "string \<Rightarrow> error + int" where
  "LoadLocation name =
     (if name = ''Asia/Kolkata'' then Inr 19800
      else if name = ''UTC'' \<or> name = '''' then Inr 0
      else Inl (NewErr (''unknown time zone '' @ name)))"

text \<open>The civil day (days since 1970-01-01) and the nanosecond of that day at an offset; the
  weekday counts from Sunday, and 1970-01-01 was a Thursday.\<close>

definition civil_day :: "int \<Rightarrow> Time \<Rightarrow> int" where
  "civil_day off t = (t + off * nsec) div day_ns"

definition ns_of_day :: "int \<Rightarrow> Time \<Rightarrow> int" where
  "ns_of_day off t = (t + off * nsec) mod day_ns"

definition Weekday :: "int \<Rightarrow> Time \<Rightarrow> int" where
  "Weekday off t = (civil_day off t + 4) mod 7"

definition Sunday :: int where "Sunday = 0"
definition Saturday :: int where "Saturday = 6"

text \<open>\<open>time.Date(now.Year(), now.Month(), now.Day(), h, m, 0, 0, loc)\<close>: the wall-clock time
  \<open>h:m\<close> on the civil day of \<open>now\<close>.\<close>

definition date_of_day :: "int \<Rightarrow> Time \<Rightarrow> int \<Rightarrow> int \<Rightarrow> Time" where
  "date_of_day off now h m = civil_day off now * day_ns + (h * 3600 + m * 60) * nsec - off * nsec"

lemma ns_of_day_bounds: "0 \<le> ns_of_day off t" "ns_of_day off t < day_ns"
  by (simp_all add: ns_of_day_def)

lemma before_date_of_day: "now < date_of_day off now h m \<longleftrightarrow> ns_of_day off now < (h * 3600 + m * 60) * nsec"
proof -
  have "now + off * nsec = civil_day off now * day_ns + ns_of_day off now"
    by (simp add: civil_day_def ns_of_day_def)
  then show ?thesis unfolding date_of_day_def by linarith
qed

lemma after_date_of_day: "date_of_day off now h m < now \<longleftrightarrow> (h * 3600 + m * 60) * nsec < ns_of_day off now"
proof -
  have "now + off * nsec = civil_day off now * day_ns + ns_of_day off now"
    by (simp add: civil_day_def ns_of_day_def)
  then show ?thesis unfolding date_of_day_def by linarith
qed

subsection \<open>The layout 2006-01-02\<close>

text \<open>The proleptic Gregorian date of a civil day, counted in 400-year eras from 0000-03-01.\<close>

definition ymd_of_day :: "int \<Rightarrow> int \<times> int \<times> int" where
  "ymd_of_day d = (let
     z = d + 719468; era = z div 146097; doe = z mod 146097;
     yoe = (doe - doe div 1460 + doe div 36524 - doe div 146096) div 365;
     doy = doe - (365 * yoe + yoe div 4 - yoe div 100);
     mp = (5 * doy + 2) div 153;
     dd = doy - (153 * mp + 2) div 5 + 1;
     mm = (if mp < 10 then mp + 3 else mp - 9);
     yy = yoe + era * 400 + (if mm \<le> 2 then 1 else 0)
   in (yy, mm, dd))"

definition pad2 :: "int \<Rightarrow> string" where
  "pad2 i = (if i < 10 then ''0'' @ string_of_int i else string_of_int i)"

definition pad4 :: "int \<Rightarrow> string" where
  "pad4 i = (if i < 10 then ''000'' else if i < 100 then ''00'' else if i < 1000 then ''0'' else '''')
     @ string_of_int i"

definition format_day :: "int \<Rightarrow> string" where
  "format_day d = (case ymd_of_day d of (y, m, dd) \<Rightarrow> pad4 y @ ''-'' @ pad2 m @ ''-'' @ pad2 dd)"

lemma format_day_epoch: "format_day 0 = ''1970-01-01''"
  by code_simp

lemma format_day_leap: "format_day 11016 = ''2000-02-29''"
  by code_simp

section \<open>The guards of \<open>time.go\<close>\<close>

definition is_weekend :: "int \<Rightarrow> Time \<Rightarrow> bool" where
  "is_weekend off now \<longleftrightarrow> Weekday off now = Saturday \<or> Weekday off now = Sunday"

definition IsMarketOpen :: "Time \<Rightarrow> bool" where
  "IsMarketOpen now = (case LoadLocation ''Asia/Kolkata'' of
     Inl _ \<Rightarrow> False
   | Inr loc \<Rightarrow>
       if is_weekend loc now then False
       else date_of_day loc now 9 30 < now \<and> now < date_of_day loc now 15 0)"

definition IsOpeningBuffer :: "Time \<Rightarrow> bool" where
  "IsOpeningBuffer now = (case LoadLocation ''Asia/Kolkata'' of
     Inl _ \<Rightarrow> False
   | Inr loc \<Rightarrow>
       if is_weekend loc now then False
       else date_of_day loc now 9 15 < now \<and> now < date_of_day loc now 9 30)"

definition IsClosingCutoff :: "Time \<Rightarrow> bool" where
  "IsClosingCutoff now = (case LoadLocation ''Asia/Kolkata'' of
     Inl _ \<Rightarrow> False
   | Inr loc \<Rightarrow>
       if is_weekend loc now then False
       else \<not> now < date_of_day loc now 15 0)"

subsection \<open>The guards as intervals of the Indian day\<close>

definition ist :: int where "ist = 19800"

lemma LoadLocation_kolkata [simp]: "LoadLocation ''Asia/Kolkata'' = Inr ist"
  by (simp add: LoadLocation_def ist_def)

lemma IsMarketOpen_iff [guard_simps]:
  "IsMarketOpen t \<longleftrightarrow> \<not> is_weekend ist t \<and> 34200 * nsec < ns_of_day ist t \<and> ns_of_day ist t < 54000 * nsec"
  by (simp add: IsMarketOpen_def before_date_of_day after_date_of_day)

lemma IsOpeningBuffer_iff [guard_simps]:
  "IsOpeningBuffer t \<longleftrightarrow> \<not> is_weekend ist t \<and> 33300 * nsec < ns_of_day ist t \<and> ns_of_day ist t < 34200 * nsec"
  by (simp add: IsOpeningBuffer_def before_date_of_day after_date_of_day)

lemma IsClosingCutoff_iff [guard_simps]:
  "IsClosingCutoff t \<longleftrightarrow> \<not> is_weekend ist t \<and> 54000 * nsec \<le> ns_of_day ist t"
  by (simp add: IsClosingCutoff_def before_date_of_day not_less)

end
