(* ===== verification/GoStrings.thy ===== *)
theory GoStrings
  imports Prelude
begin

text \<open>
  What the sources use of Go's package \<open>strings\<close>, on byte strings. White space and the letters that
  change case are those of ASCII: the texts concerned (symbols, enumerations, names of providers) have no
  others.
\<close>

section \<open>Splitting and trimming\<close>

fun split_on :: "char \<Rightarrow> string \<Rightarrow> string list" where
  "split_on c [] = [[]]"
| "split_on c (x # xs) =
     (if x = c then [] # split_on c xs
      else case split_on c xs of [] \<Rightarrow> [[x]] | y # ys \<Rightarrow> (x # y) # ys)"

definition is_space :: "char \<Rightarrow> bool" where
  "is_space c \<longleftrightarrow> (of_char c :: nat) \<in> {9, 10, 11, 12, 13, 32}"

definition TrimLeftSpace :: "string \<Rightarrow> string" where
  "TrimLeftSpace s = dropWhile is_space s"

definition TrimSpace :: "string \<Rightarrow> string" where
  "TrimSpace s = rev (dropWhile is_space (rev (dropWhile is_space s)))"

section \<open>Prefixes and positions\<close>

definition HasPrefix :: "string \<Rightarrow> string \<Rightarrow> bool" where
  "HasPrefix s p \<longleftrightarrow> take (length p) s = p"

definition TrimSuffix :: "string \<Rightarrow> string \<Rightarrow> string" where
  "TrimSuffix s p = (if HasPrefix (rev s) (rev p) then take (length s - length p) s else s)"

fun LastIndex :: "string \<Rightarrow> string \<Rightarrow> nat option" where
  "LastIndex [] p = (if p = [] then Some 0 else None)"
| "LastIndex (c # s) p =
     (case LastIndex s p of
        Some i \<Rightarrow> Some (Suc i)
      | None \<Rightarrow> if HasPrefix (c # s) p then Some 0 else None)"

section \<open>Letter case\<close>

definition lower_char :: "char \<Rightarrow> char" where
  "lower_char c = (if 65 \<le> (of_char c :: nat) \<and> (of_char c :: nat) \<le> 90 then char_of ((of_char c :: nat) + 32) else c)"

definition upper_char :: "char \<Rightarrow> char" where
  "upper_char c = (if 97 \<le> (of_char c :: nat) \<and> (of_char c :: nat) \<le> 122 then char_of ((of_char c :: nat) - 32) else c)"

definition ToLower :: "string \<Rightarrow> string" where "ToLower s = map lower_char s"
definition ToUpper :: "string \<Rightarrow> string" where "ToUpper s = map upper_char s"

section \<open>Quoting\<close>

text \<open>The verb for quoted strings of \<open>fmt.Errorf\<close>, on subjects and names, which hold nothing to escape.\<close>

definition quoted :: "string \<Rightarrow> string" where
  "quoted s = [CHR 0x22] @ s @ [CHR 0x22]"

section \<open>Facts\<close>

lemma TrimSpace_same:
  "s \<noteq> [] \<Longrightarrow> \<not> is_space (hd s) \<Longrightarrow> \<not> is_space (last s) \<Longrightarrow> TrimSpace s = s"
proof -
  assume h: "s \<noteq> []" "\<not> is_space (hd s)" "\<not> is_space (last s)"
  then have "dropWhile is_space s = s" by (cases s) auto
  moreover have "dropWhile is_space (rev s) = rev s" using h(1,3) by (cases s rule: rev_cases) auto
  ultimately show ?thesis by (simp add: TrimSpace_def)
qed

lemma TrimSpace_ends: "TrimSpace s \<noteq> [] \<Longrightarrow> \<not> is_space (hd (TrimSpace s)) \<and> \<not> is_space (last (TrimSpace s))"
proof -
  let ?t = "dropWhile is_space s"
  assume n: "TrimSpace s \<noteq> []"
  then have ne: "dropWhile is_space (rev ?t) \<noteq> []" by (simp add: TrimSpace_def)
  have l: "\<not> is_space (last (TrimSpace s))" using hd_dropWhile [OF ne] ne by (simp add: TrimSpace_def last_rev)
  obtain u where u: "?t = TrimSpace s @ u"
    unfolding TrimSpace_def by (metis rev_append rev_rev_ident takeWhile_dropWhile_id)
  then have "?t \<noteq> []" "hd ?t = hd (TrimSpace s)" using n by auto
  then show ?thesis using hd_dropWhile [of is_space s] l by simp
qed

lemma TrimSpace_idem [simp]: "TrimSpace (TrimSpace s) = TrimSpace s"
proof (cases "TrimSpace s = []")
  case True
  then show ?thesis by (simp only: True) (simp add: TrimSpace_def)
qed (use TrimSpace_same TrimSpace_ends in blast)

lemma TrimSpace_spaces:
  assumes "\<forall>c \<in> set a. is_space c" "\<forall>c \<in> set b. is_space c"
  shows "TrimSpace (a @ s @ b) = TrimSpace s"
proof -
  have "dropWhile is_space (a @ s @ b) = dropWhile is_space (s @ b)" using assms(1) by (simp add: dropWhile_append2)
  moreover have "rev (dropWhile is_space (rev (dropWhile is_space (s @ b)))) = rev (dropWhile is_space (rev (dropWhile is_space s)))"
  proof (cases "dropWhile is_space s = []")
    case True
    then have "\<forall>c \<in> set s. is_space c" by (simp add: dropWhile_eq_Nil_conv)
    then have "dropWhile is_space (s @ b) = []" using assms(2) by (auto simp: dropWhile_eq_Nil_conv)
    then show ?thesis by (simp only: True)
  next
    case False
    then have "dropWhile is_space (s @ b) = dropWhile is_space s @ b"
      by (metis dropWhile_append1 dropWhile_eq_Nil_conv)
    moreover have "dropWhile is_space (rev b @ rev (dropWhile is_space s)) = dropWhile is_space (rev (dropWhile is_space s))"
      using assms(2) by (intro dropWhile_append2) simp
    ultimately show ?thesis by simp
  qed
  ultimately show ?thesis by (simp add: TrimSpace_def)
qed

lemma HasPrefix_append [simp]: "HasPrefix (p @ s) p"
  by (simp add: HasPrefix_def)

lemma LastIndex_none: "LastIndex s p = None \<longleftrightarrow> (\<forall>a b. s \<noteq> a @ p @ b)"
proof (induction s)
  case (Cons c s)
  show ?case
  proof (cases "LastIndex s p")
    case (Some i)
    then obtain a b where "s = a @ p @ b" using Cons by auto
    then have "c # s = (c # a) @ p @ b" by simp
    then have "\<exists>a b. c # s = a @ p @ b" by blast
    then show ?thesis using Some by simp
  next
    case None
    have "c # s = a @ p @ b \<longleftrightarrow> a = [] \<and> HasPrefix (c # s) p \<and> b = drop (length p) (c # s)" for a b
    proof (cases a)
      case Nil
      show ?thesis unfolding Nil HasPrefix_def by (metis append_Nil append_eq_conv_conj)
    qed (use None Cons in auto)
    then show ?thesis using None by auto
  qed
qed simp

text \<open>The position found is the last one.\<close>

lemma LastIndex_some:
  assumes "p \<noteq> []" "\<And>x y. x \<noteq> [] \<Longrightarrow> p @ b \<noteq> x @ p @ y"
  shows "LastIndex (a @ p @ b) p = Some (length a)"
proof (induction a)
  case Nil
  obtain c q where p: "p = c # q" using assms(1) by (cases p) auto
  have "LastIndex (q @ b) p = None" unfolding LastIndex_none
  proof (intro allI notI)
    fix x y assume "q @ b = x @ p @ y"
    then have "p @ b = (c # x) @ p @ y" by (simp add: p)
    then show False using assms(2) by blast
  qed
  then show ?case using HasPrefix_append [of p b] by (simp add: p)
qed simp

end
