(* ===== verification/GoJson.thy ===== *)
theory GoJson
  imports Float64 GoTime GoStrings "HOL-Library.AList"
begin

text \<open>
  What the sources use of Go's package \<open>encoding/json\<close>. A document is its syntax tree; a message
  payload is \<open>None\<close> when its bytes are not a JSON text. Number tokens are kept by value:
  \<open>JInt\<close> for a literal without fraction and exponent, \<open>JDec\<close> for any other. \<open>JTime\<close> is a string
  token that holds an RFC 3339 timestamp, kept by the instant it denotes; every other string
  token is a \<open>JStr\<close>. Strings are byte strings, assumed to be valid UTF-8. Texts (white space,
  escapes, the choice of the shortest decimal that reads back as the same float) are not modelled.
\<close>

datatype json =
    JNull
  | JBool bool
  | JInt int
  | JDec rat
  | JStr string
  | JTime Time
  | JArr "json list"
  | JObj "(string \<times> json) list"

type_synonym payload = "json option"

section \<open>Marshalling struct fields\<close>

text \<open>A number token for a finite float: integers below 10^21 are written without exponent.\<close>

definition json_of_rat :: "rat \<Rightarrow> json" where
  "json_of_rat r = (if of_int \<lfloor>r\<rfloor> = r \<and> \<bar>r\<bar> < 10 ^ 21 then JInt \<lfloor>r\<rfloor> else JDec r)"

fun enc_float :: "float64 \<Rightarrow> error + json" where
  "enc_float (Fin r) = Inr (json_of_rat r)"
| "enc_float NaN = Inl (NewErr ''json: unsupported value: NaN'')"
| "enc_float PosInf = Inl (NewErr ''json: unsupported value: +Inf'')"
| "enc_float NegInf = Inl (NewErr ''json: unsupported value: -Inf'')"

definition enc_time :: "Time \<Rightarrow> error + json" where
  "enc_time t = (case ymd_of_day (civil_day 0 t) of (y, _, _) \<Rightarrow>
     if 0 \<le> y \<and> y \<le> 9999 then Inr (JTime t)
     else Inl (NewErr ''Time.MarshalJSON: year outside of range [0,9999]''))"

text \<open>A struct is marshalled field by field, in order; a field with the option \<open>omitempty\<close> is
  dropped at its zero value; the first error ends it.\<close>

type_synonym field = "string \<times> bool \<times> (error + json)"

definition str_field :: "string \<Rightarrow> string \<Rightarrow> field" where
  "str_field k s = (k, False, Inr (JStr s))"
definition str_field_omit :: "string \<Rightarrow> string \<Rightarrow> field" where
  "str_field_omit k s = (k, s = '''', Inr (JStr s))"
definition int_field :: "string \<Rightarrow> int \<Rightarrow> field" where
  "int_field k i = (k, False, Inr (JInt i))"
definition int_field_omit :: "string \<Rightarrow> int \<Rightarrow> field" where
  "int_field_omit k i = (k, i = 0, Inr (JInt i))"
definition float_field :: "string \<Rightarrow> float64 \<Rightarrow> field" where
  "float_field k x = (k, False, enc_float x)"
definition float_field_omit :: "string \<Rightarrow> float64 \<Rightarrow> field" where
  "float_field_omit k x = (k, feq x 0, enc_float x)"
definition time_field :: "string \<Rightarrow> Time \<Rightarrow> field" where
  "time_field k t = (k, False, enc_time t)"

lemmas field_defs = str_field_def str_field_omit_def int_field_def int_field_omit_def
  float_field_def float_field_omit_def time_field_def

fun enc_fields :: "field list \<Rightarrow> error + (string \<times> json) list" where
  "enc_fields [] = Inr []"
| "enc_fields ((k, omit, v) # fs) =
     (if omit then enc_fields fs
      else case v of
        Inl e \<Rightarrow> Inl e
      | Inr j \<Rightarrow> (case enc_fields fs of Inl e \<Rightarrow> Inl e | Inr kvs \<Rightarrow> Inr ((k, j) # kvs)))"

definition marshal :: "field list \<Rightarrow> error + json" where
  "marshal fs = map_sum id JObj (enc_fields fs)"

section \<open>Unmarshalling into struct fields\<close>

text \<open>The text of a timestamp token, as \<open>time.RFC3339Nano\<close> writes it in UTC.\<close>

definition pad9 :: "int \<Rightarrow> string" where
  "pad9 i = (let s = string_of_int i in replicate (9 - length s) (CHR ''0'') @ s)"

definition format_time :: "Time \<Rightarrow> string" where
  "format_time t = (let n = ns_of_day 0 t; s = n div nsec; f = n mod nsec in
     format_day (civil_day 0 t) @ ''T'' @ pad2 (s div 3600) @ '':'' @ pad2 (s div 60 mod 60) @ '':'' @
     pad2 (s mod 60) @
     (if f = 0 then '''' else CHR ''.'' # rev (dropWhile (\<lambda>c. c = CHR ''0'') (rev (pad9 f)))) @ ''Z'')"

text \<open>Keys match field names without regard to case. A \<open>null\<close> leaves a field alone. A value of the
  wrong type leaves it alone too and makes the whole call return an error; the flag says so.\<close>

definition fold_key :: "string \<Rightarrow> string" where
  "fold_key k = map lower_char k"

fun set_str :: "(string \<Rightarrow> 's \<Rightarrow> 's) \<Rightarrow> json \<Rightarrow> 's \<Rightarrow> 's \<times> bool" where
  "set_str f (JStr s) st = (f s st, False)"
| "set_str f (JTime t) st = (f (format_time t) st, False)"
| "set_str f JNull st = (st, False)"
| "set_str f _ st = (st, True)"

fun set_int :: "(int \<Rightarrow> 's \<Rightarrow> 's) \<Rightarrow> json \<Rightarrow> 's \<Rightarrow> 's \<times> bool" where
  "set_int f (JInt i) st = (if in_int64 i then (f i st, False) else (st, True))"
| "set_int f JNull st = (st, False)"
| "set_int f _ st = (st, True)"

fun set_float :: "(float64 \<Rightarrow> 's \<Rightarrow> 's) \<Rightarrow> json \<Rightarrow> 's \<Rightarrow> 's \<times> bool" where
  "set_float f (JInt i) st = (if is_fin (rnd (of_int i)) then (f (rnd (of_int i)) st, False) else (st, True))"
| "set_float f (JDec r) st = (if is_fin (rnd r) then (f (rnd r) st, False) else (st, True))"
| "set_float f JNull st = (st, False)"
| "set_float f _ st = (st, True)"

fun set_time :: "(Time \<Rightarrow> 's \<Rightarrow> 's) \<Rightarrow> json \<Rightarrow> 's \<Rightarrow> 's \<times> bool" where
  "set_time f (JTime t) st = (f t st, False)"
| "set_time f JNull st = (st, False)"
| "set_time f _ st = (st, True)"

fun dec_members :: "(string \<Rightarrow> json \<Rightarrow> 's \<Rightarrow> 's \<times> bool) \<Rightarrow> (string \<times> json) list \<Rightarrow> 's \<Rightarrow> 's \<times> bool" where
  "dec_members d [] st = (st, False)"
| "dec_members d ((k, v) # kvs) st =
     (case d (fold_key k) v st of (st', e) \<Rightarrow>
        case dec_members d kvs st' of (st'', e') \<Rightarrow> (st'', e \<or> e'))"

definition unmarshal :: "(string \<Rightarrow> json \<Rightarrow> 's \<Rightarrow> 's \<times> bool) \<Rightarrow> 's \<Rightarrow> payload \<Rightarrow> error + 's" where
  "unmarshal d zero p = (case p of
     None \<Rightarrow> Inl (NewErr ''invalid character'')
   | Some JNull \<Rightarrow> Inr zero
   | Some (JObj kvs) \<Rightarrow>
       (case dec_members d kvs zero of (st, bad) \<Rightarrow>
          if bad then Inl (NewErr ''json: cannot unmarshal value into field'') else Inr st)
   | Some _ \<Rightarrow> Inl (NewErr ''json: cannot unmarshal value into struct''))"

text \<open>Decoding into nested structs and slices of structs.\<close>

fun set_struct :: "(string \<Rightarrow> json \<Rightarrow> 'a \<Rightarrow> 'a \<times> bool) \<Rightarrow> ('s \<Rightarrow> 'a) \<Rightarrow> ('a \<Rightarrow> 's \<Rightarrow> 's) \<Rightarrow> json \<Rightarrow> 's \<Rightarrow> 's \<times> bool" where
  "set_struct d get put (JObj kvs) st = (case dec_members d kvs (get st) of (a, bad) \<Rightarrow> (put a st, bad))"
| "set_struct d get put JNull st = (st, False)"
| "set_struct d get put _ st = (st, True)"

definition set_slice :: "(json \<Rightarrow> 'a \<Rightarrow> 'a \<times> bool) \<Rightarrow> 'a \<Rightarrow> ('a list \<Rightarrow> 's \<Rightarrow> 's) \<Rightarrow> json \<Rightarrow> 's \<Rightarrow> 's \<times> bool" where
  "set_slice el zero put v st =
     (case v of
        JArr js \<Rightarrow> (put (map (\<lambda>j. fst (el j zero)) js) st, \<exists>j \<in> set js. snd (el j zero))
      | JNull \<Rightarrow> (put [] st, False)
      | _ \<Rightarrow> (st, True))"

text \<open>A pointer to a struct is nil after a \<open>null\<close> and points to a new struct, if it was nil, after an object.\<close>

fun set_ptr :: "(string \<Rightarrow> json \<Rightarrow> 'a \<Rightarrow> 'a \<times> bool) \<Rightarrow> 'a \<Rightarrow> ('s \<Rightarrow> 'a option) \<Rightarrow> ('a option \<Rightarrow> 's \<Rightarrow> 's) \<Rightarrow> json \<Rightarrow> 's \<Rightarrow> 's \<times> bool" where
  "set_ptr d zero get put (JObj kvs) st =
     (case dec_members d kvs (case get st of Some a \<Rightarrow> a | None \<Rightarrow> zero) of (a, bad) \<Rightarrow> (put (Some a) st, bad))"
| "set_ptr d zero get put JNull st = (put None st, False)"
| "set_ptr d zero get put _ st = (st, True)"

text \<open>A map with string keys is an association list with distinct keys; its keys are matched exactly, and each
  value is decoded into a fresh zero value.\<close>

fun dec_map :: "(json \<Rightarrow> 'a \<Rightarrow> 'a \<times> bool) \<Rightarrow> 'a \<Rightarrow> (string \<times> json) list \<Rightarrow> (string \<times> 'a) list \<Rightarrow> (string \<times> 'a) list \<times> bool" where
  "dec_map el zero [] m = (m, False)"
| "dec_map el zero ((k, v) # kvs) m =
     (case el v zero of (x, e) \<Rightarrow> case dec_map el zero kvs (AList.update k x m) of (m', e') \<Rightarrow> (m', e \<or> e'))"

definition set_map :: "(json \<Rightarrow> 'a \<Rightarrow> 'a \<times> bool) \<Rightarrow> 'a \<Rightarrow> json \<Rightarrow> (string \<times> 'a) list option \<Rightarrow> (string \<times> 'a) list option \<times> bool" where
  "set_map el zero v m =
     (case v of
        JObj kvs \<Rightarrow> (case dec_map el zero kvs (case m of Some xs \<Rightarrow> xs | None \<Rightarrow> []) of (xs, bad) \<Rightarrow> (Some xs, bad))
      | JNull \<Rightarrow> (None, False)
      | _ \<Rightarrow> (m, True))"

definition unmarshal_map :: "(json \<Rightarrow> 'a \<Rightarrow> 'a \<times> bool) \<Rightarrow> 'a \<Rightarrow> payload \<Rightarrow> error + (string \<times> 'a) list option" where
  "unmarshal_map el zero p = (case p of
     None \<Rightarrow> Inl (NewErr ''invalid character'')
   | Some v \<Rightarrow> (case set_map el zero v None of (m, bad) \<Rightarrow>
        if bad then Inl (NewErr ''json: cannot unmarshal value into map'') else Inr m))"

text \<open>Decoding a boolean; and decoding a struct by a table from its keys to its fields.\<close>

fun set_bool :: "(bool \<Rightarrow> 's \<Rightarrow> 's) \<Rightarrow> json \<Rightarrow> 's \<Rightarrow> 's \<times> bool" where
  "set_bool f (JBool b) st = (f b st, False)"
| "set_bool f JNull st = (st, False)"
| "set_bool f _ st = (st, True)"

definition dec_by :: "(string \<times> (json \<Rightarrow> 's \<Rightarrow> 's \<times> bool)) list \<Rightarrow> string \<Rightarrow> json \<Rightarrow> 's \<Rightarrow> 's \<times> bool" where
  "dec_by tbl k v st = (case map_of tbl k of None \<Rightarrow> (st, False) | Some d \<Rightarrow> d v st)"

lemma set_float_json_of_rat [simp]:
  "is_f64 (Fin r) \<Longrightarrow> set_float f (json_of_rat r) st = (f (Fin r) st, False)"
  by (auto simp: json_of_rat_def rnd_Fin)

text \<open>A decoded float is a finite binary64 value: JSON cannot carry an infinity or a NaN.\<close>

lemma set_float_finite:
  "set_float (\<lambda>x _. Some x) j None = (Some x, e) \<Longrightarrow> is_fin x \<and> is_f64 x"
  by (cases j) (auto split: if_splits)

section \<open>What decoding keeps\<close>

lemma set_float_keeps:
  assumes "set_float f v st = (st', e)" "\<And>x. is_fin x \<Longrightarrow> is_f64 x \<Longrightarrow> P (f x st)" "P st" shows "P st'"
  using assms by (cases v) (auto split: if_splits)

lemma set_str_keeps:
  assumes "set_str f v st = (st', e)" "\<And>s. P (f s st)" "P st" shows "P st'"
  using assms by (cases v) auto

lemma set_time_keeps:
  assumes "set_time f v st = (st', e)" "\<And>s. P (f s st)" "P st" shows "P st'"
  using assms by (cases v) auto

lemma dec_members_keeps:
  assumes "\<And>k v st st' e. d k v st = (st', e) \<Longrightarrow> P st \<Longrightarrow> P st'"
  shows "dec_members d kvs st = (st', e) \<Longrightarrow> P st \<Longrightarrow> P st'"
proof (induction kvs arbitrary: st st' e)
  case (Cons kv kvs)
  obtain k v where kv: "kv = (k, v)" by (cases kv)
  obtain s1 e1 where s: "d (fold_key k) v st = (s1, e1)" by (cases "d (fold_key k) v st")
  obtain s2 e2 where t: "dec_members d kvs s1 = (s2, e2)" by (cases "dec_members d kvs s1")
  have "st' = s2" using Cons.prems(1) kv s t by simp
  then show ?case using Cons.IH [OF t] assms [OF s Cons.prems(2)] by simp
qed simp

lemma unmarshal_keeps:
  assumes "unmarshal d zero p = Inr x" "P zero" "\<And>k v st st' e. d k v st = (st', e) \<Longrightarrow> P st \<Longrightarrow> P st'"
  shows "P x"
proof (cases p)
  case None
  then show ?thesis using assms(1) by (simp add: unmarshal_def)
next
  case (Some j)
  then show ?thesis using assms dec_members_keeps [of d P, OF assms(3)]
    by (cases j) (auto simp: unmarshal_def split: prod.splits if_splits)
qed

end
