(* ===== verification/Models.thy ===== *)
theory Models
  imports GoJson
begin

text \<open>
  The domain types of \<open>src/pkg/models\<close>: the NATS messages and database rows shared by the agents,
  their \<open>Validate\<close> methods and their JSON codecs. The string-based enumerations of the sources
  (\<open>Side\<close>, \<open>PositionStatus\<close>, \<open>ExitReason\<close>, \<open>Status\<close>, \<open>SentimentBias\<close>) admit any string, as there.
\<close>

section \<open>Enumerations\<close>

type_synonym Side = string

definition SideLong :: Side where "SideLong = ''LONG''"
definition SideShort :: Side where "SideShort = ''SHORT''"

type_synonym Status = string

definition StatusReceived :: Status where "StatusReceived = ''RECEIVED''"
definition StatusSimulated :: Status where "StatusSimulated = ''SIMULATED''"
definition StatusExecuted :: Status where "StatusExecuted = ''EXECUTED''"
definition StatusFailed :: Status where "StatusFailed = ''FAILED''"
definition StatusOpen :: Status where "StatusOpen = ''OPEN''"
definition StatusClosed :: Status where "StatusClosed = ''CLOSED''"
definition StatusReclaimed :: Status where "StatusReclaimed = ''RECLAIMED''"

type_synonym PositionStatus = string

definition PositionOpen :: PositionStatus where "PositionOpen = ''OPEN''"
definition PositionClosed :: PositionStatus where "PositionClosed = ''CLOSED''"

type_synonym ExitReason = string

definition ReasonStopLoss :: ExitReason where "ReasonStopLoss = ''stop_loss''"
definition ReasonTakeProfit :: ExitReason where "ReasonTakeProfit = ''take_profit''"
definition ReasonSquareOff :: ExitReason where "ReasonSquareOff = ''square_off''"

type_synonym SentimentBias = string

definition BiasBullish :: SentimentBias where "BiasBullish = ''BULLISH''"
definition BiasBearish :: SentimentBias where "BiasBearish = ''BEARISH''"
definition BiasNeutral :: SentimentBias where "BiasNeutral = ''NEUTRAL''"

lemmas enum_defs [go_defs] = SideLong_def SideShort_def StatusReceived_def StatusSimulated_def
  StatusExecuted_def StatusFailed_def StatusOpen_def StatusClosed_def StatusReclaimed_def
  PositionOpen_def PositionClosed_def ReasonStopLoss_def ReasonTakeProfit_def ReasonSquareOff_def
  BiasBullish_def BiasBearish_def BiasNeutral_def

lemma side_distinct [simp]: "SideLong \<noteq> SideShort" "SideShort \<noteq> SideLong"
  by (simp_all add: enum_defs)

lemma status_distinct [simp]: "PositionOpen \<noteq> PositionClosed" "PositionClosed \<noteq> PositionOpen"
  by (simp_all add: enum_defs)

lemma reason_distinct [simp]: "ReasonStopLoss \<noteq> ReasonTakeProfit" "ReasonTakeProfit \<noteq> ReasonStopLoss"
  by (simp_all add: enum_defs)

section \<open>Records\<close>

record TradeIntent =
  ti_Ticker :: string
  ti_Side :: Side
  ti_CurrentPrice :: float64
  ti_VWAP :: float64
  ti_VolumeRatio :: float64
  ti_SignalReason :: string
  ti_Timestamp :: Time

record TradeExecution =
  te_Ticker :: string
  te_Side :: Side
  te_Quantity :: int
  te_Price :: float64
  te_StopLoss :: float64
  te_TakeProfit :: float64
  te_Sector :: string
  te_SignalReason :: string
  te_ExecutionRef :: string
  te_PositionID :: int

record Position =
  pos_ID :: int
  pos_Ticker :: string
  pos_Side :: Side
  pos_Quantity :: int
  pos_EntryPrice :: float64
  pos_StopLoss :: float64
  pos_TakeProfit :: float64
  pos_Sector :: string
  pos_Status :: PositionStatus
  pos_ExecutionRef :: string
  pos_ExitPrice :: float64
  pos_PnL :: float64
  pos_ExitReason :: ExitReason
  pos_ClosedAt :: Time

record PriceTick =
  pt_Ticker :: string
  pt_Price :: float64
  pt_TsInMillis :: int

record SentimentScore =
  ss_ID :: int
  ss_Ticker :: string
  ss_Bias :: SentimentBias
  ss_Confidence :: float64
  ss_Summary :: string
  ss_Source :: string
  ss_SourceURL :: string
  ss_RawResponse :: string
  ss_RecordedAt :: Time

record Article =
  ar_Ticker :: string
  ar_Title :: string
  ar_URL :: string
  ar_Source :: string
  ar_Description :: string
  ar_PublishedAt :: Time

text \<open>The zero value of \<open>time.Time\<close> is the start of the year 1.\<close>

definition zero_time :: Time where "zero_time = - 62135596800 * nsec"

section \<open>Validation\<close>

definition valid_side :: "Side \<Rightarrow> bool" where
  "valid_side s \<longleftrightarrow> \<not> (s \<noteq> SideLong \<and> s \<noteq> SideShort)"

definition validate_intent :: "TradeIntent \<Rightarrow> error option" where
  "validate_intent t =
     (if ti_Ticker t = '''' then Some (NewErr ''ticker is required'')
      else if ti_Side t \<noteq> SideLong \<and> ti_Side t \<noteq> SideShort then Some (NewErr ''side must be LONG or SHORT'')
      else if ti_CurrentPrice t \<le> 0 then Some (NewErr ''current_price must be positive'')
      else if ti_SignalReason t = '''' then Some (NewErr ''signal_reason is required'')
      else None)"

definition validate_execution :: "TradeExecution \<Rightarrow> error option" where
  "validate_execution t =
     (if te_Ticker t = '''' then Some (NewErr ''ticker is required'')
      else if te_Side t \<noteq> SideLong \<and> te_Side t \<noteq> SideShort then Some (NewErr ''side must be LONG or SHORT'')
      else if te_Quantity t \<le> 0 then Some (NewErr ''quantity must be positive'')
      else if te_Price t \<le> 0 then Some (NewErr ''price must be positive'')
      else if te_ExecutionRef t = '''' then Some (NewErr ''execution_ref is required'')
      else None)"

definition validate_position :: "Position \<Rightarrow> error option" where
  "validate_position p =
     (if pos_Ticker p = '''' then Some (NewErr ''ticker is required'')
      else if pos_Side p \<noteq> SideLong \<and> pos_Side p \<noteq> SideShort then Some (NewErr ''side must be LONG or SHORT'')
      else if pos_Quantity p \<le> 0 then Some (NewErr ''quantity must be positive'')
      else if pos_EntryPrice p \<le> 0 then Some (NewErr ''entry_price must be positive'')
      else if pos_StopLoss p \<le> 0 then Some (NewErr ''stop_loss must be positive'')
      else if pos_TakeProfit p \<le> 0 then Some (NewErr ''take_profit must be positive'')
      else if pos_Sector p = '''' then Some (NewErr ''sector is required'')
      else if pos_ExecutionRef p = '''' then Some (NewErr ''execution_ref is required'')
      else if pos_Status p \<noteq> PositionOpen \<and> pos_Status p \<noteq> PositionClosed then Some (NewErr ''status must be OPEN or CLOSED'')
      else None)"

definition validate_score :: "SentimentScore \<Rightarrow> error option" where
  "validate_score s =
     (if ss_Ticker s = '''' then Some (NewErr ''ticker is required'')
      else if ss_Bias s \<noteq> BiasBullish \<and> ss_Bias s \<noteq> BiasBearish \<and> ss_Bias s \<noteq> BiasNeutral
      then Some (NewErr ''bias must be BULLISH, BEARISH or NEUTRAL'')
      else if ss_Confidence s < 0 \<or> 1 < ss_Confidence s then Some (NewErr ''confidence must be within [0,1]'')
      else if ss_SourceURL s = '''' then Some (NewErr ''source_url is required'')
      else None)"

lemma validate_intent_ok [guard_simps]:
  "validate_intent t = None \<longleftrightarrow> ti_Ticker t \<noteq> '''' \<and> ti_Side t \<in> {SideLong, SideShort} \<and>
     \<not> ti_CurrentPrice t \<le> 0 \<and> ti_SignalReason t \<noteq> ''''"
  by (simp add: validate_intent_def)

lemma validate_execution_ok [guard_simps]:
  "validate_execution t = None \<longleftrightarrow> te_Ticker t \<noteq> '''' \<and> te_Side t \<in> {SideLong, SideShort} \<and>
     0 < te_Quantity t \<and> \<not> te_Price t \<le> 0 \<and> te_ExecutionRef t \<noteq> ''''"
  by (simp add: validate_execution_def not_le)

lemma validate_position_ok [guard_simps]:
  "validate_position p = None \<longleftrightarrow> pos_Ticker p \<noteq> '''' \<and> pos_Side p \<in> {SideLong, SideShort} \<and>
     0 < pos_Quantity p \<and> \<not> pos_EntryPrice p \<le> 0 \<and> \<not> pos_StopLoss p \<le> 0 \<and> \<not> pos_TakeProfit p \<le> 0 \<and>
     pos_Sector p \<noteq> '''' \<and> pos_ExecutionRef p \<noteq> '''' \<and> pos_Status p \<in> {PositionOpen, PositionClosed}"
  by (simp add: validate_position_def not_le)

section \<open>JSON codecs\<close>

text \<open>The struct tags of the sources: names, order and \<open>omitempty\<close>.\<close>

definition intent_fields :: "TradeIntent \<Rightarrow> field list" where
  "intent_fields t = [
     str_field ''ticker'' (ti_Ticker t),
     str_field ''side'' (ti_Side t),
     float_field ''current_price'' (ti_CurrentPrice t),
     float_field_omit ''vwap'' (ti_VWAP t),
     float_field_omit ''volume_ratio'' (ti_VolumeRatio t),
     str_field ''signal_reason'' (ti_SignalReason t),
     time_field ''timestamp'' (ti_Timestamp t)]"

definition zero_intent :: TradeIntent where
  "zero_intent = \<lparr>ti_Ticker = '''', ti_Side = '''', ti_CurrentPrice = 0, ti_VWAP = 0,
     ti_VolumeRatio = 0, ti_SignalReason = '''', ti_Timestamp = zero_time\<rparr>"

definition dec_intent_member :: "string \<Rightarrow> json \<Rightarrow> TradeIntent \<Rightarrow> TradeIntent \<times> bool" where
  "dec_intent_member k v =
     (if k = ''ticker'' then set_str (\<lambda>x. ti_Ticker_update (\<lambda>_. x)) v
      else if k = ''side'' then set_str (\<lambda>x. ti_Side_update (\<lambda>_. x)) v
      else if k = ''current_price'' then set_float (\<lambda>x. ti_CurrentPrice_update (\<lambda>_. x)) v
      else if k = ''vwap'' then set_float (\<lambda>x. ti_VWAP_update (\<lambda>_. x)) v
      else if k = ''volume_ratio'' then set_float (\<lambda>x. ti_VolumeRatio_update (\<lambda>_. x)) v
      else if k = ''signal_reason'' then set_str (\<lambda>x. ti_SignalReason_update (\<lambda>_. x)) v
      else if k = ''timestamp'' then set_time (\<lambda>x. ti_Timestamp_update (\<lambda>_. x)) v
      else (\<lambda>st. (st, False)))"

definition marshal_intent :: "TradeIntent \<Rightarrow> error + json" where
  "marshal_intent t = marshal (intent_fields t)"

definition unmarshal_intent :: "payload \<Rightarrow> error + TradeIntent" where
  "unmarshal_intent = unmarshal dec_intent_member zero_intent"

definition execution_fields :: "TradeExecution \<Rightarrow> field list" where
  "execution_fields t = [
     str_field ''ticker'' (te_Ticker t),
     str_field ''side'' (te_Side t),
     int_field ''quantity'' (te_Quantity t),
     float_field ''price'' (te_Price t),
     float_field_omit ''stop_loss'' (te_StopLoss t),
     float_field_omit ''take_profit'' (te_TakeProfit t),
     str_field_omit ''sector'' (te_Sector t),
     str_field_omit ''signal_reason'' (te_SignalReason t),
     str_field_omit ''execution_ref'' (te_ExecutionRef t),
     int_field_omit ''position_id'' (te_PositionID t)]"

definition zero_execution :: TradeExecution where
  "zero_execution = \<lparr>te_Ticker = '''', te_Side = '''', te_Quantity = 0, te_Price = 0,
     te_StopLoss = 0, te_TakeProfit = 0, te_Sector = '''', te_SignalReason = '''',
     te_ExecutionRef = '''', te_PositionID = 0\<rparr>"

definition dec_execution_member :: "string \<Rightarrow> json \<Rightarrow> TradeExecution \<Rightarrow> TradeExecution \<times> bool" where
  "dec_execution_member k v =
     (if k = ''ticker'' then set_str (\<lambda>x. te_Ticker_update (\<lambda>_. x)) v
      else if k = ''side'' then set_str (\<lambda>x. te_Side_update (\<lambda>_. x)) v
      else if k = ''quantity'' then set_int (\<lambda>x. te_Quantity_update (\<lambda>_. x)) v
      else if k = ''price'' then set_float (\<lambda>x. te_Price_update (\<lambda>_. x)) v
      else if k = ''stop_loss'' then set_float (\<lambda>x. te_StopLoss_update (\<lambda>_. x)) v
      else if k = ''take_profit'' then set_float (\<lambda>x. te_TakeProfit_update (\<lambda>_. x)) v
      else if k = ''sector'' then set_str (\<lambda>x. te_Sector_update (\<lambda>_. x)) v
      else if k = ''signal_reason'' then set_str (\<lambda>x. te_SignalReason_update (\<lambda>_. x)) v
      else if k = ''execution_ref'' then set_str (\<lambda>x. te_ExecutionRef_update (\<lambda>_. x)) v
      else if k = ''position_id'' then set_int (\<lambda>x. te_PositionID_update (\<lambda>_. x)) v
      else (\<lambda>st. (st, False)))"

definition marshal_execution :: "TradeExecution \<Rightarrow> error + json" where
  "marshal_execution t = marshal (execution_fields t)"

definition unmarshal_execution :: "payload \<Rightarrow> error + TradeExecution" where
  "unmarshal_execution = unmarshal dec_execution_member zero_execution"

definition tick_fields :: "PriceTick \<Rightarrow> field list" where
  "tick_fields t = [
     str_field ''ticker'' (pt_Ticker t),
     float_field ''price'' (pt_Price t),
     int_field ''ts_millis'' (pt_TsInMillis t)]"

definition zero_tick :: PriceTick where
  "zero_tick = \<lparr>pt_Ticker = '''', pt_Price = 0, pt_TsInMillis = 0\<rparr>"

definition dec_tick_member :: "string \<Rightarrow> json \<Rightarrow> PriceTick \<Rightarrow> PriceTick \<times> bool" where
  "dec_tick_member k v =
     (if k = ''ticker'' then set_str (\<lambda>x. pt_Ticker_update (\<lambda>_. x)) v
      else if k = ''price'' then set_float (\<lambda>x. pt_Price_update (\<lambda>_. x)) v
      else if k = ''ts_millis'' then set_int (\<lambda>x. pt_TsInMillis_update (\<lambda>_. x)) v
      else (\<lambda>st. (st, False)))"

definition marshal_tick :: "PriceTick \<Rightarrow> error + json" where
  "marshal_tick t = marshal (tick_fields t)"

definition unmarshal_tick :: "payload \<Rightarrow> error + PriceTick" where
  "unmarshal_tick = unmarshal dec_tick_member zero_tick"

subsection \<open>What is marshalled is read back\<close>

text \<open>Messages whose floats are finite binary64 values and whose integers fit 64 bits.\<close>

definition fin64 :: "float64 \<Rightarrow> bool" where
  "fin64 x \<longleftrightarrow> is_fin x \<and> is_f64 x"

lemma fin64E: "fin64 x \<Longrightarrow> (\<And>r. x = Fin r \<Longrightarrow> is_f64 (Fin r) \<Longrightarrow> P) \<Longrightarrow> P"
  by (cases x) (auto simp: fin64_def)

definition sendable_execution :: "TradeExecution \<Rightarrow> bool" where
  "sendable_execution t \<longleftrightarrow> fin64 (te_Price t) \<and> fin64 (te_StopLoss t) \<and> fin64 (te_TakeProfit t) \<and>
     in_int64 (te_Quantity t) \<and> in_int64 (te_PositionID t)"

lemma fold_keys [simp]:
  "fold_key ''ticker'' = ''ticker''" "fold_key ''side'' = ''side''" "fold_key ''quantity'' = ''quantity''"
  "fold_key ''price'' = ''price''" "fold_key ''stop_loss'' = ''stop_loss''"
  "fold_key ''take_profit'' = ''take_profit''" "fold_key ''sector'' = ''sector''"
  "fold_key ''signal_reason'' = ''signal_reason''" "fold_key ''execution_ref'' = ''execution_ref''"
  "fold_key ''position_id'' = ''position_id''" "fold_key ''current_price'' = ''current_price''"
  "fold_key ''vwap'' = ''vwap''" "fold_key ''volume_ratio'' = ''volume_ratio''"
  "fold_key ''timestamp'' = ''timestamp''" "fold_key ''ts_millis'' = ''ts_millis''"
  by code_simp+

lemma dec_execution_members [simp]:
  "dec_execution_member ''ticker'' = set_str (\<lambda>x. te_Ticker_update (\<lambda>_. x))"
  "dec_execution_member ''side'' = set_str (\<lambda>x. te_Side_update (\<lambda>_. x))"
  "dec_execution_member ''quantity'' = set_int (\<lambda>x. te_Quantity_update (\<lambda>_. x))"
  "dec_execution_member ''price'' = set_float (\<lambda>x. te_Price_update (\<lambda>_. x))"
  "dec_execution_member ''stop_loss'' = set_float (\<lambda>x. te_StopLoss_update (\<lambda>_. x))"
  "dec_execution_member ''take_profit'' = set_float (\<lambda>x. te_TakeProfit_update (\<lambda>_. x))"
  "dec_execution_member ''sector'' = set_str (\<lambda>x. te_Sector_update (\<lambda>_. x))"
  "dec_execution_member ''signal_reason'' = set_str (\<lambda>x. te_SignalReason_update (\<lambda>_. x))"
  "dec_execution_member ''execution_ref'' = set_str (\<lambda>x. te_ExecutionRef_update (\<lambda>_. x))"
  "dec_execution_member ''position_id'' = set_int (\<lambda>x. te_PositionID_update (\<lambda>_. x))"
  by (simp_all add: dec_execution_member_def fun_eq_iff)

lemma sendable_read_back:
  assumes "sendable_execution t"
  shows "\<exists>j. marshal_execution t = Inr j \<and> unmarshal_execution (Some j) = Inr t"
proof -
  from assms obtain p s k where f: "te_Price t = Fin p" "te_StopLoss t = Fin s" "te_TakeProfit t = Fin k"
      "is_f64 (Fin p)" "is_f64 (Fin s)" "is_f64 (Fin k)" "in_int64 (te_Quantity t)" "in_int64 (te_PositionID t)"
    by (auto simp: sendable_execution_def simp del: is_f64.simps elim!: fin64E)
  show ?thesis
    using f by (cases t) (auto simp: marshal_execution_def unmarshal_execution_def execution_fields_def
        field_defs marshal_def unmarshal_def zero_execution_def zero_float64_Fin simp del: is_f64.simps)
qed

text \<open>An execution message with finite prices and 64-bit integers survives the bus: decoding what
  \<open>json.Marshal\<close> produced gives the same record back, with every \<open>omitempty\<close> field that was
  dropped restored to its zero value.\<close>

theorem execution_json_roundtrip:
  assumes "sendable_execution t"
  shows "\<exists>j. marshal_execution t = Inr j \<and> unmarshal_execution (Some j) = Inr t"
  by (rule sendable_read_back [OF assms])

definition sample_execution :: TradeExecution where
  "sample_execution = \<lparr>te_Ticker = ''TCS'', te_Side = ''LONG'', te_Quantity = 10, te_Price = Fin 100,
     te_StopLoss = Fin 95, te_TakeProfit = 0, te_Sector = '''', te_SignalReason = ''x'',
     te_ExecutionRef = ''r1'', te_PositionID = 0\<rparr>"

lemma fin64_int: "\<bar>i\<bar> \<le> 2 ^ 53 \<Longrightarrow> fin64 (Fin (of_int i))"
  using f64_of_int_exact [of i] is_f64_of_int [of i] by (simp add: fin64_def del: is_f64.simps)

lemma execution_json_roundtrip_witness:
  "\<exists>j. marshal_execution sample_execution = Inr j \<and> unmarshal_execution (Some j) = Inr sample_execution"
  using fin64_int [of 100] fin64_int [of 95] fin64_int [of 0]
  by (intro execution_json_roundtrip)
     (simp add: sendable_execution_def sample_execution_def zero_float64_Fin in_int64_def)

end
