(* ===== verification/Bus.thy ===== *)
theory Bus
  imports GoJson
begin

text \<open>
  The message bus as the agents see it: the subjects of \<open>src/pkg/nats/types.go\<close> and the operation
  \<open>Publish\<close> of \<open>src/pkg/nats/pubsub.go\<close>. The calls of the client library are in \<open>JetStream\<close>; here, whether a publish
  reaches the stream and whether it is confirmed is an input, and a message is a pair of a subject and a JSON
  document. The list of messages is the history of the stream: what the server has accepted so far. The server
  drops a message after the \<open>MaxAge\<close> of its stream (24 hours for trading); that ends its delivery, not the history.
\<close>

type_synonym message = "string \<times> json"

definition SubjectIntentNew :: string where "SubjectIntentNew = ''signal.intent.new''"
definition SubjectExecuteTrade :: string where "SubjectExecuteTrade = ''signal.execute.trade''"
definition SubjectSentimentUpd :: string where "SubjectSentimentUpd = ''sentiment.update''"
definition SubjectPricePrefix :: string where "SubjectPricePrefix = ''signal.price.''"
definition SubjectExecutePrefix :: string where "SubjectExecutePrefix = ''signal.execute.''"

definition PriceSubject :: "string \<Rightarrow> string" where
  "PriceSubject ticker = SubjectPricePrefix @ ticker"

definition ExecuteSubject :: "string \<Rightarrow> string" where
  "ExecuteSubject ticker = SubjectExecutePrefix @ ticker"

lemmas subject_defs = SubjectIntentNew_def SubjectExecuteTrade_def SubjectSentimentUpd_def
  SubjectPricePrefix_def SubjectExecutePrefix_def PriceSubject_def ExecuteSubject_def

definition ErrEmptySubject :: error where
  "ErrEmptySubject = Sentinel ''subject cannot be empty''"

text \<open>\<open>Publish\<close> waits for the server's confirmation; the first argument is what the network does.\<close>

definition Publish :: "fault \<Rightarrow> string \<Rightarrow> json \<Rightarrow> message list \<Rightarrow> error option \<times> message list" where
  "Publish net subj data sent =
     (if subj = '''' then (Some ErrEmptySubject, sent)
      else case net of
        LostRequest e \<Rightarrow> (Some (Wrapf (''publish '' @ quoted subj) e), sent)
      | LostReply e \<Rightarrow> (Some (Wrapf (''publish '' @ quoted subj) e), sent @ [(subj, data)])
      | NoFault \<Rightarrow> (None, sent @ [(subj, data)]))"

text \<open>\<open>durableName\<close>: \<open>strings.ReplaceAll\<close> with patterns of one character.\<close>

definition ReplaceAll1 :: "string \<Rightarrow> char \<Rightarrow> string \<Rightarrow> string" where
  "ReplaceAll1 s old new = concat (map (\<lambda>c. if c = old then new else [c]) s)"

definition durableName :: "string \<Rightarrow> string \<Rightarrow> string" where
  "durableName prefix subj =
     (let s = ReplaceAll1 subj (CHR ''.'') ''-'';
          s = ReplaceAll1 s (CHR ''*'') ''star'';
          s = ReplaceAll1 s (CHR ''>'') ''gt''
      in prefix @ ''-'' @ s)"

lemma Publish_outcome:
  "Publish net subj data sent = (None, sent') \<longleftrightarrow> subj \<noteq> '''' \<and> net = NoFault \<and> sent' = sent @ [(subj, data)]"
  by (auto simp: Publish_def split: fault.split)

lemma Publish_sent:
  "snd (Publish net subj data sent) = sent \<or> snd (Publish net subj data sent) = sent @ [(subj, data)]"
  by (auto simp: Publish_def split: fault.split)

lemma subjects_nonempty [simp]:
  "PriceSubject t \<noteq> ''''" "ExecuteSubject t \<noteq> ''''" "SubjectIntentNew \<noteq> ''''"
  "SubjectExecuteTrade \<noteq> ''''" "SubjectSentimentUpd \<noteq> ''''"
  by (simp_all add: subject_defs)

text \<open>A durable name has none of the characters JetStream refuses, if its prefix has none.\<close>

lemma set_ReplaceAll1: "set (ReplaceAll1 s old new) \<subseteq> (set s - {old}) \<union> set new"
  by (auto simp: ReplaceAll1_def split: if_splits)

text \<open>The name of a durable consumer contains no dot and no wildcard, whatever the subject, as
  JetStream requires of it.\<close>

theorem durableName_legal:
  assumes "set prefix \<inter> {CHR ''.'', CHR ''*'', CHR ''>''} = {}"
  shows "set (durableName prefix subj) \<inter> {CHR ''.'', CHR ''*'', CHR ''>''} = {}"
proof -
  let ?a = "ReplaceAll1 subj (CHR ''.'') ''-''"
  let ?b = "ReplaceAll1 ?a (CHR ''*'') ''star''"
  have "set ?a \<subseteq> (set subj - {CHR ''.''}) \<union> {CHR ''-''}"
    using set_ReplaceAll1 [of subj "CHR ''.''" "''-''"] by simp
  then have "set ?b \<inter> {CHR ''.'', CHR ''*''} = {}"
    using set_ReplaceAll1 [of ?a "CHR ''*''" "''star''"] by auto
  then have "set (ReplaceAll1 ?b (CHR ''>'') ''gt'') \<inter> {CHR ''.'', CHR ''*'', CHR ''>''} = {}"
    using set_ReplaceAll1 [of ?b "CHR ''>''" "''gt''"] by auto
  with assms show ?thesis by (auto simp: durableName_def Let_def)
qed

lemma durableName_legal_witness:
  "set (durableName ''navier-scout'' ''signal.price.>'') \<inter> {CHR ''.'', CHR ''*'', CHR ''>''} = {}"
  by (rule durableName_legal) simp

end
