(* ===== verification/Ports.thy ===== *)
theory Ports
  imports Models Bus
begin

text \<open>
  The interfaces through which the agents reach their surroundings: \<open>PositionStore\<close>, \<open>ScoreStore\<close> and
  \<open>ExecutionPublisher\<close> of the Risk Manager, \<open>PositionCloser\<close> and \<open>ExitPublisher\<close> of the exit monitor. An
  operation is a function on the world that returns its result and the new world. The locale
  \<open>position_store\<close> holds what the agents rely on; the database implements it.
\<close>

record 'w Ports =
  po_ListOpen :: "'w \<Rightarrow> (error + Position list) \<times> 'w"
  po_MarkClosed :: "int \<Rightarrow> float64 \<Rightarrow> ExitReason \<Rightarrow> 'w \<Rightarrow> error option \<times> 'w"
  po_LatestScore :: "string \<Rightarrow> 'w \<Rightarrow> (error + SentimentScore option) \<times> 'w"
  po_Publish :: "string \<Rightarrow> json \<Rightarrow> 'w \<Rightarrow> error option \<times> 'w"

text \<open>What a handler tells JetStream about its message; a failure to tell it is only logged.\<close>

datatype disposition = Ack | Nak | NakWithDelay Duration

text \<open>\<open>open_ids\<close> are the ids of the open positions. Listing and publishing leave them alone, a successful
  close removes one that was there, and a failed close may or may not have removed it.\<close>

locale position_store =
  fixes ports :: "'w Ports"
    and ok :: "'w \<Rightarrow> bool"
    and open_ids :: "'w \<Rightarrow> int set"
  assumes list_frame: "ok w \<Longrightarrow> ok (snd (po_ListOpen ports w)) \<and> open_ids (snd (po_ListOpen ports w)) = open_ids w"
    and list_complete: "ok w \<Longrightarrow> po_ListOpen ports w = (Inr ps, w') \<Longrightarrow>
      distinct (map pos_ID ps) \<and> set (map pos_ID ps) = open_ids w"
    and publish_frame: "ok w \<Longrightarrow> ok (snd (po_Publish ports s d w)) \<and> open_ids (snd (po_Publish ports s d w)) = open_ids w"
    and close_ok: "ok w \<Longrightarrow> ok (snd (po_MarkClosed ports i x r w))"
    and close_done: "ok w \<Longrightarrow> po_MarkClosed ports i x r w = (None, w') \<Longrightarrow>
      i \<in> open_ids w \<and> open_ids w' = open_ids w - {i}"
    and close_failed: "ok w \<Longrightarrow> po_MarkClosed ports i x r w = (Some e, w') \<Longrightarrow>
      open_ids w' = open_ids w \<or> open_ids w' = open_ids w - {i}"
begin

lemma close_subset: "ok w \<Longrightarrow> open_ids (snd (po_MarkClosed ports i x r w)) \<subseteq> open_ids w"
proof (cases "po_MarkClosed ports i x r w")
  case (Pair res w')
  assume "ok w"
  then show ?thesis using close_done [of w i x r w'] close_failed [of w i x r _ w'] Pair
    by (cases res) auto
qed

lemma close_keeps_others: "ok w \<Longrightarrow> open_ids w - {i} \<subseteq> open_ids (snd (po_MarkClosed ports i x r w))"
proof (cases "po_MarkClosed ports i x r w")
  case (Pair res w')
  assume "ok w"
  then show ?thesis using close_done [of w i x r w'] close_failed [of w i x r _ w'] Pair
    by (cases res) auto
qed

text \<open>Closing twice: the second attempt on a closed position fails.\<close>

lemma close_once: "ok w \<Longrightarrow> po_MarkClosed ports i x r w = (None, w') \<Longrightarrow> fst (po_MarkClosed ports i y q w') \<noteq> None"
proof
  assume w: "ok w" "po_MarkClosed ports i x r w = (None, w')" "fst (po_MarkClosed ports i y q w') = None"
  then have "ok w'" using close_ok [of w i x r] by simp
  moreover from w(3) have "po_MarkClosed ports i y q w' = (None, snd (po_MarkClosed ports i y q w'))"
    by (metis prod.collapse)
  ultimately have "i \<in> open_ids w'" using close_done by blast
  then show False using close_done [OF w(1,2)] by simp
qed

end

end
