(* ===== verification/Exposure.thy ===== *)
theory Exposure
  imports Models "HOL-Library.Multiset"
begin

text \<open>
  The exposure tracker of \<open>src/analysts/riskmanager/exposure.go\<close> and the directional-bias gate of
  \<open>bias.go\<close>. The counters refine a book, the multiset of the open positions' sides and sectors;
  the locale \<open>exposure_book\<close> states that contract, what the gates guarantee is proved from it, and
  the tracker is interpreted as an instance. The recount from the database is a sequence of atomic
  steps, as in the sources, so that what a gate sees in the middle of it can be stated.
\<close>

section \<open>The tracker\<close>

definition ErrSectorLimit :: error where "ErrSectorLimit = Sentinel ''sector concentration limit reached''"
definition ErrTotalLimit :: error where "ErrTotalLimit = Sentinel ''concurrency ceiling reached''"
definition ErrBiasLimit :: error where "ErrBiasLimit = Sentinel ''directional bias limit exceeded (3:1)''"

definition DefaultMaxSectorPositions :: int where "DefaultMaxSectorPositions = 1"
definition DefaultMaxTotalPositions :: int where "DefaultMaxTotalPositions = 4"
definition DefaultMaxBiasRatio :: float64 where "DefaultMaxBiasRatio = flt 3"

text \<open>The counters are 64-bit atomics; they count positions and stay far from their bounds.\<close>

record Exposure =
  ex_sectorCount :: "string \<rightharpoonup> int"
  ex_total :: int
  ex_longs :: int
  ex_shorts :: int
  ex_maxSector :: int
  ex_maxTotal :: int
  ex_maxBias :: float64

definition NewExposure :: "int \<Rightarrow> int \<Rightarrow> Exposure" where
  "NewExposure maxSector maxTotal =
     \<lparr>ex_sectorCount = Map.empty, ex_total = 0, ex_longs = 0, ex_shorts = 0,
      ex_maxSector = maxSector, ex_maxTotal = maxTotal, ex_maxBias = DefaultMaxBiasRatio\<rparr>"

definition EntryGate :: "Exposure \<Rightarrow> string \<Rightarrow> error option" where
  "EntryGate e sector =
     (if (case ex_sectorCount e sector of Some cur \<Rightarrow> ex_maxSector e \<le> cur | None \<Rightarrow> False)
      then Some ErrSectorLimit
      else if ex_maxTotal e \<le> ex_total e then Some ErrTotalLimit
      else None)"

definition bump_sector :: "string \<Rightarrow> Exposure \<Rightarrow> Exposure" where
  "bump_sector sector e =
     e\<lparr>ex_sectorCount := (ex_sectorCount e)
        (sector \<mapsto> (case ex_sectorCount e sector of Some cur \<Rightarrow> cur | None \<Rightarrow> 0) + 1)\<rparr>"

definition Register :: "Side \<Rightarrow> string \<Rightarrow> Exposure \<Rightarrow> Exposure" where
  "Register side sector e =
     (let e = e\<lparr>ex_total := ex_total e + 1\<rparr>;
          e = (if side = SideShort then e\<lparr>ex_shorts := ex_shorts e + 1\<rparr> else e\<lparr>ex_longs := ex_longs e + 1\<rparr>)
      in bump_sector sector e)"

definition Release :: "Side \<Rightarrow> string \<Rightarrow> Exposure \<Rightarrow> Exposure" where
  "Release side sector e =
     (let e = (case ex_sectorCount e sector of
                 Some cur \<Rightarrow>
                   if cur - 1 \<le> 0 then e\<lparr>ex_sectorCount := (ex_sectorCount e)(sector := None)\<rparr>
                   else e\<lparr>ex_sectorCount := (ex_sectorCount e)(sector \<mapsto> cur - 1)\<rparr>
               | None \<Rightarrow> e);
          e = (if ex_total e - 1 < 0 then e else e\<lparr>ex_total := ex_total e - 1\<rparr>)
      in if side = SideShort
         then (if ex_shorts e - 1 < 0 then e else e\<lparr>ex_shorts := ex_shorts e - 1\<rparr>)
         else (if ex_longs e - 1 < 0 then e else e\<lparr>ex_longs := ex_longs e - 1\<rparr>))"

definition SectorCount :: "Exposure \<Rightarrow> string \<Rightarrow> int" where
  "SectorCount e sector = (case ex_sectorCount e sector of Some cur \<Rightarrow> cur | None \<Rightarrow> 0)"

definition Total :: "Exposure \<Rightarrow> int" where "Total e = ex_total e"
definition Longs :: "Exposure \<Rightarrow> int" where "Longs e = ex_longs e"
definition Shorts :: "Exposure \<Rightarrow> int" where "Shorts e = ex_shorts e"
definition MaxBiasRatio :: "Exposure \<Rightarrow> float64" where "MaxBiasRatio e = ex_maxBias e"

section \<open>Gate 3\<close>

definition CheckBias :: "int \<Rightarrow> int \<Rightarrow> Side \<Rightarrow> float64 \<Rightarrow> error option" where
  "CheckBias longs shorts side maxRatio =
     (let candidateLongs = (if side = SideShort then longs else longs + 1);
          candidateShorts = (if side = SideShort then shorts + 1 else shorts)
      in if 0 < candidateLongs \<and> 0 < candidateShorts
         then if maxRatio * f64_of_int candidateShorts < f64_of_int candidateLongs then Some ErrBiasLimit
              else if maxRatio * f64_of_int candidateLongs < f64_of_int candidateShorts then Some ErrBiasLimit
              else None
         else None)"

definition biasGate :: "int \<Rightarrow> int \<Rightarrow> Side \<Rightarrow> float64 \<Rightarrow> error option" where
  "biasGate longs shorts side maxRatio = CheckBias longs shorts side maxRatio"

definition BiasGate :: "Exposure \<Rightarrow> Side \<Rightarrow> error option" where
  "BiasGate e side = biasGate (Longs e) (Shorts e) side (ex_maxBias e)"

section \<open>The recount\<close>

text \<open>The steps that other goroutines can observe, in order. The step that empties the sector table
  stands for the calls of \<open>Range\<close>, one per key.\<close>

definition recount_position :: "Position \<Rightarrow> (Exposure \<Rightarrow> Exposure) list" where
  "recount_position pos =
     [\<lambda>e. e\<lparr>ex_total := ex_total e + 1\<rparr>,
      \<lambda>e. if pos_Side pos = SideShort then e\<lparr>ex_shorts := ex_shorts e + 1\<rparr> else e\<lparr>ex_longs := ex_longs e + 1\<rparr>,
      bump_sector (pos_Sector pos)]"

definition refresh_steps :: "Position list \<Rightarrow> (Exposure \<Rightarrow> Exposure) list" where
  "refresh_steps positions =
     [\<lambda>e. e\<lparr>ex_total := 0\<rparr>, \<lambda>e. e\<lparr>ex_longs := 0\<rparr>, \<lambda>e. e\<lparr>ex_shorts := 0\<rparr>,
      \<lambda>e. e\<lparr>ex_sectorCount := Map.empty\<rparr>] @ concat (map recount_position positions)"

definition run_steps :: "(Exposure \<Rightarrow> Exposure) list \<Rightarrow> Exposure \<Rightarrow> Exposure" where
  "run_steps fs e = foldl (\<lambda>e f. f e) e fs"

definition RefreshFromDB :: "Position list \<Rightarrow> Exposure \<Rightarrow> Exposure" where
  "RefreshFromDB positions e = run_steps (refresh_steps positions) e"

section \<open>The contract\<close>

type_synonym holding = "bool \<times> string"

text \<open>A holding is short or not, and in a sector; a book is the multiset of the holdings.\<close>

definition holding_of :: "Side \<Rightarrow> string \<Rightarrow> holding" where
  "holding_of side sector = (side = SideShort, sector)"

definition in_sector :: "holding multiset \<Rightarrow> string \<Rightarrow> nat" where
  "in_sector M s = size (filter_mset (\<lambda>h. snd h = s) M)"

lemma in_sector_simps [simp]:
  "in_sector {#} s = 0" "in_sector (add_mset h M) s = (if snd h = s then Suc (in_sector M s) else in_sector M s)"
  by (simp_all add: in_sector_def)

lemma in_sector_0_iff: "in_sector M s = 0 \<longleftrightarrow> s \<notin> snd ` set_mset M"
  by (force simp: in_sector_def filter_mset_eq_mempty_iff)

lemma in_sector_le: "in_sector M s \<le> size M"
  by (simp add: in_sector_def size_filter_mset_lesseq)

locale exposure_book =
  fixes represents :: "'e \<Rightarrow> holding multiset \<Rightarrow> bool"
    and entry_ok :: "'e \<Rightarrow> string \<Rightarrow> bool"
    and register :: "holding \<Rightarrow> 'e \<Rightarrow> 'e"
    and release :: "holding \<Rightarrow> 'e \<Rightarrow> 'e"
    and max_sector :: "'e \<Rightarrow> int"
    and max_total :: "'e \<Rightarrow> int"
  assumes entry_iff: "represents e M \<Longrightarrow> entry_ok e s \<longleftrightarrow>
      (s \<notin> snd ` set_mset M \<or> int (in_sector M s) < max_sector e) \<and> int (size M) < max_total e"
    and register_represents: "represents e M \<Longrightarrow> represents (register h e) (add_mset h M)"
    and release_represents: "represents e M \<Longrightarrow> h \<in># M \<Longrightarrow> represents (release h e) (M - {#h#})"
    and register_limits: "max_sector (register h e) = max_sector e" "max_total (register h e) = max_total e"
    and release_limits: "max_sector (release h e) = max_sector e" "max_total (release h e) = max_total e"
begin

text \<open>A session: entries pass the gate before they are registered, and only held positions are released.\<close>

inductive session :: "'e \<Rightarrow> holding multiset \<Rightarrow> 'e \<Rightarrow> holding multiset \<Rightarrow> bool" where
  start: "session e M e M"
| enter: "session e M e' M' \<Longrightarrow> entry_ok e' (snd h) \<Longrightarrow> session e M (register h e') (add_mset h M')"
| leave: "session e M e' M' \<Longrightarrow> h \<in># M' \<Longrightarrow> session e M (release h e') (M' - {#h#})"

definition within_limits :: "'e \<Rightarrow> holding multiset \<Rightarrow> bool" where
  "within_limits e M \<longleftrightarrow> int (size M) \<le> max_total e \<and> (\<forall>s. int (in_sector M s) \<le> max_sector e)"

lemma session_represents: "session e M e' M' \<Longrightarrow> represents e M \<Longrightarrow>
    represents e' M' \<and> max_sector e' = max_sector e \<and> max_total e' = max_total e"
  by (induction rule: session.induct)
     (auto simp: register_represents release_represents register_limits release_limits)

lemma enter_within:
  assumes "represents e M" "within_limits e M" "1 \<le> max_sector e" "entry_ok e (snd h)"
  shows "within_limits (register h e) (add_mset h M)"
proof -
  have g: "snd h \<notin> snd ` set_mset M \<or> int (in_sector M (snd h)) < max_sector e" "int (size M) < max_total e"
    using entry_iff [OF assms(1)] assms(4) by auto
  have "in_sector M (snd h) = 0" if "snd h \<notin> snd ` set_mset M"
    using that by (simp add: in_sector_0_iff)
  then show ?thesis using g assms(2,3) by (auto simp: within_limits_def register_limits)
qed

lemma leave_within: "within_limits e M \<Longrightarrow> h \<in># M \<Longrightarrow> within_limits (release h e) (M - {#h#})"
  unfolding within_limits_def release_limits
  by (auto dest!: multi_member_split) (metis (full_types) dual_order.trans of_nat_Suc le_add_same_cancel1 zero_le_one add.commute)+

text \<open>The ceilings hold throughout a session.\<close>

lemma session_within:
  "session e M e' M' \<Longrightarrow> represents e M \<Longrightarrow> within_limits e M \<Longrightarrow> 1 \<le> max_sector e \<Longrightarrow> within_limits e' M'"
proof (induction rule: session.induct)
  case (enter e M e' M' h)
  then show ?case using session_represents [of e M e' M'] by (intro enter_within) auto
next
  case (leave e M e' M' h)
  then show ?case by (intro leave_within) auto
qed

end

section \<open>The tracker represents a book\<close>

definition tracks :: "Exposure \<Rightarrow> holding multiset \<Rightarrow> bool" where
  "tracks e M \<longleftrightarrow> ex_total e = int (size M) \<and>
     ex_shorts e = int (size (filter_mset fst M)) \<and>
     ex_longs e = int (size (filter_mset (\<lambda>h. \<not> fst h) M)) \<and>
     (\<forall>s. ex_sectorCount e s = (if in_sector M s = 0 then None else Some (int (in_sector M s))))"

lemma tracks_SectorCount: "tracks e M \<Longrightarrow> SectorCount e s = int (in_sector M s)"
  by (simp add: tracks_def SectorCount_def)

lemma in_sector_pos: "h \<in># M \<Longrightarrow> 0 < in_sector M (snd h)"
  by (auto dest!: multi_member_split)


lemma bump_tracks:
  assumes "tracks e M"
  shows "ex_sectorCount (bump_sector (snd h) e) s =
    (if in_sector (add_mset h M) s = 0 then None else Some (int (in_sector (add_mset h M) s)))"
  using assms by (simp add: tracks_def bump_sector_def)

lemma Register_tracks: "tracks e M \<Longrightarrow> tracks (Register side sector e) (add_mset (holding_of side sector) M)"
  by (auto simp: tracks_def Register_def bump_sector_def holding_of_def Let_def)

lemma Release_tracks:
  assumes t: "tracks e M" and h: "holding_of side sector \<in># M"
  shows "tracks (Release side sector e) (M - {#holding_of side sector#})"
proof -
  from h obtain N where M: "M = add_mset (holding_of side sector) N" by (blast dest: multi_member_split)
  show ?thesis using t unfolding M by (auto simp: tracks_def Release_def holding_of_def Let_def)
qed

definition register_holding :: "holding \<Rightarrow> Exposure \<Rightarrow> Exposure" where
  "register_holding h = Register (if fst h then SideShort else SideLong) (snd h)"

definition release_holding :: "holding \<Rightarrow> Exposure \<Rightarrow> Exposure" where
  "release_holding h = Release (if fst h then SideShort else SideLong) (snd h)"

lemma holding_of_side [simp]: "holding_of (if b then SideShort else SideLong) s = (b, s)"
  by (simp add: holding_of_def)

lemma Register_limits:
  "ex_maxSector (Register side s e) = ex_maxSector e" "ex_maxTotal (Register side s e) = ex_maxTotal e"
  "ex_maxBias (Register side s e) = ex_maxBias e"
  by (simp_all add: Register_def bump_sector_def Let_def)

lemma Release_limits:
  "ex_maxSector (Release side s e) = ex_maxSector e" "ex_maxTotal (Release side s e) = ex_maxTotal e"
  "ex_maxBias (Release side s e) = ex_maxBias e"
  by (simp_all add: Release_def Let_def split: option.split)

interpretation tracker: exposure_book tracks "\<lambda>e s. EntryGate e s = None" register_holding release_holding
    ex_maxSector ex_maxTotal
proof (unfold_locales, goal_cases)
  case (1 e M s)
  then show ?case using in_sector_0_iff [of M s] by (auto simp: EntryGate_def tracks_def)
next
  case (2 e M h)
  then show ?case using Register_tracks by (metis holding_of_side prod.collapse register_holding_def)
next
  case (3 e M h)
  then show ?case using Release_tracks by (metis holding_of_side prod.collapse release_holding_def)
qed (simp_all add: register_holding_def release_holding_def Register_limits Release_limits)

lemma NewExposure_tracks: "tracks (NewExposure a b) {#}"
  by (simp add: tracks_def NewExposure_def)

lemma recount_run:
  "tracks e M \<Longrightarrow> tracks (run_steps (concat (map recount_position ps)) e)
     (M + mset (map (\<lambda>p. holding_of (pos_Side p) (pos_Sector p)) ps))"
proof (induction ps arbitrary: e M)
  case (Cons p ps)
  have "run_steps (recount_position p) e = Register (pos_Side p) (pos_Sector p) e"
    by (simp add: run_steps_def recount_position_def Register_def Let_def)
  then have "tracks (run_steps (recount_position p) e) (add_mset (holding_of (pos_Side p) (pos_Sector p)) M)"
    using Register_tracks [OF Cons.prems] by simp
  from Cons.IH [OF this] show ?case by (simp add: run_steps_def)
qed (simp add: run_steps_def)

lemma RefreshFromDB_tracks:
  "tracks (RefreshFromDB ps e) (mset (map (\<lambda>p. holding_of (pos_Side p) (pos_Sector p)) ps))"
proof -
  have "tracks (e\<lparr>ex_total := 0, ex_longs := 0, ex_shorts := 0, ex_sectorCount := Map.empty\<rparr>) {#}"
    by (simp add: tracks_def)
  from recount_run [OF this, of ps] show ?thesis
    by (simp add: RefreshFromDB_def refresh_steps_def run_steps_def)
qed

text \<open>C23: The counters refine the book of open positions. A new tracker represents the empty book,
  \<open>Register\<close> adds a holding and \<open>Release\<close> of a held one removes it, \<open>RefreshFromDB\<close> represents exactly
  the positions it is given whatever was counted before, and on a represented book every query is the
  corresponding count.\<close>

theorem Exposure_refines_book:
  assumes t: "tracks e M"
  shows "tracks (NewExposure a b) {#} \<and>
    tracks (Register side sector e) (add_mset (holding_of side sector) M) \<and>
    (holding_of side sector \<in># M \<longrightarrow> tracks (Release side sector e) (M - {#holding_of side sector#})) \<and>
    tracks (RefreshFromDB ps e) (mset (map (\<lambda>p. holding_of (pos_Side p) (pos_Sector p)) ps)) \<and>
    Total e = int (size M) \<and> Total e = Longs e + Shorts e \<and> SectorCount e s = int (in_sector M s)"
proof -
  have "size M = size (filter_mset (\<lambda>h. \<not> fst h) M) + size (filter_mset fst M)"
    by (metis multiset_partition size_union union_commute)
  then show ?thesis
    using t NewExposure_tracks Register_tracks [OF t] Release_tracks [OF t] RefreshFromDB_tracks tracks_SectorCount [OF t]
    by (auto simp: Total_def Longs_def Shorts_def tracks_def)
qed

lemma Exposure_refines_book_witness:
  "Total (NewExposure 1 4) = 0 \<and> tracks (Register SideLong ''IT'' (NewExposure 1 4)) {#holding_of SideLong ''IT''#}"
  using Exposure_refines_book [OF NewExposure_tracks [of 1 4], of 1 4 SideLong "''IT''" "[]" "''IT''"] by simp

text \<open>The ceilings hold at every moment of a session: from an empty tracker with a sector limit of at
  least one, any series of entries that pass \<open>EntryGate\<close> before they are registered, and of releases of
  held positions, keeps the number of positions within the total limit and every sector within its own.\<close>

theorem ceilings_hold:
  assumes "tracker.session (NewExposure maxSector maxTotal) {#} e M" "1 \<le> maxSector" "0 \<le> maxTotal"
  shows "Total e \<le> maxTotal \<and> SectorCount e s \<le> maxSector"
proof -
  have l: "ex_maxSector (NewExposure maxSector maxTotal) = maxSector" "ex_maxTotal (NewExposure maxSector maxTotal) = maxTotal"
    by (simp_all add: NewExposure_def)
  have "tracker.within_limits (NewExposure maxSector maxTotal) {#}"
    using assms(2,3) by (simp add: tracker.within_limits_def l)
  then have "tracker.within_limits e M"
    using tracker.session_within [OF assms(1) NewExposure_tracks] assms(2) l by simp
  moreover have "tracks e M \<and> ex_maxSector e = maxSector \<and> ex_maxTotal e = maxTotal"
    using tracker.session_represents [OF assms(1) NewExposure_tracks] l by simp
  ultimately show ?thesis using tracks_SectorCount [of e M s]
    by (simp add: tracker.within_limits_def Total_def tracks_def)
qed

lemma ceilings_hold_witness:
  "Total (Register SideLong ''IT'' (NewExposure 1 4)) \<le> 4 \<and>
   SectorCount (Register SideLong ''IT'' (NewExposure 1 4)) ''IT'' \<le> 1"
proof (rule ceilings_hold)
  have "tracker.session (NewExposure 1 4) {#} (register_holding (False, ''IT'') (NewExposure 1 4)) (add_mset (False, ''IT'') {#})"
    by (rule tracker.session.enter [OF tracker.session.start]) (simp add: EntryGate_def NewExposure_def)
  then show "tracker.session (NewExposure 1 4) {#} (Register SideLong ''IT'' (NewExposure 1 4)) {#(False, ''IT'')#}"
    by (simp add: register_holding_def)
qed simp_all

text \<open>The recount is not atomic. Once its four resets have run and before the first position is
  counted again, \<open>EntryGate\<close> lets any sector in, however many positions the book holds.\<close>

theorem recount_opens_gate:
  assumes "0 < ex_maxTotal e"
  shows "EntryGate (run_steps (take 4 (refresh_steps positions)) e) sector = None"
  using assms by (simp add: run_steps_def refresh_steps_def EntryGate_def numeral_eq_Suc)

lemma recount_opens_gate_witness:
  "EntryGate (run_steps (take 4 (refresh_steps []))
     (Register SideLong ''IT'' (NewExposure 1 4))) ''IT'' = None"
  by (rule recount_opens_gate) (simp add: NewExposure_def Register_limits)

section \<open>The directional ratio\<close>

lemma CheckBias_iff:
  assumes "0 \<le> longs" "0 \<le> shorts" "longs \<le> 2 ^ 50" "shorts \<le> 2 ^ 50"
  shows "CheckBias longs shorts side DefaultMaxBiasRatio = None \<longleftrightarrow>
     (let l = (if side = SideShort then longs else longs + 1); s = (if side = SideShort then shorts + 1 else shorts)
      in l = 0 \<or> s = 0 \<or> (l \<le> 3 * s \<and> s \<le> 3 * l))"
proof -
  have m: "DefaultMaxBiasRatio * f64_of_int k = f64_of_int (3 * k)" if "0 \<le> k" "k \<le> 2 ^ 50 + 1" for k
  proof -
    have "rnd (of_int (3 * k)) = Fin (of_int (3 * k))" using that by (intro rnd_of_int) auto
    then show ?thesis using that
      by (simp add: DefaultMaxBiasRatio_def f64_of_int_exact)
  qed
  have lt: "f64_of_int a < f64_of_int b \<longleftrightarrow> a < b" if "\<bar>a\<bar> \<le> 2 ^ 53" "\<bar>b\<bar> \<le> 2 ^ 53" for a b
    using that by (simp add: f64_of_int_exact)
  define l s where ls: "l = (if side = SideShort then longs else longs + 1)"
    "s = (if side = SideShort then shorts + 1 else shorts)"
  have b: "0 \<le> l" "l \<le> 2 ^ 50 + 1" "0 \<le> s" "s \<le> 2 ^ 50 + 1" using assms by (auto simp: ls)
  then have "DefaultMaxBiasRatio * f64_of_int s < f64_of_int l \<longleftrightarrow> 3 * s < l"
    "DefaultMaxBiasRatio * f64_of_int l < f64_of_int s \<longleftrightarrow> 3 * l < s"
    using lt [of "3 * s" l] lt [of "3 * l" s] by (auto simp: m)
  with b show ?thesis unfolding CheckBias_def Let_def ls [symmetric] by auto
qed

text \<open>C22: Gate 3 is exact in spite of its floats: at the default ratio it passes an entry precisely when,
  counting the entry, one side is empty or neither side exceeds three times the other.\<close>

theorem BiasGate_exact:
  assumes "ex_maxBias e = DefaultMaxBiasRatio" "0 \<le> Longs e" "0 \<le> Shorts e" "Longs e \<le> 2 ^ 50" "Shorts e \<le> 2 ^ 50"
  shows "BiasGate e side = None \<longleftrightarrow>
     (let l = Longs (Register side s e); r = Shorts (Register side s e)
      in l = 0 \<or> r = 0 \<or> (l \<le> 3 * r \<and> r \<le> 3 * l))"
proof -
  have "Longs (Register side s e) = (if side = SideShort then Longs e else Longs e + 1)"
    "Shorts (Register side s e) = (if side = SideShort then Shorts e + 1 else Shorts e)"
    by (simp_all add: Longs_def Shorts_def Register_def bump_sector_def Let_def)
  then show ?thesis using assms CheckBias_iff [of "Longs e" "Shorts e" side] by (simp add: BiasGate_def biasGate_def)
qed

lemma BiasGate_exact_witness:
  "BiasGate ((NewExposure 1 4)\<lparr>ex_longs := 3, ex_shorts := 1\<rparr>) SideLong \<noteq> None"
  using BiasGate_exact [of "(NewExposure 1 4)\<lparr>ex_longs := 3, ex_shorts := 1\<rparr>" SideLong "''IT''"]
  by (simp add: NewExposure_def Longs_def Shorts_def Register_def bump_sector_def)

end
