(* ===== verification/StatMath.thy ===== *)
theory StatMath
  imports Float64
begin

text \<open>
  The statistical primitives of \<open>src/pkg/math/math.go\<close>: sums, means, the population variance and
  standard deviation, the sliding moving average and the weighted average, in binary64. The
  lemmas bound them, and show that on integer-valued data below 2^53 the sliding moving
  average is the mean of every window.
\<close>

section \<open>The functions\<close>

definition Sum :: "float64 list \<Rightarrow> float64" where
  "Sum vals = foldl (\<lambda>s v. s + v) 0 vals"

definition Mean :: "float64 list \<Rightarrow> float64" where
  "Mean vals = (if length vals = 0 then 0 else Sum vals / f64_of_int (int (length vals)))"

definition Variance :: "float64 list \<Rightarrow> float64" where
  "Variance vals =
     (let n = length vals in
      if n < 2 then 0
      else let m = Mean vals;
               sumSq = foldl (\<lambda>s v. let d = v - m in s + d * d) 0 vals
           in sumSq / f64_of_int (int n))"

definition StdDev :: "float64 list \<Rightarrow> float64" where
  "StdDev vals = f64_sqrt (Variance vals)"

text \<open>The second loop of \<open>SMA\<close>: it adds the value that enters the window and takes away the one
  that leaves it.\<close>

function SMA_loop :: "float64 list \<Rightarrow> nat \<Rightarrow> nat \<Rightarrow> float64 \<Rightarrow> float64 list" where
  "SMA_loop vals window i acc =
     (if i < length vals
      then let acc' = acc + (vals ! i - vals ! (i - window))
           in acc' / f64_of_int (int window) # SMA_loop vals window (Suc i) acc'
      else [])"
  by pat_completeness auto
termination by (relation "measure (\<lambda>(vals, _, i, _). length vals - i)") auto

declare SMA_loop.simps [simp del]

text \<open>A nil slice is the empty list.\<close>

definition SMA :: "float64 list \<Rightarrow> int \<Rightarrow> float64 list" where
  "SMA vals window =
     (if window < 1 \<or> int (length vals) < window then []
      else let w = nat window; acc = foldl (\<lambda>s i. s + vals ! i) 0 [0..<w]
           in acc / f64_of_int window # SMA_loop vals w w acc)"

definition WeightedAverage :: "float64 list \<Rightarrow> float64 list \<Rightarrow> float64 \<times> bool" where
  "WeightedAverage vals weights =
     (if length vals = 0 \<or> length vals \<noteq> length weights then (0, False)
      else let (wSum, vwSum) = foldl (\<lambda>(wSum, vwSum) i. (wSum + weights ! i, vwSum + vals ! i * weights ! i))
                                 (0, 0) [0..<length vals]
           in if feq wSum 0 then (0, False) else (vwSum / wSum, True))"

section \<open>Bounds\<close>

text \<open>A finite value of bounded magnitude.\<close>

definition fbound :: "rat \<Rightarrow> float64 \<Rightarrow> bool" where
  "fbound b x \<longleftrightarrow> (\<exists>r. x = Fin r \<and> \<bar>r\<bar> \<le> b)"

lemma fbound_Fin [simp]: "fbound b (Fin r) \<longleftrightarrow> \<bar>r\<bar> \<le> b"
  by (auto simp: fbound_def)

lemma fboundE: "fbound b x \<Longrightarrow> (\<And>r. x = Fin r \<Longrightarrow> \<bar>r\<bar> \<le> b \<Longrightarrow> P) \<Longrightarrow> P"
  by (auto simp: fbound_def)

lemma fbound_mono: "fbound a x \<Longrightarrow> a \<le> b \<Longrightarrow> fbound b x"
  by (auto simp: fbound_def)

lemma fbound_not_NaN: "fbound b x \<Longrightarrow> x \<noteq> NaN \<and> is_fin x"
  by (auto simp: fbound_def)

lemma fbound_zero: "0 \<le> b \<Longrightarrow> fbound b 0"
  by (simp add: zero_float64_Fin)

lemma fbound_rnd: "\<bar>r\<bar> \<le> b \<Longrightarrow> is_f64 (Fin b) \<Longrightarrow> fbound b (rnd r)"
  using rnd_bounded [of r b] fl_abs_le [of r b] by simp

lemma fbound_add: "fbound a x \<Longrightarrow> fbound b y \<Longrightarrow> is_f64 (Fin (a + b)) \<Longrightarrow> fbound (a + b) (x + y)"
  by (elim fboundE) (auto simp del: is_f64.simps intro!: fbound_rnd)

lemma fbound_diff: "fbound a x \<Longrightarrow> fbound b y \<Longrightarrow> is_f64 (Fin (a + b)) \<Longrightarrow> fbound (a + b) (x - y)"
  by (elim fboundE) (auto simp: f64_minus_Fin simp del: is_f64.simps intro!: fbound_rnd)

lemma fbound_mult: "fbound a x \<Longrightarrow> fbound b y \<Longrightarrow> is_f64 (Fin (a * b)) \<Longrightarrow> fbound (a * b) (x * y)"
  by (elim fboundE) (auto simp: abs_mult simp del: is_f64.simps intro!: fbound_rnd mult_mono)

lemma fbound_div:
  "fbound (of_int n * b) x \<Longrightarrow> 0 < n \<Longrightarrow> n \<le> 2 ^ 53 \<Longrightarrow> is_f64 (Fin b) \<Longrightarrow> fbound b (x / f64_of_int n)"
  by (elim fboundE) (auto simp: f64_of_int_exact divide_le_eq mult.commute abs_div_pos [symmetric]
      simp del: is_f64.simps intro!: fbound_rnd)

text \<open>Multiples of a power of two.\<close>

lemma is_f64_mult_pw:
  assumes "\<bar>m\<bar> \<le> 2 ^ 53" "-1022 \<le> e" "e \<le> 970"
  shows "is_f64 (Fin (of_int m * pw e))"
proof -
  have "fl (of_int m * pw e) = of_int m * pw e" using assms by (intro fl_rep) auto
  moreover have "\<bar>of_int m * pw e\<bar> \<le> 2 ^ 53 * pw 970"
    using assms by (auto simp: abs_mult simp del: pw_numeral intro!: mult_mono)
  then have "\<bar>of_int m * pw e\<bar> \<le> pw 1023" by (simp add: power_add [symmetric])
  then have "\<bar>of_int m * pw e\<bar> < pw 1024"
    by (rule order.strict_trans1) simp
  ultimately show ?thesis by simp
qed

lemma foldl_sum_fbound:
  assumes f: "\<And>v. v \<in> set vals \<Longrightarrow> fbound (pw e) (f v)"
    and s: "fbound (of_nat k * pw e) s" and e: "-1022 \<le> e" "e \<le> 970"
    and n: "k + length vals \<le> 2 ^ 53"
  shows "fbound (of_nat (k + length vals) * pw e) (foldl (\<lambda>s v. s + f v) s vals)"
  using f s n
proof (induction vals arbitrary: s k)
  case Nil
  then show ?case by simp
next
  case (Cons v vals)
  have "\<bar>int (Suc k)\<bar> \<le> 2 ^ 53" using Cons.prems(3) by simp
  from is_f64_mult_pw [OF this e] have "is_f64 (Fin (of_nat k * pw e + pw e))"
    by (simp add: distrib_right add.commute del: is_f64.simps)
  then have "fbound (of_nat k * pw e + pw e) (s + f v)"
    using Cons.prems by (intro fbound_add) auto
  then have "fbound (of_nat (Suc k) * pw e) (s + f v)" by (simp add: distrib_right add.commute)
  with Cons.IH [of "Suc k" "s + f v"] Cons.prems show ?case by simp
qed

lemma pw_f64: "-1022 \<le> e \<Longrightarrow> e \<le> 970 \<Longrightarrow> is_f64 (Fin (pw e))"
  by (rule pw_is_f64) auto

lemma Mean_fbound:
  assumes "\<And>v. v \<in> set vals \<Longrightarrow> fbound (pw e) v" "length vals \<le> 2 ^ 53" "-1022 \<le> e" "e \<le> 970"
  shows "fbound (pw e) (Mean vals)"
proof (cases "vals = []")
  case False
  have "fbound (of_nat (0 + length vals) * pw e) (foldl (\<lambda>s v. s + v) 0 vals)"
    using assms by (intro foldl_sum_fbound [where f = "\<lambda>v. v"]) (auto simp: zero_float64_Fin)
  then have "fbound (of_int (int (length vals)) * pw e) (Sum vals)" by (simp add: Sum_def)
  then have "fbound (pw e) (Sum vals / f64_of_int (int (length vals)))"
    using False assms pw_f64 [of e] by (intro fbound_div) auto
  with False show ?thesis by (simp add: Mean_def)
qed (simp add: Mean_def fbound_zero)

lemma Variance_fbound:
  assumes v: "\<And>v. v \<in> set vals \<Longrightarrow> fbound (pw e) v" and n: "length vals \<le> 2 ^ 53"
    and e: "-500 \<le> e" "e \<le> 480"
  shows "fbound (pw (2 * e + 2)) (Variance vals)"
proof (cases "length vals < 2")
  case False
  let ?m = "Mean vals"
  have m: "fbound (pw e) ?m" using assms by (intro Mean_fbound) auto
  have d: "fbound (pw (e + 1)) (v - ?m)" if "v \<in> set vals" for v
    using fbound_diff [OF v [OF that] m] e pw_f64 [of "e + 1"] by (simp add: pw_plus_one)
  have dd: "fbound (pw (2 * e + 2)) ((v - ?m) * (v - ?m))" if "v \<in> set vals" for v
    using fbound_mult [OF d [OF that] d [OF that]] e pw_f64 [of "2 * e + 2"]
    by (simp add: pw_add [symmetric] algebra_simps)
  have "fbound (of_nat (0 + length vals) * pw (2 * e + 2))
      (foldl (\<lambda>s v. s + (v - ?m) * (v - ?m)) 0 vals)"
    using dd e n by (intro foldl_sum_fbound) (auto simp: zero_float64_Fin)
  then have "fbound (of_int (int (length vals)) * pw (2 * e + 2))
      (foldl (\<lambda>s v. s + (v - ?m) * (v - ?m)) 0 vals)" by simp
  then have "fbound (pw (2 * e + 2))
      (foldl (\<lambda>s v. s + (v - ?m) * (v - ?m)) 0 vals / f64_of_int (int (length vals)))"
    using False n e pw_f64 [of "2 * e + 2"] by (intro fbound_div) auto
  with False show ?thesis by (simp add: Variance_def Let_def)
qed (simp add: Variance_def fbound_zero)

lemma foldl_square_nonneg:
  "0 \<le> s \<Longrightarrow> (\<And>v. v \<in> set vals \<Longrightarrow> 0 \<le> f v) \<Longrightarrow> 0 \<le> foldl (\<lambda>s v. s + f v) s (vals :: 'a list)"
  for s :: float64
  by (induction vals arbitrary: s) (auto intro: f64_add_nonneg)

text \<open>A variance is never negative, and is a number as soon as the values are.\<close>

lemma Variance_nonneg:
  assumes v: "\<And>v. v \<in> set vals \<Longrightarrow> fbound (pw e) v" and n: "length vals \<le> 2 ^ 53"
    and e: "-500 \<le> e" "e \<le> 480"
  shows "0 \<le> Variance vals"
proof (cases "length vals < 2")
  case False
  let ?m = "Mean vals"
  have nan: "Variance vals \<noteq> NaN" using Variance_fbound [OF assms] fbound_not_NaN by blast
  have m: "fbound (pw e) ?m" using assms by (intro Mean_fbound) auto
  have "0 \<le> (v - ?m) * (v - ?m)" if "v \<in> set vals" for v
  proof (rule f64_square_nonneg)
    show "(v - ?m) * (v - ?m) \<noteq> NaN"
      using v [OF that] m by (elim fboundE) (auto simp: f64_minus_Fin rnd_def Let_def inf_of_def)
  qed
  then have "0 \<le> foldl (\<lambda>s v. s + (v - ?m) * (v - ?m)) 0 vals"
    by (intro foldl_square_nonneg) (auto simp: zero_float64_Fin)
  then have "0 \<le> foldl (\<lambda>s v. s + (v - ?m) * (v - ?m)) 0 vals / f64_of_int (int (length vals))"
    using False nan by (intro f64_divide_nonneg f64_of_int_less_0) (auto simp: Variance_def Let_def)
  with False show ?thesis by (simp add: Variance_def Let_def)
qed (simp add: Variance_def zero_float64_Fin)

lemma f64_sqrt_fbound:
  assumes x: "0 \<le> x" "fbound (pw (2 * e)) x" and e: "-500 \<le> e" "e \<le> 480"
  shows "fbound (pw (e + 1)) (f64_sqrt x)"
proof -
  from x(2) obtain r where xr: "x = Fin r" and rb: "\<bar>r\<bar> \<le> pw (2 * e)" by (rule fboundE)
  show ?thesis
  proof (cases "r = 0")
    case False
    with x xr have r: "0 < r" by simp
    define k where "k = 56 - ilog2 r div 2"
    define n where "n = \<lfloor>r * pw (2 * k)\<rfloor>"
    define s where "s = isqrt_bits 57 n 0"
    define t where "t = (if of_int (s * s) = r * pw (2 * k) then of_int s else of_int s + 1/2 :: rat)"
    have rk: "r < pw (ilog2 r + 1)" using ilog2_bounds r by blast
    have n0: "0 \<le> n" using r by (simp add: n_def)
    have "r * pw (2 * k) < pw (ilog2 r + 1) * pw (2 * k)" using rk by simp
    also have "\<dots> = pw (ilog2 r + 1 + 2 * k)" by (simp only: pw_add)
    also have "\<dots> \<le> pw 114" unfolding pw_le_iff k_def by presburger
    also have "\<dots> = of_int (2 ^ 114)" by simp
    finally have "of_int n < (of_int (2 ^ 114) :: rat)" unfolding n_def
      by (rule order.strict_trans1 [OF of_int_floor_le])
    then have n114: "n < 2 ^ 114" by (simp only: of_int_less_iff)
    then have sn: "0 \<le> s" "s * s \<le> n"
      using isqrt_bits_bounds [of 0 n 57] n0 by (simp_all add: s_def)
    have "ilog2 r \<le> 2 * e"
    proof (rule ccontr)
      assume "\<not> ilog2 r \<le> 2 * e"
      then have "pw (2 * e) < pw (ilog2 r)" by simp
      with ilog2_bounds(1) [of r] r rb show False by simp
    qed
    then have ke: "0 \<le> k + e" unfolding k_def by presburger
    have "of_int (s * s) \<le> (of_int n :: rat)" using sn by (simp only: of_int_le_iff)
    also have "\<dots> \<le> r * pw (2 * k)" unfolding n_def by simp
    also have "\<dots> \<le> pw (2 * e) * pw (2 * k)" using rb r by (intro mult_right_mono) auto
    also have "\<dots> = pw (k + e) * pw (k + e)" by (simp add: pw_add [symmetric] algebra_simps)
    finally have "(of_int s)\<^sup>2 \<le> (pw (k + e))\<^sup>2" by (simp add: power2_eq_square)
    then have "of_int s \<le> pw (k + e)" by (rule power2_le_imp_le) simp
    moreover have "1 \<le> pw (k + e)" using ke pw_le_iff [of 0 "k + e"] by (simp del: pw_le_iff)
    ultimately have "t \<le> pw (k + e + 1)" and "0 \<le> t" using sn by (auto simp: t_def pw_plus_one)
    then have "\<bar>t / pw k\<bar> \<le> pw (e + 1)"
      by (simp add: divide_le_eq pw_add [symmetric] algebra_simps)
    then have "fbound (pw (e + 1)) (rnd (t / pw k))"
      using e pw_f64 [of "e + 1"] by (intro fbound_rnd) auto
    moreover have "f64_sqrt x = rnd (t / pw k)"
      unfolding xr f64_sqrt.simps Let_def t_def s_def n_def k_def using r by simp
    ultimately show ?thesis by simp
  qed (simp add: xr)
qed

section \<open>The moving average of integer-valued data\<close>

text \<open>The integers below 2^53 add up exactly in binary64, whatever the order.\<close>

lemma f64_int_add:
  "\<bar>a + b\<bar> \<le> 2 ^ 53 \<Longrightarrow> Fin (of_int a) + Fin (of_int b) = Fin (of_int (a + b))"
  using f64_of_int_exact [of "a + b"] by (simp add: f64_of_int_def)

lemma f64_int_diff:
  "\<bar>a - b\<bar> \<le> 2 ^ 53 \<Longrightarrow> Fin (of_int a) - Fin (of_int b) = Fin (of_int (a - b))"
  using f64_of_int_exact [of "a - b"] by (simp add: f64_of_int_def f64_minus_Fin)

lemma foldl_int_sum:
  "\<bar>a\<bar> + (\<Sum>x\<leftarrow>xs. \<bar>x\<bar>) \<le> 2 ^ 53 \<Longrightarrow>
     foldl (\<lambda>s v. s + v) (Fin (of_int a)) (map f64_of_int xs) = Fin (of_int (a + sum_list xs))"
proof (induction xs arbitrary: a)
  case (Cons x xs)
  have nn: "0 \<le> (\<Sum>x\<leftarrow>xs. \<bar>x\<bar>)" by (rule sum_list_nonneg) auto
  then have "Fin (of_int a) + f64_of_int x = Fin (of_int (a + x))"
    using Cons.prems f64_of_int_exact [of x] f64_int_add [of a x] by simp
  moreover have "\<bar>a + x\<bar> + (\<Sum>x\<leftarrow>xs. \<bar>x\<bar>) \<le> 2 ^ 53" using Cons.prems by simp
  note Cons.IH [OF this]
  ultimately show ?case by (simp add: add.assoc)
qed simp

lemma Sum_ints: "(\<Sum>x\<leftarrow>xs. \<bar>x\<bar>) \<le> 2 ^ 53 \<Longrightarrow> Sum (map f64_of_int xs) = Fin (of_int (sum_list xs))"
  using foldl_int_sum [of 0 xs] by (simp add: Sum_def zero_float64_Fin)

definition window_sum :: "int list \<Rightarrow> nat \<Rightarrow> nat \<Rightarrow> int" where
  "window_sum xs w j = sum_list (take w (drop j xs))"

lemma window_sum_Suc:
  assumes "j + w < length xs" shows "window_sum xs w (Suc j) = window_sum xs w j + (xs ! (j + w) - xs ! j)"
proof -
  have "take (Suc w) (drop j xs) = xs ! j # take w (drop (Suc j) xs)"
    using assms by (metis Cons_nth_drop_Suc add_lessD1 take_Suc_Cons)
  moreover have "take (Suc w) (drop j xs) = take w (drop j xs) @ [xs ! (j + w)]"
    using assms by (subst take_Suc_conv_app_nth) auto
  ultimately have "xs ! j + window_sum xs w (Suc j) = window_sum xs w j + xs ! (j + w)"
    unfolding window_sum_def by (metis sum_list.Cons sum_list_append sum_list.Nil add_0_right)
  then show ?thesis by simp
qed

lemma sum_list_abs_nonneg [simp]: "0 \<le> (\<Sum>x\<leftarrow>xs. \<bar>x :: int\<bar>)"
  by (rule sum_list_nonneg) auto

lemma abs_elem_le: "x \<in> set xs \<Longrightarrow> \<bar>x\<bar> \<le> (\<Sum>x\<leftarrow>xs. \<bar>x :: int\<bar>)"
  by (intro member_le_sum_list) auto

lemma window_sum_abs: "(\<Sum>x\<leftarrow>take w (drop j xs). \<bar>x\<bar>) \<le> (\<Sum>x\<leftarrow>xs. \<bar>x :: int\<bar>)"
proof -
  have "(\<Sum>x\<leftarrow>xs. \<bar>x\<bar>) = (\<Sum>x\<leftarrow>take j xs. \<bar>x\<bar>) + ((\<Sum>x\<leftarrow>take w (drop j xs). \<bar>x\<bar>) + (\<Sum>x\<leftarrow>drop w (drop j xs). \<bar>x\<bar>))"
    by (metis append_take_drop_id map_append sum_list_append)
  then show ?thesis using sum_list_abs_nonneg [of "take j xs"] sum_list_abs_nonneg [of "drop w (drop j xs)"]
    by linarith
qed

lemma abs_window_sum: "\<bar>window_sum xs w j\<bar> \<le> (\<Sum>x\<leftarrow>xs. \<bar>x\<bar>)"
  using window_sum_abs [of w j xs] sum_list_abs [of "take w (drop j xs)"] by (simp add: window_sum_def)

lemma abs_two_elems:
  assumes "i < j" "j < length xs" shows "\<bar>xs ! j - xs ! i\<bar> \<le> (\<Sum>x\<leftarrow>xs. \<bar>x :: int\<bar>)"
proof -
  have "xs ! i \<in> set (take j xs)" using assms by (auto simp: in_set_conv_nth)
  then have "\<bar>xs ! i\<bar> \<le> (\<Sum>x\<leftarrow>take j xs. \<bar>x\<bar>)" by (rule abs_elem_le)
  moreover have "xs ! j \<in> set (drop j xs)" using assms by (metis Cons_nth_drop_Suc list.set_intros(1))
  then have "\<bar>xs ! j\<bar> \<le> (\<Sum>x\<leftarrow>drop j xs. \<bar>x\<bar>)" by (rule abs_elem_le)
  moreover have "(\<Sum>x\<leftarrow>xs. \<bar>x\<bar>) = (\<Sum>x\<leftarrow>take j xs. \<bar>x\<bar>) + (\<Sum>x\<leftarrow>drop j xs. \<bar>x\<bar>)"
    by (metis append_take_drop_id map_append sum_list_append)
  ultimately show ?thesis by linarith
qed

lemma SMA_loop_ints:
  assumes T: "(\<Sum>x\<leftarrow>xs. \<bar>x\<bar>) \<le> 2 ^ 53" and w: "0 < w"
  shows "w \<le> i \<Longrightarrow> i \<le> length xs \<Longrightarrow>
    SMA_loop (map f64_of_int xs) w i (Fin (of_int (window_sum xs w (i - w)))) =
    map (\<lambda>j. Fin (of_int (window_sum xs w j)) / f64_of_int (int w)) [Suc (i - w)..<Suc (length xs - w)]"
proof (induction "length xs - i" arbitrary: i)
  case 0
  then show ?case by (simp add: SMA_loop.simps)
next
  case (Suc n)
  then have i: "i < length xs" "w \<le> i" by auto
  have e: "\<bar>xs ! k\<bar> \<le> 2 ^ 53" if "k < length xs" for k
    using T abs_elem_le [of "xs ! k" xs] nth_mem [OF that] by linarith
  have "\<bar>xs ! i - xs ! (i - w)\<bar> \<le> 2 ^ 53" using abs_two_elems [of "i - w" i xs] i w T by simp
  then have d: "f64_of_int (xs ! i) - f64_of_int (xs ! (i - w)) = Fin (of_int (xs ! i - xs ! (i - w)))"
    using i e [of i] e [of "i - w"] f64_int_diff by (simp add: f64_of_int_exact)
  have s: "window_sum xs w (Suc (i - w)) = window_sum xs w (i - w) + (xs ! i - xs ! (i - w))"
    using window_sum_Suc [of "i - w" w xs] i by simp
  have "Fin (of_int (window_sum xs w (i - w))) + Fin (of_int (xs ! i - xs ! (i - w))) =
        Fin (of_int (window_sum xs w (Suc (i - w))))"
    unfolding s using abs_window_sum [of xs w "Suc (i - w)"] T s by (intro f64_int_add) auto
  with d i have "SMA_loop (map f64_of_int xs) w i (Fin (of_int (window_sum xs w (i - w)))) =
     Fin (of_int (window_sum xs w (Suc (i - w)))) / f64_of_int (int w) #
     SMA_loop (map f64_of_int xs) w (Suc i) (Fin (of_int (window_sum xs w (Suc i - w))))"
    by (subst SMA_loop.simps) (simp add: Let_def Suc_diff_le)
  with Suc.hyps(1) [of "Suc i"] Suc.hyps(2) i show ?case
    by (simp add: upt_conv_Cons [of "Suc (i - w)"] Suc_diff_le diff_less_mono del: upt_Suc)
qed

lemma Sum_window:
  assumes "(\<Sum>x\<leftarrow>xs. \<bar>x\<bar>) \<le> 2 ^ 53"
  shows "Sum (take w (drop j (map f64_of_int xs))) = Fin (of_int (window_sum xs w j))"
proof -
  have "Sum (map f64_of_int (take w (drop j xs))) = Fin (of_int (window_sum xs w j))"
    using window_sum_abs [of w j xs] assms by (simp add: Sum_ints window_sum_def)
  then show ?thesis by (simp add: take_map drop_map)
qed

lemma Sum_prefix: "w \<le> length vals \<Longrightarrow> foldl (\<lambda>s i. s + vals ! i) 0 [0..<w] = Sum (take w vals)"
proof -
  assume w: "w \<le> length vals"
  have "foldl (\<lambda>s i. s + vals ! i) 0 [0..<w] = foldl (\<lambda>s v. s + v) 0 (map (\<lambda>i. vals ! i) [0..<w])"
    by (simp add: foldl_map)
  also have "map (\<lambda>i. vals ! i) [0..<w] = take w vals" using w by (intro nth_equalityI) auto
  finally show ?thesis by (simp add: Sum_def)
qed

text \<open>The number of averages, for any data at all.\<close>

lemma length_SMA_loop: "length (SMA_loop vals w i acc) = length vals - i"
  by (induction vals w i acc rule: SMA_loop.induct) (subst SMA_loop.simps, auto simp: Let_def)

lemma length_SMA:
  "length (SMA vals window) =
     (if window < 1 \<or> int (length vals) < window then 0 else Suc (length vals - nat window))"
  by (simp add: SMA_def Let_def length_SMA_loop)

text \<open>On integer-valued data whose absolute values sum to at most 2^53, the running sum of
  \<open>SMA\<close> accumulates no error: its results are the means of all the windows, in order.\<close>

theorem SMA_windows:
  assumes T: "(\<Sum>x\<leftarrow>xs. \<bar>x\<bar>) \<le> 2 ^ 53" and w: "1 \<le> w" "w \<le> length xs"
  shows "SMA (map f64_of_int xs) (int w) =
     map (\<lambda>i. Mean (take w (drop i (map f64_of_int xs)))) [0..<Suc (length xs - w)]"
proof -
  have m: "Mean (take w (drop i (map f64_of_int xs))) = Fin (of_int (window_sum xs w i)) / f64_of_int (int w)"
    if "i \<le> length xs - w" for i
    using that w T Sum_window [OF T, of w i] by (simp add: Mean_def)
  have "SMA (map f64_of_int xs) (int w) = Fin (of_int (window_sum xs w 0)) / f64_of_int (int w) #
      SMA_loop (map f64_of_int xs) w w (Fin (of_int (window_sum xs w 0)))"
    using w Sum_window [OF T, of w 0] by (simp add: SMA_def Sum_prefix Let_def)
  also have "SMA_loop (map f64_of_int xs) w w (Fin (of_int (window_sum xs w 0))) =
      map (\<lambda>j. Fin (of_int (window_sum xs w j)) / f64_of_int (int w)) [1..<Suc (length xs - w)]"
    using SMA_loop_ints [OF T, of w w] w by (simp del: upt_Suc)
  also have "Fin (of_int (window_sum xs w 0)) / f64_of_int (int w) # \<dots> =
      map (\<lambda>j. Fin (of_int (window_sum xs w j)) / f64_of_int (int w)) [0..<Suc (length xs - w)]"
    by (simp add: upt_conv_Cons [of 0] del: upt_Suc)
  also have "\<dots> = map (\<lambda>i. Mean (take w (drop i (map f64_of_int xs)))) [0..<Suc (length xs - w)]"
    by (rule map_cong [OF refl], rule m [symmetric]) auto
  finally show ?thesis .
qed

lemma SMA_windows_witness:
  "SMA (map f64_of_int [1, 2, 3, 6]) (int 2) =
   map (\<lambda>i. Mean (take 2 (drop i (map f64_of_int [1, 2, 3, 6])))) [0..<Suc (length [1, 2, 3, 6 :: int] - 2)]"
  by (rule SMA_windows) simp_all

end
