(* ===== verification/Gates.thy ===== *)
theory Gates
  imports StatMath Models
begin

text \<open>
  The stateless rules of the Risk Manager: the trading window (\<open>timeguard.go\<close>), the capital allocator
  and the default stop (\<open>allocator.go\<close>), the profit target (\<open>executor.go\<close>) and the sentiment gate
  (\<open>sentiment.go\<close>), all under \<open>src/analysts/riskmanager\<close>. Prices and sizes are binary64, and the
  lemmas bound what rounding does to the risk budget and to the order of stop, price and target.
\<close>

section \<open>The trading window\<close>

definition ErrOpeningBuffer :: error where
  "ErrOpeningBuffer = Sentinel ''market opening buffer (09:15-09:30 IST)''"
definition ErrClosingCutoff :: error where
  "ErrClosingCutoff = Sentinel ''after closing cutoff (15:00 IST)''"

definition timeWindowGuard :: "Time \<Rightarrow> error option" where
  "timeWindowGuard now =
     (if IsOpeningBuffer now then Some ErrOpeningBuffer
      else if IsClosingCutoff now then Some ErrClosingCutoff
      else None)"

text \<open>Exactly which instants \<open>timeWindowGuard\<close> admits. On Indian weekdays it refuses the open interval
  from 09:15 to 09:30 and everything from 15:00 on, each with its own error; it admits all of the
  weekend, the night and early morning, and the two instants 09:15:00 and 09:30:00. The market hours
  of \<open>IsMarketOpen\<close> are admitted.\<close>

theorem timeWindowGuard_exact:
  "timeWindowGuard t =
     (if is_weekend ist t then None
      else if 33300 * nsec < ns_of_day ist t \<and> ns_of_day ist t < 34200 * nsec then Some ErrOpeningBuffer
      else if 54000 * nsec \<le> ns_of_day ist t then Some ErrClosingCutoff
      else None) \<and>
   (IsMarketOpen t \<longrightarrow> timeWindowGuard t = None)"
  by (auto simp: timeWindowGuard_def guard_simps nsec_def)

lemma timeWindowGuard_exact_witness: "timeWindowGuard (6 * Hour) = None"
proof -
  have "IsMarketOpen (6 * Hour)"
    by (simp add: IsMarketOpen_iff is_weekend_def Weekday_def civil_day_def ns_of_day_def ist_def nsec_def Hour_def
        day_ns_def Saturday_def Sunday_def)
  then show ?thesis using timeWindowGuard_exact [of "6 * Hour"] by blast
qed

section \<open>Reading a number from the environment\<close>

text \<open>\<open>strconv.ParseFloat\<close> with 64 bits: decimal literals with an optional exponent, and the names of the
  infinities and of the NaN in any case. A value out of range is an error. Hexadecimal literals are not
  modelled.\<close>

fun strip_sign :: "string \<Rightarrow> int \<times> string" where
  "strip_sign [] = (1, [])"
| "strip_sign (c # s) = (if c = CHR ''+'' then (1, s) else if c = CHR ''-'' then (- 1, s) else (1, c # s))"

definition ErrSyntax :: error where "ErrSyntax = Sentinel ''invalid syntax''"
definition ErrRange :: error where "ErrRange = Sentinel ''value out of range''"

definition parse_exponent :: "string \<Rightarrow> int option" where
  "parse_exponent s =
     (case s of
        [] \<Rightarrow> Some 0
      | c # r \<Rightarrow>
          if c \<noteq> CHR ''e'' then None
          else case strip_sign r of (sg, ds) \<Rightarrow>
            if ds = [] \<or> \<not> list_all is_digit ds then None else Some (sg * digits_value ds))"

definition ParseFloat :: "string \<Rightarrow> error + float64" where
  "ParseFloat raw =
     (let s = ToLower raw; (sg, body) = strip_sign s in
      if body = ''inf'' \<or> body = ''infinity'' then Inr (if sg < 0 then NegInf else PosInf)
      else if s = ''nan'' then Inr NaN
      else
        let whole = takeWhile is_digit body; rest = dropWhile is_digit body;
            (frac, rest) = (case rest of
               c # r \<Rightarrow> if c = CHR ''.'' then (takeWhile is_digit r, dropWhile is_digit r) else ([], rest)
             | [] \<Rightarrow> ([], []))
        in if whole @ frac = [] then Inl ErrSyntax
           else case parse_exponent rest of
             None \<Rightarrow> Inl ErrSyntax
           | Some ex \<Rightarrow>
               let e = ex - int (length frac);
                   m = of_int (sg * digits_value (whole @ frac));
                   v = rnd (if 0 \<le> e then m * 10 ^ nat e else m / 10 ^ nat (- e))
               in if is_fin v then Inr v else Inl ErrRange)"

definition parseFloat :: "string \<Rightarrow> float64" where
  "parseFloat s = (case ParseFloat s of Inl _ \<Rightarrow> Fin (- 1) | Inr v \<Rightarrow> v)"

section \<open>The capital allocator\<close>

definition DefaultRiskPercent :: float64 where "DefaultRiskPercent = flt (2 / 100)"
definition DefaultTotalCapital :: float64 where "DefaultTotalCapital = flt 1000000"

definition CalculateQuantityPct :: "float64 \<Rightarrow> float64 \<Rightarrow> float64 \<Rightarrow> float64 \<Rightarrow> int" where
  "CalculateQuantityPct totalCapital entryPrice stopLoss riskPercent =
     (if totalCapital \<le> 0 \<or> entryPrice \<le> 0 \<or> stopLoss \<le> 0 then 0
      else let riskPerShare = \<bar>entryPrice - stopLoss\<bar>
           in if riskPerShare \<le> 0 then 0
              else f64_to_int (totalCapital * riskPercent / riskPerShare))"

definition CalculateQuantity :: "float64 \<Rightarrow> float64 \<Rightarrow> float64 \<Rightarrow> int" where
  "CalculateQuantity totalCapital entryPrice stopLoss =
     CalculateQuantityPct totalCapital entryPrice stopLoss DefaultRiskPercent"

text \<open>The argument is the value of \<open>TOTAL_CAPITAL\<close>.\<close>

definition LoadTotalCapital :: "string \<Rightarrow> float64" where
  "LoadTotalCapital raw =
     (if raw \<noteq> '''' \<and> 0 < parseFloat raw then parseFloat raw else DefaultTotalCapital)"

text \<open>The constants \<open>1 + DefaultStopPct\<close> and \<open>1 - DefaultStopPct\<close> are exact until they are rounded.\<close>

definition stopLossFor :: "TradeIntent \<Rightarrow> float64" where
  "stopLossFor intent =
     (if ti_Side intent = SideShort then ti_CurrentPrice intent * flt (105 / 100)
      else ti_CurrentPrice intent * flt (95 / 100))"

definition DefaultRewardRiskRatio :: float64 where "DefaultRewardRiskRatio = flt 2"

definition calculateTakeProfit :: "Side \<Rightarrow> float64 \<Rightarrow> float64 \<Rightarrow> float64" where
  "calculateTakeProfit side entry stopLoss =
     (let risk = (if side = SideShort then stopLoss - entry else entry - stopLoss) in
      if risk \<le> 0 then 0
      else let target = DefaultRewardRiskRatio * risk
           in if side = SideShort then entry - target else entry + target)"

section \<open>The sentiment gate\<close>

definition DefaultMinConfidence :: float64 where "DefaultMinConfidence = flt (3 / 10)"

definition ErrSentimentLowConfidence :: error where
  "ErrSentimentLowConfidence = Sentinel ''sentiment confidence below threshold''"
definition ErrSentimentMissing :: error where
  "ErrSentimentMissing = Sentinel ''no sentiment score for ticker''"

definition minConfidenceFromEnv :: "string \<Rightarrow> float64" where
  "minConfidenceFromEnv raw =
     (if raw \<noteq> '''' \<and> 0 \<le> parseFloat raw \<and> parseFloat raw \<le> 1 then parseFloat raw else DefaultMinConfidence)"

text \<open>A store is its method \<open>LatestScore\<close>; \<open>None\<close> is the nil store.\<close>

definition SentimentGateRaw ::
    "(string \<Rightarrow> error + SentimentScore option) option \<Rightarrow> string \<Rightarrow> float64 \<Rightarrow> error option" where
  "SentimentGateRaw store ticker minConfidence =
     (case store of
        None \<Rightarrow> None
      | Some LatestScore \<Rightarrow>
          (case LatestScore ticker of
             Inl err \<Rightarrow> Some err
           | Inr None \<Rightarrow> Some ErrSentimentMissing
           | Inr (Some score) \<Rightarrow>
               if ss_Confidence score < minConfidence then Some ErrSentimentLowConfidence else None))"

definition sentimentGate ::
    "(string \<Rightarrow> error + SentimentScore option) option \<Rightarrow> string \<Rightarrow> float64 \<Rightarrow> error option" where
  "sentimentGate store ticker minConfidence = SentimentGateRaw store ticker minConfidence"

text \<open>The environment cannot disable the risk parameters: whatever text the two variables hold, the
  capital is positive and the confidence floor lies between 0 and 1, and neither is a NaN.\<close>

theorem environment_parameters:
  "0 < LoadTotalCapital raw \<and> 0 \<le> minConfidenceFromEnv raw \<and> minConfidenceFromEnv raw \<le> 1"
proof -
  have "0 < DefaultTotalCapital" by (simp add: DefaultTotalCapital_def)
  moreover have "rnd 0 \<le> rnd (3 / 10)" "rnd (3 / 10) \<le> rnd 1" by (intro rnd_mono; simp)+
  then have "0 \<le> DefaultMinConfidence" "DefaultMinConfidence \<le> 1"
    by (simp_all add: DefaultMinConfidence_def flt_def zero_float64_Fin one_float64_def)
  ultimately show ?thesis by (simp add: LoadTotalCapital_def minConfidenceFromEnv_def)
qed

section \<open>The risk budget\<close>

lemma f64_to_int_bounds:
  assumes "0 \<le> r"
  shows "of_int (f64_to_int (Fin r)) \<le> r" and "0 \<le> f64_to_int (Fin r) \<Longrightarrow> r < of_int (f64_to_int (Fin r)) + 1"
proof -
  have t: "rat_trunc r = \<lfloor>r\<rfloor>" using assms by (simp add: rat_trunc_def)
  show "of_int (f64_to_int (Fin r)) \<le> r" using assms by (simp add: t)
  assume "0 \<le> f64_to_int (Fin r)"
  then have "f64_to_int (Fin r) = \<lfloor>r\<rfloor>" by (simp add: t split: if_splits)
  then show "r < of_int (f64_to_int (Fin r)) + 1" by (simp only:) linarith
qed

lemma risk_percent:
  obtains p where "DefaultRiskPercent = Fin p" "2/100 * (1 - 1 / 2 ^ 53) \<le> p" "p \<le> 2/100 * (1 + 1 / 2 ^ 53)"
proof -
  have "pw (-1000) \<le> pw (-6)" by simp
  also have "\<dots> \<le> 2/100" by (simp add: pw_minus_numeral)
  finally have lo: "pw (-1000) \<le> 2/100" .
  have hi: "2/100 \<le> pw 1000" by simp
  from rnd_normal [OF lo hi] show ?thesis using that by (auto simp: DefaultRiskPercent_def flt_def)
qed

lemma normal_between: "pw a \<le> x \<Longrightarrow> x \<le> pw b \<Longrightarrow> -1000 \<le> a \<Longrightarrow> b \<le> 1000 \<Longrightarrow>
    \<exists>y. rnd x = Fin y \<and> x * (1 - 1 / 2 ^ 53) \<le> y \<and> y \<le> x * (1 + 1 / 2 ^ 53) \<and> 0 < y"
proof -
  assume h: "pw a \<le> x" "x \<le> pw b" "-1000 \<le> a" "b \<le> 1000"
  have "pw (-1000) \<le> pw a" "pw b \<le> pw 1000" using h by (simp_all del: pw_numeral)
  with h show ?thesis by (intro rnd_normal) linarith+
qed

text \<open>The quotient the allocator rounds down.\<close>

lemma budget_quotient:
  assumes C: "1 \<le> C" "C \<le> 2 ^ 60" and d: "pw (-60) \<le> d" "d \<le> 2 ^ 60"
  shows "\<exists>y. Fin C * DefaultRiskPercent / Fin d = Fin y \<and> 0 < y \<and>
     y * d \<le> C * (2/100) * (1 + 1 / 2 ^ 50) \<and> C * (2/100) * (1 - 1 / 2 ^ 50) \<le> y * d"
proof -
  define u :: rat where "u = 1 / 2 ^ 53"
  have u: "0 < u" "u < 1" by (simp_all add: u_def)
  obtain p where p: "DefaultRiskPercent = Fin p" "2/100 * (1 - u) \<le> p" "p \<le> 2/100 * (1 + u)"
    using risk_percent unfolding u_def by blast
  have p0: "pw (-6) \<le> p" and p1: "p \<le> 1"
    using p(2,3) by (simp_all add: u_def pw_minus_numeral)
  have "pw (-6) * 1 \<le> C * p" using p0 C mult_mono [of 1 C "pw (-6)" p] by (simp add: mult.commute)
  moreover have "C * p \<le> pw 60" using C p1 mult_mono [of C "2 ^ 60" p 1] p0 less_le_trans [OF pw_pos p0] by simp
  ultimately obtain a where a: "rnd (C * p) = Fin a" "C * p * (1 - u) \<le> a" "a \<le> C * p * (1 + u)" "0 < a"
    using normal_between [of "-6" "C * p" 60] unfolding u_def by auto
  have d0: "0 < d" using less_le_trans [OF pw_pos d(1)] .
  have alo: "pw (-7) \<le> a"
  proof -
    have "pw (-7) \<le> pw (-6) * (1 - u)" by (simp add: pw_minus_numeral u_def)
    also have "\<dots> \<le> C * p * (1 - u)" using \<open>pw (-6) * 1 \<le> C * p\<close> u by (intro mult_right_mono) auto
    finally show ?thesis using a(2) by linarith
  qed
  have ahi: "a \<le> pw 61"
  proof -
    have "C * p * (1 + u) \<le> pw 60 * 2" using \<open>C * p \<le> pw 60\<close> u \<open>pw (-6) * 1 \<le> C * p\<close> less_le_trans [OF pw_pos, of "-6" "C * p"]
      by (intro mult_mono) auto
    with a(3) show ?thesis by simp
  qed
  have "pw (-7) / pw 60 \<le> a / d" using alo d d0 a(4) by (intro frac_le) auto
  then have xlo: "pw (-67) \<le> a / d" by (simp add: pw_diff [symmetric] del: pw_numeral)
  have "a / d \<le> pw 61 / pw (-60)" using ahi d d0 a(4) by (intro frac_le) auto
  then have xhi: "a / d \<le> pw 121" by (simp add: pw_diff [symmetric] del: pw_numeral)
  obtain y where y: "rnd (a / d) = Fin y" "a / d * (1 - u) \<le> y" "y \<le> a / d * (1 + u)" "0 < y"
    using normal_between [OF xlo xhi] unfolding u_def by auto
  have up: "y * d \<le> C * (2/100) * (1 + 1 / 2 ^ 50)"
  proof -
    have "y * d \<le> a * (1 + u)" using y(3) d0 by (simp add: pos_le_divide_eq [symmetric])
    also have "\<dots> \<le> (C * p * (1 + u)) * (1 + u)" using a(3) u by (intro mult_right_mono) auto
    also have "\<dots> \<le> (C * (2/100 * (1 + u)) * (1 + u)) * (1 + u)"
      using p(3) u C by (intro mult_right_mono mult_left_mono) auto
    also have "\<dots> = C * (2/100) * ((1 + u) * (1 + u) * (1 + u))" by (simp only: ac_simps)
    also have "\<dots> \<le> C * (2/100) * (1 + 1 / 2 ^ 50)" using C by (intro mult_left_mono) (simp_all add: u_def)
    finally show ?thesis .
  qed
  have lo: "C * (2/100) * (1 - 1 / 2 ^ 50) \<le> y * d"
  proof -
    have "C * (2/100) * (1 - 1 / 2 ^ 50) \<le> C * (2/100) * ((1 - u) * (1 - u) * (1 - u))"
      using C by (intro mult_left_mono) (simp_all add: u_def)
    also have "\<dots> = (C * (2/100 * (1 - u)) * (1 - u)) * (1 - u)" by (simp only: ac_simps)
    also have "\<dots> \<le> (C * p * (1 - u)) * (1 - u)"
      using p(2) u C by (intro mult_right_mono mult_left_mono) auto
    also have "\<dots> \<le> a * (1 - u)" using a(2) u by (intro mult_right_mono) auto
    also have "\<dots> \<le> y * d" using y(2) d0 by (simp add: pos_divide_le_eq [symmetric])
    finally show ?thesis .
  qed
  show ?thesis using a(1) y up lo d0 by (auto simp: p(1))
qed

text \<open>C36: The allocator keeps to the 2% budget, and uses it. For a capital from 1 to 2^60 and a risk per
  share, as the code computes it, from 2^-60 to 2^60, the risk of the position it sizes exceeds 2% of the
  capital by a relative error of at most 2^-50, and when it sizes a position at all, one more share would
  reach the budget up to the same error.\<close>

theorem allocator_budget:
  assumes "totalCapital = Fin C" "1 \<le> C" "C \<le> 2 ^ 60"
    and "\<bar>entryPrice - stopLoss\<bar> = Fin d" "pw (-60) \<le> d" "d \<le> 2 ^ 60"
  shows "of_int (CalculateQuantity totalCapital entryPrice stopLoss) * d \<le> C * (2/100) * (1 + 1 / 2 ^ 50) \<and>
    (0 < CalculateQuantity totalCapital entryPrice stopLoss \<longrightarrow>
     C * (2/100) * (1 - 1 / 2 ^ 50) < (of_int (CalculateQuantity totalCapital entryPrice stopLoss) + 1) * d)"
proof -
  let ?q = "CalculateQuantity totalCapital entryPrice stopLoss"
  have d0: "0 < d" using less_le_trans [OF pw_pos assms(5)] .
  obtain y where y: "Fin C * DefaultRiskPercent / Fin d = Fin y" "0 < y"
      "y * d \<le> C * (2/100) * (1 + 1 / 2 ^ 50)" "C * (2/100) * (1 - 1 / 2 ^ 50) \<le> y * d"
    using budget_quotient [OF assms(2,3,5,6)] by blast
  have q: "?q = 0 \<or> ?q = f64_to_int (Fin y)"
    using assms(1,4) y(1) by (simp add: CalculateQuantity_def CalculateQuantityPct_def Let_def del: f64_to_int.simps)
  note fb = f64_to_int_bounds [of y]
  show ?thesis
  proof (cases "?q = 0")
    case True
    then show ?thesis using assms(2) by simp
  next
    case False
    then have qy: "?q = f64_to_int (Fin y)" using q by simp
    have "of_int ?q * d \<le> y * d" unfolding qy using fb(1) y(2) d0 by (intro mult_right_mono) auto
    moreover have "y * d < (of_int ?q + 1) * d" if "0 < ?q"
      using that fb(2) y(2) d0 unfolding qy by (intro mult_strict_right_mono) auto
    ultimately show ?thesis using y(3,4) by linarith
  qed
qed

lemma allocator_budget_witness:
  "of_int (CalculateQuantity (Fin 1000000) (Fin 100) (Fin 95)) * 5 \<le> (20000 * (1 + 1 / 2 ^ 50) :: rat)"
  using allocator_budget [of "Fin 1000000" 1000000 "Fin 100" "Fin 95" 5]
  by (simp add: f64_minus_Fin pw_minus_numeral)

section \<open>The order of stop, price and target\<close>

lemma rnd_scaled:
  assumes x: "pw (-900) \<le> x" "x \<le> pw 900" and z: "\<alpha> * x \<le> z" "z \<le> \<beta> * x" and ab: "1 / 2 ^ 10 \<le> \<alpha>" "\<beta> \<le> 2 ^ 10"
  shows "\<exists>y. rnd z = Fin y \<and> \<alpha> * (999/1000) * x \<le> y \<and> y \<le> \<beta> * (1001/1000) * x"
proof -
  have x0: "0 < x" using less_le_trans [OF pw_pos x(1)] .
  have a0: "0 < \<alpha>" using ab(1) by (rule less_le_trans [rotated]) simp
  have "pw (-910) = (1 / 2 ^ 10) * pw (-900)" using pw_add [of "-10" "-900"] by (simp add: pw_minus_numeral)
  also have "\<dots> \<le> \<alpha> * x" using ab x a0 by (intro mult_mono) auto
  finally have lo: "pw (-910) \<le> z" using z(1) by linarith
  have "z \<le> \<beta> * x" by (rule z(2))
  also have "\<beta> * x \<le> 2 ^ 10 * pw 900" using ab(2) x x0 by (intro mult_mono) auto
  also have "\<dots> = pw 910" using pw_add [of 10 900] by simp
  finally have hi: "z \<le> pw 910" .
  obtain y where y: "rnd z = Fin y" "z * (1 - 1 / 2 ^ 53) \<le> y" "y \<le> z * (1 + 1 / 2 ^ 53)"
    using normal_between [OF lo hi] by auto
  have z0: "0 < z" using less_le_trans [OF pw_pos lo] .
  have "\<alpha> * (999/1000) * x = (\<alpha> * x) * (999/1000)" by simp
  also have "\<dots> \<le> z * (1 - 1 / 2 ^ 53)" using z(1) z0 by (intro mult_mono) auto
  also have "\<dots> \<le> y" by (rule y(2))
  finally have low: "\<alpha> * (999/1000) * x \<le> y" .
  have "y \<le> z * (1 + 1 / 2 ^ 53)" by (rule y(3))
  also have "z * (1 + 1 / 2 ^ 53) \<le> (\<beta> * x) * (1001/1000)"
    using z(2) z0 by (intro mult_mono) auto
  finally have "y \<le> (\<beta> * x) * (1001/1000)" .
  then show ?thesis using y(1) low by (auto simp: ac_simps)
qed

lemma percent_const:
  assumes "1 / 2 ^ 10 \<le> q" "q \<le> 2 ^ 10"
  obtains p where "flt q = Fin p" "q * (999/1000) \<le> p" "p \<le> q * (1001/1000)"
  using rnd_scaled [of 1 q q q] assms by (auto simp: flt_def pw_minus_numeral)

lemma stop_bounds:
  assumes x: "pw (-900) \<le> x" "x \<le> pw 900" and p: "ti_CurrentPrice i = Fin x"
  shows "\<exists>s. stopLossFor i = Fin s \<and>
    (if ti_Side i = SideShort then 104/100 * x \<le> s \<and> s \<le> 106/100 * x else 94/100 * x \<le> s \<and> s \<le> 96/100 * x)"
proof -
  have x0: "0 < x" using less_le_trans [OF pw_pos x(1)] .
  define q :: rat where "q = (if ti_Side i = SideShort then 105/100 else 95/100)"
  have q: "q = 105/100 \<or> q = 95/100" by (simp add: q_def)
  then have "1 / 2 ^ 10 \<le> q" "q \<le> 2 ^ 10" by auto
  then obtain c where c: "flt q = Fin c" "q * (999/1000) \<le> c" "c \<le> q * (1001/1000)"
    using percent_const [of q] by blast
  have "q * (999/1000) * x \<le> x * c" "x * c \<le> q * (1001/1000) * x"
    using c x0 by (simp_all add: mult.commute mult_left_mono)
  moreover have "1 / 2 ^ 10 \<le> q * (999/1000)" "q * (1001/1000) \<le> 2 ^ 10" using q by auto
  ultimately obtain s where s: "rnd (x * c) = Fin s"
      "q * (999/1000) * (999/1000) * x \<le> s" "s \<le> q * (1001/1000) * (1001/1000) * x"
    using rnd_scaled [OF x] by blast
  have "stopLossFor i = Fin s"
    using c(1) s(1) p by (auto simp: stopLossFor_def q_def)
  moreover have "if ti_Side i = SideShort then 104/100 * x \<le> s \<and> s \<le> 106/100 * x else 94/100 * x \<le> s \<and> s \<le> 96/100 * x"
    using s(2,3) x0 by (auto simp: q_def)
  ultimately show ?thesis by blast
qed

lemma target_bounds:
  assumes x: "pw (-900) \<le> x" "x \<le> pw 900" and p: "ti_CurrentPrice i = Fin x"
    and s: "stopLossFor i = Fin s"
  shows "\<exists>t. calculateTakeProfit (ti_Side i) (Fin x) (Fin s) = Fin t \<and>
    (if ti_Side i = SideShort then 0 < t \<and> t < x \<and> x < s else 0 < s \<and> s < x \<and> x < t)"
proof -
  have x0: "0 < x" using less_le_trans [OF pw_pos x(1)] .
  define side where "side = (ti_Side i = SideShort)"
  define gap where "gap = (if side then s - x else x - s)"
  have sb: "if side then 104/100 * x \<le> s \<and> s \<le> 106/100 * x else 94/100 * x \<le> s \<and> s \<le> 96/100 * x"
    using stop_bounds [OF x p] s by (simp add: side_def)
  then have "4/100 * x \<le> gap" "gap \<le> 6/100 * x" by (auto simp: gap_def split: if_splits)
  then obtain r where r: "rnd gap = Fin r" "4/100 * (999/1000) * x \<le> r" "r \<le> 6/100 * (1001/1000) * x"
    using rnd_scaled [OF x] by fastforce
  have "0 < 4/100 * (999/1000) * x" using x0 by simp
  then have r0: "0 < r" using r(2) by (rule less_le_trans)
  have "7/100 * x \<le> 2 * r" "2 * r \<le> 13/100 * x" using r(2,3) x0 by auto
  then obtain t where t: "rnd (2 * r) = Fin t" "7/100 * (999/1000) * x \<le> t" "t \<le> 13/100 * (1001/1000) * x"
    using rnd_scaled [OF x] by fastforce
  have f: "Fin s - Fin x = rnd (s - x)" "Fin x - Fin s = rnd (x - s)" "Fin x - Fin t = rnd (x - t)"
    by (simp_all add: f64_minus_Fin)
  show ?thesis
  proof (cases side)
    case True
    have "85/100 * x \<le> x - t" "x - t \<le> 95/100 * x" using t(2,3) x0 by auto
    then obtain y where y: "rnd (x - t) = Fin y" "85/100 * (999/1000) * x \<le> y" "y \<le> 95/100 * (1001/1000) * x"
      using rnd_scaled [OF x] by fastforce
    moreover have "0 < 85/100 * (999/1000) * x" using x0 by simp
    ultimately have "0 < y" "y < x" using x0 by auto
    moreover have "x < s" using sb True x0 by auto
    ultimately show ?thesis using True r(1) r0 t(1) y(1)
      by (auto simp: calculateTakeProfit_def side_def gap_def Let_def f DefaultRewardRiskRatio_def)
  next
    case False
    have "105/100 * x \<le> x + t" "x + t \<le> 114/100 * x" using t(2,3) x0 by auto
    then obtain y where y: "rnd (x + t) = Fin y" "105/100 * (999/1000) * x \<le> y"
      using rnd_scaled [OF x] by fastforce
    then have "x < y" using x0 by auto
    moreover have "s < x" "0 < s" using sb False x0 by auto
    ultimately show ?thesis using False r(1) r0 t(1) y(1)
      by (auto simp: calculateTakeProfit_def side_def gap_def Let_def f DefaultRewardRiskRatio_def)
  qed
qed

text \<open>The default stop and the profit target lie on the right sides of the price, in spite of rounding:
  for a price from 2^-900 to 2^900 both are positive numbers, with stop \<open><\<close> price \<open><\<close> target for a long
  entry and target \<open><\<close> price \<open><\<close> stop for a short one.\<close>

theorem stop_and_target_ordered:
  assumes "ti_CurrentPrice i = Fin x" "pw (-900) \<le> x" "x \<le> pw 900"
  shows "let stop = stopLossFor i; target = calculateTakeProfit (ti_Side i) (ti_CurrentPrice i) stop in
    0 < stop \<and> 0 < target \<and>
    (if ti_Side i = SideShort then target < ti_CurrentPrice i \<and> ti_CurrentPrice i < stop
     else stop < ti_CurrentPrice i \<and> ti_CurrentPrice i < target)"
proof -
  have x0: "0 < x" using less_le_trans [OF pw_pos assms(2)] .
  obtain s where s: "stopLossFor i = Fin s" using stop_bounds [OF assms(2,3,1)] by blast
  obtain t where "calculateTakeProfit (ti_Side i) (Fin x) (Fin s) = Fin t"
      "if ti_Side i = SideShort then 0 < t \<and> t < x \<and> x < s else 0 < s \<and> s < x \<and> x < t"
    using target_bounds [OF assms(2,3,1) s] by blast
  with s assms(1) x0 show ?thesis by (auto split: if_splits)
qed

definition sample_intent :: TradeIntent where
  "sample_intent = \<lparr>ti_Ticker = ''TCS'', ti_Side = SideLong, ti_CurrentPrice = Fin 100, ti_VWAP = 0,
     ti_VolumeRatio = 0, ti_SignalReason = ''breakout'', ti_Timestamp = 0\<rparr>"

lemma stop_and_target_ordered_witness:
  "0 < stopLossFor sample_intent \<and> stopLossFor sample_intent < Fin 100"
proof -
  have "pw (-900) \<le> pw 0" "pw 7 \<le> pw 900" unfolding pw_le_iff by simp_all
  then have "pw (-900) \<le> 100" "100 \<le> pw 900" by (simp_all del: pw_le_iff)
  from stop_and_target_ordered [OF _ this, of sample_intent] show ?thesis
    by (simp add: sample_intent_def Let_def)
qed

end
