(* ===== verification/Universe.thy ===== *)
theory Universe
  imports GoStrings
begin

text \<open>
  The trading universe of \<open>src/analysts/quantitative/universe.go\<close>: the default list of securities,
  its override by an environment variable, and the look-up tables from exchange tokens to symbols
  and from symbols to sectors that the feed and the Risk Manager use.
\<close>

section \<open>Entries\<close>

type_synonym Exchange = string
type_synonym Segment = string

definition ExchangeNSE :: Exchange where "ExchangeNSE = ''NSE''"
definition SegmentCash :: Segment where "SegmentCash = ''CASH''"

record UniverseEntry =
  ue_Symbol :: string
  ue_Exchange :: Exchange
  ue_Segment :: Segment
  ue_ExchangeToken :: string
  ue_Sector :: string

record Universe =
  un_Entries :: "UniverseEntry list"
  un_Symbols :: "string list"
  un_TokenToSymbol :: "string \<rightharpoonup> string"
  un_SymbolToSector :: "string \<rightharpoonup> string"

definition nse_entry :: "string \<Rightarrow> string \<Rightarrow> UniverseEntry" where
  "nse_entry symbol sector =
     \<lparr>ue_Symbol = symbol, ue_Exchange = ExchangeNSE, ue_Segment = SegmentCash,
      ue_ExchangeToken = '''', ue_Sector = sector\<rparr>"

definition defaultEntries :: "UniverseEntry list" where
  "defaultEntries = [
     nse_entry ''TCS'' ''IT'',
     nse_entry ''INFY'' ''IT'',
     nse_entry ''WIPRO'' ''IT'',
     nse_entry ''HCLTECH'' ''IT'',
     nse_entry ''TECHM'' ''IT'',
     nse_entry ''HDFCBANK'' ''BANKING'',
     nse_entry ''ICICIBANK'' ''BANKING'',
     nse_entry ''SBIN'' ''BANKING'',
     nse_entry ''KOTAKBANK'' ''BANKING'',
     nse_entry ''AXISBANK'' ''BANKING'',
     nse_entry ''TATAMOTORS'' ''AUTO'',
     nse_entry ''M&M'' ''AUTO'',
     nse_entry ''BAJAJ-AUTO'' ''AUTO'',
     nse_entry ''MARUTI'' ''AUTO'',
     nse_entry ''EICHERMOT'' ''AUTO'',
     nse_entry ''RELIANCE'' ''ENERGY'',
     nse_entry ''ONGC'' ''ENERGY'',
     nse_entry ''NTPC'' ''ENERGY'',
     nse_entry ''POWERGRID'' ''ENERGY'',
     nse_entry ''ADANIENT'' ''ENERGY'',
     nse_entry ''ITC'' ''FMCG'',
     nse_entry ''HUL'' ''FMCG'',
     nse_entry ''BRITANNIA'' ''FMCG'',
     nse_entry ''NESTLEIND'' ''FMCG'',
     nse_entry ''TITAN'' ''FMCG'']"

section \<open>Construction\<close>

definition index_entry :: "Universe \<Rightarrow> UniverseEntry \<Rightarrow> Universe" where
  "index_entry u e =
     (let u = u\<lparr>un_Symbols := un_Symbols u @ [ue_Symbol e],
                un_SymbolToSector := (un_SymbolToSector u)(ue_Symbol e \<mapsto> ue_Sector e)\<rparr>
      in if ue_ExchangeToken e \<noteq> ''''
         then u\<lparr>un_TokenToSymbol := (un_TokenToSymbol u)(ue_ExchangeToken e \<mapsto> ue_Symbol e)\<rparr>
         else u)"

definition buildUniverse :: "UniverseEntry list \<Rightarrow> Universe" where
  "buildUniverse entries =
     foldl index_entry
       \<lparr>un_Entries = entries, un_Symbols = [], un_TokenToSymbol = Map.empty, un_SymbolToSector = Map.empty\<rparr>
       entries"

definition DefaultUniverse :: Universe where
  "DefaultUniverse = buildUniverse defaultEntries"

fun find_sector :: "UniverseEntry list \<Rightarrow> string \<Rightarrow> string" where
  "find_sector [] symbol = ''UNKNOWN''"
| "find_sector (e # es) symbol = (if ue_Symbol e = symbol then ue_Sector e else find_sector es symbol)"

definition sectorForSymbol :: "string \<Rightarrow> string" where
  "sectorForSymbol symbol = find_sector defaultEntries symbol"

text \<open>The argument is the value of the environment variable \<open>QUANT_UNIVERSE\<close>.\<close>

definition ResolveUniverse :: "string \<Rightarrow> Universe" where
  "ResolveUniverse raw =
     (if raw = '''' then DefaultUniverse
      else
        let symbols = split_on (CHR '','') raw;
            entries = foldl (\<lambda>entries s. let s = TrimSpace s in
                if s = '''' then entries else entries @ [nse_entry s (sectorForSymbol s)]) [] symbols
        in if length entries = 0 then DefaultUniverse else buildUniverse entries)"

type_synonym SectorMap = "string \<rightharpoonup> string"

definition Sector :: "SectorMap \<Rightarrow> string \<Rightarrow> string" where
  "Sector sm symbol = (case sm symbol of Some s \<Rightarrow> s | None \<Rightarrow> ''UNKNOWN'')"

definition AsSectorMap :: "Universe \<Rightarrow> SectorMap" where
  "AsSectorMap u = un_SymbolToSector u"

section \<open>The tables\<close>

lemma index_entry_simps [simp]:
  "un_Entries (index_entry u e) = un_Entries u"
  "un_Symbols (index_entry u e) = un_Symbols u @ [ue_Symbol e]"
  "un_SymbolToSector (index_entry u e) = (un_SymbolToSector u)(ue_Symbol e \<mapsto> ue_Sector e)"
  "un_TokenToSymbol (index_entry u e) = (if ue_ExchangeToken e \<noteq> ''''
     then (un_TokenToSymbol u)(ue_ExchangeToken e \<mapsto> ue_Symbol e) else un_TokenToSymbol u)"
  by (simp_all add: index_entry_def Let_def)

lemma index_entries:
  "un_Entries (foldl index_entry u es) = un_Entries u \<and>
   un_Symbols (foldl index_entry u es) = un_Symbols u @ map ue_Symbol es \<and>
   un_SymbolToSector (foldl index_entry u es) = un_SymbolToSector u ++ map_of (rev (map (\<lambda>e. (ue_Symbol e, ue_Sector e)) es)) \<and>
   un_TokenToSymbol (foldl index_entry u es) = un_TokenToSymbol u ++
     map_of (rev (map (\<lambda>e. (ue_ExchangeToken e, ue_Symbol e)) (filter (\<lambda>e. ue_ExchangeToken e \<noteq> '''') es)))"
proof (induction es arbitrary: u)
  case (Cons e es)
  show ?case unfolding foldl_Cons using Cons.IH [of "index_entry u e"]
    by (auto simp: map_add_def fun_eq_iff split: option.split)
qed simp

lemma buildUniverse_simps:
  "un_Entries (buildUniverse es) = es"
  "un_Symbols (buildUniverse es) = map ue_Symbol es"
  "un_SymbolToSector (buildUniverse es) = map_of (rev (map (\<lambda>e. (ue_Symbol e, ue_Sector e)) es))"
  "un_TokenToSymbol (buildUniverse es) =
     map_of (rev (map (\<lambda>e. (ue_ExchangeToken e, ue_Symbol e)) (filter (\<lambda>e. ue_ExchangeToken e \<noteq> '''') es)))"
  by (simp_all add: buildUniverse_def index_entries)

lemma Sector_build:
  assumes "\<And>e. e \<in> set es \<Longrightarrow> ue_Sector e = f (ue_Symbol e)"
  shows "Sector (AsSectorMap (buildUniverse es)) s = (if s \<in> ue_Symbol ` set es then f s else ''UNKNOWN'')"
proof (cases "map_of (rev (map (\<lambda>e. (ue_Symbol e, ue_Sector e)) es)) s")
  case None
  then have "s \<notin> ue_Symbol ` set es" by (auto simp: map_of_eq_None_iff image_image)
  with None show ?thesis by (simp add: Sector_def AsSectorMap_def buildUniverse_simps)
next
  case (Some v)
  then have "(s, v) \<in> set (map (\<lambda>e. (ue_Symbol e, ue_Sector e)) es)" using map_of_SomeD by fastforce
  then obtain e where "e \<in> set es" "s = ue_Symbol e" "v = ue_Sector e" by auto
  with Some assms show ?thesis by (auto simp: Sector_def AsSectorMap_def buildUniverse_simps)
qed

definition resolved_entries :: "string \<Rightarrow> UniverseEntry list" where
  "resolved_entries raw = un_Entries (ResolveUniverse raw)"

lemma override_entries:
  "foldl (\<lambda>entries s. let s = TrimSpace s in
       if s = '''' then entries else entries @ [nse_entry s (sectorForSymbol s)]) acc symbols =
   acc @ map (\<lambda>s. nse_entry s (sectorForSymbol s)) (filter (\<lambda>s. s \<noteq> '''') (map TrimSpace symbols))"
  by (induction symbols arbitrary: acc) (simp_all add: Let_def)

lemma default_sectors: "list_all (\<lambda>e. ue_Sector e = sectorForSymbol (ue_Symbol e) \<and>
    ue_ExchangeToken e = '''' \<and> ue_Symbol e \<noteq> '''') defaultEntries"
  by (simp add: defaultEntries_def sectorForSymbol_def nse_entry_def)

lemma default_nonempty: "defaultEntries \<noteq> []"
  by (simp add: defaultEntries_def)

lemma ResolveUniverse_build:
  "\<exists>es. ResolveUniverse raw = buildUniverse es \<and> es \<noteq> [] \<and>
     (\<forall>e\<in>set es. ue_Sector e = sectorForSymbol (ue_Symbol e) \<and> ue_ExchangeToken e = '''' \<and> ue_Symbol e \<noteq> '''')"
proof -
  have d: "\<forall>e\<in>set defaultEntries. ue_Sector e = sectorForSymbol (ue_Symbol e) \<and> ue_ExchangeToken e = '''' \<and> ue_Symbol e \<noteq> ''''"
    using default_sectors by (simp add: list_all_iff)
  define es where "es = map (\<lambda>s. nse_entry s (sectorForSymbol s)) (filter (\<lambda>s. s \<noteq> '''') (map TrimSpace (split_on (CHR '','') raw)))"
  have e: "\<forall>e\<in>set es. ue_Sector e = sectorForSymbol (ue_Symbol e) \<and> ue_ExchangeToken e = '''' \<and> ue_Symbol e \<noteq> ''''"
    by (auto simp: es_def nse_entry_def)
  have "ResolveUniverse raw = (if raw = '''' \<or> es = [] then buildUniverse defaultEntries else buildUniverse es)"
    unfolding ResolveUniverse_def override_entries DefaultUniverse_def es_def by simp
  then show ?thesis using d e default_nonempty by (cases "raw = '''' \<or> es = []") auto
qed

lemma baseline_sector_fits: "length (sectorForSymbol s) \<le> 20"
  by (simp add: sectorForSymbol_def defaultEntries_def nse_entry_def)

lemma resolved_sector_fits: "length (Sector (AsSectorMap (ResolveUniverse raw)) s) \<le> 20"
proof -
  obtain es where "ResolveUniverse raw = buildUniverse es" "\<forall>e\<in>set es. ue_Sector e = sectorForSymbol (ue_Symbol e)"
    using ResolveUniverse_build [of raw] by blast
  then show ?thesis using Sector_build [of es sectorForSymbol s] baseline_sector_fits by simp
qed

text \<open>Whatever the environment variable holds, the resolved universe is not empty, has no empty
  symbol, and its sector map sends each of its symbols to the sector of the baseline list and every
  other symbol to \<open>UNKNOWN\<close>, so the two agents agree on sectors.\<close>

theorem ResolveUniverse_sectors:
  "un_Symbols (ResolveUniverse raw) \<noteq> [] \<and> '''' \<notin> set (un_Symbols (ResolveUniverse raw)) \<and>
   Sector (AsSectorMap (ResolveUniverse raw)) s =
     (if s \<in> set (un_Symbols (ResolveUniverse raw)) then sectorForSymbol s else ''UNKNOWN'')"
proof -
  obtain es where "ResolveUniverse raw = buildUniverse es" "es \<noteq> []"
      and "\<forall>e\<in>set es. ue_Sector e = sectorForSymbol (ue_Symbol e) \<and> ue_ExchangeToken e = '''' \<and> ue_Symbol e \<noteq> ''''"
    using ResolveUniverse_build by blast
  then show ?thesis using Sector_build [of es sectorForSymbol s] by (auto simp: buildUniverse_simps)
qed

end
