(* ===== verification/RiskManager.thy ===== *)
theory RiskManager
  imports Ports Exposure Gates Universe
begin

text \<open>
  The Risk Manager of \<open>src/analysts/riskmanager\<close>: the handler of trade intents and its pipeline of
  gates (\<open>agent.go\<close>), the promotion of an intent to an execution (\<open>executor.go\<close>), the price cache, and
  the end-of-day square-off (\<open>squareoff.go\<close>). The operations are functions of the agent's state and of
  the world behind its ports; clocks are inputs. \<open>SquareOff\<close> and
  \<open>Admission\<close> hold what is proved of them.
\<close>

section \<open>The agent\<close>

text \<open>The fields \<open>rm_js\<close>, \<open>rm_scores\<close> and \<open>rm_positions\<close> say whether the interface is set; \<open>rm_now\<close> is the
  injected clock, pinned to an instant.\<close>

record Analyst =
  rm_js :: bool
  rm_accepted :: int
  rm_now :: "Time option"
  rm_exposure :: "Exposure option"
  rm_sectors :: "(string \<Rightarrow> string) option"
  rm_scores :: bool
  rm_minConf :: float64
  rm_capital :: float64
  rm_positions :: bool
  rm_sqDone :: string
  rm_allClosed :: bool
  rm_lastPrice :: "string \<rightharpoonup> float64"
  rm_lastPriceAt :: "string \<rightharpoonup> Time"

definition newAnalyst :: "bool \<Rightarrow> Analyst" where
  "newAnalyst js =
     \<lparr>rm_js = js, rm_accepted = 0, rm_now = None, rm_exposure = None, rm_sectors = None, rm_scores = False,
      rm_minConf = 0, rm_capital = 0, rm_positions = False, rm_sqDone = '''', rm_allClosed = False,
      rm_lastPrice = Map.empty, rm_lastPriceAt = Map.empty\<rparr>"

text \<open>The production constructor, given the values of the environment variables \<open>QUANT_UNIVERSE\<close>,
  \<open>RISK_MIN_CONFIDENCE\<close> and \<open>TOTAL_CAPITAL\<close>.\<close>

definition resolveSectorMap :: "string \<Rightarrow> string \<Rightarrow> string" where
  "resolveSectorMap universe = Sector (AsSectorMap (ResolveUniverse universe))"

definition NewAgent :: "string \<Rightarrow> string \<Rightarrow> string \<Rightarrow> Analyst" where
  "NewAgent universe conf capital =
     (newAnalyst True)\<lparr>rm_sectors := Some (resolveSectorMap universe),
        rm_exposure := Some (NewExposure DefaultMaxSectorPositions DefaultMaxTotalPositions),
        rm_minConf := minConfidenceFromEnv conf, rm_capital := LoadTotalCapital capital\<rparr>"

definition sectorOf :: "Analyst \<Rightarrow> string \<Rightarrow> string" where
  "sectorOf g ticker = (case rm_sectors g of None \<Rightarrow> ''UNKNOWN'' | Some sector \<Rightarrow> sector ticker)"

definition currentTime :: "Analyst \<Rightarrow> Time \<Rightarrow> Time" where
  "currentTime g clock = (case rm_now g of Some t \<Rightarrow> t | None \<Rightarrow> clock)"

section \<open>Promotion\<close>

definition ErrInsufficientCapital :: error where
  "ErrInsufficientCapital = Sentinel ''insufficient capital for 2% risk budget''"

definition buildExecution :: "Time \<Rightarrow> Analyst \<Rightarrow> TradeIntent \<Rightarrow> error + TradeExecution" where
  "buildExecution clock g intent =
     (let stopLoss = stopLossFor intent;
          quantity = CalculateQuantity (rm_capital g) (ti_CurrentPrice intent) stopLoss
      in if quantity \<le> 0 then Inl ErrInsufficientCapital
         else
           let takeProfit = calculateTakeProfit (ti_Side intent) (ti_CurrentPrice intent) stopLoss
           in Inr \<lparr>te_Ticker = ti_Ticker intent, te_Side = ti_Side intent, te_Quantity = quantity,
                   te_Price = ti_CurrentPrice intent, te_StopLoss = stopLoss, te_TakeProfit = takeProfit,
                   te_Sector = sectorOf g (ti_Ticker intent), te_SignalReason = ti_SignalReason intent,
                   te_ExecutionRef = ''risk-'' @ ti_Ticker intent @ ''-'' @ string_of_int clock,
                   te_PositionID = 0\<rparr>)"

definition publishExecution :: "'w Ports \<Rightarrow> Analyst \<Rightarrow> TradeExecution \<Rightarrow> 'w \<Rightarrow> error option \<times> 'w" where
  "publishExecution ports g ex w =
     (if \<not> rm_js g then (None, w)
      else case marshal_execution ex of
        Inl e \<Rightarrow> (Some (Wrapf ''marshal execution'' e), w)
      | Inr data \<Rightarrow> po_Publish ports (ExecuteSubject (te_Ticker ex)) data w)"

definition promote :: "'w Ports \<Rightarrow> Time \<Rightarrow> TradeIntent \<Rightarrow> Analyst \<Rightarrow> 'w \<Rightarrow> error option \<times> Analyst \<times> 'w" where
  "promote ports clock intent g w =
     (case buildExecution clock g intent of
        Inl e \<Rightarrow> (Some e, g, w)
      | Inr ex \<Rightarrow>
          (case publishExecution ports g ex w of
             (Some e, w1) \<Rightarrow> (Some e, g, w1)
           | (None, w1) \<Rightarrow>
               (None, g\<lparr>rm_exposure := map_option (Register (te_Side ex) (te_Sector ex)) (rm_exposure g)\<rparr>, w1)))"

section \<open>The gates\<close>

definition evaluate_intent :: "'w Ports \<Rightarrow> Time \<Rightarrow> TradeIntent \<Rightarrow> Analyst \<Rightarrow> 'w \<Rightarrow> error option \<times> 'w" where
  "evaluate_intent ports clock intent g w =
     (case timeWindowGuard (currentTime g clock) of
        Some e \<Rightarrow> (Some e, w)
      | None \<Rightarrow>
          (case (case rm_exposure g of
                   None \<Rightarrow> None
                 | Some ex \<Rightarrow>
                     (case EntryGate ex (sectorOf g (ti_Ticker intent)) of
                        Some e \<Rightarrow> Some e
                      | None \<Rightarrow> BiasGate ex (ti_Side intent))) of
             Some e \<Rightarrow> (Some e, w)
           | None \<Rightarrow>
               if \<not> rm_scores g then (sentimentGate None (ti_Ticker intent) (rm_minConf g), w)
               else case po_LatestScore ports (ti_Ticker intent) w of (r, w1) \<Rightarrow>
                 (sentimentGate (Some (\<lambda>_. r)) (ti_Ticker intent) (rm_minConf g), w1)))"

section \<open>The handler of intents\<close>

text \<open>The two clocks are those of the time guard and of the execution reference.\<close>

definition handleIntent :: "'w Ports \<Rightarrow> Time \<Rightarrow> Time \<Rightarrow> payload \<Rightarrow> Analyst \<Rightarrow> 'w \<Rightarrow> disposition \<times> Analyst \<times> 'w" where
  "handleIntent ports clock1 clock2 data g w =
     (case unmarshal_intent data of
        Inl _ \<Rightarrow> (Ack, g, w)
      | Inr intent \<Rightarrow>
          if validate_intent intent \<noteq> None then (Ack, g, w)
          else case evaluate_intent ports clock1 intent g w of
            (Some _, w1) \<Rightarrow> (Ack, g, w1)
          | (None, w1) \<Rightarrow>
              (case promote ports clock2 intent g w1 of
                 (Some e, g2, w2) \<Rightarrow>
                   if errors_is e ErrInsufficientCapital then (Ack, g2, w2)
                   else (NakWithDelay (5 * Second), g2, w2)
               | (None, g2, w2) \<Rightarrow> (Ack, g2\<lparr>rm_accepted := rm_accepted g2 + 1\<rparr>, w2)))"

definition handlePrice :: "Time \<Rightarrow> payload \<Rightarrow> Analyst \<Rightarrow> Analyst" where
  "handlePrice clock data g =
     (case unmarshal_tick data of
        Inl _ \<Rightarrow> g
      | Inr tick \<Rightarrow>
          if pt_Ticker tick = '''' \<or> pt_Price tick \<le> 0 then g
          else g\<lparr>rm_lastPrice := (rm_lastPrice g)(pt_Ticker tick \<mapsto> pt_Price tick),
                 rm_lastPriceAt := (rm_lastPriceAt g)(pt_Ticker tick \<mapsto> clock)\<rparr>)"

definition LatestPrice :: "Analyst \<Rightarrow> string \<Rightarrow> float64" where
  "LatestPrice g ticker = (case rm_lastPrice g ticker of Some p \<Rightarrow> p | None \<Rightarrow> 0)"

definition PriceStale :: "Time \<Rightarrow> Analyst \<Rightarrow> string \<Rightarrow> Duration \<Rightarrow> bool" where
  "PriceStale clock g ticker threshold =
     (case rm_lastPriceAt g ticker of None \<Rightarrow> True | Some t \<Rightarrow> threshold < clock - t)"

section \<open>The square-off\<close>

definition SquareOffInterval :: Duration where "SquareOffInterval = 30 * Second"

text \<open>The wall-clock trigger: hour and minute.\<close>

definition DefaultSquareOffTime :: "int \<times> int" where "DefaultSquareOffTime = (15, 15)"

definition opposite :: "Side \<Rightarrow> Side" where
  "opposite side = (if side = SideLong then SideShort else SideLong)"

definition square_off_order :: "Position \<Rightarrow> float64 \<Rightarrow> Time \<Rightarrow> TradeExecution" where
  "square_off_order pos exitPrice now =
     \<lparr>te_Ticker = pos_Ticker pos, te_Side = opposite (pos_Side pos), te_Quantity = pos_Quantity pos,
      te_Price = exitPrice, te_StopLoss = 0, te_TakeProfit = 0, te_Sector = pos_Sector pos,
      te_SignalReason = ''auto_square_off'',
      te_ExecutionRef = ''sqoff-'' @ pos_ExecutionRef pos @ ''-'' @ string_of_int now,
      te_PositionID = pos_ID pos\<rparr>"

definition signalSquareOff :: "'w Ports \<Rightarrow> Analyst \<Rightarrow> Position \<Rightarrow> float64 \<Rightarrow> Time \<Rightarrow> 'w \<Rightarrow> error option \<times> 'w" where
  "signalSquareOff ports g pos exitPrice now w =
     (if \<not> rm_js g then (None, w)
      else case marshal_execution (square_off_order pos exitPrice now) of
        Inl e \<Rightarrow> (Some (Wrapf ''marshal square-off'' e), w)
      | Inr data \<Rightarrow>
          (case po_Publish ports (ExecuteSubject (pos_Ticker pos)) data w of
             (Some e, w1) \<Rightarrow> (Some (Wrapf (''publish '' @ pos_Ticker pos) e), w1)
           | (None, w1) \<Rightarrow> (None, w1)))"

definition exit_price_for :: "Analyst \<Rightarrow> Position \<Rightarrow> float64" where
  "exit_price_for g pos =
     (let exitPrice = LatestPrice g (pos_Ticker pos)
      in if exitPrice \<le> 0 then pos_EntryPrice pos else exitPrice)"

text \<open>The loop over the open positions; the flag is the local \<open>allClosed\<close>.\<close>

fun liquidate_each :: "'w Ports \<Rightarrow> Time \<Rightarrow> Position list \<Rightarrow> bool \<Rightarrow> Analyst \<Rightarrow> 'w \<Rightarrow> bool \<times> Analyst \<times> 'w" where
  "liquidate_each ports now [] allClosed g w = (allClosed, g, w)"
| "liquidate_each ports now (pos # rest) allClosed g w =
     (let exitPrice = exit_price_for g pos in
      case signalSquareOff ports g pos exitPrice now w of
        (Some _, w1) \<Rightarrow> liquidate_each ports now rest False g w1
      | (None, w1) \<Rightarrow>
          (case po_MarkClosed ports (pos_ID pos) exitPrice ReasonSquareOff w1 of
             (Some _, w2) \<Rightarrow> liquidate_each ports now rest False g w2
           | (None, w2) \<Rightarrow>
               liquidate_each ports now rest allClosed
                 (g\<lparr>rm_exposure := map_option (Release (pos_Side pos) (pos_Sector pos)) (rm_exposure g)\<rparr>) w2))"

definition liquidate :: "'w Ports \<Rightarrow> Time \<Rightarrow> Analyst \<Rightarrow> 'w \<Rightarrow> error option \<times> Analyst \<times> 'w" where
  "liquidate ports now g w =
     (case po_ListOpen ports w of
        (Inl e, w1) \<Rightarrow> (Some (Wrapf ''list open positions'' e), g, w1)
      | (Inr opened, w1) \<Rightarrow>
          if length opened = 0 then (None, g\<lparr>rm_allClosed := True\<rparr>, w1)
          else case liquidate_each ports now opened True g w1 of
            (allClosed, g2, w2) \<Rightarrow> (None, g2\<lparr>rm_allClosed := allClosed\<rparr>, w2))"

definition squareOff :: "'w Ports \<Rightarrow> Time \<Rightarrow> Analyst \<Rightarrow> 'w \<Rightarrow> Analyst \<times> 'w" where
  "squareOff ports now g w =
     (if \<not> rm_positions g then (g, w)
      else case LoadLocation ''Asia/Kolkata'' of
        Inl _ \<Rightarrow> (g, w)
      | Inr loc \<Rightarrow>
          let trigger = date_of_day loc now (fst DefaultSquareOffTime) (snd DefaultSquareOffTime);
              day = format_day (civil_day loc now)
          in if now < trigger then (g, w)
             else if rm_sqDone g = day then (g, w)
             else case liquidate ports now g w of
               (Some _, g1, w1) \<Rightarrow> (g1, w1)
             | (None, g1, w1) \<Rightarrow> (if rm_allClosed g1 then g1\<lparr>rm_sqDone := day\<rparr> else g1, w1))"

text \<open>One turn of the loop of \<open>Run\<close>: the square-off, then the recount of the exposure.\<close>

definition tick :: "'w Ports \<Rightarrow> Time \<Rightarrow> Analyst \<Rightarrow> 'w \<Rightarrow> Analyst \<times> 'w" where
  "tick ports now g w =
     (case squareOff ports now g w of (g1, w1) \<Rightarrow>
        case (rm_positions g1, rm_exposure g1) of
          (True, Some ex) \<Rightarrow>
            (case po_ListOpen ports w1 of
               (Inr opened, w2) \<Rightarrow> (g1\<lparr>rm_exposure := Some (RefreshFromDB opened ex)\<rparr>, w2)
             | (Inl _, w2) \<Rightarrow> (g1, w2))
        | _ \<Rightarrow> (g1, w1))"

section \<open>The hooks of the tests\<close>

text \<open>The tenth of August 2026, 11:00 IST, is where \<open>NewAgentForTest\<close> pins the clock.\<close>

definition test_clock :: Time where
  "test_clock = 20675 * day_ns + 11 * Hour - ist * nsec"

definition NewAgentForTest :: "bool \<Rightarrow> Analyst" where
  "NewAgentForTest js =
     (let a = (newAnalyst js)\<lparr>rm_capital := DefaultTotalCapital, rm_minConf := DefaultMinConfidence\<rparr>
      in case LoadLocation ''Asia/Kolkata'' of Inl _ \<Rightarrow> a | Inr _ \<Rightarrow> a\<lparr>rm_now := Some test_clock\<rparr>)"

definition Accepted :: "Analyst \<Rightarrow> int" where "Accepted g = rm_accepted g"

definition SetSectors :: "(string \<Rightarrow> string) \<Rightarrow> Analyst \<Rightarrow> Analyst" where "SetSectors s g = g\<lparr>rm_sectors := Some s\<rparr>"
definition SetExposure :: "Exposure \<Rightarrow> Analyst \<Rightarrow> Analyst" where "SetExposure e g = g\<lparr>rm_exposure := Some e\<rparr>"
definition SetScoreStore :: "Analyst \<Rightarrow> Analyst" where "SetScoreStore g = g\<lparr>rm_scores := True\<rparr>"
definition SetMinConfidence :: "float64 \<Rightarrow> Analyst \<Rightarrow> Analyst" where "SetMinConfidence v g = g\<lparr>rm_minConf := v\<rparr>"
definition SetCapital :: "float64 \<Rightarrow> Analyst \<Rightarrow> Analyst" where "SetCapital v g = g\<lparr>rm_capital := v\<rparr>"
definition SetPositions :: "Analyst \<Rightarrow> Analyst" where "SetPositions g = g\<lparr>rm_positions := True\<rparr>"

definition EvaluateRaw :: "'w Ports \<Rightarrow> Time \<Rightarrow> TradeIntent \<Rightarrow> Analyst \<Rightarrow> 'w \<Rightarrow> error option \<times> 'w" where
  "EvaluateRaw = evaluate_intent"

definition RawStopLoss :: "TradeIntent \<Rightarrow> float64" where "RawStopLoss = stopLossFor"

definition PromoteRaw :: "'w Ports \<Rightarrow> Time \<Rightarrow> TradeIntent \<Rightarrow> Analyst \<Rightarrow> 'w \<Rightarrow> error option \<times> Analyst \<times> 'w" where
  "PromoteRaw = promote"

definition ExposeSector :: "Analyst \<Rightarrow> string \<Rightarrow> int" where
  "ExposeSector g sector = (case rm_exposure g of None \<Rightarrow> 0 | Some e \<Rightarrow> SectorCount e sector)"

text \<open>The pinned clock is a Monday inside the hours that the time guard admits, so an agent of the tests never meets it.\<close>

lemma test_clock_admitted:
  "format_day (civil_day ist test_clock) = ''2026-08-10''" "timeWindowGuard (currentTime (NewAgentForTest js) clock) = None"
  by (code_simp, simp add: NewAgentForTest_def Let_def currentTime_def, code_simp)

end
