(* ===== verification/Database.thy ===== *)
theory Database
  imports Ports "HOL-Library.Multiset"
begin

text \<open>
  The database layer of \<open>src/pkg/database\<close>: the tables of the migrations with their constraints, and
  the statements of \<open>positions.go\<close>, \<open>trade_log.go\<close> and \<open>sentiment.go\<close>, with their effect under
  PostgreSQL. Each call meets the next fault of a script: none, a request lost on the way, or a reply
  lost after the statement was executed. Strings are taken to be valid UTF-8 without zero bytes whose
  length in characters is their length in bytes.
\<close>

section \<open>Tables\<close>

record position_row =
  pr_id :: int
  pr_ticker :: string
  pr_side :: string
  pr_quantity :: int
  pr_entry_price :: float64
  pr_stop_loss :: float64
  pr_take_profit :: float64
  pr_sector :: string
  pr_status :: string
  pr_opened_at :: Time
  pr_closed_at :: "Time option"
  pr_execution_ref :: string
  pr_exit_price :: "float64 option"
  pr_pnl :: "float64 option"
  pr_exit_reason :: "string option"

record trade_row =
  tr_id :: int
  tr_ticker :: string
  tr_side :: string
  tr_quantity :: int
  tr_price :: float64
  tr_signal_reason :: string
  tr_status :: string
  tr_executed_at :: Time
  tr_position_id :: int

record score_row =
  sr_id :: int
  sr_ticker :: string
  sr_confidence :: float64
  sr_bias :: string
  sr_summary :: string
  sr_source :: string
  sr_recorded_at :: Time
  sr_source_url :: string
  sr_raw_response :: string

text \<open>The world of the agents: the three tables in order of insertion, their id sequences, the server's
  clock, the bus, and the faults that the next calls to database and bus will meet.\<close>

record World =
  w_positions :: "position_row list"
  w_position_seq :: int
  w_trade_log :: "trade_row list"
  w_trade_seq :: int
  w_scores :: "score_row list"
  w_score_seq :: int
  w_clock :: Time
  w_db_faults :: "fault list"
  w_bus :: "message list"
  w_bus_faults :: "fault list"

definition empty_world :: World where
  "empty_world = \<lparr>w_positions = [], w_position_seq = 1, w_trade_log = [], w_trade_seq = 1,
     w_scores = [], w_score_seq = 1, w_clock = 0, w_db_faults = [], w_bus = [], w_bus_faults = []\<rparr>"

definition in_int32 :: "int \<Rightarrow> bool" where
  "in_int32 i \<longleftrightarrow> - (2 ^ 31) \<le> i \<and> i < 2 ^ 31"

definition ErrNoRows :: error where "ErrNoRows = Sentinel ''sql: no rows in result set''"
definition pq_error :: "string \<Rightarrow> error" where "pq_error m = NewErr (''pq: '' @ m)"

section \<open>One call to the server\<close>

text \<open>A statement computes an outcome and the new tables; a failed statement changes nothing but may
  have drawn from a sequence. The fault decides what the client sees and whether the statement ran.\<close>

definition db_call :: "(World \<Rightarrow> (error + 'a) \<times> World) \<Rightarrow> World \<Rightarrow> (error + 'a) \<times> World" where
  "db_call stmt w =
     (let w1 = w\<lparr>w_db_faults := tl (w_db_faults w)\<rparr> in
      case next_fault (w_db_faults w) of
        NoFault \<Rightarrow> stmt w1
      | LostRequest e \<Rightarrow> (Inl e, w1)
      | LostReply e \<Rightarrow> (Inl e, snd (stmt w1)))"

definition wrap_error :: "string \<Rightarrow> (error + 'a) \<Rightarrow> (error + 'a)" where
  "wrap_error m r = (case r of Inl e \<Rightarrow> Inl (Wrapf m e) | Inr x \<Rightarrow> Inr x)"

section \<open>The table positions\<close>

text \<open>The checks of \<open>001_initial_schema\<close> and of the parameters' types, in no particular order: which
  of several violations is reported does not matter to the callers. The column \<open>side\<close> is a
  \<open>VARCHAR(4)\<close>, and a text that is too long is an error unless all its excess is blanks, a case left out.\<close>

definition position_row_error :: "World \<Rightarrow> Position \<Rightarrow> error option" where
  "position_row_error w p =
     (if 10 < length (pos_Ticker p) then Some (pq_error ''value too long for type character varying(10)'')
      else if 4 < length (pos_Side p) then Some (pq_error ''value too long for type character varying(4)'')
      else if pos_Side p \<noteq> ''LONG'' \<and> pos_Side p \<noteq> ''SHORT'' then Some (pq_error ''positions_side_check'')
      else if \<not> in_int32 (pos_Quantity p) then Some (pq_error ''value out of range for type integer'')
      else if 20 < length (pos_Sector p) then Some (pq_error ''value too long for type character varying(20)'')
      else if pos_Status p \<noteq> ''OPEN'' \<and> pos_Status p \<noteq> ''CLOSED'' then Some (pq_error ''positions_status_check'')
      else if 64 < length (pos_ExecutionRef p) then Some (pq_error ''value too long for type character varying(64)'')
      else if pos_ExecutionRef p \<in> pr_execution_ref ` set (w_positions w)
      then Some (pq_error ''positions_execution_ref_key'')
      else None)"

definition new_position_row :: "Position \<Rightarrow> World \<Rightarrow> position_row" where
  "new_position_row p w =
     \<lparr>pr_id = w_position_seq w, pr_ticker = pos_Ticker p, pr_side = pos_Side p, pr_quantity = pos_Quantity p,
      pr_entry_price = pos_EntryPrice p, pr_stop_loss = pos_StopLoss p, pr_take_profit = pos_TakeProfit p,
      pr_sector = pos_Sector p, pr_status = pos_Status p, pr_opened_at = w_clock w, pr_closed_at = None,
      pr_execution_ref = pos_ExecutionRef p, pr_exit_price = None, pr_pnl = None, pr_exit_reason = None\<rparr>"

definition insert_position_stmt :: "Position \<Rightarrow> World \<Rightarrow> (error + int) \<times> World" where
  "insert_position_stmt p w =
     (let n = w_position_seq w; w1 = w\<lparr>w_position_seq := n + 1\<rparr> in
      case position_row_error w p of
        Some e \<Rightarrow> (Inl e, w1)
      | None \<Rightarrow> (Inr n, w1\<lparr>w_positions := w_positions w @ [new_position_row p w]\<rparr>))"

text \<open>\<open>PositionStore.Insert\<close> returns the error and the position with its new id.\<close>

definition PositionStore_Insert :: "Position \<Rightarrow> World \<Rightarrow> (error + Position) \<times> World" where
  "PositionStore_Insert p w =
     (case db_call (insert_position_stmt p) w of (r, w') \<Rightarrow>
        (map_sum id (\<lambda>n. p\<lparr>pos_ID := n\<rparr>) (wrap_error ''insert position'' r), w'))"

definition scan_open :: "position_row \<Rightarrow> Position" where
  "scan_open r = \<lparr>pos_ID = pr_id r, pos_Ticker = pr_ticker r, pos_Side = pr_side r, pos_Quantity = pr_quantity r,
     pos_EntryPrice = pr_entry_price r, pos_StopLoss = pr_stop_loss r, pos_TakeProfit = pr_take_profit r,
     pos_Sector = pr_sector r, pos_Status = pr_status r, pos_ExecutionRef = pr_execution_ref r,
     pos_ExitPrice = 0, pos_PnL = 0, pos_ExitReason = '''', pos_ClosedAt = zero_time\<rparr>"

text \<open>Newest first: \<open>ORDER BY id DESC\<close>.\<close>

definition list_open_stmt :: "World \<Rightarrow> (error + Position list) \<times> World" where
  "list_open_stmt w =
     (Inr (map scan_open (rev (sort_key pr_id (filter (\<lambda>r. pr_status r = ''OPEN'') (w_positions w))))), w)"

definition ListOpen :: "World \<Rightarrow> (error + Position list) \<times> World" where
  "ListOpen w =
     (case db_call list_open_stmt w of (r, w') \<Rightarrow> (wrap_error ''list open positions'' r, w'))"

text \<open>PostgreSQL's arithmetic on double precision raises an error instead of overflowing to an infinity,
  and instead of underflowing to zero.\<close>

definition pg_sub :: "float64 \<Rightarrow> float64 \<Rightarrow> float64 option" where
  "pg_sub x y =
     (let r = x - y in if r \<in> {PosInf, NegInf} \<and> is_fin x \<and> is_fin y then None else Some r)"

definition pg_mul :: "float64 \<Rightarrow> float64 \<Rightarrow> float64 option" where
  "pg_mul x y =
     (let r = x * y in
      if r \<in> {PosInf, NegInf} \<and> is_fin x \<and> is_fin y then None
      else if r = 0 \<and> x \<noteq> 0 \<and> y \<noteq> 0 \<and> is_fin x \<and> is_fin y then None
      else Some r)"

definition pnl_of :: "position_row \<Rightarrow> float64 \<Rightarrow> float64 option" where
  "pnl_of r exitPrice =
     Option.bind (pg_sub exitPrice (pr_entry_price r)) (\<lambda>d.
     Option.bind (pg_mul d (f64_of_int (pr_quantity r))) (\<lambda>g.
       pg_mul g (if pr_side r = ''LONG'' then 1 else - 1)))"

definition close_row :: "World \<Rightarrow> float64 \<Rightarrow> float64 \<Rightarrow> string \<Rightarrow> position_row \<Rightarrow> position_row" where
  "close_row w exitPrice pnl reason r =
     r\<lparr>pr_status := ''CLOSED'', pr_closed_at := Some (w_clock w), pr_exit_price := Some exitPrice,
       pr_pnl := Some pnl, pr_exit_reason := Some reason\<rparr>"

text \<open>The update concerns at most one row, as ids are unique. The result is the number of rows.\<close>

definition mark_closed_stmt :: "int \<Rightarrow> float64 \<Rightarrow> string \<Rightarrow> World \<Rightarrow> (error + int) \<times> World" where
  "mark_closed_stmt pid exitPrice reason w =
     (case find (\<lambda>r. pr_id r = pid \<and> pr_status r = ''OPEN'') (w_positions w) of
        None \<Rightarrow> (Inr 0, w)
      | Some r \<Rightarrow>
          (case pnl_of r exitPrice of
             None \<Rightarrow> (Inl (pq_error ''value out of range''), w)
           | Some pnl \<Rightarrow>
               if reason \<noteq> ''stop_loss'' \<and> reason \<noteq> ''take_profit'' \<and> reason \<noteq> ''square_off''
               then (Inl (pq_error ''positions_exit_reason_check''), w)
               else (Inr 1, w\<lparr>w_positions := map (\<lambda>x. if pr_id x = pid \<and> pr_status x = ''OPEN''
                       then close_row w exitPrice pnl reason x else x) (w_positions w)\<rparr>)))"

definition MarkClosed :: "int \<Rightarrow> float64 \<Rightarrow> ExitReason \<Rightarrow> World \<Rightarrow> error option \<times> World" where
  "MarkClosed pid exitPrice reason w =
     (case db_call (mark_closed_stmt pid exitPrice reason) w of
        (Inl e, w') \<Rightarrow> (Some (Wrapf ''mark position closed'' e), w')
      | (Inr n, w') \<Rightarrow> (if n = 0 then Some ErrNoRows else None, w'))"

text \<open>The query of \<open>PaperTrader.hasExecution\<close>; any error counts as not found.\<close>

definition has_execution_stmt :: "string \<Rightarrow> World \<Rightarrow> (error + int) \<times> World" where
  "has_execution_stmt ref w =
     (if ref \<in> pr_execution_ref ` set (w_positions w) then Inr 1 else Inl ErrNoRows, w)"

section \<open>The table trade\_log\<close>

definition trade_row_error :: "World \<Rightarrow> TradeExecution \<Rightarrow> Status \<Rightarrow> error option" where
  "trade_row_error w ex status =
     (if 10 < length (te_Ticker ex) then Some (pq_error ''value too long for type character varying(10)'')
      else if 4 < length (te_Side ex) then Some (pq_error ''value too long for type character varying(4)'')
      else if \<not> in_int32 (te_Quantity ex) then Some (pq_error ''value out of range for type integer'')
      else if 12 < length status then Some (pq_error ''value too long for type character varying(12)'')
      else if te_PositionID ex \<notin> pr_id ` set (w_positions w) then Some (pq_error ''fk_trade_log_position'')
      else None)"

definition insert_trade_stmt :: "TradeExecution \<Rightarrow> Status \<Rightarrow> World \<Rightarrow> (error + unit) \<times> World" where
  "insert_trade_stmt ex status w =
     (let n = w_trade_seq w; w1 = w\<lparr>w_trade_seq := n + 1\<rparr> in
      case trade_row_error w ex status of
        Some e \<Rightarrow> (Inl e, w1)
      | None \<Rightarrow> (Inr (), w1\<lparr>w_trade_log := w_trade_log w @
          [\<lparr>tr_id = n, tr_ticker = te_Ticker ex, tr_side = te_Side ex, tr_quantity = te_Quantity ex,
            tr_price = te_Price ex, tr_signal_reason = te_SignalReason ex, tr_status = status,
            tr_executed_at = w_clock w, tr_position_id = te_PositionID ex\<rparr>]\<rparr>))"

definition TradeLogStore_Insert :: "TradeExecution \<Rightarrow> Status \<Rightarrow> World \<Rightarrow> error option \<times> World" where
  "TradeLogStore_Insert ex status w =
     (case db_call (insert_trade_stmt ex status) w of
        (Inl e, w') \<Rightarrow> (Some (Wrapf ''insert trade_log'' e), w')
      | (Inr _, w') \<Rightarrow> (None, w'))"

section \<open>The table sentiment\_scores\<close>

definition score_row_error :: "SentimentScore \<Rightarrow> error option" where
  "score_row_error s =
     (if 10 < length (ss_Ticker s) then Some (pq_error ''value too long for type character varying(10)'')
      else if \<not> (0 \<le> ss_Confidence s \<and> ss_Confidence s \<le> 1) then Some (pq_error ''sentiment_scores_confidence_check'')
      else if ss_Bias s \<noteq> ''BULLISH'' \<and> ss_Bias s \<noteq> ''BEARISH'' \<and> ss_Bias s \<noteq> ''NEUTRAL''
      then Some (pq_error ''sentiment_scores_bias_check'')
      else None)"

definition insert_score_stmt :: "SentimentScore \<Rightarrow> World \<Rightarrow> (error + int) \<times> World" where
  "insert_score_stmt s w =
     (let n = w_score_seq w; w1 = w\<lparr>w_score_seq := n + 1\<rparr> in
      case score_row_error s of
        Some e \<Rightarrow> (Inl e, w1)
      | None \<Rightarrow> (Inr n, w1\<lparr>w_scores := w_scores w @
          [\<lparr>sr_id = n, sr_ticker = ss_Ticker s, sr_confidence = ss_Confidence s, sr_bias = ss_Bias s,
            sr_summary = ss_Summary s, sr_source = ss_Source s, sr_recorded_at = w_clock w,
            sr_source_url = ss_SourceURL s, sr_raw_response = ss_RawResponse s\<rparr>]\<rparr>))"

definition SentimentStore_Insert :: "SentimentScore \<Rightarrow> World \<Rightarrow> (error + SentimentScore) \<times> World" where
  "SentimentStore_Insert s w =
     (case db_call (insert_score_stmt s) w of (r, w') \<Rightarrow>
        (map_sum id (\<lambda>n. s\<lparr>ss_ID := n\<rparr>) (wrap_error ''insert sentiment score'' r), w'))"

definition scan_score :: "score_row \<Rightarrow> SentimentScore" where
  "scan_score r = \<lparr>ss_ID = sr_id r, ss_Ticker = sr_ticker r, ss_Bias = sr_bias r, ss_Confidence = sr_confidence r,
     ss_Summary = sr_summary r, ss_Source = sr_source r, ss_SourceURL = sr_source_url r,
     ss_RawResponse = sr_raw_response r, ss_RecordedAt = sr_recorded_at r\<rparr>"

text \<open>The first row in the order \<open>recorded_at DESC, id DESC\<close>.\<close>

definition newer :: "score_row \<Rightarrow> score_row \<Rightarrow> bool" where
  "newer a b \<longleftrightarrow> sr_recorded_at b < sr_recorded_at a \<or> (sr_recorded_at b = sr_recorded_at a \<and> sr_id b < sr_id a)"

fun newest :: "score_row list \<Rightarrow> score_row option" where
  "newest [] = None"
| "newest (r # rs) = (case newest rs of None \<Rightarrow> Some r | Some m \<Rightarrow> if newer m r then Some m else Some r)"

definition latest_score_stmt :: "string \<Rightarrow> World \<Rightarrow> (error + SentimentScore) \<times> World" where
  "latest_score_stmt ticker w =
     (case newest (filter (\<lambda>r. sr_ticker r = ticker) (w_scores w)) of
        None \<Rightarrow> Inl ErrNoRows
      | Some r \<Rightarrow> Inr (scan_score r), w)"

definition LatestScore :: "string \<Rightarrow> World \<Rightarrow> (error + SentimentScore option) \<times> World" where
  "LatestScore ticker w =
     (case db_call (latest_score_stmt ticker) w of
        (Inr s, w') \<Rightarrow> (Inr (Some s), w')
      | (Inl e, w') \<Rightarrow> if errors_is e ErrNoRows then (Inr None, w')
                      else (Inl (Wrapf ''latest sentiment score'' e), w'))"

section \<open>Publishing\<close>

text \<open>\<open>w_bus\<close> is the history of what the server accepted, so it only grows. How long the server keeps a message for
  delivery (\<open>MaxAge\<close>, in \<open>JetStream\<close>: 24 hours in the trading stream, 7 days in the one of the sentiments)
  takes nothing from the history, and a theorem about \<open>w_bus\<close> says what was published, not what is still stored.\<close>

definition publish :: "string \<Rightarrow> json \<Rightarrow> World \<Rightarrow> error option \<times> World" where
  "publish subj data w =
     (let w1 = w\<lparr>w_bus_faults := tl (w_bus_faults w)\<rparr> in
      case Publish (next_fault (w_bus_faults w)) subj data (w_bus w) of
        (r, sent) \<Rightarrow> (r, w1\<lparr>w_bus := sent\<rparr>))"

section \<open>Invariant of the tables\<close>

text \<open>The part of the constraints that the proofs rest on. The statements check the others too (lengths, the
  ranges of scores, the reasons of exits), but nothing refers to them afterwards.\<close>

definition row_ok :: "position_row \<Rightarrow> bool" where
  "row_ok r \<longleftrightarrow> in_int32 (pr_quantity r) \<and> pr_side r = ''LONG'' \<and> pr_status r \<in> {''OPEN'', ''CLOSED''} \<and>
     (pr_status r = ''OPEN'' \<longrightarrow> pr_exit_price r = None \<and> pr_pnl r = None \<and> pr_exit_reason r = None \<and> pr_closed_at r = None)"

definition db_ok :: "World \<Rightarrow> bool" where
  "db_ok w \<longleftrightarrow>
     distinct (map pr_id (w_positions w)) \<and> (\<forall>r\<in>set (w_positions w). pr_id r < w_position_seq w) \<and>
     distinct (map pr_execution_ref (w_positions w)) \<and>
     (\<forall>r\<in>set (w_positions w). row_ok r) \<and>
     (\<forall>t\<in>set (w_trade_log w). tr_position_id t \<in> pr_id ` set (w_positions w)) \<and>
     (\<forall>s\<in>set (w_scores w). sr_id s < w_score_seq w)"

lemma db_ok_frame [simp]:
  "db_ok (w\<lparr>w_db_faults := fs\<rparr>) = db_ok w" "db_ok (w\<lparr>w_bus_faults := fs\<rparr>) = db_ok w"
  "db_ok (w\<lparr>w_bus := ms\<rparr>) = db_ok w" "db_ok (w\<lparr>w_clock := t\<rparr>) = db_ok w"
  by (simp_all add: db_ok_def)

lemma db_ok_empty: "db_ok empty_world"
  by (simp add: db_ok_def empty_world_def)

text \<open>Whatever the fault, a call leaves the tables alone or does what its statement does.\<close>

lemma db_call_cases:
  "snd (db_call stmt w) = w\<lparr>w_db_faults := tl (w_db_faults w)\<rparr> \<or>
   snd (db_call stmt w) = snd (stmt (w\<lparr>w_db_faults := tl (w_db_faults w)\<rparr>))"
  by (auto simp: db_call_def Let_def split: fault.split)

lemma db_call_Inr:
  "db_call stmt w = (Inr x, w') \<Longrightarrow> stmt (w\<lparr>w_db_faults := tl (w_db_faults w)\<rparr>) = (Inr x, w')"
  by (auto simp: db_call_def Let_def split: fault.splits)

lemma db_call_NoFault:
  "next_fault (w_db_faults w) = NoFault \<Longrightarrow> db_call stmt w = stmt (w\<lparr>w_db_faults := tl (w_db_faults w)\<rparr>)"
  by (simp add: db_call_def Let_def)

lemma db_call_ok:
  assumes "db_ok w" "\<And>v. db_ok v \<Longrightarrow> db_ok (snd (stmt v))" shows "db_ok (snd (db_call stmt w))"
  using assms db_call_cases [of stmt w] by auto

lemma insert_position_ok: "db_ok w \<Longrightarrow> pos_Status p = ''OPEN'' \<or> pos_Status p = ''CLOSED'' \<Longrightarrow> db_ok (snd (insert_position_stmt p w))"
  by (cases "position_row_error w p")
     (auto simp: insert_position_stmt_def new_position_row_def Let_def db_ok_def row_ok_def position_row_error_def split: if_splits)

lemma insert_position_row_ok: "db_ok w \<Longrightarrow> db_ok (snd (insert_position_stmt p w))"
proof (cases "position_row_error w p")
  case None
  then have "pos_Status p = ''OPEN'' \<or> pos_Status p = ''CLOSED''" by (auto simp: position_row_error_def split: if_splits)
  moreover assume "db_ok w"
  ultimately show ?thesis by (intro insert_position_ok) auto
next
  case (Some e)
  moreover assume "db_ok w"
  ultimately show ?thesis by (auto simp: insert_position_stmt_def Let_def db_ok_def)
qed

lemma insert_trade_ok: "db_ok w \<Longrightarrow> db_ok (snd (insert_trade_stmt ex st w))"
  by (cases "trade_row_error w ex st")
     (auto simp: insert_trade_stmt_def Let_def db_ok_def trade_row_error_def split: if_splits)

lemma close_row_simps [simp]:
  "pr_id (close_row w x p y r) = pr_id r" "pr_execution_ref (close_row w x p y r) = pr_execution_ref r"
  "pr_quantity (close_row w x p y r) = pr_quantity r" "pr_status (close_row w x p y r) = ''CLOSED''"
  "pr_side (close_row w x p y r) = pr_side r" "pr_entry_price (close_row w x p y r) = pr_entry_price r"
  "pr_exit_price (close_row w x p y r) = Some x" "pr_pnl (close_row w x p y r) = Some p"
  "pr_exit_reason (close_row w x p y r) = Some y" "pr_closed_at (close_row w x p y r) = Some (w_clock w)"
  by (simp_all add: close_row_def)

lemma db_ok_map:
  assumes ok: "db_ok w" and f: "\<And>r. pr_id (f r) = pr_id r" "\<And>r. pr_execution_ref (f r) = pr_execution_ref r"
    "\<And>r. row_ok r \<Longrightarrow> row_ok (f r)"
  shows "db_ok (w\<lparr>w_positions := map f (w_positions w)\<rparr>)"
proof -
  have "pr_id \<circ> f = pr_id" "pr_execution_ref \<circ> f = pr_execution_ref" using f by auto
  moreover have "pr_id ` f ` S = pr_id ` S" for S using f(1) by (auto simp: image_iff)
  ultimately show ?thesis using ok f by (simp add: db_ok_def)
qed

lemma mark_closed_ok: "db_ok w \<Longrightarrow> db_ok (snd (mark_closed_stmt i x y w))"
proof -
  assume ok: "db_ok w"
  have "row_ok r \<Longrightarrow> row_ok (close_row w x p y r)" for p r by (simp add: row_ok_def)
  then have "db_ok (w\<lparr>w_positions := map (\<lambda>r. if pr_id r = i \<and> pr_status r = ''OPEN''
      then close_row w x p y r else r) (w_positions w)\<rparr>)" for p
    by (intro db_ok_map [OF ok]) simp_all
  then show ?thesis using ok by (auto simp: mark_closed_stmt_def split: option.split)
qed

lemma list_open_ok: "db_ok w \<Longrightarrow> db_ok (snd (list_open_stmt w))"
  by (simp add: list_open_stmt_def)

lemma insert_score_ok: "db_ok w \<Longrightarrow> db_ok (snd (insert_score_stmt s w))"
  by (cases "score_row_error s") (auto simp: insert_score_stmt_def Let_def db_ok_def)

lemma operations_ok:
  assumes "db_ok w"
  shows "db_ok (snd (PositionStore_Insert p w))" "db_ok (snd (ListOpen w))" "db_ok (snd (MarkClosed i x y w))"
    "db_ok (snd (TradeLogStore_Insert ex st w))" "db_ok (snd (SentimentStore_Insert s w))"
    "db_ok (snd (LatestScore t w))" "db_ok (snd (publish subj d w))"
proof -
  note c = db_call_ok [OF assms]
  show "db_ok (snd (PositionStore_Insert p w))"
    using c [of "insert_position_stmt p", OF insert_position_row_ok] by (cases "db_call (insert_position_stmt p) w") (simp add: PositionStore_Insert_def)
  show "db_ok (snd (ListOpen w))"
    using c [of list_open_stmt, OF list_open_ok] by (cases "db_call (list_open_stmt) w") (simp add: ListOpen_def)
  show "db_ok (snd (MarkClosed i x y w))"
    using c [of "mark_closed_stmt i x y", OF mark_closed_ok] by (cases "db_call (mark_closed_stmt i x y) w") (simp add: MarkClosed_def split: sum.split)
  show "db_ok (snd (TradeLogStore_Insert ex st w))"
    using c [of "insert_trade_stmt ex st", OF insert_trade_ok] by (cases "db_call (insert_trade_stmt ex st) w") (simp add: TradeLogStore_Insert_def split: sum.split)
  show "db_ok (snd (SentimentStore_Insert s w))"
    using c [of "insert_score_stmt s", OF insert_score_ok] by (cases "db_call (insert_score_stmt s) w") (simp add: SentimentStore_Insert_def)
  show "db_ok (snd (LatestScore t w))"
    using c [of "latest_score_stmt t"] by (cases "db_call (latest_score_stmt t) w") (auto simp: LatestScore_def latest_score_stmt_def split: sum.split)
  show "db_ok (snd (publish subj d w))"
    using assms by (cases "Publish (next_fault (w_bus_faults w)) subj d (w_bus w)") (simp add: publish_def Let_def)
qed

section \<open>The stores as an interface\<close>

definition db_ports :: "World Ports" where
  "db_ports = \<lparr>po_ListOpen = ListOpen, po_MarkClosed = MarkClosed, po_LatestScore = LatestScore, po_Publish = publish\<rparr>"

definition open_ids :: "World \<Rightarrow> int set" where
  "open_ids w = pr_id ` {r \<in> set (w_positions w). pr_status r = ''OPEN''}"

lemma open_ids_frame [simp]:
  "open_ids (w\<lparr>w_db_faults := fs\<rparr>) = open_ids w" "open_ids (w\<lparr>w_bus_faults := fs\<rparr>) = open_ids w"
  "open_ids (w\<lparr>w_bus := ms\<rparr>) = open_ids w"
  by (simp_all add: open_ids_def)

lemma open_ids_map:
  assumes "\<And>r. pr_id (f r) = pr_id r" "\<And>r. pr_status (f r) = ''OPEN'' \<longleftrightarrow> pr_status r = ''OPEN'' \<and> pr_id r \<noteq> i"
  shows "open_ids (w\<lparr>w_positions := map f (w_positions w)\<rparr>) = open_ids w - {i}"
proof -
  have "{r \<in> f ` S. pr_status r = ''OPEN''} = f ` {r \<in> S. pr_status r = ''OPEN'' \<and> pr_id r \<noteq> i}" for S
    using assms(2) by blast
  moreover have "pr_id ` f ` T = pr_id ` T" for T using assms(1) by (simp add: image_image)
  ultimately have "open_ids (w\<lparr>w_positions := map f (w_positions w)\<rparr>) =
      pr_id ` {r \<in> set (w_positions w). pr_status r = ''OPEN'' \<and> pr_id r \<noteq> i}"
    by (simp add: open_ids_def)
  also have "\<dots> = open_ids w - {i}" by (auto simp: open_ids_def)
  finally show ?thesis .
qed

lemma mark_closed_stmt_cases:
  assumes ok: "db_ok w" and r: "mark_closed_stmt i x y w = (res, w')"
  shows "(w' = w \<and> (res = Inr 0 \<or> (\<exists>e. res = Inl e))) \<or> (res = Inr 1 \<and> i \<in> open_ids w \<and> open_ids w' = open_ids w - {i})"
proof (cases "find (\<lambda>r. pr_id r = i \<and> pr_status r = ''OPEN'') (w_positions w)")
  case None
  with r have "res = Inr 0" "w' = w" by (simp_all add: mark_closed_stmt_def)
  then show ?thesis by simp
next
  case (Some row)
  then have row: "row \<in> set (w_positions w)" "pr_id row = i" "pr_status row = ''OPEN''"
    by (auto simp: find_Some_iff)
  then have "i \<in> open_ids w" by (auto simp: open_ids_def)
  moreover have "open_ids (w\<lparr>w_positions := map (\<lambda>r. if pr_id r = i \<and> pr_status r = ''OPEN''
      then close_row w x p y r else r) (w_positions w)\<rparr>) = open_ids w - {i}" for p
    by (rule open_ids_map) auto
  moreover have "(w' = w \<and> (\<exists>e. res = Inl e)) \<or>
      (\<exists>p. res = Inr 1 \<and> w' = w\<lparr>w_positions := map (\<lambda>r. if pr_id r = i \<and> pr_status r = ''OPEN''
        then close_row w x p y r else r) (w_positions w)\<rparr>)"
    using r Some by (simp add: mark_closed_stmt_def split: option.splits if_splits) blast+
  ultimately show ?thesis by blast
qed

lemma MarkClosed_outcome:
  assumes "db_ok w" "MarkClosed i x y w = (res, w')"
  shows "(res = None \<longrightarrow> i \<in> open_ids w \<and> open_ids w' = open_ids w - {i}) \<and>
    (open_ids w' = open_ids w \<or> open_ids w' = open_ids w - {i})"
proof -
  let ?v = "w\<lparr>w_db_faults := tl (w_db_faults w)\<rparr>"
  obtain res1 w1 where s: "mark_closed_stmt i x y ?v = (res1, w1)" by (cases "mark_closed_stmt i x y ?v")
  have v: "db_ok ?v" "open_ids ?v = open_ids w" using assms(1) by simp_all
  note m = mark_closed_stmt_cases [OF v(1) s, unfolded v(2)]
  show ?thesis
  proof (cases "next_fault (w_db_faults w)")
    case NoFault
    then show ?thesis using assms(2) s m v(2)
      by (auto simp: MarkClosed_def db_call_NoFault split: sum.splits if_splits)
  next
    case (LostRequest e)
    then show ?thesis using assms(2) v(2) by (auto simp: MarkClosed_def db_call_def Let_def)
  next
    case (LostReply e)
    then show ?thesis using assms(2) s m v(2) by (auto simp: MarkClosed_def db_call_def Let_def)
  qed
qed

lemma ListOpen_frame: "open_ids (snd (ListOpen w)) = open_ids w"
proof -
  have "snd (db_call list_open_stmt w) = w\<lparr>w_db_faults := tl (w_db_faults w)\<rparr>"
    using db_call_cases [of list_open_stmt w] by (simp add: list_open_stmt_def)
  then show ?thesis by (cases "db_call list_open_stmt w") (simp add: ListOpen_def)
qed

lemma ListOpen_result:
  assumes "ListOpen w = (Inr ps, w')"
  shows "ps = map scan_open (rev (sort_key pr_id (filter (\<lambda>r. pr_status r = ''OPEN'') (w_positions w))))"
proof -
  from assms obtain w1 where "db_call list_open_stmt w = (Inr ps, w1)"
    by (cases "db_call list_open_stmt w") (auto simp: ListOpen_def wrap_error_def split: sum.splits)
  from db_call_Inr [OF this] show ?thesis by (simp add: list_open_stmt_def)
qed

lemma ListOpen_complete:
  assumes "db_ok w" "ListOpen w = (Inr ps, w')"
  shows "distinct (map pos_ID ps) \<and> set (map pos_ID ps) = open_ids w"
proof -
  let ?rows = "filter (\<lambda>r. pr_status r = ''OPEN'') (w_positions w)"
  have ids: "map pos_ID ps = rev (map pr_id (sort_key pr_id ?rows))"
    unfolding ListOpen_result [OF assms(2)] by (simp add: rev_map comp_def scan_open_def)
  have "mset (map pr_id (sort_key pr_id ?rows)) = mset (map pr_id ?rows)" by simp
  then have "distinct (map pr_id (sort_key pr_id ?rows)) = distinct (map pr_id ?rows)"
    by (rule mset_eq_imp_distinct_iff)
  moreover have "distinct (map pr_id ?rows)" using assms(1) by (simp add: db_ok_def distinct_map_filter)
  moreover have "set (map pr_id (sort_key pr_id ?rows)) = open_ids w" by (auto simp: open_ids_def)
  ultimately show ?thesis unfolding ids by simp
qed

lemma publish_frame: "w_positions (snd (publish s d w)) = w_positions w"
  by (cases "Publish (next_fault (w_bus_faults w)) s d (w_bus w)") (simp add: publish_def Let_def)

interpretation db: position_store db_ports db_ok open_ids
proof (unfold_locales, goal_cases)
  case (1 w)
  then show ?case using operations_ok(2) ListOpen_frame by (simp add: db_ports_def)
next
  case (2 w ps w')
  then show ?case using ListOpen_complete by (simp add: db_ports_def)
next
  case (3 w s d)
  then show ?case using operations_ok(7) publish_frame by (simp add: db_ports_def open_ids_def)
next
  case (4 w i x r)
  then show ?case using operations_ok(3) by (simp add: db_ports_def)
next
  case (5 w i x r w')
  then show ?case using MarkClosed_outcome by (simp add: db_ports_def)
next
  case (6 w i x r e w')
  then show ?case using MarkClosed_outcome by (simp add: db_ports_def)
qed

text \<open>A position is closed at most once. Whatever faults the calls meet, a close that reports success
  found the position open and left every other open position open, and every later attempt on the same
  id reports an error.\<close>

theorem MarkClosed_once:
  assumes "db_ok w" "MarkClosed i x r w = (None, w')"
  shows "i \<in> open_ids w \<and> open_ids w' = open_ids w - {i} \<and> fst (MarkClosed i y q w') \<noteq> None"
  using assms db.close_done [of w i x r w'] db.close_once [of w i x r w' y q] by (simp add: db_ports_def)

section \<open>What a close records\<close>

definition open_row :: position_row where
  "open_row = \<lparr>pr_id = 1, pr_ticker = ''TCS'', pr_side = ''LONG'', pr_quantity = 10, pr_entry_price = Fin 100,
     pr_stop_loss = Fin 95, pr_take_profit = Fin 110, pr_sector = ''IT'', pr_status = ''OPEN'', pr_opened_at = 0,
     pr_closed_at = None, pr_execution_ref = ''risk-TCS-1'', pr_exit_price = None, pr_pnl = None, pr_exit_reason = None\<rparr>"

definition one_position_world :: World where
  "one_position_world = empty_world\<lparr>w_positions := [open_row], w_position_seq := 2\<rparr>"

lemma one_position_ok: "db_ok one_position_world"
  by (simp add: db_ok_def one_position_world_def open_row_def row_ok_def in_int32_def empty_world_def)

definition closed_one :: World where
  "closed_one = one_position_world\<lparr>w_positions := [close_row one_position_world (Fin 95) (Fin (- 50)) ''stop_loss'' open_row]\<rparr>"

lemma close_one: "MarkClosed 1 (Fin 95) ReasonStopLoss one_position_world = (None, closed_one)"
proof -
  have "pnl_of open_row (Fin 95) = Some (Fin (- 50))"
    by (simp add: pnl_of_def pg_sub_def pg_mul_def open_row_def f64_minus_Fin one_float64_def zero_float64_def)
  then have "mark_closed_stmt 1 (Fin 95) ReasonStopLoss one_position_world = (Inr 1, closed_one)"
    by (simp add: mark_closed_stmt_def one_position_world_def closed_one_def open_row_def enum_defs)
  moreover have "one_position_world\<lparr>w_db_faults := tl (w_db_faults one_position_world)\<rparr> = one_position_world"
    by (simp add: one_position_world_def empty_world_def)
  ultimately show ?thesis
    by (simp add: MarkClosed_def db_call_NoFault) (simp add: one_position_world_def empty_world_def db_call_def)
qed

lemma MarkClosed_once_witness: "fst (MarkClosed 1 (Fin 99) ReasonSquareOff closed_one) \<noteq> None"
  using MarkClosed_once [OF one_position_ok close_one] by blast

definition same_terms :: "position_row \<Rightarrow> position_row \<Rightarrow> bool" where
  "same_terms a b \<longleftrightarrow> pr_id a = pr_id b \<and> pr_ticker a = pr_ticker b \<and> pr_side a = pr_side b \<and>
     pr_quantity a = pr_quantity b \<and> pr_entry_price a = pr_entry_price b \<and> pr_stop_loss a = pr_stop_loss b \<and>
     pr_take_profit a = pr_take_profit b \<and> pr_sector a = pr_sector b \<and> pr_execution_ref a = pr_execution_ref b"

definition extends_to :: "World \<Rightarrow> World \<Rightarrow> bool" where
  "extends_to w w' \<longleftrightarrow>
     (\<forall>r\<in>set (w_positions w). \<exists>r'\<in>set (w_positions w'). same_terms r r' \<and> (pr_status r \<noteq> ''OPEN'' \<longrightarrow> r' = r)) \<and>
     (\<exists>ts. w_trade_log w' = w_trade_log w @ ts)"

lemma same_terms_refl [simp]: "same_terms r r"
  by (simp add: same_terms_def)

lemma extends_same: "w_positions w' = w_positions w \<Longrightarrow> w_trade_log w' = w_trade_log w \<Longrightarrow> extends_to w w'"
  unfolding extends_to_def by (metis append_Nil2 same_terms_refl)

lemma extends_frame: "extends_to w w'' \<Longrightarrow> w_positions w' = w_positions w \<Longrightarrow> w_trade_log w' = w_trade_log w \<Longrightarrow> extends_to w' w''"
  by (simp add: extends_to_def)

lemma extends_db_call: "(\<And>v. extends_to v (snd (stmt v))) \<Longrightarrow> extends_to w (snd (db_call stmt w))"
  using db_call_cases [of stmt w] extends_same [of "w\<lparr>w_db_faults := tl (w_db_faults w)\<rparr>" w]
    extends_frame [of "w\<lparr>w_db_faults := tl (w_db_faults w)\<rparr>" _ w] by fastforce

lemma insert_position_extends: "extends_to v (snd (insert_position_stmt p v))"
  by (auto simp: insert_position_stmt_def Let_def extends_to_def intro: same_terms_refl split: option.split)

lemma insert_trade_extends: "extends_to v (snd (insert_trade_stmt ex st v))"
  by (auto simp: insert_trade_stmt_def Let_def extends_to_def intro: same_terms_refl split: option.split)

lemma mark_closed_extends: "extends_to v (snd (mark_closed_stmt i x y v))"
proof -
  let ?f = "\<lambda>p r. if pr_id r = i \<and> pr_status r = ''OPEN'' then close_row v x p y r else r"
  have f: "same_terms r (?f p r) \<and> (pr_status r \<noteq> ''OPEN'' \<longrightarrow> ?f p r = r)" for p r
    by (simp add: same_terms_def close_row_def)
  have "extends_to v (v\<lparr>w_positions := map (?f p) (w_positions v)\<rparr>)" for p
    unfolding extends_to_def
  proof (intro conjI ballI)
    fix r assume "r \<in> set (w_positions v)"
    then show "\<exists>r'\<in>set (w_positions (v\<lparr>w_positions := map (?f p) (w_positions v)\<rparr>)).
        same_terms r r' \<and> (pr_status r \<noteq> ''OPEN'' \<longrightarrow> r' = r)"
      using f [of r p] by (intro bexI [of _ "?f p r"]) simp_all
  qed simp
  then show ?thesis using extends_same [of v v] by (auto simp: mark_closed_stmt_def split: option.split)
qed

text \<open>History is final. A closed position's row, with its exit price, profit and reason, and every row
  of the trade log survive every later operation unchanged, and an open position's terms (ticker, side,
  quantity, entry, stop, target, sector, reference) are never altered.\<close>

theorem history_is_final:
  "extends_to w (snd (PositionStore_Insert p w)) \<and> extends_to w (snd (ListOpen w)) \<and>
   extends_to w (snd (MarkClosed i x y w)) \<and> extends_to w (snd (TradeLogStore_Insert ex st w)) \<and>
   extends_to w (snd (SentimentStore_Insert s w)) \<and> extends_to w (snd (LatestScore t w)) \<and>
   extends_to w (snd (publish subj d w))"
proof (intro conjI)
  show "extends_to w (snd (PositionStore_Insert p w))"
    using extends_db_call [OF insert_position_extends [of _ p], of w]
    by (cases "db_call (insert_position_stmt p) w") (simp add: PositionStore_Insert_def)
  have l: "extends_to v (snd (list_open_stmt v))" for v by (simp add: list_open_stmt_def extends_same)
  show "extends_to w (snd (ListOpen w))"
    using extends_db_call [OF l, of w] by (cases "db_call list_open_stmt w") (simp add: ListOpen_def)
  show "extends_to w (snd (MarkClosed i x y w))"
    using extends_db_call [OF mark_closed_extends [of _ i x y], of w]
    by (cases "db_call (mark_closed_stmt i x y) w") (simp add: MarkClosed_def split: sum.split)
  show "extends_to w (snd (TradeLogStore_Insert ex st w))"
    using extends_db_call [OF insert_trade_extends [of _ ex st], of w]
    by (cases "db_call (insert_trade_stmt ex st) w") (simp add: TradeLogStore_Insert_def split: sum.split)
  have sc: "extends_to v (snd (insert_score_stmt s v))" for v
    by (rule extends_same) (auto simp: insert_score_stmt_def Let_def split: option.split)
  show "extends_to w (snd (SentimentStore_Insert s w))"
    using extends_db_call [OF sc, of w] by (cases "db_call (insert_score_stmt s) w") (simp add: SentimentStore_Insert_def)
  have la: "extends_to v (snd (latest_score_stmt t v))" for v by (simp add: latest_score_stmt_def extends_same)
  show "extends_to w (snd (LatestScore t w))"
    using extends_db_call [OF la, of w]
    by (cases "db_call (latest_score_stmt t) w") (simp add: LatestScore_def split: sum.split)
  show "extends_to w (snd (publish subj d w))"
    by (cases "Publish (next_fault (w_bus_faults w)) subj d (w_bus w)") (simp add: publish_def Let_def extends_same)
qed

section \<open>The latest score\<close>

lemma newest_last: "\<forall>x\<in>set xs. newer r x \<Longrightarrow> newest (xs @ [r]) = Some r"
  by (induction xs) auto

text \<open>What the Sentiment Analyst stores is what the Risk Manager reads: without faults, a valid score is
  inserted, and as long as the server's clock has not run backwards \<open>LatestScore\<close> then returns it, with its
  new id and the time of its insertion.\<close>

theorem LatestScore_after_Insert:
  assumes "db_ok w" "w_db_faults w = []" "score_row_error s = None"
    and "\<forall>r\<in>set (w_scores w). sr_recorded_at r \<le> w_clock w"
  shows "\<exists>s' w1. SentimentStore_Insert s w = (Inr s', w1) \<and>
    fst (LatestScore (ss_Ticker s) w1) = Inr (Some (s'\<lparr>ss_RecordedAt := w_clock w\<rparr>))"
proof -
  obtain row where ins: "insert_score_stmt s w =
      (Inr (w_score_seq w), w\<lparr>w_score_seq := w_score_seq w + 1, w_scores := w_scores w @ [row]\<rparr>)"
    and row: "sr_id row = w_score_seq w" "sr_ticker row = ss_Ticker s" "sr_recorded_at row = w_clock w"
      "scan_score row = s\<lparr>ss_ID := w_score_seq w, ss_RecordedAt := w_clock w\<rparr>"
    using assms(3) by (simp add: insert_score_stmt_def Let_def scan_score_def)
  have f: "v\<lparr>w_db_faults := []\<rparr> = v" if "w_db_faults v = []" for v :: World
    using that by (cases v) simp
  define w1 where w1: "w1 = w\<lparr>w_score_seq := w_score_seq w + 1, w_scores := w_scores w @ [row]\<rparr>"
  have "\<forall>x\<in>set (filter (\<lambda>r. sr_ticker r = ss_Ticker s) (w_scores w)). newer row x"
    using assms(1,4) row by (force simp: newer_def db_ok_def)
  then have "newest (filter (\<lambda>r. sr_ticker r = ss_Ticker s) (w_scores w @ [row])) = Some row"
    using newest_last row(2) by simp
  then have "latest_score_stmt (ss_Ticker s) w1 = (Inr (scan_score row), w1)"
    by (simp add: latest_score_stmt_def w1)
  moreover have "w_db_faults w1 = []" by (simp add: w1 assms(2))
  ultimately have "fst (LatestScore (ss_Ticker s) w1) = Inr (Some (scan_score row))"
    by (simp add: LatestScore_def db_call_NoFault f)
  moreover have "SentimentStore_Insert s w = (Inr (s\<lparr>ss_ID := w_score_seq w\<rparr>), w1)"
    using ins by (simp add: SentimentStore_Insert_def db_call_NoFault assms(2) f wrap_error_def w1)
  ultimately show ?thesis using row(4) by (intro exI [of _ "s\<lparr>ss_ID := w_score_seq w\<rparr>"] exI [of _ w1]) simp
qed

definition bullish :: SentimentScore where
  "bullish = \<lparr>ss_ID = 0, ss_Ticker = ''TCS'', ss_Bias = BiasBullish, ss_Confidence = 1, ss_Summary = '''',
     ss_Source = '''', ss_SourceURL = ''u'', ss_RawResponse = '''', ss_RecordedAt = zero_time\<rparr>"

lemma LatestScore_after_Insert_witness:
  "\<exists>s' w1. SentimentStore_Insert bullish empty_world = (Inr s', w1) \<and>
    fst (LatestScore ''TCS'' w1) = Inr (Some (s'\<lparr>ss_RecordedAt := 0\<rparr>))"
  using LatestScore_after_Insert [OF db_ok_empty, of bullish]
  by (simp add: empty_world_def bullish_def score_row_error_def enum_defs one_float64_def)

section \<open>Calls without faults, and what the calls leave alone\<close>

lemma db_ports_simps [simp]:
  "po_ListOpen db_ports = ListOpen" "po_MarkClosed db_ports = MarkClosed"
  "po_LatestScore db_ports = LatestScore" "po_Publish db_ports = publish"
  by (simp_all add: db_ports_def)

definition quiet :: "World \<Rightarrow> bool" where
  "quiet w \<longleftrightarrow> w_db_faults w = [] \<and> w_bus_faults w = []"

lemma quiet_same: "w_db_faults w = [] \<Longrightarrow> w\<lparr>w_db_faults := []\<rparr> = w" "w_bus_faults w = [] \<Longrightarrow> w\<lparr>w_bus_faults := []\<rparr> = w"
  by simp_all

lemma db_call_quiet: "w_db_faults w = [] \<Longrightarrow> db_call stmt w = stmt w"
  by (simp add: db_call_NoFault quiet_same)

lemma find_row:
  assumes "distinct (map pr_id rows)" "r \<in> set rows" "pr_status r = ''OPEN''"
  shows "find (\<lambda>x. pr_id x = pr_id r \<and> pr_status x = ''OPEN'') rows = Some r"
  using assms by (induction rows) (auto dest: image_eqI [of _ pr_id r])

lemma MarkClosed_quiet:
  assumes "db_ok w" "quiet w" "row \<in> set (w_positions w)" "pr_status row = ''OPEN''" "pnl_of row x = Some p"
    "r \<in> {ReasonStopLoss, ReasonTakeProfit, ReasonSquareOff}"
  shows "MarkClosed (pr_id row) x r w = (None, w\<lparr>w_positions := map (\<lambda>y. if pr_id y = pr_id row \<and> pr_status y = ''OPEN''
    then close_row w x p r y else y) (w_positions w)\<rparr>)"
proof -
  have "find (\<lambda>x. pr_id x = pr_id row \<and> pr_status x = ''OPEN'') (w_positions w) = Some row"
    using assms by (intro find_row) (auto simp: db_ok_def)
  moreover have "r = ''stop_loss'' \<or> r = ''take_profit'' \<or> r = ''square_off''" using assms(6) by (auto simp: enum_defs)
  ultimately show ?thesis using assms(2,5)
    by (auto simp: MarkClosed_def db_call_NoFault quiet_def quiet_same mark_closed_stmt_def)
qed

lemma publish_quiet: "quiet w \<Longrightarrow> s \<noteq> '''' \<Longrightarrow> publish s d w = (None, w\<lparr>w_bus := w_bus w @ [(s, d)]\<rparr>)"
  by (simp add: publish_def Publish_def quiet_def quiet_same)

lemma ListOpen_quiet:
  assumes "quiet w" shows "\<exists>ps. ListOpen w = (Inr ps, w) \<and> set ps = scan_open ` {r \<in> set (w_positions w). pr_status r = ''OPEN''}"
proof -
  have "db_call list_open_stmt w = list_open_stmt w"
    using assms by (simp add: db_call_NoFault quiet_def quiet_same)
  then show ?thesis by (simp add: ListOpen_def list_open_stmt_def wrap_error_def)
qed

lemma LatestScore_frame: "snd (LatestScore t w) = w\<lparr>w_db_faults := tl (w_db_faults w)\<rparr>"
proof -
  have "snd (db_call (latest_score_stmt t) w) = w\<lparr>w_db_faults := tl (w_db_faults w)\<rparr>"
    using db_call_cases [of "latest_score_stmt t" w] by (simp add: latest_score_stmt_def)
  then show ?thesis by (cases "db_call (latest_score_stmt t) w") (simp add: LatestScore_def split: sum.split)
qed

lemma LatestScore_quiet: "w_db_faults w = [] \<Longrightarrow> snd (LatestScore t w) = w"
  by (simp add: LatestScore_frame)

lemma bus_frame [simp]:
  "w_bus (snd (ListOpen w)) = w_bus w" "w_bus (snd (MarkClosed i x r w)) = w_bus w"
proof -
  have b: "w_bus (snd (db_call stmt w)) = w_bus w" if "\<And>v. w_bus (snd (stmt v)) = w_bus v" for stmt :: "World \<Rightarrow> (error + 'a) \<times> World"
    using that db_call_cases [of stmt w] by auto
  show "w_bus (snd (ListOpen w)) = w_bus w"
    using b [of list_open_stmt] by (cases "db_call list_open_stmt w") (simp add: ListOpen_def list_open_stmt_def)
  have "w_bus (snd (mark_closed_stmt i x r v)) = w_bus v" for v
    by (auto simp: mark_closed_stmt_def split: option.split)
  from b [OF this] show "w_bus (snd (MarkClosed i x r w)) = w_bus w"
    by (cases "db_call (mark_closed_stmt i x r) w") (simp add: MarkClosed_def split: sum.split)
qed

lemma publish_bus: "publish s d w = (r, w') \<Longrightarrow>
    (w_bus w' = w_bus w \<or> w_bus w' = w_bus w @ [(s, d)]) \<and> (r = None \<longrightarrow> w_bus w' = w_bus w @ [(s, d)])"
proof -
  assume p: "publish s d w = (r, w')"
  obtain q sent where q: "Publish (next_fault (w_bus_faults w)) s d (w_bus w) = (q, sent)"
    by (cases "Publish (next_fault (w_bus_faults w)) s d (w_bus w)")
  then have "r = q" "w_bus w' = sent" using p by (auto simp: publish_def Let_def)
  moreover have "sent = w_bus w \<or> sent = w_bus w @ [(s, d)]" using Publish_sent q by (metis snd_conv)
  moreover have "q = None \<longrightarrow> sent = w_bus w @ [(s, d)]" using Publish_outcome q by blast
  ultimately show ?thesis by simp
qed

lemma LatestScore_tables: "w_bus (snd (LatestScore t w)) = w_bus w" "w_positions (snd (LatestScore t w)) = w_positions w"
  by (simp_all add: LatestScore_frame)

end
