(* ===== verification/SquareOff.thy ===== *)
theory SquareOff
  imports RiskManager Database
begin

text \<open>
  What the end-of-day square-off of the Risk Manager guarantees. The effect of a liquidation on the
  book is proved for any position store; on the database it is then shown that the routine keeps to
  its hours, orders before it closes, finishes the day only on an empty book, and does finish it when
  no call fails.
\<close>

section \<open>The square-off, for any position store\<close>

lemma liquidate_each_frame:
  "liquidate_each ports now ps a g w = (a', g', w') \<Longrightarrow> g' = g\<lparr>rm_exposure := rm_exposure g'\<rparr>"
proof (induction ps arbitrary: a g w)
  case (Cons pos rest)
  from Cons.prems show ?case
    by (auto simp: Let_def split: prod.splits option.splits dest!: Cons.IH)
qed simp

lemma liquidate_frame:
  assumes "liquidate ports now g w = (e, g', w')"
  shows "g' = g\<lparr>rm_exposure := rm_exposure g', rm_allClosed := rm_allClosed g'\<rparr>"
  using assms by (auto simp: liquidate_def split: prod.splits sum.splits if_splits dest!: liquidate_each_frame)

context position_store
begin

lemma signal_frame:
  "ok w \<Longrightarrow> signalSquareOff ports g pos x now w = (r, w') \<Longrightarrow> ok w' \<and> open_ids w' = open_ids w"
  using publish_frame [of w "ExecuteSubject (pos_Ticker pos)"]
  by (auto simp: signalSquareOff_def split: if_splits sum.splits prod.splits option.splits) (metis snd_conv)+

text \<open>The loop opens nothing, closes only what it was given, and raises the flag only if it closed all of it.\<close>

lemma liquidate_each_book:
  "ok w \<Longrightarrow> liquidate_each ports now ps a g w = (a', g', w') \<Longrightarrow>
     ok w' \<and> open_ids w' \<subseteq> open_ids w \<and> open_ids w \<subseteq> open_ids w' \<union> set (map pos_ID ps) \<and>
     (a' \<longrightarrow> a \<and> set (map pos_ID ps) \<inter> open_ids w' = {})"
proof (induction ps arbitrary: a g w)
  case Nil
  then show ?case by simp
next
  case (Cons pos rest)
  obtain r w1 where s: "signalSquareOff ports g pos (exit_price_for g pos) now w = (r, w1)"
    by (cases "signalSquareOff ports g pos (exit_price_for g pos) now w")
  have w1: "ok w1" "open_ids w1 = open_ids w" using signal_frame [OF Cons.prems(1) s] by simp_all
  show ?case
  proof (cases r)
    case (Some e)
    then have "liquidate_each ports now rest False g w1 = (a', g', w')" using Cons.prems(2) s by (simp add: Let_def)
    from Cons.IH [OF w1(1) this] w1(2) show ?thesis by auto
  next
    case None
    obtain q w2 where m: "po_MarkClosed ports (pos_ID pos) (exit_price_for g pos) ReasonSquareOff w1 = (q, w2)"
      by (cases "po_MarkClosed ports (pos_ID pos) (exit_price_for g pos) ReasonSquareOff w1")
    have w2: "ok w2" "open_ids w2 \<subseteq> open_ids w1" "open_ids w1 - {pos_ID pos} \<subseteq> open_ids w2"
      using close_ok close_subset close_keeps_others w1(1) m by (metis snd_conv)+
    show ?thesis
    proof (cases q)
      case (Some e)
      then have "liquidate_each ports now rest False g w2 = (a', g', w')" using Cons.prems(2) s None m by (simp add: Let_def)
      from Cons.IH [OF w2(1) this] w1(2) w2 show ?thesis by auto
    next
      case closed: None
      let ?g = "g\<lparr>rm_exposure := map_option (Release (pos_Side pos) (pos_Sector pos)) (rm_exposure g)\<rparr>"
      have "liquidate_each ports now rest a ?g w2 = (a', g', w')" using Cons.prems(2) s None m closed by (simp add: Let_def)
      from Cons.IH [OF w2(1) this] w1(2) w2 close_done [OF w1(1) m [unfolded closed]] show ?thesis by auto
    qed
  qed
qed

lemma liquidate_book:
  assumes "ok w" "liquidate ports now g w = (e, g', w')"
  shows "ok w' \<and> open_ids w' \<subseteq> open_ids w \<and> (e = None \<and> rm_allClosed g' \<longrightarrow> open_ids w' = {})"
proof -
  obtain r w1 where l: "po_ListOpen ports w = (r, w1)" by (cases "po_ListOpen ports w")
  have w1: "ok w1" "open_ids w1 = open_ids w" using list_frame [OF assms(1)] l by simp_all
  show ?thesis
  proof (cases r)
    case (Inl er)
    then show ?thesis using assms(2) l w1 by (auto simp: liquidate_def)
  next
    case (Inr ps)
    have ids: "set (map pos_ID ps) = open_ids w" using list_complete [OF assms(1) l [unfolded Inr]] by simp
    show ?thesis
    proof (cases "ps = []")
      case True
      then show ?thesis using assms(2) l Inr w1 ids by (auto simp: liquidate_def)
    next
      case False
      obtain a g2 w2 where e: "liquidate_each ports now ps True g w1 = (a, g2, w2)"
        by (cases "liquidate_each ports now ps True g w1") auto
      have "e = None" "g' = g2\<lparr>rm_allClosed := a\<rparr>" "w' = w2"
        using assms(2) l Inr False e by (simp_all add: liquidate_def)
      then show ?thesis using liquidate_each_book [OF w1(1) e] ids w1(2) by auto
    qed
  qed
qed

lemma squareOff_book:
  assumes "ok w" "squareOff ports now g w = (g', w')"
  shows "ok w' \<and> open_ids w' \<subseteq> open_ids w \<and> (rm_sqDone g' \<noteq> rm_sqDone g \<longrightarrow> open_ids w' = {})"
proof -
  obtain e g1 w1 where l: "liquidate ports now g w = (e, g1, w1)" by (cases "liquidate ports now g w") auto
  note b = liquidate_book [OF assms(1) l]
  have "rm_sqDone g1 = rm_sqDone g" using arg_cong [OF liquidate_frame [OF l], of rm_sqDone] by simp
  then show ?thesis using assms b l by (auto simp: squareOff_def Let_def split: if_splits option.splits)
qed

end

section \<open>The square-off on the database\<close>

text \<open>C17: The square-off only ever closes positions, says nothing before 15:15 IST and nothing more on a day
  it has done; and it marks a day as done only when the database holds no open position any more, whatever
  calls to the database or the bus fail on the way. A partial failure leaves the day to the next tick.\<close>

theorem squareOff_flattens:
  assumes "db_ok w" "squareOff db_ports now g w = (g', w')"
  shows "open_ids w' \<subseteq> open_ids w \<and>
    (ns_of_day ist now < 54900 * nsec \<or> rm_sqDone g = format_day (civil_day ist now) \<longrightarrow> g' = g \<and> w' = w) \<and>
    (rm_sqDone g' \<noteq> rm_sqDone g \<longrightarrow> open_ids w' = {} \<and> rm_sqDone g' = format_day (civil_day ist now))"
proof -
  have "rm_sqDone g' \<noteq> rm_sqDone g \<longrightarrow> rm_sqDone g' = format_day (civil_day ist now)"
  proof -
    obtain e g1 w1 where l: "liquidate db_ports now g w = (e, g1, w1)" by (cases "liquidate db_ports now g w") auto
    have "rm_sqDone g1 = rm_sqDone g" using arg_cong [OF liquidate_frame [OF l], of rm_sqDone] by simp
    then show ?thesis using assms(2) l by (auto simp: squareOff_def Let_def split: if_splits option.splits)
  qed
  moreover have "ns_of_day ist now < 54900 * nsec \<or> rm_sqDone g = format_day (civil_day ist now) \<longrightarrow> g' = g \<and> w' = w"
    using assms(2) by (auto simp: squareOff_def Let_def before_date_of_day DefaultSquareOffTime_def split: if_splits)
  ultimately show ?thesis using db.squareOff_book [OF assms] by blast
qed

text \<open>The example: an agent with the database behind it, on 1970-01-01 at 16:00 IST.\<close>

definition wired :: Analyst where
  "wired = (newAnalyst True)\<lparr>rm_positions := True\<rparr>"

definition afternoon :: Time where "afternoon = 10 * Hour + 30 * Minute"

lemma one_position_open: "open_ids one_position_world = {1}"
proof -
  have "w_positions one_position_world = [open_row]" by (simp add: one_position_world_def)
  moreover have "pr_status open_row = ''OPEN''" "pr_id open_row = 1" by (simp_all add: open_row_def)
  ultimately have "{r \<in> set (w_positions one_position_world). pr_status r = ''OPEN''} = {open_row}" "pr_id open_row = 1"
    by auto
  then show ?thesis by (simp add: open_ids_def)
qed

lemma squareOff_flattens_witness:
  "open_ids (snd (squareOff db_ports afternoon wired one_position_world)) \<subseteq> {1}"
proof -
  obtain g' w' where s: "squareOff db_ports afternoon wired one_position_world = (g', w')"
    by (cases "squareOff db_ports afternoon wired one_position_world")
  show ?thesis using squareOff_flattens [OF one_position_ok s] unfolding s snd_conv one_position_open by blast
qed

text \<open>Orders before closes. The order for a position is on the bus when its row is closed.\<close>

definition ordered :: "Time \<Rightarrow> World \<Rightarrow> Position \<Rightarrow> bool" where
  "ordered now w pos \<longleftrightarrow> (\<exists>x j. marshal_execution (square_off_order pos x now) = Inr j \<and>
     (ExecuteSubject (pos_Ticker pos), j) \<in> set (w_bus w))"

lemma signal_orders:
  assumes "signalSquareOff db_ports g pos x now w = (r, w')"
  shows "set (w_bus w) \<subseteq> set (w_bus w') \<and> (r = None \<and> rm_js g \<longrightarrow> ordered now w' pos)"
proof (cases "rm_js g")
  case False
  with assms show ?thesis by (simp add: signalSquareOff_def)
next
  case js: True
  show ?thesis
  proof (cases "marshal_execution (square_off_order pos x now)")
    case (Inl e)
    with assms js show ?thesis by (auto simp: signalSquareOff_def)
  next
    case (Inr data)
    obtain q w1 where p: "publish (ExecuteSubject (pos_Ticker pos)) data w = (q, w1)"
      by (cases "publish (ExecuteSubject (pos_Ticker pos)) data w")
    have "w' = w1 \<and> (r = None \<longrightarrow> q = None)"
      using assms js Inr p by (cases q) (auto simp: signalSquareOff_def)
    moreover have "q = None \<longrightarrow> (ExecuteSubject (pos_Ticker pos), data) \<in> set (w_bus w1)" "set (w_bus w) \<subseteq> set (w_bus w1)"
      using publish_bus [OF p] by auto
    ultimately show ?thesis using Inr unfolding ordered_def by blast
  qed
qed

lemma ordered_mono: "ordered now w pos \<Longrightarrow> set (w_bus w) \<subseteq> set (w_bus w') \<Longrightarrow> ordered now w' pos"
  unfolding ordered_def by blast

lemma liquidate_each_orders:
  "db_ok w \<Longrightarrow> rm_js g \<Longrightarrow> liquidate_each db_ports now ps a g w = (a', g', w') \<Longrightarrow>
     set (w_bus w) \<subseteq> set (w_bus w') \<and>
     (\<forall>i \<in> open_ids w - open_ids w'. \<exists>pos \<in> set ps. pos_ID pos = i \<and> ordered now w' pos)"
proof (induction ps arbitrary: a g w)
  case Nil
  then show ?case by simp
next
  case (Cons pos rest)
  obtain r w1 where s: "signalSquareOff db_ports g pos (exit_price_for g pos) now w = (r, w1)"
    by (cases "signalSquareOff db_ports g pos (exit_price_for g pos) now w")
  have w1: "db_ok w1" "open_ids w1 = open_ids w" using db.signal_frame [OF Cons.prems(1) s] by simp_all
  note o = signal_orders [OF s]
  show ?case
  proof (cases r)
    case (Some e)
    then have "liquidate_each db_ports now rest False g w1 = (a', g', w')" using Cons.prems(3) s by (simp add: Let_def)
    from Cons.IH [OF w1(1) Cons.prems(2) this] w1(2) o show ?thesis by auto
  next
    case None
    obtain q w2 where m: "MarkClosed (pos_ID pos) (exit_price_for g pos) ReasonSquareOff w1 = (q, w2)"
      by (cases "MarkClosed (pos_ID pos) (exit_price_for g pos) ReasonSquareOff w1")
    have w2: "db_ok w2" "open_ids w1 - {pos_ID pos} \<subseteq> open_ids w2" "w_bus w2 = w_bus w1"
      using operations_ok(3) [OF w1(1), of "pos_ID pos" "exit_price_for g pos" ReasonSquareOff]
        bus_frame(2) [of "pos_ID pos" "exit_price_for g pos" ReasonSquareOff w1] MarkClosed_outcome [OF w1(1) m] unfolding m by auto
    define g1 where "g1 = (if q = None then g\<lparr>rm_exposure := map_option (Release (pos_Side pos) (pos_Sector pos)) (rm_exposure g)\<rparr> else g)"
    have "liquidate_each db_ports now rest (a \<and> q = None) g1 w2 = (a', g', w')"
      using Cons.prems(3) s None m by (cases q) (simp_all add: Let_def g1_def)
    moreover have "rm_js g1" using Cons.prems(2) by (simp add: g1_def)
    ultimately have ih: "set (w_bus w2) \<subseteq> set (w_bus w')"
      "\<forall>i \<in> open_ids w2 - open_ids w'. \<exists>pos \<in> set rest. pos_ID pos = i \<and> ordered now w' pos"
      using Cons.IH [OF w2(1)] by blast+
    have "ordered now w' pos" using o None Cons.prems(2) ih(1) w2(3) by (auto intro: ordered_mono)
    moreover have "i \<in> open_ids w2 \<or> i = pos_ID pos" if "i \<in> open_ids w" for i using that w1(2) w2(2) by blast
    ultimately have "\<forall>i \<in> open_ids w - open_ids w'. \<exists>p \<in> set (pos # rest). pos_ID p = i \<and> ordered now w' p"
      using ih(2) by (metis DiffE DiffI list.set_intros)
    moreover have "set (w_bus w) \<subseteq> set (w_bus w')" using o w2(3) ih(1) by auto
    ultimately show ?thesis by blast
  qed
qed

text \<open>No square-off without an order. A position that a square-off closes in the database was open, and
  a liquidation order for it has been published: the opposite side, the full quantity, a reference that starts
  with \<open>sqoff-\<close> and the position's id.\<close>

theorem squareOff_orders:
  assumes "db_ok w" "rm_js g" "squareOff db_ports now g w = (g', w')" "i \<in> open_ids w - open_ids w'"
  shows "\<exists>row x j. row \<in> set (w_positions w) \<and> pr_id row = i \<and> pr_status row = ''OPEN'' \<and>
    marshal_execution (square_off_order (scan_open row) x now) = Inr j \<and>
    (ExecuteSubject (pr_ticker row), j) \<in> set (w_bus w')"
proof -
  obtain e g1 w1 where l: "liquidate db_ports now g w = (e, g1, w1)" by (cases "liquidate db_ports now g w") auto
  have w1: "w' = w1" using assms(3,4) l by (auto simp: squareOff_def Let_def split: if_splits option.splits)
  obtain r w0 where lo: "ListOpen w = (r, w0)" by (cases "ListOpen w")
  have w0: "db_ok w0" "open_ids w0 = open_ids w"
    using operations_ok(2) [OF assms(1)] ListOpen_frame [of w] lo by simp_all
  have "i \<in> open_ids w0 - open_ids w1" using assms(4) w0(2) w1 by simp
  then obtain ps a g2 where ps: "r = Inr ps" "liquidate_each db_ports now ps True g w0 = (a, g2, w1)"
    using l lo by (auto simp: liquidate_def split: sum.splits if_splits prod.splits)
  obtain pos where pos: "pos \<in> set ps" "pos_ID pos = i" "ordered now w1 pos"
    using liquidate_each_orders [OF w0(1) assms(2) ps(2)] \<open>i \<in> open_ids w0 - open_ids w1\<close> by blast
  from pos(1) obtain row where "row \<in> set (w_positions w)" "pr_status row = ''OPEN''" "pos = scan_open row"
    using ListOpen_result [OF lo [unfolded ps(1)]] by auto
  moreover obtain x j where "marshal_execution (square_off_order pos x now) = Inr j"
      "(ExecuteSubject (pos_Ticker pos), j) \<in> set (w_bus w1)"
    using pos(3) by (auto simp: ordered_def)
  ultimately show ?thesis using pos(2) w1 by (intro exI [of _ row] exI [of _ x] exI [of _ j]) (simp add: scan_open_def)
qed

section \<open>The square-off succeeds\<close>

definition closable :: "Analyst \<Rightarrow> World \<Rightarrow> Position \<Rightarrow> bool" where
  "closable g w pos \<longleftrightarrow> is_fin (exit_price_for g pos) \<and>
     (\<exists>row \<in> set (w_positions w). pr_id row = pos_ID pos \<and> pr_status row = ''OPEN'' \<and>
        pnl_of row (exit_price_for g pos) \<noteq> None)"

lemma marshal_order: "is_fin x \<Longrightarrow> \<exists>j. marshal_execution (square_off_order pos x now) = Inr j"
  by (cases x) (simp_all add: marshal_execution_def execution_fields_def square_off_order_def field_defs marshal_def)

lemma liquidate_each_quiet:
  "db_ok w \<Longrightarrow> quiet w \<Longrightarrow> distinct (map pos_ID ps) \<Longrightarrow> \<forall>pos \<in> set ps. closable g w pos \<Longrightarrow>
     \<exists>g' w'. liquidate_each db_ports now ps a g w = (a, g', w')"
proof (induction ps arbitrary: g w)
  case (Cons pos rest)
  let ?x = "exit_price_for g pos"
  obtain row p where row: "row \<in> set (w_positions w)" "pr_id row = pos_ID pos" "pr_status row = ''OPEN''" "pnl_of row ?x = Some p"
    and fin: "is_fin ?x" using Cons.prems(4) by (auto simp: closable_def)
  obtain j where j: "marshal_execution (square_off_order pos ?x now) = Inr j" using marshal_order [OF fin] by blast
  define w1 where "w1 = (if rm_js g then w\<lparr>w_bus := w_bus w @ [(ExecuteSubject (pos_Ticker pos), j)]\<rparr> else w)"
  have s: "signalSquareOff db_ports g pos ?x now w = (None, w1)"
    using publish_quiet [OF Cons.prems(2)] j by (simp add: signalSquareOff_def w1_def)
  have w1: "db_ok w1" "quiet w1" "w_positions w1 = w_positions w" using Cons.prems(1,2) by (simp_all add: w1_def quiet_def)
  define w2 where "w2 = w1\<lparr>w_positions := map (\<lambda>y. if pr_id y = pr_id row \<and> pr_status y = ''OPEN''
    then close_row w1 ?x p ReasonSquareOff y else y) (w_positions w1)\<rparr>"
  have m: "MarkClosed (pos_ID pos) ?x ReasonSquareOff w1 = (None, w2)"
    using MarkClosed_quiet [OF w1(1,2), of row ?x p ReasonSquareOff] row w1(3) by (simp add: w2_def)
  have w2: "db_ok w2" "quiet w2" using operations_ok(3) [OF w1(1)] m w1(2) by (metis snd_conv, simp add: w2_def quiet_def)
  define g1 where "g1 = g\<lparr>rm_exposure := map_option (Release (pos_Side pos) (pos_Sector pos)) (rm_exposure g)\<rparr>"
  have "closable g1 w2 q" if q: "q \<in> set rest" for q
  proof -
    have ne: "pos_ID q \<noteq> pos_ID pos" using Cons.prems(3) q by (metis distinct.simps(2) image_eqI list.set_map list.simps(9))
    have e: "exit_price_for g1 q = exit_price_for g q" by (simp add: exit_price_for_def LatestPrice_def g1_def)
    have "closable g w q" using Cons.prems(4) q by simp
    then obtain r where r: "r \<in> set (w_positions w)" "pr_id r = pos_ID q" "pr_status r = ''OPEN''" "pnl_of r (exit_price_for g q) \<noteq> None"
      "is_fin (exit_price_for g q)" by (auto simp: closable_def)
    then have "r \<in> set (w_positions w2)" using ne row(2) w1(3) by (force simp: w2_def)
    then show ?thesis using r e by (auto simp: closable_def)
  qed
  then have "\<forall>q \<in> set rest. closable g1 w2 q" by blast
  from Cons.IH [OF w2 _ this] obtain g' w' where "liquidate_each db_ports now rest a g1 w2 = (a, g', w')"
    using Cons.prems(3) by auto
  then have "liquidate_each db_ports now (pos # rest) a g w = (a, g', w')"
    using s m by (simp add: Let_def g1_def)
  then show ?case by blast
qed simp

lemma squareOff_quiet:
  assumes "db_ok w" "quiet w" "rm_positions g" "54900 * nsec \<le> ns_of_day ist now"
    "rm_sqDone g \<noteq> format_day (civil_day ist now)"
    "\<forall>row \<in> set (w_positions w). pr_status row = ''OPEN'' \<longrightarrow>
       is_fin (exit_price_for g (scan_open row)) \<and> pnl_of row (exit_price_for g (scan_open row)) \<noteq> None"
  shows "rm_sqDone (fst (squareOff db_ports now g w)) = format_day (civil_day ist now)"
proof -
  obtain ps where lo: "ListOpen w = (Inr ps, w)" and ps: "set ps = scan_open ` {r \<in> set (w_positions w). pr_status r = ''OPEN''}"
    using ListOpen_quiet [OF assms(2)] by blast
  have "closable g w pos" if "pos \<in> set ps" for pos
  proof -
    from that obtain row where row: "row \<in> set (w_positions w)" "pr_status row = ''OPEN''" "pos = scan_open row"
      unfolding ps by blast
    then have "pr_id row = pos_ID pos" by (simp add: scan_open_def)
    then show ?thesis using row assms(6) unfolding closable_def by blast
  qed
  then obtain g' w' where e: "liquidate_each db_ports now ps True g w = (True, g', w')"
    using liquidate_each_quiet [OF assms(1,2)] ListOpen_complete [OF assms(1) lo] by blast
  then have "\<exists>g2 w2. liquidate db_ports now g w = (None, g2, w2) \<and> rm_allClosed g2"
    using lo by (cases "ps = []") (simp_all add: liquidate_def)
  then obtain g2 w2 where l: "liquidate db_ports now g w = (None, g2, w2)" "rm_allClosed g2" by blast
  have "\<not> now < date_of_day ist now 15 15" using assms(4) by (simp add: before_date_of_day)
  then have "squareOff db_ports now g w = (g2\<lparr>rm_sqDone := format_day (civil_day ist now)\<rparr>, w2)"
    using assms(3,5) l by (simp add: squareOff_def Let_def DefaultSquareOffTime_def)
  then show ?thesis by simp
qed


lemma afternoon_facts: "54900 * nsec \<le> ns_of_day ist afternoon" "civil_day ist afternoon = 0"
  by (simp_all add: afternoon_def ns_of_day_def civil_day_def ist_def nsec_def Hour_def Minute_def day_ns_def)

lemma wired_closable:
  "\<forall>row \<in> set (w_positions one_position_world). pr_status row = ''OPEN'' \<longrightarrow>
     is_fin (exit_price_for wired (scan_open row)) \<and> pnl_of row (exit_price_for wired (scan_open row)) \<noteq> None"
  by (simp add: one_position_world_def open_row_def wired_def newAnalyst_def exit_price_for_def LatestPrice_def
      scan_open_def pnl_of_def pg_sub_def pg_mul_def f64_minus_Fin zero_float64_Fin one_float64_def)

lemma one_position_quiet: "quiet one_position_world"
  by (simp add: quiet_def one_position_world_def empty_world_def)

lemma wired_ready: "rm_positions wired" "rm_js wired" "rm_sqDone wired \<noteq> format_day (civil_day ist afternoon)"
  by (simp_all add: wired_def newAnalyst_def afternoon_facts(2) format_day_epoch)


lemma squareOff_orders_witness:
  "\<exists>row x j. row \<in> set (w_positions one_position_world) \<and> pr_id row = 1 \<and> pr_status row = ''OPEN'' \<and>
    marshal_execution (square_off_order (scan_open row) x afternoon) = Inr j \<and>
    (ExecuteSubject (pr_ticker row), j) \<in> set (w_bus (snd (squareOff db_ports afternoon wired one_position_world)))"
proof -
  obtain g' w' where s: "squareOff db_ports afternoon wired one_position_world = (g', w')"
    by (cases "squareOff db_ports afternoon wired one_position_world")
  have "1 \<in> open_ids one_position_world" by (simp add: one_position_open)
  moreover have "open_ids w' = {}"
    using db.squareOff_book [OF one_position_ok s] s wired_ready(3)
      squareOff_quiet [OF one_position_ok one_position_quiet wired_ready(1) afternoon_facts(1) wired_ready(3) wired_closable] by simp
  ultimately show ?thesis using squareOff_orders [OF one_position_ok wired_ready(2) s, of 1] s by simp
qed

end
