(* ===== verification/Admission.thy ===== *)
theory Admission
  imports SquareOff
begin

text \<open>
  What the Risk Manager guarantees of a trade intent: how each message is answered, that only admitted
  intents lead to an execution and with sound terms, that an affordable admitted intent does lead to
  one, that the ceilings of the exposure tracker hold, and what becomes of the tracker over the life
  of the agent the program builds.
\<close>

section \<open>What one intent does\<close>

text \<open>\<open>promoted\<close>: the world after the gates, in which the execution built from the intent was confirmed.\<close>

lemma promote_cases:
  assumes "promote ports clock intent g w = (r, g', w')"
  shows "(r = None \<longrightarrow> (\<exists>ex. buildExecution clock g intent = Inr ex \<and> publishExecution ports g ex w = (None, w') \<and>
      g' = g\<lparr>rm_exposure := map_option (Register (te_Side ex) (te_Sector ex)) (rm_exposure g)\<rparr>)) \<and>
    (r \<noteq> None \<longrightarrow> g' = g \<and> (w' = w \<or> (\<exists>ex. buildExecution clock g intent = Inr ex \<and> publishExecution ports g ex w = (r, w'))))"
  using assms by (auto simp: promote_def split: sum.splits prod.splits option.splits)

text \<open>The gates an intent has to pass, as one predicate.\<close>

definition admitted :: "'w Ports \<Rightarrow> Time \<Rightarrow> TradeIntent \<Rightarrow> Analyst \<Rightarrow> 'w \<Rightarrow> bool" where
  "admitted ports clock i g w \<longleftrightarrow>
     validate_intent i = None \<and> timeWindowGuard (currentTime g clock) = None \<and>
     (\<forall>ex. rm_exposure g = Some ex \<longrightarrow> EntryGate ex (sectorOf g (ti_Ticker i)) = None \<and> BiasGate ex (ti_Side i) = None) \<and>
     (rm_scores g \<longrightarrow> (\<exists>s. fst (po_LatestScore ports (ti_Ticker i) w) = Inr (Some s) \<and>
        \<not> ss_Confidence s < rm_minConf g))"

lemma evaluate_admits:
  assumes "evaluate_intent ports clock i g w = (None, w1)" "validate_intent i = None"
  shows "admitted ports clock i g w \<and> (w1 = w \<or> w1 = snd (po_LatestScore ports (ti_Ticker i) w))"
  using assms by (auto simp: evaluate_intent_def admitted_def sentimentGate_def SentimentGateRaw_def
      split: option.splits if_splits prod.splits sum.splits)

lemma evaluate_world:
  "snd (evaluate_intent ports clock i g w) = w \<or> snd (evaluate_intent ports clock i g w) = snd (po_LatestScore ports (ti_Ticker i) w)"
  by (auto simp: evaluate_intent_def split: option.split if_splits prod.split)

lemma accepted_iff:
  assumes h: "handleIntent ports c1 c2 data g w = (d, g', w')"
  shows "(rm_accepted g' \<noteq> rm_accepted g \<longrightarrow>
     (\<exists>i ex w1. unmarshal_intent data = Inr i \<and> admitted ports c1 i g w \<and> evaluate_intent ports c1 i g w = (None, w1) \<and>
        buildExecution c2 g i = Inr ex \<and> publishExecution ports g ex w1 = (None, w') \<and> d = Ack \<and>
        g' = g\<lparr>rm_accepted := rm_accepted g + 1,
               rm_exposure := map_option (Register (te_Side ex) (te_Sector ex)) (rm_exposure g)\<rparr>)) \<and>
    (rm_accepted g' = rm_accepted g \<longrightarrow> g' = g)"
proof (cases "unmarshal_intent data")
  case (Inl e)
  then show ?thesis using h by (simp add: handleIntent_def)
next
  case (Inr i)
  show ?thesis
  proof (cases "validate_intent i")
    case (Some e)
    then show ?thesis using h Inr by (simp add: handleIntent_def)
  next
    case valid: None
    obtain r w1 where e: "evaluate_intent ports c1 i g w = (r, w1)" by (cases "evaluate_intent ports c1 i g w")
    show ?thesis
    proof (cases r)
      case (Some er)
      then show ?thesis using h Inr valid e by (simp add: handleIntent_def)
    next
      case None
      obtain q g2 w2 where p: "promote ports c2 i g w1 = (q, g2, w2)" by (cases "promote ports c2 i g w1") auto
      note pc = promote_cases [OF p]
      show ?thesis
      proof (cases q)
        case (Some er)
        then show ?thesis using h Inr valid e None p pc by (auto simp: handleIntent_def split: if_splits)
      next
        case q: None
        then obtain ex where ex: "buildExecution c2 g i = Inr ex" "publishExecution ports g ex w1 = (None, w2)"
          "g2 = g\<lparr>rm_exposure := map_option (Register (te_Side ex) (te_Sector ex)) (rm_exposure g)\<rparr>" using pc by blast
        have "d = Ack" "g' = g2\<lparr>rm_accepted := rm_accepted g2 + 1\<rparr>" "w' = w2"
          using h Inr valid e None p q by (simp_all add: handleIntent_def)
        moreover have "admitted ports c1 i g w" using evaluate_admits [of ports c1 i g w w1] e None valid by simp
        ultimately show ?thesis using Inr e None ex by auto
      qed
    qed
  qed
qed

lemmas accepted_cases = accepted_iff [THEN conjunct1, rule_format] and
  not_accepted = accepted_iff [THEN conjunct2, rule_format]

text \<open>The message on the bus, if there is one, is an admitted intent's execution.\<close>

lemma publishExecution_bus:
  assumes "publishExecution db_ports g ex w = (r, w')"
  shows "(w_bus w' = w_bus w \<or> (\<exists>j. marshal_execution ex = Inr j \<and> w_bus w' = w_bus w @ [(ExecuteSubject (te_Ticker ex), j)])) \<and>
    (r = None \<and> rm_js g \<longrightarrow> (\<exists>j. marshal_execution ex = Inr j \<and> w_bus w' = w_bus w @ [(ExecuteSubject (te_Ticker ex), j)])) \<and>
    w_positions w' = w_positions w"
proof (cases "marshal_execution ex")
  case (Inl e)
  then show ?thesis using assms by (auto simp: publishExecution_def split: if_splits)
next
  case (Inr j)
  show ?thesis
  proof (cases "rm_js g")
    case True
    then have p: "publish (ExecuteSubject (te_Ticker ex)) j w = (r, w')" using assms Inr by (simp add: publishExecution_def)
    show ?thesis using publish_bus [OF p] publish_frame [of "ExecuteSubject (te_Ticker ex)" j w] p Inr by auto
  next
    case False
    then show ?thesis using assms by (simp add: publishExecution_def)
  qed
qed

lemma evaluate_tables:
  "evaluate_intent db_ports c i g w = (r, w1) \<Longrightarrow> w_bus w1 = w_bus w \<and> w_positions w1 = w_positions w"
  using evaluate_world [of db_ports c i g w] LatestScore_tables [of "ti_Ticker i" w] by (metis db_ports_simps(3) snd_conv)

lemma handleIntent_bus:
  assumes h: "handleIntent db_ports c1 c2 data g w = (d, g', w')"
  shows "w_positions w' = w_positions w \<and> (w_bus w' = w_bus w \<or>
    (\<exists>i ex j. unmarshal_intent data = Inr i \<and> admitted db_ports c1 i g w \<and> buildExecution c2 g i = Inr ex \<and>
       marshal_execution ex = Inr j \<and> w_bus w' = w_bus w @ [(ExecuteSubject (te_Ticker ex), j)]))"
proof (cases "unmarshal_intent data")
  case (Inl e)
  then show ?thesis using h by (simp add: handleIntent_def)
next
  case (Inr i)
  show ?thesis
  proof (cases "validate_intent i")
    case (Some e)
    then show ?thesis using h Inr by (simp add: handleIntent_def)
  next
    case valid: None
    obtain r w1 where e: "evaluate_intent db_ports c1 i g w = (r, w1)" by (cases "evaluate_intent db_ports c1 i g w")
    note t = evaluate_tables [OF e]
    show ?thesis
    proof (cases r)
      case (Some er)
      then show ?thesis using h Inr valid e t by (simp add: handleIntent_def)
    next
      case None
      obtain q g2 w2 where p: "promote db_ports c2 i g w1 = (q, g2, w2)" by (cases "promote db_ports c2 i g w1") auto
      have "w' = w2" using h Inr valid e None p by (auto simp: handleIntent_def split: option.splits if_splits)
      moreover have "w2 = w1 \<or> (\<exists>ex r. buildExecution c2 g i = Inr ex \<and> publishExecution db_ports g ex w1 = (r, w2))"
        using promote_cases [OF p] by blast
      moreover have "admitted db_ports c1 i g w" using evaluate_admits [of db_ports c1 i g w w1] e None valid by simp
      ultimately show ?thesis using Inr t publishExecution_bus by metis
    qed
  qed
qed

text \<open>An intent passes the gates exactly when it is admitted, and asking the score store leaves stream and tables alone.\<close>

lemma evaluate_iff:
  "validate_intent i = None \<Longrightarrow> fst (evaluate_intent ports c i g w) = None \<longleftrightarrow> admitted ports c i g w"
  by (auto simp: evaluate_intent_def admitted_def sentimentGate_def SentimentGateRaw_def
      split: option.splits if_splits prod.splits sum.splits)

lemma evaluate_bus_faults: "evaluate_intent db_ports c i g w = (r, w1) \<Longrightarrow> w_bus_faults w1 = w_bus_faults w"
  using evaluate_world [of db_ports c i g w] LatestScore_frame [of "ti_Ticker i" w] by fastforce

text \<open>What comes of publishing an execution, as the network and the encoder decide it.\<close>

lemma enc_fields_error: "enc_fields fs = Inl e \<Longrightarrow> \<exists>k omit. (k, omit, Inl e) \<in> set fs"
proof (induction fs)
  case (Cons f fs)
  obtain k omit v where f: "f = (k, omit, v)" by (cases f)
  show ?case
  proof (cases "\<not> omit \<and> v = Inl e")
    case True
    then show ?thesis using f by auto
  next
    case False
    then have "enc_fields fs = Inl e" using Cons.prems f by (auto split: if_splits sum.splits)
    then show ?thesis using Cons.IH by auto
  qed
qed simp

lemma enc_float_error: "enc_float x = Inl e \<Longrightarrow> \<exists>m. e = NewErr m"
  by (cases x) auto

lemma marshal_error:
  assumes "marshal_execution ex = Inl e" shows "\<not> errors_is e ErrInsufficientCapital"
proof -
  have "enc_fields (execution_fields ex) = Inl e"
    using assms by (cases "enc_fields (execution_fields ex)") (simp_all add: marshal_execution_def marshal_def)
  then obtain k omit where "(k, omit, Inl e) \<in> set (execution_fields ex)" using enc_fields_error by blast
  then obtain x where "enc_float x = Inl e" by (auto simp: execution_fields_def field_defs)
  from enc_float_error [OF this] show ?thesis by (auto simp: ErrInsufficientCapital_def)
qed

definition deliverable :: "TradeExecution \<Rightarrow> World \<Rightarrow> bool" where
  "deliverable ex w \<longleftrightarrow> next_fault (w_bus_faults w) = NoFault \<and> (\<exists>j. marshal_execution ex = Inr j)"

lemma publishExecution_answer:
  assumes "publishExecution db_ports g ex w = (r, w')" "rm_js g"
    and "\<forall>e. next_fault (w_bus_faults w) \<in> {LostRequest e, LostReply e} \<longrightarrow> \<not> errors_is e ErrInsufficientCapital"
  shows "(r = None \<longleftrightarrow> deliverable ex w) \<and> (\<forall>e. r = Some e \<longrightarrow> \<not> errors_is e ErrInsufficientCapital) \<and>
    (w_bus w' = w_bus w \<or> (\<exists>j. marshal_execution ex = Inr j \<and> w_bus w' = w_bus w @ [(ExecuteSubject (te_Ticker ex), j)] \<and>
       (deliverable ex w \<or> (\<exists>e. next_fault (w_bus_faults w) = LostReply e)))) \<and>
    (deliverable ex w \<longrightarrow> (\<exists>j. marshal_execution ex = Inr j \<and> w_bus w' = w_bus w @ [(ExecuteSubject (te_Ticker ex), j)]))"
proof (cases "marshal_execution ex")
  case (Inl e)
  then show ?thesis using assms(1,2) marshal_error [OF Inl]
    by (auto simp: publishExecution_def deliverable_def ErrInsufficientCapital_def)
next
  case (Inr j)
  then show ?thesis using assms
    by (cases "next_fault (w_bus_faults w)")
      (auto simp: publishExecution_def publish_def Publish_def deliverable_def ErrInsufficientCapital_def)
qed

text \<open>An intent that leads to an order: it is read, admitted, and the capital buys at least one share within the budget.\<close>

definition orderable :: "Time \<Rightarrow> payload \<Rightarrow> Analyst \<Rightarrow> World \<Rightarrow> TradeIntent \<Rightarrow> bool" where
  "orderable c data g w i \<longleftrightarrow> unmarshal_intent data = Inr i \<and> admitted db_ports c i g w \<and>
     0 < CalculateQuantity (rm_capital g) (ti_CurrentPrice i) (stopLossFor i)"

text \<open>C1: An intent is answered for good or put back without a trace. A message that is no intent, or one the gates reject or
  the capital cannot afford, is acknowledged and leaves agent and stream as they were. For any other the one
  execution built from it decides: if it can be encoded and the stream confirms it, the intent is acknowledged, counted and
  its exposure registered, once; if not, the intent is asked for again in five seconds, the agent is unchanged, and the
  stream has the execution at most if only the confirmation was lost. The positions are not touched.\<close>

theorem handleIntent_outcome:
  assumes "handleIntent db_ports c1 c2 data g w = (d, g', w')" "rm_js g"
    and "\<forall>e. next_fault (w_bus_faults w) \<in> {LostRequest e, LostReply e} \<longrightarrow> \<not> errors_is e ErrInsufficientCapital"
  shows "w_positions w' = w_positions w \<and>
    ((\<nexists>i. orderable c1 data g w i) \<longrightarrow> d = Ack \<and> g' = g \<and> w_bus w' = w_bus w) \<and>
    (\<forall>i. orderable c1 data g w i \<longrightarrow> (\<exists>ex. buildExecution c2 g i = Inr ex \<and>
      (if deliverable ex w
       then d = Ack \<and>
         g' = g\<lparr>rm_accepted := rm_accepted g + 1,
               rm_exposure := map_option (Register (te_Side ex) (te_Sector ex)) (rm_exposure g)\<rparr> \<and>
         (\<exists>j. marshal_execution ex = Inr j \<and> w_bus w' = w_bus w @ [(ExecuteSubject (te_Ticker ex), j)])
       else d = NakWithDelay (5 * Second) \<and> g' = g \<and>
         (w_bus w' = w_bus w \<or> (\<exists>e j. next_fault (w_bus_faults w) = LostReply e \<and> marshal_execution ex = Inr j \<and>
            w_bus w' = w_bus w @ [(ExecuteSubject (te_Ticker ex), j)])))))"
proof (cases "\<exists>i. unmarshal_intent data = Inr i \<and> admitted db_ports c1 i g w")
  case False
  have "d = Ack \<and> g' = g \<and> w_bus w' = w_bus w"
  proof (cases "\<exists>i. unmarshal_intent data = Inr i \<and> validate_intent i = None")
    case True
    then obtain i where i: "unmarshal_intent data = Inr i" "validate_intent i = None" by blast
    obtain r w1 where e: "evaluate_intent db_ports c1 i g w = (r, w1)" by (cases "evaluate_intent db_ports c1 i g w")
    then have "r \<noteq> None" using evaluate_iff [OF i(2), of db_ports c1 g w] i(1) False by auto
    then show ?thesis using assms(1) i e evaluate_tables [OF e] by (auto simp: handleIntent_def)
  qed (use assms(1) in \<open>auto simp: handleIntent_def split: sum.splits if_splits\<close>)
  then show ?thesis using False handleIntent_bus [OF assms(1)] by (auto simp: orderable_def)
next
  case True
  then obtain i where i: "unmarshal_intent data = Inr i" "admitted db_ports c1 i g w" by blast
  have v: "validate_intent i = None" using i(2) by (simp add: admitted_def)
  obtain w1 where e: "evaluate_intent db_ports c1 i g w = (None, w1)"
    using evaluate_iff [OF v, of db_ports c1 g w] i(2) by (metis prod.collapse)
  note t = evaluate_tables [OF e] evaluate_bus_faults [OF e]
  obtain q g2 w2 where p: "promote db_ports c2 i g w1 = (q, g2, w2)" by (cases "promote db_ports c2 i g w1") auto
  have h: "handleIntent db_ports c1 c2 data g w = (case q of
      Some er \<Rightarrow> if errors_is er ErrInsufficientCapital then (Ack, g2, w2) else (NakWithDelay (5 * Second), g2, w2)
    | None \<Rightarrow> (Ack, g2\<lparr>rm_accepted := rm_accepted g2 + 1\<rparr>, w2))"
    using i(1) v e p by (cases q) (simp_all add: handleIntent_def)
  have o: "orderable c1 data g w k \<longleftrightarrow> k = i \<and> 0 < CalculateQuantity (rm_capital g) (ti_CurrentPrice i) (stopLossFor i)" for k
    using i by (auto simp: orderable_def)
  show ?thesis
  proof (cases "buildExecution c2 g i")
    case (Inl er)
    then have "er = ErrInsufficientCapital" "\<nexists>k. orderable c1 data g w k"
      unfolding o by (auto simp: buildExecution_def Let_def split: if_splits)
    then show ?thesis using assms(1) h p Inl t by (auto simp: promote_def ErrInsufficientCapital_def)
  next
    case (Inr ex)
    obtain r w3 where pe: "publishExecution db_ports g ex w1 = (r, w3)" by (cases "publishExecution db_ports g ex w1")
    have d: "deliverable ex w1 = deliverable ex w" using t by (simp add: deliverable_def)
    have f: "\<forall>e. next_fault (w_bus_faults w1) \<in> {LostRequest e, LostReply e} \<longrightarrow> \<not> errors_is e ErrInsufficientCapital"
      using assms(3) t by simp
    note a = publishExecution_answer [OF pe assms(2) f, unfolded d]
    have "orderable c1 data g w i" using Inr unfolding o by (auto simp: buildExecution_def Let_def split: if_splits)
    moreover have "w_positions w' = w_positions w" using handleIntent_bus [OF assms(1)] by blast
    moreover have "promote db_ports c2 i g w1 = (case r of Some er \<Rightarrow> (Some er, g, w3)
      | None \<Rightarrow> (None, g\<lparr>rm_exposure := map_option (Register (te_Side ex) (te_Sector ex)) (rm_exposure g)\<rparr>, w3))"
      using Inr pe by (simp add: promote_def)
    ultimately show ?thesis using assms(1) h p a t Inr unfolding o
      by (cases r) auto
  qed
qed

section \<open>The execution of an admitted intent\<close>

text \<open>A decoded price is a finite binary64 number.\<close>

lemma dec_intent_price:
  "dec_intent_member k v st = (st', e) \<Longrightarrow> fin64 (ti_CurrentPrice st) \<Longrightarrow> fin64 (ti_CurrentPrice st')"
  unfolding dec_intent_member_def
  by (auto split: if_splits simp: fin64_def elim!: set_str_keeps set_float_keeps set_time_keeps)

lemma unmarshal_intent_price: "unmarshal_intent p = Inr i \<Longrightarrow> fin64 (ti_CurrentPrice i)"
  unfolding unmarshal_intent_def
  by (erule unmarshal_keeps [where P = "\<lambda>i. fin64 (ti_CurrentPrice i)"])
    (auto simp: zero_intent_def fin64_def zero_float64_Fin dest: dec_intent_price [unfolded fin64_def])

lemma rnd_abs: "\<bar>rnd r\<bar> = rnd \<bar>r\<bar>"
proof (cases "0 \<le> r")
  case True
  then show ?thesis using fl_nonneg [of r] by (auto simp: rnd_def Let_def)
next
  case False
  then have "fl r \<le> 0" using fl_nonneg [of "- r"] by simp
  with False show ?thesis by (auto simp: rnd_def Let_def)
qed

definition moderate :: "rat \<Rightarrow> bool" where
  "moderate x \<longleftrightarrow> pw (-20) \<le> x \<and> x \<le> pw 28"

lemma moderate_wide: "moderate x \<Longrightarrow> pw (-900) \<le> x \<and> x \<le> pw 900"
proof -
  have "pw (-900) \<le> pw (-20)" "pw 28 \<le> pw 900" unfolding pw_le_iff by simp_all
  then show "moderate x \<Longrightarrow> pw (-900) \<le> x \<and> x \<le> pw 900" unfolding moderate_def by linarith
qed

text \<open>The risk per share of the default stop, as the allocator computes it.\<close>

lemma default_risk:
  assumes x: "moderate x" and p: "ti_CurrentPrice i = Fin x"
  shows "\<exists>d. \<bar>ti_CurrentPrice i - stopLossFor i\<bar> = Fin d \<and> 39/1000 * x \<le> d \<and> d \<le> 61/1000 * x"
proof -
  have x0: "0 < x" using x less_le_trans [OF pw_pos] unfolding moderate_def by blast
  note w = moderate_wide [OF x]
  obtain s where s: "stopLossFor i = Fin s"
    "if ti_Side i = SideShort then 104/100 * x \<le> s \<and> s \<le> 106/100 * x else 94/100 * x \<le> s \<and> s \<le> 96/100 * x"
    using stop_bounds [OF _ _ p] w by blast
  define gap where "gap = \<bar>x - s\<bar>"
  have g: "4/100 * x \<le> gap" "gap \<le> 6/100 * x" using s(2) x0 by (auto simp: gap_def split: if_splits)
  then obtain r where r: "rnd gap = Fin r" "4/100 * (999/1000) * x \<le> r" "r \<le> 6/100 * (1001/1000) * x"
    using rnd_scaled [of x "4/100" gap "6/100"] w by fastforce
  have "\<bar>ti_CurrentPrice i - stopLossFor i\<bar> = Fin r" using s(1) p r(1) by (simp add: f64_minus_Fin gap_def rnd_abs)
  moreover have "39/1000 * x \<le> r" "r \<le> 61/1000 * x" using r(2,3) x0 by auto
  ultimately show ?thesis by blast
qed

lemma default_quantity:
  assumes x: "moderate x" and p: "ti_CurrentPrice i = Fin x" and c: "1 \<le> C" "7 * x \<le> C" "C \<le> 2 ^ 31 * x"
  shows "1 \<le> CalculateQuantity (Fin C) (ti_CurrentPrice i) (stopLossFor i) \<and>
    CalculateQuantity (Fin C) (ti_CurrentPrice i) (stopLossFor i) < 2 ^ 31"
proof -
  have x0: "0 < x" using x less_le_trans [OF pw_pos] unfolding moderate_def by blast
  obtain d where d: "\<bar>ti_CurrentPrice i - stopLossFor i\<bar> = Fin d" "39/1000 * x \<le> d" "d \<le> 61/1000 * x"
    using default_risk [OF x p] by blast
  have "0 < 39/1000 * x" using x0 by simp
  then have d0: "0 < d" using d(2) by (rule less_le_trans)
  have "pw (-60) \<le> 39/1000 * pw (-20)" by (simp add: pw_minus_numeral)
  also have "\<dots> \<le> 39/1000 * x" using x by (simp add: moderate_def)
  finally have dlo: "pw (-60) \<le> d" using d(2) by linarith
  have "x \<le> 2 ^ 28" using x by (simp add: moderate_def)
  then have dhi: "d \<le> 2 ^ 60" and chi: "C \<le> 2 ^ 60" using d(3) c(3) by simp_all
  obtain y where y: "Fin C * DefaultRiskPercent / Fin d = Fin y" "0 < y"
      "y * d \<le> C * (2/100) * (1 + 1 / 2 ^ 50)" "C * (2/100) * (1 - 1 / 2 ^ 50) \<le> y * d"
    using budget_quotient [OF c(1) chi dlo dhi] by blast
  have ylo: "1 \<le> y"
  proof (rule ccontr)
    assume "\<not> 1 \<le> y"
    then have "y * d < 1 * d" using d0 by (intro mult_strict_right_mono) auto
    then show False using y(4) d(3) c(2) x0 by simp
  qed
  have yhi: "y < 2 ^ 31"
  proof (rule ccontr)
    assume "\<not> y < 2 ^ 31"
    then have "2 ^ 31 * (39/1000 * x) \<le> y * d" using d(2) x0 y(2) by (intro mult_mono) auto
    then show False using y(3) c(1,3) x0 by simp
  qed
  obtain s where s: "stopLossFor i = Fin s" "0 < s"
    using stop_bounds [OF _ _ p] moderate_wide [OF x] x0 by (fastforce split: if_splits)
  have "CalculateQuantity (Fin C) (ti_CurrentPrice i) (stopLossFor i) = f64_to_int (Fin y)"
    using y(1) d(1) d0 p s x0 c(1)
    by (simp add: CalculateQuantity_def CalculateQuantityPct_def Let_def del: f64_to_int.simps)
  moreover have "f64_to_int (Fin y) = \<lfloor>y\<rfloor>" using ylo yhi by (auto simp: rat_trunc_def in_int64_def) 
  ultimately show ?thesis using ylo yhi by (simp add: floor_less_iff)
qed

text \<open>The terms of an execution: what the Risk Manager may send for an intent.\<close>

definition sound_terms :: "TradeIntent \<Rightarrow> TradeExecution \<Rightarrow> bool" where
  "sound_terms i ex \<longleftrightarrow> te_Ticker ex = ti_Ticker i \<and> te_Side ex = ti_Side i \<and> te_Price ex = ti_CurrentPrice i \<and>
     0 < te_StopLoss ex \<and> 0 < te_TakeProfit ex \<and>
     (if te_Side ex = SideShort then te_TakeProfit ex < te_Price ex \<and> te_Price ex < te_StopLoss ex
      else te_StopLoss ex < te_Price ex \<and> te_Price ex < te_TakeProfit ex)"

lemma terms_ordered:
  assumes x: "pw (-900) \<le> x" "x \<le> pw 900" and p: "ti_CurrentPrice i = Fin x" and b: "buildExecution c g i = Inr ex"
  shows "sound_terms i ex \<and> is_fin (te_StopLoss ex) \<and> is_fin (te_TakeProfit ex)"
proof -
  have x0: "0 < x" using less_le_trans [OF pw_pos x(1)] .
  obtain s where s: "stopLossFor i = Fin s" using stop_bounds [OF x p] by blast
  obtain t where t: "calculateTakeProfit (ti_Side i) (Fin x) (Fin s) = Fin t"
      "if ti_Side i = SideShort then 0 < t \<and> t < x \<and> x < s else 0 < s \<and> s < x \<and> x < t"
    using target_bounds [OF x p s] by blast
  have ex: "te_Ticker ex = ti_Ticker i" "te_Side ex = ti_Side i" "te_Price ex = Fin x" "te_StopLoss ex = Fin s" "te_TakeProfit ex = Fin t"
    using b s p t(1) by (auto simp: buildExecution_def Let_def split: if_splits)
  have "0 < s" "0 < t" using t(2) x0 by (auto split: if_splits)
  then show ?thesis using ex t(2) p by (auto simp: sound_terms_def split: if_splits)
qed

lemma built_valid:
  assumes "buildExecution c g i = Inr ex" "validate_intent i = None"
  shows "validate_execution ex = None \<and> te_PositionID ex = 0 \<and> te_SignalReason ex = ti_SignalReason i \<and>
    te_ExecutionRef ex = ''risk-'' @ ti_Ticker i @ ''-'' @ string_of_int c \<and> te_Sector ex = sectorOf g (ti_Ticker i) \<and>
    te_Quantity ex = CalculateQuantity (rm_capital g) (ti_CurrentPrice i) (stopLossFor i)"
  using assms by (auto simp: buildExecution_def Let_def validate_execution_ok validate_intent_ok split: if_splits)

text \<open>C2: Nothing unsound leaves the Risk Manager. If handling an intent puts a message on the bus, the intent
  was valid, arrived inside the trading window, passed the sector, concurrency and bias gates and, where a
  score store is set, the confidence floor; and for a price from 2^-900 to 2^900 the message is the JSON of a
  valid execution of that intent, sized by the allocator, with stop, price and target in the right order.\<close>

theorem published_execution_sound:
  assumes "handleIntent db_ports c1 c2 data g w = (d, g', w')" "w_bus w' \<noteq> w_bus w"
    and "\<And>i. unmarshal_intent data = Inr i \<Longrightarrow> Fin (pw (-900)) \<le> ti_CurrentPrice i \<and> ti_CurrentPrice i \<le> Fin (pw 900)"
  shows "\<exists>i ex j. unmarshal_intent data = Inr i \<and> admitted db_ports c1 i g w \<and>
    marshal_execution ex = Inr j \<and> w_bus w' = w_bus w @ [(ExecuteSubject (te_Ticker ex), j)] \<and>
    validate_execution ex = None \<and> sound_terms i ex \<and>
    te_Quantity ex = CalculateQuantity (rm_capital g) (ti_CurrentPrice i) (stopLossFor i)"
proof -
  obtain i ex j where a: "unmarshal_intent data = Inr i" "admitted db_ports c1 i g w" "buildExecution c2 g i = Inr ex"
      "marshal_execution ex = Inr j" "w_bus w' = w_bus w @ [(ExecuteSubject (te_Ticker ex), j)]"
    using handleIntent_bus [OF assms(1)] assms(2) by blast
  obtain x where x: "ti_CurrentPrice i = Fin x"
    using unmarshal_intent_price [OF a(1)] by (cases "ti_CurrentPrice i") (auto simp: fin64_def)
  have b: "pw (-900) \<le> x" "x \<le> pw 900" using assms(3) [OF a(1)] x by simp_all
  have "validate_intent i = None" using a(2) by (simp add: admitted_def)
  then show ?thesis using a built_valid [OF a(3)] terms_ordered [OF b x a(3)] by blast
qed

section \<open>Accepted intents\<close>

lemma evaluate_quiet:
  assumes "w_db_faults w = []" "admitted db_ports c i g w" shows "evaluate_intent db_ports c i g w = (None, w)"
proof -
  have a: "timeWindowGuard (currentTime g c) = None"
    "\<And>ex. rm_exposure g = Some ex \<Longrightarrow> EntryGate ex (sectorOf g (ti_Ticker i)) = None \<and> BiasGate ex (ti_Side i) = None"
    "rm_scores g \<Longrightarrow> \<exists>s. fst (LatestScore (ti_Ticker i) w) = Inr (Some s) \<and> \<not> ss_Confidence s < rm_minConf g"
    using assms(2) by (auto simp: admitted_def)
  obtain r w1 where l: "LatestScore (ti_Ticker i) w = (r, w1)" by (cases "LatestScore (ti_Ticker i) w")
  have "w1 = w" using LatestScore_quiet [OF assms(1), of "ti_Ticker i"] l by simp
  then show ?thesis using a l
    by (cases "rm_exposure g") (auto simp: evaluate_intent_def sentimentGate_def SentimentGateRaw_def)
qed

lemma build_affordable:
  assumes p: "fin64 (ti_CurrentPrice i)" "ti_CurrentPrice i = Fin x" and x: "moderate x"
    and c: "rm_capital g = Fin C" "1 \<le> C" "7 * x \<le> C" "C \<le> 2 ^ 31 * x"
  shows "\<exists>ex. buildExecution clk g i = Inr ex \<and> sendable_execution ex \<and> 0 < te_Quantity ex \<and> te_Quantity ex < 2 ^ 31"
proof -
  note q = default_quantity [OF x p(2) c(2-4)]
  then obtain ex where ex: "buildExecution clk g i = Inr ex"
    "te_Quantity ex = CalculateQuantity (Fin C) (ti_CurrentPrice i) (stopLossFor i)"
    "te_StopLoss ex = stopLossFor i" "te_TakeProfit ex = calculateTakeProfit (ti_Side i) (ti_CurrentPrice i) (stopLossFor i)"
    "te_Price ex = ti_CurrentPrice i" "te_PositionID ex = 0"
    using c(1) by (simp add: buildExecution_def Let_def)
  have "is_fin (te_StopLoss ex)" "is_fin (te_TakeProfit ex)"
    using terms_ordered [OF _ _ p(2) ex(1)] moderate_wide [OF x] by blast+
  moreover have "is_f64 (te_StopLoss ex)" "is_f64 (te_TakeProfit ex)"
    unfolding ex by (auto simp: stopLossFor_def calculateTakeProfit_def Let_def)
  ultimately have "sendable_execution ex"
    using p(1) q ex(2,5,6) by (auto simp: sendable_execution_def fin64_def in_int64_def)
  then show ?thesis using ex(1,2) q by auto
qed

text \<open>The run of an admitted, affordable intent when no call fails.\<close>

lemma accepted_run:
  assumes "unmarshal_intent data = Inr i" "admitted db_ports c1 i g w" "quiet w" "rm_js g"
    and "ti_CurrentPrice i = Fin x" "moderate x" "rm_capital g = Fin C" "1 \<le> C" "7 * x \<le> C" "C \<le> 2 ^ 31 * x"
  shows "\<exists>ex j. handleIntent db_ports c1 c2 data g w =
      (Ack, g\<lparr>rm_accepted := rm_accepted g + 1,
              rm_exposure := map_option (Register (te_Side ex) (te_Sector ex)) (rm_exposure g)\<rparr>,
       w\<lparr>w_bus := w_bus w @ [(ExecuteSubject (te_Ticker ex), j)]\<rparr>) \<and>
    buildExecution c2 g i = Inr ex \<and> unmarshal_execution (Some j) = Inr ex \<and> 0 < te_Quantity ex \<and> te_Quantity ex < 2 ^ 31"
proof -
  obtain ex where ex: "buildExecution c2 g i = Inr ex" "sendable_execution ex" "0 < te_Quantity ex" "te_Quantity ex < 2 ^ 31"
    using build_affordable [OF unmarshal_intent_price [OF assms(1)] assms(5-10)] by blast
  obtain j where j: "marshal_execution ex = Inr j" "unmarshal_execution (Some j) = Inr ex"
    using sendable_read_back [OF ex(2)] by blast
  have v: "validate_intent i = None" using assms(2) by (simp add: admitted_def)
  have p: "publishExecution db_ports g ex w = (None, w\<lparr>w_bus := w_bus w @ [(ExecuteSubject (te_Ticker ex), j)]\<rparr>)"
    using assms(3,4) j(1) by (simp add: publishExecution_def publish_quiet)
  have "w_db_faults w = []" using assms(3) by (simp add: quiet_def)
  then show ?thesis using assms(1) v evaluate_quiet [OF _ assms(2)] ex j p
    by (intro exI [of _ ex] exI [of _ j]) (simp add: handleIntent_def promote_def)
qed

text \<open>A good intent is not lost. When no call fails, an admitted intent whose price is moderate and whose
  risk the capital can afford is acknowledged, counted and registered, and the message it leaves on the
  execution subject of its ticker decodes to a valid execution with sound terms.\<close>

theorem admitted_intent_accepted:
  assumes "unmarshal_intent data = Inr i" "admitted db_ports c1 i g w" "quiet w" "rm_js g"
    and "ti_CurrentPrice i = Fin x" "moderate x" "rm_capital g = Fin C" "1 \<le> C" "7 * x \<le> C" "C \<le> 2 ^ 31 * x"
  shows "\<exists>ex j. handleIntent db_ports c1 c2 data g w =
      (Ack, g\<lparr>rm_accepted := rm_accepted g + 1,
              rm_exposure := map_option (Register (te_Side ex) (te_Sector ex)) (rm_exposure g)\<rparr>,
       w\<lparr>w_bus := w_bus w @ [(ExecuteSubject (te_Ticker ex), j)]\<rparr>) \<and>
    unmarshal_execution (Some j) = Inr ex \<and> validate_execution ex = None \<and> sound_terms i ex"
proof -
  obtain ex j where e: "handleIntent db_ports c1 c2 data g w =
      (Ack, g\<lparr>rm_accepted := rm_accepted g + 1,
              rm_exposure := map_option (Register (te_Side ex) (te_Sector ex)) (rm_exposure g)\<rparr>,
       w\<lparr>w_bus := w_bus w @ [(ExecuteSubject (te_Ticker ex), j)]\<rparr>)"
    "buildExecution c2 g i = Inr ex" "unmarshal_execution (Some j) = Inr ex"
    using accepted_run [OF assms] by blast
  moreover have "validate_intent i = None" using assms(2) by (simp add: admitted_def)
  ultimately show ?thesis
    using built_valid [OF e(2)] terms_ordered [OF _ _ assms(5) e(2)] moderate_wide [OF assms(6)] by blast
qed

text \<open>The example: the production agent on 1970-01-01 at 11:30 IST.\<close>

definition sample_payload :: payload where
  "sample_payload = Some (JObj [(''ticker'', JStr ''TCS''), (''side'', JStr ''LONG''), (''current_price'', JInt 100),
     (''signal_reason'', JStr ''breakout''), (''timestamp'', JTime 0)])"

definition production :: Analyst where "production = NewAgent '''' '''' ''''"

definition morning :: Time where "morning = 6 * Hour"

lemma sample_decodes: "unmarshal_intent sample_payload = Inr sample_intent"
  by (simp add: unmarshal_intent_def unmarshal_def sample_payload_def sample_intent_def dec_intent_member_def
      zero_intent_def enum_defs)

lemma morning_open: "timeWindowGuard morning = None"
  by (simp add: timeWindowGuard_def guard_simps morning_def ns_of_day_def is_weekend_def Weekday_def civil_day_def
      Saturday_def Sunday_def ist_def nsec_def Hour_def day_ns_def)

lemma production_admits: "admitted db_ports morning sample_intent production empty_world"
  using morning_open by (simp add: admitted_def production_def NewAgent_def newAnalyst_def currentTime_def NewExposure_def
      EntryGate_def BiasGate_def biasGate_def CheckBias_def Longs_def Shorts_def validate_intent_def sample_intent_def
      DefaultMaxTotalPositions_def)

lemma production_facts: "quiet empty_world" "rm_js production" "ti_CurrentPrice sample_intent = Fin 100" "moderate 100"
  "rm_capital production = Fin 1000000"
  by (simp_all add: quiet_def empty_world_def production_def NewAgent_def newAnalyst_def sample_intent_def moderate_def
      LoadTotalCapital_def DefaultTotalCapital_def pw_minus_numeral)

lemma production_margin: "(1::rat) \<le> 1000000" "7 * 100 \<le> (1000000::rat)" "1000000 \<le> 2 ^ 31 * (100::rat)"
  by simp_all

lemmas production_run_facts = sample_decodes production_admits production_facts

lemma admitted_intent_accepted_witness:
  "\<exists>ex j. w_bus (snd (snd (handleIntent db_ports morning morning sample_payload production empty_world))) =
     [(ExecuteSubject ''TCS'', j)] \<and> unmarshal_execution (Some j) = Inr ex \<and> sound_terms sample_intent ex"
proof -
  obtain ex j where h: "handleIntent db_ports morning morning sample_payload production empty_world =
      (Ack, production\<lparr>rm_accepted := rm_accepted production + 1,
              rm_exposure := map_option (Register (te_Side ex) (te_Sector ex)) (rm_exposure production)\<rparr>,
       empty_world\<lparr>w_bus := w_bus empty_world @ [(ExecuteSubject (te_Ticker ex), j)]\<rparr>)"
    "unmarshal_execution (Some j) = Inr ex" "sound_terms sample_intent ex"
    using admitted_intent_accepted [OF production_run_facts, of morning] by auto
  moreover have "te_Ticker ex = ''TCS''" using h(3) by (simp add: sound_terms_def sample_intent_def)
  ultimately show ?thesis by (intro exI [of _ ex] exI [of _ j]) (simp add: empty_world_def)
qed

lemma production_run:
  "\<exists>g' ex j. handleIntent db_ports morning morning sample_payload production empty_world = (Ack, g', empty_world\<lparr>w_bus := [(ExecuteSubject (te_Ticker ex), j)]\<rparr>) \<and>
     rm_accepted g' = 1 \<and> buildExecution morning production sample_intent = Inr ex \<and> unmarshal_execution (Some j) = Inr ex \<and>
     0 < te_Quantity ex \<and> te_Quantity ex < 2 ^ 31"
  using accepted_run [OF production_run_facts, of morning]
  by (fastforce simp: empty_world_def production_def NewAgent_def newAnalyst_def)

lemma published_execution_sound_witness:
  "\<exists>ex j. (ExecuteSubject (te_Ticker ex), j) \<in>
     set (w_bus (snd (snd (handleIntent db_ports morning morning sample_payload production empty_world)))) \<and>
     validate_execution ex = None \<and> sound_terms sample_intent ex"
proof -
  obtain g' w' where h: "handleIntent db_ports morning morning sample_payload production empty_world = (Ack, g', w')"
    "w_bus w' \<noteq> w_bus empty_world"
    using production_run by (auto simp: empty_world_def)
  have "Fin (pw (-900)) \<le> Fin 100" "Fin 100 \<le> Fin (pw 900)" using moderate_wide [OF production_facts(4)] by simp_all
  then have "\<And>i. unmarshal_intent sample_payload = Inr i \<Longrightarrow> Fin (pw (-900)) \<le> ti_CurrentPrice i \<and> ti_CurrentPrice i \<le> Fin (pw 900)"
    using sample_decodes by (simp add: sample_intent_def)
  from published_execution_sound [OF h this] sample_decodes obtain ex j where
    "w_bus w' = w_bus empty_world @ [(ExecuteSubject (te_Ticker ex), j)]" "validate_execution ex = None"
    "sound_terms sample_intent ex" by auto
  then show ?thesis using h(1) by (intro exI [of _ ex] exI [of _ j]) simp
qed

lemma handleIntent_outcome_witness:
  "\<exists>d g' w' ex. handleIntent db_ports morning morning sample_payload production empty_world = (d, g', w') \<and>
     buildExecution morning production sample_intent = Inr ex \<and>
     (deliverable ex empty_world \<longrightarrow> d = Ack \<and> rm_accepted g' = 1) \<and> w_positions w' = []"
proof -
  obtain d g' w' where h: "handleIntent db_ports morning morning sample_payload production empty_world = (d, g', w')"
    by (cases "handleIntent db_ports morning morning sample_payload production empty_world") auto
  have f: "\<forall>e. next_fault (w_bus_faults empty_world) \<in> {LostRequest e, LostReply e} \<longrightarrow> \<not> errors_is e ErrInsufficientCapital"
    by (simp add: empty_world_def)
  have o: "orderable morning sample_payload production empty_world sample_intent"
    using sample_decodes production_admits default_quantity [OF production_facts(4,3) production_margin] production_facts(5)
    by (simp add: orderable_def)
  have z: "rm_accepted production = 0" "w_positions empty_world = []"
    by (simp_all add: production_def NewAgent_def newAnalyst_def empty_world_def)
  show ?thesis using handleIntent_outcome [OF h production_facts(2) f] o h z
    by (auto split: if_splits)
qed

section \<open>The ceilings\<close>

lemma accepted_exposure:
  assumes "handleIntent ports c1 c2 data g w = (d, g', w')" "rm_exposure g = Some e"
  shows "g' = g \<or> (\<exists>side sector. EntryGate e sector = None \<and> rm_accepted g' = rm_accepted g + 1 \<and>
    g' = g\<lparr>rm_accepted := rm_accepted g + 1, rm_exposure := Some (Register side sector e)\<rparr>)"
proof (cases "rm_accepted g' = rm_accepted g")
  case True
  then show ?thesis using not_accepted [OF assms(1)] by blast
next
  case False
  obtain i ex where i: "admitted ports c1 i g w" "buildExecution c2 g i = Inr ex"
      "g' = g\<lparr>rm_accepted := rm_accepted g + 1,
               rm_exposure := map_option (Register (te_Side ex) (te_Sector ex)) (rm_exposure g)\<rparr>"
    using accepted_cases [OF assms(1) False] by blast
  have "te_Sector ex = sectorOf g (ti_Ticker i)" using built_valid [OF i(2)] i(1) by (simp add: admitted_def)
  then have "EntryGate e (te_Sector ex) = None" using i(1) assms(2) by (simp add: admitted_def)
  then show ?thesis using i(3) assms(2) by (intro disjI2 exI [of _ "te_Side ex"] exI [of _ "te_Sector ex"]) simp
qed

text \<open>C3: An intent never takes the tracker over its ceilings. If the tracker represents a book within its
  limits, then after any message to the handler, whatever fails, it represents that book or that book with
  one more position, within the same limits.\<close>

theorem handleIntent_within_limits:
  assumes "handleIntent ports c1 c2 data g w = (d, g', w')" "rm_exposure g = Some e"
    and "tracks e M" "tracker.within_limits e M" "1 \<le> ex_maxSector e"
  shows "\<exists>e' M'. rm_exposure g' = Some e' \<and> tracks e' M' \<and> tracker.within_limits e' M' \<and> (M' = M \<or> (\<exists>h. M' = add_mset h M))"
  using accepted_exposure [OF assms(1,2)]
proof
  assume "g' = g"
  then show ?thesis using assms by blast
next
  assume "\<exists>side sector. EntryGate e sector = None \<and> rm_accepted g' = rm_accepted g + 1 \<and>
    g' = g\<lparr>rm_accepted := rm_accepted g + 1, rm_exposure := Some (Register side sector e)\<rparr>"
  then obtain side sector where s: "EntryGate e sector = None"
    "g' = g\<lparr>rm_accepted := rm_accepted g + 1, rm_exposure := Some (Register side sector e)\<rparr>" by blast
  let ?h = "holding_of side sector"
  have h: "register_holding ?h e = Register side sector e"
    by (simp add: register_holding_def holding_of_def Register_def)
  have "snd ?h = sector" by (simp add: holding_of_def)
  then have "tracker.within_limits (Register side sector e) (add_mset ?h M)"
    using tracker.enter_within [OF assms(3-5), of ?h] s(1) h by simp
  then show ?thesis using Register_tracks [OF assms(3), of side sector] s(2) by auto
qed

lemma handleIntent_within_limits_witness:
  "\<exists>e' M'. rm_exposure (fst (snd (handleIntent db_ports morning morning sample_payload production empty_world))) = Some e' \<and>
     tracks e' M' \<and> tracker.within_limits e' M'"
proof -
  obtain g' w' where h: "handleIntent db_ports morning morning sample_payload production empty_world = (Ack, g', w')"
    using production_run by blast
  have e: "rm_exposure production = Some (NewExposure DefaultMaxSectorPositions DefaultMaxTotalPositions)"
    by (simp add: production_def NewAgent_def)
  have "tracker.within_limits (NewExposure DefaultMaxSectorPositions DefaultMaxTotalPositions) {#}"
    by (simp add: tracker.within_limits_def NewExposure_def DefaultMaxSectorPositions_def DefaultMaxTotalPositions_def)
  from handleIntent_within_limits [OF h e NewExposure_tracks this] show ?thesis
    by (auto simp: h NewExposure_def DefaultMaxSectorPositions_def)
qed

section \<open>The life of the agent the program builds\<close>

text \<open>The agent that \<open>NewAgent\<close> returns and the agents it becomes by handling intents and prices and by
  turns of its loop. The world may have changed arbitrarily between two steps.\<close>

inductive production_state :: "'w Ports \<Rightarrow> Analyst \<Rightarrow> bool" for ports :: "'w Ports" where
  built: "production_state ports (NewAgent universe conf capital)"
| intent: "production_state ports g \<Longrightarrow> handleIntent ports c1 c2 data g w = (d, g', w') \<Longrightarrow> production_state ports g'"
| price: "production_state ports g \<Longrightarrow> production_state ports (handlePrice clock data g)"
| turn: "production_state ports g \<Longrightarrow> tick ports now g w = (g', w') \<Longrightarrow> production_state ports g'"

lemma tick_unwired: "\<not> rm_positions g \<Longrightarrow> tick ports now g w = (g, w)"
  by (simp add: tick_def squareOff_def)

lemma handlePrice_frame:
  "rm_positions (handlePrice c d g) = rm_positions g" "rm_scores (handlePrice c d g) = rm_scores g"
  "rm_exposure (handlePrice c d g) = rm_exposure g" "rm_accepted (handlePrice c d g) = rm_accepted g"
  by (auto simp: handlePrice_def split: sum.split)

lemma production_invariant:
  "production_state ports g \<Longrightarrow> \<not> rm_positions g \<and> \<not> rm_scores g \<and>
     (\<exists>e. rm_exposure g = Some e \<and> ex_total e = rm_accepted g \<and> ex_maxTotal e = 4 \<and> rm_accepted g \<le> 4)"
proof (induction rule: production_state.induct)
  case (built universe conf capital)
  then show ?case
    by (simp add: NewAgent_def newAnalyst_def NewExposure_def DefaultMaxTotalPositions_def)
next
  case (intent g c1 c2 data w d g' w')
  then obtain e where e: "rm_exposure g = Some e" "ex_total e = rm_accepted g" "ex_maxTotal e = 4" "rm_accepted g \<le> 4" by blast
  from accepted_exposure [OF intent.hyps(2) e(1)] show ?case
  proof (elim disjE exE conjE)
    fix side sector
    assume g: "EntryGate e sector = None"
      "g' = g\<lparr>rm_accepted := rm_accepted g + 1, rm_exposure := Some (Register side sector e)\<rparr>"
    then have "ex_total e < 4" using e(3) by (simp add: EntryGate_def split: if_splits)
    moreover have "ex_total (Register side sector e) = ex_total e + 1"
      by (simp add: Register_def bump_sector_def Let_def)
    ultimately show ?case using intent.IH g(2) e by (simp add: Register_limits)
  qed (use intent.IH in simp)
next
  case (price g clock data)
  then show ?case by (simp add: handlePrice_frame)
next
  case (turn g now w g' w')
  then show ?case using tick_unwired [of g ports now w] by auto
qed

text \<open>C40: The agent that \<open>NewAgent\<close> builds never receives a position store or a score store. So the square-off
  and the recount of its loop do nothing at any time, its sentiment gate admits every ticker, and, as nothing
  ever releases exposure, it accepts at most four intents in its life, whatever happens to the positions.\<close>

theorem production_never_squares_off:
  assumes "production_state ports g"
  shows "tick ports now g w = (g, w) \<and> rm_accepted g \<le> 4 \<and>
    (evaluate_intent ports clock i g w = (None, w) \<or> (\<exists>e. evaluate_intent ports clock i g w = (Some e, w) \<and>
       e \<notin> {ErrSentimentMissing, ErrSentimentLowConfidence}))"
proof -
  obtain e where g: "\<not> rm_positions g" "\<not> rm_scores g" "rm_exposure g = Some e" "rm_accepted g \<le> 4"
    using production_invariant [OF assms] by blast
  let ?S = "{ErrSentimentMissing, ErrSentimentLowConfidence}"
  have n: "{ErrSectorLimit, ErrTotalLimit, ErrBiasLimit, ErrOpeningBuffer, ErrClosingCutoff} \<inter> ?S = {}"
    by (simp add: ErrSectorLimit_def ErrTotalLimit_def ErrBiasLimit_def ErrOpeningBuffer_def ErrClosingCutoff_def
        ErrSentimentMissing_def ErrSentimentLowConfidence_def)
  have gates: "EntryGate e s = Some x \<Longrightarrow> x \<notin> ?S" "BiasGate e side = Some x \<Longrightarrow> x \<notin> ?S"
    "timeWindowGuard t = Some x \<Longrightarrow> x \<notin> ?S" for s side t x
    using n by (auto simp: EntryGate_def BiasGate_def biasGate_def CheckBias_def timeWindowGuard_def Let_def split: if_splits)
  have "evaluate_intent ports clock i g w = (case timeWindowGuard (currentTime g clock) of Some x \<Rightarrow> Some x
      | None \<Rightarrow> (case EntryGate e (sectorOf g (ti_Ticker i)) of Some x \<Rightarrow> Some x | None \<Rightarrow> BiasGate e (ti_Side i)), w)"
    using g(2,3) by (simp add: evaluate_intent_def sentimentGate_def SentimentGateRaw_def split: option.split)
  then show ?thesis using g(4) tick_unwired [OF g(1)] gates by (auto split: option.split)
qed

lemma production_never_squares_off_witness: "tick db_ports afternoon production one_position_world = (production, one_position_world)"
  using production_never_squares_off [of db_ports production] production_state.built [of db_ports]
  by (simp add: production_def)

section \<open>The recount of an agent with a position store\<close>

text \<open>The recount believes the database alone. Before the square-off hour, when no call fails, a turn of
  the loop leaves the tracker representing exactly the open rows of the table, whatever it counted before:
  an execution that was published and registered but whose position is not stored yet is forgotten.\<close>

theorem tick_recounts:
  assumes "quiet w" "rm_positions g" "rm_exposure g = Some e" "ns_of_day ist now < 54900 * nsec"
    and "tick db_ports now g w = (g', w')"
  shows "\<exists>e' ps. rm_exposure g' = Some e' \<and> fst (ListOpen w) = Inr ps \<and>
    tracks e' (mset (map (\<lambda>p. holding_of (pos_Side p) (pos_Sector p)) ps)) \<and> w' = w"
proof -
  obtain ps where lo: "ListOpen w = (Inr ps, w)" using ListOpen_quiet [OF assms(1)] by blast
  have "now < date_of_day ist now 15 15" using assms(4) by (simp add: before_date_of_day)
  then have "squareOff db_ports now g w = (g, w)" by (simp add: squareOff_def DefaultSquareOffTime_def)
  then have "g' = g\<lparr>rm_exposure := Some (RefreshFromDB ps e)\<rparr>" "w' = w"
    using assms(2,3,5) lo by (auto simp: tick_def)
  then show ?thesis using lo RefreshFromDB_tracks [of ps e] by auto
qed

definition forgetful :: Analyst where
  "forgetful = wired\<lparr>rm_exposure := Some (Register SideLong ''IT'' (NewExposure 1 4))\<rparr>"

lemma tick_recounts_witness:
  "\<exists>e'. rm_exposure (fst (tick db_ports morning forgetful empty_world)) = Some e' \<and> Total e' = 0"
proof -
  obtain g' w' where t: "tick db_ports morning forgetful empty_world = (g', w')"
    by (cases "tick db_ports morning forgetful empty_world")
  have q: "quiet empty_world" by (simp add: quiet_def empty_world_def)
  have f: "rm_positions forgetful" "rm_exposure forgetful = Some (Register SideLong ''IT'' (NewExposure 1 4))"
    by (simp_all add: forgetful_def wired_def)
  have m: "ns_of_day ist morning < 54900 * nsec"
    by (simp add: morning_def ns_of_day_def ist_def nsec_def Hour_def day_ns_def)
  obtain e' ps where "rm_exposure g' = Some e'" "fst (ListOpen empty_world) = Inr ps"
    "tracks e' (mset (map (\<lambda>p. holding_of (pos_Side p) (pos_Sector p)) ps))"
    using tick_recounts [OF q f m t] by blast
  moreover from this(2) have "ps = []" using ListOpen_quiet [OF q] by (auto simp: empty_world_def)
  ultimately show ?thesis using t by (simp add: tracks_def Total_def)
qed

end
