(* ===== verification/Trader.thy ===== *)
theory Trader
  imports Database GoStrings
begin

text \<open>
  The Trader Gateway of \<open>src/analysts/trader\<close>: the handler of execution messages (\<open>agent.go\<close>) over any
  backend of the interface \<open>TraderInterface\<close>, and the backend \<open>PaperTrader\<close> (\<open>papertrader.go\<close>) on the
  database. The locale \<open>trader_backend\<close> states what the handler needs for messages that are delivered
  more than once; the paper trader is an instance of it. The life of the agent is in \<open>Lifecycle\<close>, its construction in \<open>Wiring\<close>.
\<close>

section \<open>The handler\<close>

record OrderResult =
  or_BrokerOrderID :: string
  or_ExecutedPrice :: float64
  or_ExecutedQty :: int

text \<open>A backend is its method \<open>Execute\<close>, given the clock. It may also write to the order, which the handler
  does not read again.\<close>

type_synonym 'w backend = "Time \<Rightarrow> TradeExecution \<Rightarrow> 'w \<Rightarrow> (error + OrderResult) \<times> 'w"

definition handleExecution :: "'w backend \<Rightarrow> Time \<Rightarrow> payload \<Rightarrow> 'w \<Rightarrow> disposition \<times> 'w" where
  "handleExecution Execute clock data w =
     (case unmarshal_execution data of
        Inl _ \<Rightarrow> (Ack, w)
      | Inr exec \<Rightarrow>
          if validate_execution exec \<noteq> None then (Ack, w)
          else case Execute clock exec w of
            (Inl _, w1) \<Rightarrow> (Nak, w1)
          | (Inr _, w1) \<Rightarrow> (Ack, w1))"

section \<open>The paper trader\<close>

definition isClosing :: "TradeExecution \<Rightarrow> bool" where
  "isClosing order \<longleftrightarrow>
     te_SignalReason order = ReasonStopLoss \<or> te_SignalReason order = ReasonTakeProfit \<or>
     te_SignalReason order = ReasonSquareOff \<or>
     HasPrefix (te_ExecutionRef order) ''exit-'' \<or> HasPrefix (te_ExecutionRef order) ''sqoff-''"

definition posFromExec :: "TradeExecution \<Rightarrow> Position" where
  "posFromExec order =
     (let sector = (if te_Sector order = '''' then ''GENERAL'' else te_Sector order);
          stopLoss = (if feq (te_StopLoss order) 0 then te_Price order * flt (95 / 100) else te_StopLoss order);
          takeProfit = (if feq (te_TakeProfit order) 0 then te_Price order * flt (105 / 100) else te_TakeProfit order)
      in \<lparr>pos_ID = 0, pos_Ticker = te_Ticker order, pos_Side = te_Side order, pos_Quantity = te_Quantity order,
          pos_EntryPrice = te_Price order, pos_StopLoss = stopLoss, pos_TakeProfit = takeProfit,
          pos_Sector = sector, pos_Status = PositionOpen, pos_ExecutionRef = te_ExecutionRef order,
          pos_ExitPrice = 0, pos_PnL = 0, pos_ExitReason = '''', pos_ClosedAt = zero_time\<rparr>)"

text \<open>An error of the query counts as not found.\<close>

definition hasExecution :: "string \<Rightarrow> World \<Rightarrow> bool \<times> World" where
  "hasExecution ref w = (case db_call (has_execution_stmt ref) w of (r, w1) \<Rightarrow> (\<not> isl r, w1))"

text \<open>\<open>PAPER-\<close>, the reference, and \<open>time.Now().UnixMilli()\<close>.\<close>

definition paper_fill :: "TradeExecution \<Rightarrow> string \<Rightarrow> OrderResult" where
  "paper_fill order suffix =
     \<lparr>or_BrokerOrderID = ''PAPER-'' @ te_ExecutionRef order @ ''-'' @ suffix,
      or_ExecutedPrice = te_Price order, or_ExecutedQty = te_Quantity order\<rparr>"

definition UnixMilliOf :: "Time \<Rightarrow> int" where
  "UnixMilliOf t = t div 1000000"

definition PaperTrader_Execute :: "World backend" where
  "PaperTrader_Execute clock order w =
     (if isClosing order then
        (case TradeLogStore_Insert order StatusSimulated w of
           (Some e, w1) \<Rightarrow> (Inl (Wrapf ''papertrader insert trade_log'' e), w1)
         | (None, w1) \<Rightarrow> (Inr (paper_fill order (string_of_int (UnixMilliOf clock))), w1))
      else
        case hasExecution (te_ExecutionRef order) w of
          (True, w1) \<Rightarrow> (Inr (paper_fill order ''dup''), w1)
        | (False, w1) \<Rightarrow>
            let pos = posFromExec order in
            case validate_position pos of
              Some e \<Rightarrow> (Inl (Wrapf ''papertrader validate'' e), w1)
            | None \<Rightarrow>
                (case PositionStore_Insert pos w1 of
                   (Inl e, w2) \<Rightarrow> (Inl (Wrapf ''papertrader insert position'' e), w2)
                 | (Inr pos, w2) \<Rightarrow>
                     let order = order\<lparr>te_PositionID := pos_ID pos\<rparr> in
                     (case TradeLogStore_Insert order StatusSimulated w2 of
                        (Some e, w3) \<Rightarrow> (Inl (Wrapf ''papertrader insert trade_log'' e), w3)
                      | (None, w3) \<Rightarrow> (Inr (paper_fill order (string_of_int (UnixMilliOf clock))), w3))))"

section \<open>Redelivery\<close>

text \<open>\<open>book\<close> is what must not be written twice, \<open>placed\<close> tells that an order needs no more writing.\<close>

locale trader_backend =
  fixes execute :: "'w backend"
    and ok :: "'w \<Rightarrow> bool"
    and book :: "'w \<Rightarrow> 'b"
    and placed :: "TradeExecution \<Rightarrow> 'w \<Rightarrow> bool"
  assumes execute_ok: "ok w \<Longrightarrow> ok (snd (execute c x w))"
    and success_places: "ok w \<Longrightarrow> execute c x w = (Inr r, w') \<Longrightarrow> placed x w'"
    and placed_stays: "ok w \<Longrightarrow> placed x w \<Longrightarrow> placed x (snd (execute c y w))"
    and placed_idle: "ok w \<Longrightarrow> placed x w \<Longrightarrow> book (snd (execute c x w)) = book w"
    and writes_place: "ok w \<Longrightarrow> book (snd (execute c x w)) \<noteq> book w \<Longrightarrow> placed x (snd (execute c x w))"
begin

text \<open>The deliveries of one message, at the given times.\<close>

primrec deliver :: "payload \<Rightarrow> Time list \<Rightarrow> 'w \<Rightarrow> 'w" where
  "deliver data [] w = w"
| "deliver data (c # cs) w = deliver data cs (snd (handleExecution execute c data w))"

lemma handle_valid:
  assumes "unmarshal_execution data = Inr x" "validate_execution x = None"
  shows "snd (handleExecution execute c data w) = snd (execute c x w)"
    "fst (handleExecution execute c data w) = (if isl (fst (execute c x w)) then Nak else Ack)"
  using assms by (cases "execute c x w"; auto simp: handleExecution_def split: sum.split)+

lemma handle_invalid:
  assumes "\<not> (\<exists>x. unmarshal_execution data = Inr x \<and> validate_execution x = None)"
  shows "handleExecution execute c data w = (Ack, w)"
  using assms by (auto simp: handleExecution_def split: sum.split)

lemma deliver_placed:
  assumes "unmarshal_execution data = Inr x" "validate_execution x = None"
  shows "ok w \<Longrightarrow> placed x w \<Longrightarrow> book (deliver data cs w) = book w \<and> placed x (deliver data cs w) \<and> ok (deliver data cs w)"
proof (induction cs arbitrary: w)
  case (Cons c cs)
  then show ?case using handle_valid(1) [OF assms] placed_idle placed_stays execute_ok by fastforce
qed simp

text \<open>However often a message is delivered, the book is written by at most one of the deliveries.\<close>

lemma deliver_once:
  assumes "unmarshal_execution data = Inr x" "validate_execution x = None"
  shows "ok w \<Longrightarrow> book (deliver data cs w) = book w \<or>
    (\<exists>c v. ok v \<and> book v = book w \<and> book (deliver data cs w) = book (snd (execute c x v)))"
proof (induction cs arbitrary: w)
  case (Cons c cs)
  let ?v = "snd (execute c x w)"
  have d: "deliver data (c # cs) w = deliver data cs ?v" using handle_valid(1) [OF assms] by simp
  have ok: "ok ?v" using execute_ok Cons.prems by blast
  show ?case
  proof (cases "book ?v = book w")
    case True
    with Cons.IH [OF ok] d show ?thesis by metis
  next
    case False
    then have "placed x ?v" using writes_place Cons.prems by blast
    then have "book (deliver data (c # cs) w) = book ?v" using deliver_placed [OF assms ok] d by metis
    then show ?thesis using Cons.prems by blast
  qed
qed simp

lemma ack_places:
  assumes "ok w" "unmarshal_execution data = Inr x" "validate_execution x = None"
    "fst (handleExecution execute c data w) = Ack"
  shows "placed x (snd (handleExecution execute c data w))"
proof -
  have "\<not> isl (fst (execute c x w))" using assms(4) handle_valid(2) [OF assms(2,3)] by (auto split: if_splits)
  then obtain r w' where "execute c x w = (Inr r, w')" by (cases "execute c x w"; cases "fst (execute c x w)") auto
  then show ?thesis using success_places [OF assms(1)] handle_valid(1) [OF assms(2,3)] by simp
qed

end

section \<open>The paper trader as a backend\<close>

definition recorded :: "TradeExecution \<Rightarrow> World \<Rightarrow> bool" where
  "recorded x w \<longleftrightarrow> isClosing x \<or> te_ExecutionRef x \<in> pr_execution_ref ` set (w_positions w)"

lemma hasExecution_frame:
  "hasExecution ref w = (b, w1) \<Longrightarrow> w1 = w\<lparr>w_db_faults := tl (w_db_faults w)\<rparr> \<and>
     (b \<longrightarrow> ref \<in> pr_execution_ref ` set (w_positions w)) \<and> (next_fault (w_db_faults w) = NoFault \<longrightarrow>
     b = (ref \<in> pr_execution_ref ` set (w_positions w)))"
  by (auto simp: hasExecution_def has_execution_stmt_def db_call_def Let_def split: fault.splits if_splits)

lemma TradeLog_positions: "w_positions (snd (TradeLogStore_Insert ex st w)) = w_positions w"
proof -
  have "w_positions (snd (insert_trade_stmt ex st v)) = w_positions v" for v
    by (auto simp: insert_trade_stmt_def Let_def split: option.split)
  then have "w_positions (snd (db_call (insert_trade_stmt ex st) w)) = w_positions w"
    using db_call_cases [of "insert_trade_stmt ex st" w] by auto
  then show ?thesis by (cases "db_call (insert_trade_stmt ex st) w") (simp add: TradeLogStore_Insert_def split: sum.split)
qed

lemma new_row_frame: "new_position_row p (w\<lparr>w_db_faults := fs\<rparr>) = new_position_row p w"
  by (simp add: new_position_row_def)

lemma position_error_frame: "position_row_error (w\<lparr>w_db_faults := fs\<rparr>) p = position_row_error w p"
  by (simp add: position_row_error_def)

lemma PositionStore_Insert_cases:
  assumes "PositionStore_Insert p w = (r, w')"
  shows "(w_positions w' = w_positions w \<and> isl r) \<or>
    (w_positions w' = w_positions w @ [new_position_row p w] \<and> position_row_error w p = None)"
proof -
  obtain q w1 where d: "db_call (insert_position_stmt p) w = (q, w1)" by (cases "db_call (insert_position_stmt p) w")
  have r: "w' = w1" "isl r = isl q" using assms d by (auto simp: PositionStore_Insert_def wrap_error_def split: sum.splits)
  let ?v = "w\<lparr>w_db_faults := tl (w_db_faults w)\<rparr>"
  show ?thesis
  proof (cases "position_row_error w p")
    case (Some e)
    then have "insert_position_stmt p ?v = (Inl e, ?v\<lparr>w_position_seq := w_position_seq w + 1\<rparr>)"
      by (simp add: insert_position_stmt_def Let_def position_error_frame)
    then show ?thesis using d r by (auto simp: db_call_def Let_def split: fault.splits)
  next
    case None
    then have "insert_position_stmt p ?v = (Inr (w_position_seq w), ?v\<lparr>w_position_seq := w_position_seq w + 1,
        w_positions := w_positions w @ [new_position_row p w]\<rparr>)"
      by (simp add: insert_position_stmt_def Let_def position_error_frame new_row_frame)
    then show ?thesis using d r None by (auto simp: db_call_def Let_def split: fault.splits)
  qed
qed

text \<open>The paths through \<open>Execute\<close>.\<close>

lemma Execute_paths:
  assumes "PaperTrader_Execute c x w = (r, w')"
  obtains (closing) e where "isClosing x" "TradeLogStore_Insert x StatusSimulated w = (e, w')" "isl r = (e \<noteq> None)"
  | (dup) "\<not> isClosing x" "hasExecution (te_ExecutionRef x) w = (True, w')" "\<not> isl r"
  | (invalid) "\<not> isClosing x" "hasExecution (te_ExecutionRef x) w = (False, w')" "isl r"
      "validate_position (posFromExec x) \<noteq> None"
  | (failed) w1 e where "\<not> isClosing x" "hasExecution (te_ExecutionRef x) w = (False, w1)"
      "validate_position (posFromExec x) = None" "PositionStore_Insert (posFromExec x) w1 = (Inl e, w')" "isl r"
  | (opened) w1 p w2 e where "\<not> isClosing x" "hasExecution (te_ExecutionRef x) w = (False, w1)"
      "validate_position (posFromExec x) = None" "PositionStore_Insert (posFromExec x) w1 = (Inr p, w2)"
      "TradeLogStore_Insert (x\<lparr>te_PositionID := pos_ID p\<rparr>) StatusSimulated w2 = (e, w')" "isl r = (e \<noteq> None)"
proof (cases "isClosing x")
  case True
  obtain e v where "TradeLogStore_Insert x StatusSimulated w = (e, v)" by (cases "TradeLogStore_Insert x StatusSimulated w")
  with assms True show ?thesis by (cases e) (auto simp: PaperTrader_Execute_def intro: closing)
next
  case False
  obtain b w1 where h: "hasExecution (te_ExecutionRef x) w = (b, w1)" by (cases "hasExecution (te_ExecutionRef x) w")
  show ?thesis
  proof (cases b)
    case True
    then show ?thesis using assms False h by (auto simp: PaperTrader_Execute_def intro: dup)
  next
    case nb: False
    show ?thesis
    proof (cases "validate_position (posFromExec x)")
      case (Some e)
      then show ?thesis using assms False h nb by (auto simp: PaperTrader_Execute_def Let_def intro: invalid)
    next
      case None
      obtain q w2 where p: "PositionStore_Insert (posFromExec x) w1 = (q, w2)" by (cases "PositionStore_Insert (posFromExec x) w1")
      show ?thesis
      proof (cases q)
        case (Inl e)
        then show ?thesis using assms False h nb None p by (auto simp: PaperTrader_Execute_def Let_def intro: failed)
      next
        case (Inr ps)
        obtain e v where t: "TradeLogStore_Insert (x\<lparr>te_PositionID := pos_ID ps\<rparr>) StatusSimulated w2 = (e, v)"
          by (cases "TradeLogStore_Insert (x\<lparr>te_PositionID := pos_ID ps\<rparr>) StatusSimulated w2")
        then have "w' = v \<and> isl r = (e \<noteq> None)" using assms False h nb None p Inr
          by (cases e) (auto simp: PaperTrader_Execute_def Let_def)
        then show ?thesis using opened [OF False _ None, of w1 ps w2 e] h nb p Inr t by simp
      qed
    qed
  qed
qed

text \<open>The positions table after one execution, and what the outcome tells about it.\<close>

lemma Execute_positions:
  assumes "PaperTrader_Execute c x w = (r, w')"
  shows "(w_positions w' = w_positions w \<and> (\<not> isl r \<longrightarrow> recorded x w)) \<or>
    (\<not> isClosing x \<and> validate_position (posFromExec x) = None \<and> position_row_error w (posFromExec x) = None \<and>
     w_positions w' = w_positions w @ [new_position_row (posFromExec x) w])"
  using assms
proof (cases rule: Execute_paths)
  case (closing e)
  then show ?thesis using TradeLog_positions [of x StatusSimulated w] by (simp add: recorded_def)
next
  case dup
  then show ?thesis using hasExecution_frame [OF dup(2)] by (simp add: recorded_def)
next
  case invalid
  then show ?thesis using hasExecution_frame [OF invalid(2)] by simp
next
  case (failed w1 e)
  then show ?thesis using hasExecution_frame [OF failed(2)] PositionStore_Insert_cases [OF failed(4)]
    by (auto simp: new_row_frame position_error_frame)
next
  case (opened w1 p w2 e)
  have "w_positions w' = w_positions w2"
    using TradeLog_positions [of "x\<lparr>te_PositionID := pos_ID p\<rparr>" StatusSimulated w2] opened(5) by simp
  then show ?thesis using opened hasExecution_frame [OF opened(2)] PositionStore_Insert_cases [OF opened(4)]
    by (simp add: new_row_frame position_error_frame)
qed

lemma new_row_recorded: "pr_execution_ref (new_position_row (posFromExec x) w) = te_ExecutionRef x"
  by (simp add: new_position_row_def posFromExec_def Let_def)

lemma Execute_ok: "db_ok w \<Longrightarrow> db_ok (snd (PaperTrader_Execute c x w))"
proof -
  assume ok: "db_ok w"
  obtain r w' where e: "PaperTrader_Execute c x w = (r, w')" by (cases "PaperTrader_Execute c x w")
  have h: "db_ok w1" if "hasExecution ref w = (b, w1)" for ref b w1
    using hasExecution_frame [OF that] ok by simp
  from e have "db_ok w'"
  proof (cases rule: Execute_paths)
    case (closing e)
    then show ?thesis using operations_ok(4) [OF ok, of x StatusSimulated] by simp
  next
    case dup
    then show ?thesis using h by blast
  next
    case invalid
    then show ?thesis using h by blast
  next
    case (failed w1 e)
    then show ?thesis using operations_ok(1) [OF h [OF failed(2)], of "posFromExec x"] by simp
  next
    case (opened w1 p w2 e)
    then have "db_ok w2" using operations_ok(1) [OF h [OF opened(2)], of "posFromExec x"] by simp
    then show ?thesis using operations_ok(4) [of w2 "x\<lparr>te_PositionID := pos_ID p\<rparr>" StatusSimulated] opened(5) by simp
  qed
  with e show ?thesis by simp
qed

lemma recorded_mono:
  assumes "recorded x w" shows "recorded x (snd (PaperTrader_Execute c y w))"
proof (cases "PaperTrader_Execute c y w")
  case (Pair r w')
  then show ?thesis using Execute_positions [OF Pair] assms by (auto simp: recorded_def)
qed

interpretation paper: trader_backend PaperTrader_Execute db_ok w_positions recorded
proof (unfold_locales, goal_cases)
  case (1 w c x)
  then show ?case by (rule Execute_ok)
next
  case (2 w c x r w')
  then show ?case using Execute_positions [OF 2(2)] new_row_recorded [of x w] by (auto simp: recorded_def)
next
  case (3 w x c y)
  then show ?case using recorded_mono by blast
next
  case (4 w x c)
  have "position_row_error w (posFromExec x) \<noteq> None" if "te_ExecutionRef x \<in> pr_execution_ref ` set (w_positions w)"
    using that by (auto simp: position_row_error_def posFromExec_def Let_def)
  then show ?case using Execute_positions [of c x w] 4 by (cases "PaperTrader_Execute c x w") (auto simp: recorded_def)
next
  case (5 w c x)
  then show ?case using Execute_positions [of c x w] new_row_recorded [of x w]
    by (cases "PaperTrader_Execute c x w") (auto simp: recorded_def)
qed

section \<open>At most one position for a message\<close>

text \<open>C7: Redelivery never opens a second position. However often an execution message is delivered, at
  whatever times and whatever calls to the database fail, the positions table ends up as it was or with
  exactly one more row, an open position with the order's terms; a delivery that is acknowledged leaves the
  order recorded, and after that no delivery touches the table.\<close>

theorem redelivery_opens_once:
  assumes "db_ok w" "unmarshal_execution data = Inr x" "validate_execution x = None"
  shows "(w_positions (paper.deliver data cs w) = w_positions w \<or>
      (\<exists>row. w_positions (paper.deliver data cs w) = w_positions w @ [row] \<and> pr_execution_ref row = te_ExecutionRef x \<and>
        pr_status row = ''OPEN'' \<and> pr_ticker row = te_Ticker x \<and> pr_side row = te_Side x \<and>
        pr_quantity row = te_Quantity x \<and> pr_entry_price row = te_Price x)) \<and>
    (fst (handleExecution PaperTrader_Execute c data w) = Ack \<longrightarrow>
      recorded x (snd (handleExecution PaperTrader_Execute c data w)) \<and>
      w_positions (paper.deliver data cs (snd (handleExecution PaperTrader_Execute c data w))) =
      w_positions (snd (handleExecution PaperTrader_Execute c data w)))"
proof (intro conjI impI)
  have row: "pr_execution_ref (new_position_row (posFromExec x) v) = te_ExecutionRef x"
    "pr_status (new_position_row (posFromExec x) v) = ''OPEN''" "pr_ticker (new_position_row (posFromExec x) v) = te_Ticker x"
    "pr_side (new_position_row (posFromExec x) v) = te_Side x" "pr_quantity (new_position_row (posFromExec x) v) = te_Quantity x"
    "pr_entry_price (new_position_row (posFromExec x) v) = te_Price x" for v
    by (simp_all add: new_position_row_def posFromExec_def Let_def PositionOpen_def)
  show "w_positions (paper.deliver data cs w) = w_positions w \<or>
      (\<exists>row. w_positions (paper.deliver data cs w) = w_positions w @ [row] \<and> pr_execution_ref row = te_ExecutionRef x \<and>
        pr_status row = ''OPEN'' \<and> pr_ticker row = te_Ticker x \<and> pr_side row = te_Side x \<and>
        pr_quantity row = te_Quantity x \<and> pr_entry_price row = te_Price x)"
    using paper.deliver_once [OF assms(2,3,1), of cs]
  proof (elim disjE exE conjE)
    fix c v assume v: "w_positions v = w_positions w"
      "w_positions (paper.deliver data cs w) = w_positions (snd (PaperTrader_Execute c x v))"
    then show ?thesis using Execute_positions [of c x v] row [of v]
      by (cases "PaperTrader_Execute c x v") auto
  qed simp
next
  let ?v = "snd (handleExecution PaperTrader_Execute c data w)"
  assume a: "fst (handleExecution PaperTrader_Execute c data w) = Ack"
  show r: "recorded x ?v" by (rule paper.ack_places [OF assms a])
  have "db_ok ?v" using paper.handle_valid(1) [OF assms(2,3)] Execute_ok [OF assms(1)] by simp
  then show "w_positions (paper.deliver data cs ?v) = w_positions ?v"
    using paper.deliver_placed [OF assms(2,3)] r by blast
qed

section \<open>A first delivery\<close>

lemma quiet_hasExecution: "w_db_faults w = [] \<Longrightarrow> hasExecution ref w = (ref \<in> pr_execution_ref ` set (w_positions w), w)"
  by (simp add: hasExecution_def has_execution_stmt_def db_call_quiet)

lemma quiet_position_insert:
  assumes "w_db_faults w = []" "position_row_error w p = None"
  shows "PositionStore_Insert p w = (Inr (p\<lparr>pos_ID := w_position_seq w\<rparr>),
    w\<lparr>w_position_seq := w_position_seq w + 1, w_positions := w_positions w @ [new_position_row p w]\<rparr>)"
proof -
  have "insert_position_stmt p w = (Inr (w_position_seq w),
      w\<lparr>w_position_seq := w_position_seq w + 1, w_positions := w_positions w @ [new_position_row p w]\<rparr>)"
    using assms(2) by (simp add: insert_position_stmt_def Let_def)
  then show ?thesis using assms(1) by (simp add: PositionStore_Insert_def db_call_quiet wrap_error_def)
qed

definition new_trade_row :: "TradeExecution \<Rightarrow> World \<Rightarrow> trade_row" where
  "new_trade_row ex w =
     \<lparr>tr_id = w_trade_seq w, tr_ticker = te_Ticker ex, tr_side = te_Side ex, tr_quantity = te_Quantity ex,
      tr_price = te_Price ex, tr_signal_reason = te_SignalReason ex, tr_status = StatusSimulated,
      tr_executed_at = w_clock w, tr_position_id = te_PositionID ex\<rparr>"

lemma quiet_trade_insert:
  assumes "w_db_faults w = []" "trade_row_error w ex StatusSimulated = None"
  shows "TradeLogStore_Insert ex StatusSimulated w =
    (None, w\<lparr>w_trade_seq := w_trade_seq w + 1, w_trade_log := w_trade_log w @ [new_trade_row ex w]\<rparr>)"
proof -
  have "insert_trade_stmt ex StatusSimulated w =
      (Inr (), w\<lparr>w_trade_seq := w_trade_seq w + 1, w_trade_log := w_trade_log w @ [new_trade_row ex w]\<rparr>)"
    using assms(2) by (simp add: insert_trade_stmt_def new_trade_row_def Let_def)
  then show ?thesis using assms(1) by (simp add: TradeLogStore_Insert_def db_call_quiet)
qed

lemma opening_run:
  assumes "w_db_faults w = []" "\<not> isClosing x" "te_ExecutionRef x \<notin> pr_execution_ref ` set (w_positions w)"
    "validate_position (posFromExec x) = None" "position_row_error w (posFromExec x) = None"
  shows "\<exists>r w1. PaperTrader_Execute c x w = (Inr r, w1) \<and>
    w_positions w1 = w_positions w @ [new_position_row (posFromExec x) w] \<and>
    w_trade_log w1 = w_trade_log w @ [new_trade_row (x\<lparr>te_PositionID := w_position_seq w\<rparr>) w] \<and> w_db_faults w1 = []"
proof -
  let ?w = "w\<lparr>w_position_seq := w_position_seq w + 1, w_positions := w_positions w @ [new_position_row (posFromExec x) w]\<rparr>"
  let ?x = "x\<lparr>te_PositionID := w_position_seq w\<rparr>"
  have "position_row_error w (posFromExec x) = None \<Longrightarrow> trade_row_error ?w ?x StatusSimulated = None"
    by (auto simp: position_row_error_def trade_row_error_def posFromExec_def Let_def new_position_row_def StatusSimulated_def
        split: if_splits)
  then have "TradeLogStore_Insert ?x StatusSimulated ?w =
      (None, ?w\<lparr>w_trade_seq := w_trade_seq w + 1, w_trade_log := w_trade_log w @ [new_trade_row ?x ?w]\<rparr>)"
    using quiet_trade_insert [of ?w ?x] assms(1,5) by simp
  moreover have "new_trade_row ?x ?w = new_trade_row ?x w" by (simp add: new_trade_row_def)
  ultimately show ?thesis
    using assms(1-4) quiet_hasExecution [OF assms(1)] quiet_position_insert [OF assms(1,5)]
    by (simp add: PaperTrader_Execute_def Let_def)
qed

text \<open>An opening order is carried out completely. When no call fails, the reference is new, and the order's
  position is valid and fits the table, the message is acknowledged, the positions table gains the open row
  of the order, and the trade log gains the simulated fill, linked to that row.\<close>

theorem opening_order_filled:
  assumes "unmarshal_execution data = Inr x" "validate_execution x = None" "w_db_faults w = []" "\<not> isClosing x"
    "te_ExecutionRef x \<notin> pr_execution_ref ` set (w_positions w)"
    "validate_position (posFromExec x) = None" "position_row_error w (posFromExec x) = None"
  shows "\<exists>w1 row fill. handleExecution PaperTrader_Execute c data w = (Ack, w1) \<and>
    w_positions w1 = w_positions w @ [row] \<and> w_trade_log w1 = w_trade_log w @ [fill] \<and>
    tr_position_id fill = pr_id row \<and> tr_status fill = StatusSimulated \<and> tr_side fill = pr_side row \<and>
    pr_status row = ''OPEN'' \<and> pr_ticker row = te_Ticker x \<and> pr_quantity row = te_Quantity x \<and>
    pr_entry_price row = te_Price x \<and> pr_stop_loss row = pos_StopLoss (posFromExec x) \<and>
    pr_take_profit row = pos_TakeProfit (posFromExec x) \<and> pr_sector row = pos_Sector (posFromExec x)"
proof -
  obtain r w1 where e: "PaperTrader_Execute c x w = (Inr r, w1)"
    "w_positions w1 = w_positions w @ [new_position_row (posFromExec x) w]"
    "w_trade_log w1 = w_trade_log w @ [new_trade_row (x\<lparr>te_PositionID := w_position_seq w\<rparr>) w]"
    using opening_run [OF assms(3-7)] by blast
  have "handleExecution PaperTrader_Execute c data w = (Ack, w1)"
    using assms(1,2) e(1) by (simp add: handleExecution_def)
  then show ?thesis using e(2,3)
    by (intro exI [of _ w1] exI [of _ "new_position_row (posFromExec x) w"]
        exI [of _ "new_trade_row (x\<lparr>te_PositionID := w_position_seq w\<rparr>) w"])
      (simp add: new_position_row_def new_trade_row_def posFromExec_def Let_def PositionOpen_def)
qed

text \<open>The example: the message of \<open>sample_execution\<close>.\<close>

definition fill_me :: TradeExecution where
  "fill_me = \<lparr>te_Ticker = ''TCS'', te_Side = ''LONG'', te_Quantity = 10, te_Price = Fin 100,
     te_StopLoss = Fin 95, te_TakeProfit = Fin 110, te_Sector = ''IT'', te_SignalReason = ''breakout'',
     te_ExecutionRef = ''risk-TCS-1'', te_PositionID = 0\<rparr>"

definition fill_message :: payload where
  "fill_message = Some (JObj [(''ticker'', JStr ''TCS''), (''side'', JStr ''LONG''), (''quantity'', JInt 10),
     (''price'', JInt 100), (''stop_loss'', JInt 95), (''take_profit'', JInt 110), (''sector'', JStr ''IT''),
     (''signal_reason'', JStr ''breakout''), (''execution_ref'', JStr ''risk-TCS-1'')])"

lemma fill_decodes: "unmarshal_execution fill_message = Inr fill_me" "validate_execution fill_me = None"
  by (simp_all add: unmarshal_execution_def unmarshal_def fill_message_def fill_me_def zero_execution_def in_int64_def
      validate_execution_def enum_defs)

lemma fill_opens: "\<not> isClosing fill_me" "validate_position (posFromExec fill_me) = None"
  "position_row_error empty_world (posFromExec fill_me) = None"
  by (simp_all add: fill_me_def isClosing_def HasPrefix_def enum_defs posFromExec_def validate_position_def
      position_row_error_def in_int32_def empty_world_def zero_float64_Fin feq_def)

lemma opening_order_filled_witness:
  "\<exists>w1 row fill. handleExecution PaperTrader_Execute 0 fill_message empty_world = (Ack, w1) \<and>
    w_positions w1 = [row] \<and> w_trade_log w1 = [fill] \<and> tr_position_id fill = pr_id row \<and> pr_entry_price row = Fin 100"
proof -
  have e: "w_db_faults empty_world = []" "w_positions empty_world = []" "w_trade_log empty_world = []"
    by (simp_all add: empty_world_def)
  have "te_ExecutionRef fill_me \<notin> pr_execution_ref ` set (w_positions empty_world)" by (simp add: e)
  from opening_order_filled [OF fill_decodes e(1) fill_opens(1) this fill_opens(2,3), of 0] show ?thesis
    by (auto simp: e fill_me_def)
qed

lemma redelivery_opens_once_witness:
  "length (w_positions (paper.deliver fill_message [0, 1, 2] empty_world)) \<le> 1"
proof -
  have "w_positions empty_world = []" by (simp add: empty_world_def)
  then have "w_positions (paper.deliver fill_message [0, 1, 2] empty_world) = [] \<or>
      (\<exists>row. w_positions (paper.deliver fill_message [0, 1, 2] empty_world) = [row])"
    using redelivery_opens_once [OF db_ok_empty fill_decodes, of "[0, 1, 2]", THEN conjunct1] by (auto simp del: paper.deliver.simps)
  then show ?thesis by (auto simp del: paper.deliver.simps)
qed

section \<open>What goes wrong\<close>

text \<open>C39: No short order is ever carried out. The column \<open>side\<close> of both tables holds four characters, and
  \<open>SHORT\<close> has five: whatever calls fail or succeed, a short order that would open a position, and every
  closing order on the short side, which is how each long position is closed, is refused by the database,
  leaves positions and trade log as they were and is put back for redelivery.\<close>

theorem short_orders_never_stored:
  assumes "unmarshal_execution data = Inr x" "validate_execution x = None" "te_Side x = SideShort"
    "isClosing x \<or> te_ExecutionRef x \<notin> pr_execution_ref ` set (w_positions w)"
  shows "\<exists>w1. handleExecution PaperTrader_Execute c data w = (Nak, w1) \<and>
    w_positions w1 = w_positions w \<and> w_trade_log w1 = w_trade_log w"
proof -
  obtain r w1 where e: "PaperTrader_Execute c x w = (r, w1)" by (cases "PaperTrader_Execute c x w")
  have pe: "position_row_error v (posFromExec x) \<noteq> None" for v
    using assms(3) by (simp add: position_row_error_def posFromExec_def Let_def SideShort_def)
  have te: "TradeLogStore_Insert x StatusSimulated v = (q, v') \<Longrightarrow> q \<noteq> None \<and> w_trade_log v' = w_trade_log v" for v q v'
    using assms(3) by (auto simp: TradeLogStore_Insert_def db_call_def insert_trade_stmt_def trade_row_error_def Let_def
        SideShort_def split: fault.splits sum.splits if_splits)
  have "isl r \<and> w_trade_log w1 = w_trade_log w"
    using e
  proof (cases rule: Execute_paths)
    case (closing q)
    then show ?thesis using te by blast
  next
    case dup
    then show ?thesis using hasExecution_frame [OF dup(2)] assms(4) by blast
  next
    case invalid
    then show ?thesis using hasExecution_frame [OF invalid(2)] by simp
  next
    case (failed v q)
    have "w_trade_log w1 = w_trade_log v"
      using failed(4) pe by (auto simp: PositionStore_Insert_def db_call_def insert_position_stmt_def Let_def
          split: fault.splits option.splits)
    then show ?thesis using hasExecution_frame [OF failed(2)] failed(5) by simp
  next
    case (opened v p v2 q)
    then show ?thesis using PositionStore_Insert_cases [OF opened(4)] pe by auto
  qed
  moreover have "w_positions w1 = w_positions w" using Execute_positions [OF e] pe by auto
  ultimately show ?thesis using assms(1,2) e by (cases r) (auto simp: handleExecution_def)
qed

definition short_message :: payload where
  "short_message = Some (JObj [(''ticker'', JStr ''TCS''), (''side'', JStr ''SHORT''), (''quantity'', JInt 10),
     (''price'', JInt 100), (''execution_ref'', JStr ''exit-1-1''), (''position_id'', JInt 1)])"

lemma short_orders_never_stored_witness:
  "fst (handleExecution PaperTrader_Execute 0 short_message one_position_world) = Nak"
proof -
  define x where "x = \<lparr>te_Ticker = ''TCS'', te_Side = ''SHORT'', te_Quantity = 10, te_Price = Fin 100, te_StopLoss = 0,
     te_TakeProfit = 0, te_Sector = '''', te_SignalReason = '''', te_ExecutionRef = ''exit-1-1'', te_PositionID = 1\<rparr>"
  have "unmarshal_execution short_message = Inr x" "validate_execution x = None" "te_Side x = SideShort" "isClosing x"
    by (simp_all add: x_def unmarshal_execution_def unmarshal_def short_message_def zero_execution_def in_int64_def
        validate_execution_def enum_defs isClosing_def HasPrefix_def)
  then show ?thesis using short_orders_never_stored [of short_message x one_position_world 0] by auto
qed

text \<open>A fill can be lost from the audit trail. Once the positions table has the order's row, a delivery that
  meets no failure is acknowledged without writing anything. So when the row was stored and the insertion
  into the trade log failed, the redelivery that the failure asks for does not make up for it.\<close>

theorem redelivery_skips_audit:
  assumes "unmarshal_execution data = Inr x" "validate_execution x = None" "\<not> isClosing x"
    "te_ExecutionRef x \<in> pr_execution_ref ` set (w_positions w)" "w_db_faults w = []"
  shows "handleExecution PaperTrader_Execute c data w = (Ack, w)"
  using assms quiet_hasExecution [OF assms(5)] by (simp add: handleExecution_def PaperTrader_Execute_def)

text \<open>The example: the first delivery meets a failure of its third call, the insertion into the trade log.\<close>

lemma redelivery_skips_audit_witness:
  "\<exists>w1. handleExecution PaperTrader_Execute 0 fill_message (empty_world\<lparr>w_db_faults := [NoFault, NoFault, LostRequest (NewErr ''eof'')]\<rparr>) = (Nak, w1) \<and>
     handleExecution PaperTrader_Execute 1 fill_message w1 = (Ack, w1) \<and> length (w_positions w1) = 1 \<and> w_trade_log w1 = []"
proof -
  define w where "w = empty_world\<lparr>w_db_faults := [NoFault, NoFault, LostRequest (NewErr ''eof'')]\<rparr>"
  define w1 where "w1 = empty_world\<lparr>w_position_seq := 2, w_positions := [new_position_row (posFromExec fill_me) empty_world]\<rparr>"
  have h: "hasExecution (te_ExecutionRef fill_me) w = (False, empty_world\<lparr>w_db_faults := [NoFault, LostRequest (NewErr ''eof'')]\<rparr>)"
    by (simp add: hasExecution_def has_execution_stmt_def db_call_def w_def empty_world_def)
  have i: "PositionStore_Insert (posFromExec fill_me) (empty_world\<lparr>w_db_faults := [NoFault, LostRequest (NewErr ''eof'')]\<rparr>) =
      (Inr ((posFromExec fill_me)\<lparr>pos_ID := 1\<rparr>), w1\<lparr>w_db_faults := [LostRequest (NewErr ''eof'')]\<rparr>)"
    using fill_opens(3) by (simp add: PositionStore_Insert_def db_call_def insert_position_stmt_def Let_def w1_def
        position_error_frame new_row_frame wrap_error_def) (simp add: empty_world_def)
  have t: "TradeLogStore_Insert y s (w1\<lparr>w_db_faults := [LostRequest (NewErr ''eof'')]\<rparr>) =
      (Some (Wrapf ''insert trade_log'' (NewErr ''eof'')), w1)" for y s
    by (simp add: TradeLogStore_Insert_def db_call_def w1_def empty_world_def)
  have "handleExecution PaperTrader_Execute 0 fill_message w = (Nak, w1)"
    using fill_decodes fill_opens(1,2) h i t by (simp add: handleExecution_def PaperTrader_Execute_def Let_def)
  moreover have "handleExecution PaperTrader_Execute 1 fill_message w1 = (Ack, w1)"
    using redelivery_skips_audit [OF fill_decodes fill_opens(1), of w1 1]
    by (simp add: w1_def empty_world_def new_row_recorded)
  ultimately show ?thesis unfolding w_def by (intro exI [of _ w1]) (simp add: w1_def empty_world_def)
qed

end
