(* ===== verification/Ledger.thy ===== *)
theory Ledger
  imports Admission Trader
begin

text \<open>
  What the agents together may do to the tables and the bus. A \<open>move\<close> is the trace one call to the database or the
  bus leaves: a message, an order, a position, a fill; only a close is the trace of two calls, the order and
  the update that follows it. The rules say what must stand in the tables and must have been published before
  a move; the record of the day (\<open>ledger_ok\<close>) is kept by every move. As everywhere, \<open>w_bus\<close> is the history of what
  the server accepted, not what it still retains. That each handler of the agents is a sequence of moves is
  shown in \<open>Handlers\<close>.
\<close>

section \<open>Published orders\<close>

text \<open>An order of the Risk Manager to enter: it was built from a valid intent that has been published.\<close>

definition entry_order :: "message list \<Rightarrow> TradeExecution \<Rightarrow> bool" where
  "entry_order bus ex \<longleftrightarrow> (\<exists>ji i c g. (SubjectIntentNew, ji) \<in> set bus \<and> unmarshal_intent (Some ji) = Inr i \<and>
     validate_intent i = None \<and> buildExecution c g i = Inr ex)"

text \<open>An order that closes a position: it names the row, and takes the opposite side for the full quantity, without boundaries.\<close>

definition closes_row :: "position_row \<Rightarrow> TradeExecution \<Rightarrow> bool" where
  "closes_row r ex \<longleftrightarrow> isClosing ex \<and> te_PositionID ex = pr_id r \<and> te_Ticker ex = pr_ticker r \<and>
     te_Side ex = SideShort \<and> te_Quantity ex = pr_quantity r \<and> te_StopLoss ex = 0 \<and> te_TakeProfit ex = 0"

definition posted :: "message list \<Rightarrow> TradeExecution \<Rightarrow> bool" where
  "posted bus ex \<longleftrightarrow> (\<exists>j. marshal_execution ex = Inr j \<and> (ExecuteSubject (te_Ticker ex), j) \<in> set bus)"

text \<open>The row that an entry order opens.\<close>

definition opens_row :: "TradeExecution \<Rightarrow> position_row \<Rightarrow> bool" where
  "opens_row ex r \<longleftrightarrow> \<not> isClosing ex \<and> validate_position (posFromExec ex) = None \<and>
     (\<exists>w. same_terms (new_position_row (posFromExec ex) w) r)"

definition fills_row :: "position_row \<Rightarrow> trade_row \<Rightarrow> bool" where
  "fills_row r f \<longleftrightarrow> tr_position_id f = pr_id r \<and> tr_ticker f = pr_ticker r \<and> tr_side f = pr_side r \<and>
     tr_quantity f = pr_quantity r \<and> tr_price f = pr_entry_price r"

section \<open>Moves\<close>

text \<open>A position is closed in the move that publishes its order, and in no other; \<open>leaves\<close> is an order whose update failed.
  \<open>opens\<close> and \<open>fills\<close> of one order may be cut apart by a fault.\<close>

definition same_books :: "World \<Rightarrow> World \<Rightarrow> bool" where
  "same_books w w' \<longleftrightarrow> w_positions w' = w_positions w \<and> w_trade_log w' = w_trade_log w \<and> w_bus w' = w_bus w \<and>
     w_position_seq w \<le> w_position_seq w'"

inductive move :: "World \<Rightarrow> World \<Rightarrow> bool" where
  nothing: "same_books w w' \<Longrightarrow> db_ok w' \<Longrightarrow> move w w'"
| speaks: "same_books (w\<lparr>w_bus := w_bus w @ [(s, j)]\<rparr>) w' \<Longrightarrow> db_ok w' \<Longrightarrow> \<forall>t. s \<noteq> ExecuteSubject t \<Longrightarrow> move w w'"
| enters: "same_books (w\<lparr>w_bus := w_bus w @ [(ExecuteSubject (te_Ticker ex), j)]\<rparr>) w' \<Longrightarrow> db_ok w' \<Longrightarrow>
    marshal_execution ex = Inr j \<Longrightarrow> entry_order (w_bus w) ex \<Longrightarrow> move w w'"
| leaves: "same_books (w\<lparr>w_bus := w_bus w @ [(ExecuteSubject (te_Ticker ex), j)]\<rparr>) w' \<Longrightarrow> db_ok w' \<Longrightarrow>
    marshal_execution ex = Inr j \<Longrightarrow> r \<in> set (w_positions w) \<Longrightarrow> closes_row r ex \<Longrightarrow> move w w'"
| opens: "same_books (w\<lparr>w_positions := w_positions w @ [r]\<rparr>) w' \<Longrightarrow> db_ok w' \<Longrightarrow> pr_status r = ''OPEN'' \<Longrightarrow>
    w_position_seq w \<le> pr_id r \<Longrightarrow> entry_order (w_bus w) ex \<Longrightarrow> posted (w_bus w) ex \<Longrightarrow> opens_row ex r \<Longrightarrow> move w w'"
| fills: "same_books (w\<lparr>w_trade_log := w_trade_log w @ [f]\<rparr>) w' \<Longrightarrow> db_ok w' \<Longrightarrow> r \<in> set (w_positions w) \<Longrightarrow>
    fills_row r f \<Longrightarrow> pr_id r \<notin> tr_position_id ` set (w_trade_log w) \<Longrightarrow> move w w'"
| closes: "same_books (w\<lparr>w_bus := w_bus w @ [(ExecuteSubject (te_Ticker ex), j)],
      w_positions := map (\<lambda>x. if pr_id x = pr_id r \<and> pr_status x = ''OPEN''
        then close_row v (te_Price ex) p y x else x) (w_positions w)\<rparr>) w' \<Longrightarrow> db_ok w' \<Longrightarrow>
    marshal_execution ex = Inr j \<Longrightarrow> r \<in> set (w_positions w) \<Longrightarrow> closes_row r ex \<Longrightarrow> move w w'"

lemma same_books_refl [simp]: "same_books w w"
  by (simp add: same_books_def)

lemma same_books_trans: "same_books u v \<Longrightarrow> same_books v w \<Longrightarrow> same_books u w"
  by (simp add: same_books_def)

lemma move_ok: "move w w' \<Longrightarrow> db_ok w'"
  by (induction rule: move.induct) auto

lemma moves_ok: "move\<^sup>*\<^sup>* w w' \<Longrightarrow> db_ok w \<Longrightarrow> db_ok w'"
  by (induction rule: rtranclp_induct) (auto dest: move_ok)

section \<open>The record of the day\<close>

definition orders_ok :: "World \<Rightarrow> bool" where
  "orders_ok w \<longleftrightarrow> (\<forall>t j. (ExecuteSubject t, j) \<in> set (w_bus w) \<longrightarrow> (\<exists>ex. marshal_execution ex = Inr j \<and> te_Ticker ex = t \<and>
     (entry_order (w_bus w) ex \<or> (\<exists>r \<in> set (w_positions w). closes_row r ex))))"

definition entries_ok :: "World \<Rightarrow> bool" where
  "entries_ok w \<longleftrightarrow> 0 < w_position_seq w \<and> (\<forall>r \<in> set (w_positions w). 0 < pr_id r \<and>
     (\<exists>ex. entry_order (w_bus w) ex \<and> posted (w_bus w) ex \<and> opens_row ex r))"

definition exits_ok :: "World \<Rightarrow> bool" where
  "exits_ok w \<longleftrightarrow> (\<forall>r \<in> set (w_positions w). pr_status r \<noteq> ''OPEN'' \<longrightarrow>
     (\<exists>ex. closes_row r ex \<and> posted (w_bus w) ex \<and> pr_exit_price r = Some (te_Price ex)))"

definition fills_ok :: "World \<Rightarrow> bool" where
  "fills_ok w \<longleftrightarrow> distinct (map tr_position_id (w_trade_log w)) \<and>
     (\<forall>f \<in> set (w_trade_log w). \<exists>r \<in> set (w_positions w). fills_row r f)"

definition ledger_ok :: "World \<Rightarrow> bool" where
  "ledger_ok w \<longleftrightarrow> db_ok w \<and> orders_ok w \<and> entries_ok w \<and> exits_ok w \<and> fills_ok w"

lemma ledger_empty: "ledger_ok empty_world"
  using db_ok_empty by (simp add: ledger_ok_def orders_ok_def entries_ok_def exits_ok_def fills_ok_def empty_world_def)

lemma entry_order_mono: "entry_order b ex \<Longrightarrow> set b \<subseteq> set b' \<Longrightarrow> entry_order b' ex"
  unfolding entry_order_def by blast

lemma posted_mono: "posted b ex \<Longrightarrow> set b \<subseteq> set b' \<Longrightarrow> posted b' ex"
  unfolding posted_def by blast

lemma ledger_same:
  assumes "ledger_ok w" "same_books w w'" "db_ok w'" shows "ledger_ok w'"
  using assms by (auto simp: ledger_ok_def same_books_def orders_ok_def entries_ok_def exits_ok_def fills_ok_def)

text \<open>Rows that agree on their terms are opened, closed and filled by the same orders and fills.\<close>

lemma same_terms_sym: "same_terms a b \<Longrightarrow> same_terms b a"
  by (simp add: same_terms_def)

lemma same_terms_trans: "same_terms a b \<Longrightarrow> same_terms b c \<Longrightarrow> same_terms a c"
  by (simp add: same_terms_def)

lemma closes_row_terms: "same_terms r r' \<Longrightarrow> closes_row r ex = closes_row r' ex"
  by (simp add: closes_row_def same_terms_def)

lemma fills_row_terms: "same_terms r r' \<Longrightarrow> fills_row r f = fills_row r' f"
  by (simp add: fills_row_def same_terms_def)

lemma opens_row_terms: "same_terms r r' \<Longrightarrow> opens_row ex r \<Longrightarrow> opens_row ex r'"
  unfolding opens_row_def by (blast intro: same_terms_trans)

lemma same_terms_close: "same_terms r (close_row v x p y r)"
  by (simp add: same_terms_def close_row_def)

text \<open>A longer stream keeps the record, once its new order is accounted for.\<close>

lemma ledger_says:
  assumes "ledger_ok w" "\<forall>t. s = ExecuteSubject t \<longrightarrow> (\<exists>ex. marshal_execution ex = Inr j \<and> te_Ticker ex = t \<and>
      (entry_order (w_bus w) ex \<or> (\<exists>r \<in> set (w_positions w). closes_row r ex)))"
  shows "ledger_ok (w\<lparr>w_bus := w_bus w @ [(s, j)]\<rparr>)"
proof -
  let ?w = "w\<lparr>w_bus := w_bus w @ [(s, j)]\<rparr>"
  have s: "set (w_bus w) \<subseteq> set (w_bus ?w)" by auto
  have "\<exists>ex. marshal_execution ex = Inr k \<and> te_Ticker ex = t \<and>
      (entry_order (w_bus ?w) ex \<or> (\<exists>r \<in> set (w_positions ?w). closes_row r ex))"
    if "(ExecuteSubject t, k) \<in> set (w_bus ?w)" for t k
  proof -
    have "\<exists>ex. marshal_execution ex = Inr k \<and> te_Ticker ex = t \<and>
        (entry_order (w_bus w) ex \<or> (\<exists>r \<in> set (w_positions w). closes_row r ex))"
      using that assms by (auto simp: ledger_ok_def orders_ok_def)
    then show ?thesis using entry_order_mono [OF _ s] by auto
  qed
  moreover have "entries_ok ?w" using assms(1) entry_order_mono [OF _ s] posted_mono [OF _ s]
    unfolding ledger_ok_def entries_ok_def by fastforce
  moreover have "exits_ok ?w" using assms(1) posted_mono [OF _ s] unfolding ledger_ok_def exits_ok_def by fastforce
  ultimately show ?thesis using assms(1) by (auto simp: ledger_ok_def fills_ok_def orders_ok_def)
qed

lemma ledger_opens:
  assumes "ledger_ok w" "pr_status r = ''OPEN''" "w_position_seq w \<le> pr_id r"
    and "entry_order (w_bus w) ex" "posted (w_bus w) ex" "opens_row ex r"
    and "same_books (w\<lparr>w_positions := w_positions w @ [r]\<rparr>) w'" "db_ok w'"
  shows "ledger_ok w'"
proof -
  have b: "w_positions w' = w_positions w @ [r]" "w_bus w' = w_bus w" "w_trade_log w' = w_trade_log w"
    "w_position_seq w \<le> w_position_seq w'"
    using assms(7) by (simp_all add: same_books_def)
  have "orders_ok w'" using assms(1) unfolding ledger_ok_def orders_ok_def b by (metis UnI1 set_append)
  moreover have "entries_ok w'" using assms(1,3-6) b by (auto simp: ledger_ok_def entries_ok_def)
  moreover have "exits_ok w'" using assms(1,2) b by (auto simp: ledger_ok_def exits_ok_def)
  moreover have "fills_ok w'" using assms(1) b by (auto simp: ledger_ok_def fills_ok_def)
  ultimately show ?thesis using assms(8) by (simp add: ledger_ok_def)
qed

lemma ledger_closes:
  assumes "ledger_ok w" "closes_row r ex" "posted (w_bus w) ex" "db_ok w'"
    and "same_books (w\<lparr>w_positions := map (\<lambda>x. if pr_id x = pr_id r \<and> pr_status x = ''OPEN''
      then close_row v (te_Price ex) p y x else x) (w_positions w)\<rparr>) w'" "r \<in> set (w_positions w)"
  shows "ledger_ok w'"
proof -
  define f where "f = (\<lambda>x. if pr_id x = pr_id r \<and> pr_status x = ''OPEN'' then close_row v (te_Price ex) p y x else x)"
  have b: "w_positions w' = map f (w_positions w)" "w_bus w' = w_bus w" "w_trade_log w' = w_trade_log w"
    "w_position_seq w \<le> w_position_seq w'"
    using assms(5) by (simp_all add: same_books_def f_def)
  have t: "same_terms x (f x)" for x by (simp add: same_terms_close f_def)
  have c: "closes_row (f x) e = closes_row x e" "fills_row (f x) g = fills_row x g" "pr_id (f x) = pr_id x" for x e g
    using closes_row_terms [OF t] fills_row_terms [OF t] t [of x] by (simp_all add: same_terms_def)
  note ok = assms(1) [unfolded ledger_ok_def]
  have "orders_ok w'" using ok unfolding orders_ok_def b set_map by (simp add: c)
  moreover have "entries_ok w'"
    unfolding entries_ok_def b(1,2)
  proof (intro conjI ballI)
    show "0 < w_position_seq w'" using ok b(4) by (simp add: entries_ok_def)
    fix x' assume "x' \<in> set (map f (w_positions w))"
    then obtain x where x: "x \<in> set (w_positions w)" "x' = f x" by auto
    then obtain ex where e: "0 < pr_id x" "entry_order (w_bus w) ex" "posted (w_bus w) ex" "opens_row ex x"
      using ok unfolding entries_ok_def by blast
    show "0 < pr_id x'" using e(1) x(2) c(3) by simp
    show "\<exists>ex. entry_order (w_bus w) ex \<and> posted (w_bus w) ex \<and> opens_row ex x'"
      using e opens_row_terms [OF t [of x]] x(2) by blast
  qed
  moreover have "fills_ok w'" using ok unfolding fills_ok_def b set_map by (simp add: c)
  moreover have "exits_ok w'"
    unfolding exits_ok_def b(1,2)
  proof (intro ballI impI)
    fix x' assume x': "x' \<in> set (map f (w_positions w))" "pr_status x' \<noteq> ''OPEN''"
    then obtain x where x: "x \<in> set (w_positions w)" "x' = f x" by auto
    show "\<exists>ex. closes_row x' ex \<and> posted (w_bus w) ex \<and> pr_exit_price x' = Some (te_Price ex)"
    proof (cases "pr_id x = pr_id r \<and> pr_status x = ''OPEN''")
      case True
      have "inj_on pr_id (set (w_positions w))" using ok by (simp add: db_ok_def distinct_map)
      then have "x = r" using x(1) assms(6) True by (auto dest: inj_onD)
      then have "x' = close_row v (te_Price ex) p y r" using x(2) True by (simp add: f_def)
      then show ?thesis using assms(2,3) closes_row_terms [OF same_terms_close] by auto
    next
      case False
      have "x' = x" unfolding x(2) f_def using False by (rule if_not_P)
      then show ?thesis using ok x(1) x'(2) unfolding exits_ok_def by blast
    qed
  qed
  ultimately show ?thesis using assms(4) by (simp add: ledger_ok_def)
qed

lemma move_keeps: "move w w' \<Longrightarrow> ledger_ok w \<Longrightarrow> ledger_ok w'"
proof (induction rule: move.induct)
  case (nothing w w')
  then show ?case using ledger_same by blast
next
  case (speaks w s j w')
  then show ?case using ledger_says [of w s j] ledger_same by blast
next
  case (enters w ex j w')
  then have "ledger_ok (w\<lparr>w_bus := w_bus w @ [(ExecuteSubject (te_Ticker ex), j)]\<rparr>)"
    by (intro ledger_says) (auto simp: ExecuteSubject_def)
  then show ?case using ledger_same enters by blast
next
  case (leaves w ex j w' r)
  then have "ledger_ok (w\<lparr>w_bus := w_bus w @ [(ExecuteSubject (te_Ticker ex), j)]\<rparr>)"
    by (intro ledger_says) (auto simp: ExecuteSubject_def)
  then show ?case using ledger_same leaves by blast
next
  case (opens w r w' ex)
  then show ?case using ledger_opens by blast
next
  case (fills w f w' r)
  then have b: "w_positions w' = w_positions w" "w_bus w' = w_bus w" "w_trade_log w' = w_trade_log w @ [f]"
    "w_position_seq w \<le> w_position_seq w'"
    by (simp_all add: same_books_def)
  have "tr_position_id f = pr_id r" using fills(4) by (simp add: fills_row_def)
  then have "fills_ok w'" using fills b by (auto simp: ledger_ok_def fills_ok_def)
  then show ?case using fills b by (auto simp: ledger_ok_def orders_ok_def entries_ok_def exits_ok_def)
next
  case (closes r v ex p y w j w')
  let ?w = "w\<lparr>w_bus := w_bus w @ [(ExecuteSubject (te_Ticker ex), j)]\<rparr>"
  have "ledger_ok ?w" using closes by (intro ledger_says) (auto simp: ExecuteSubject_def)
  moreover have "posted (w_bus ?w) ex" using closes(3) by (auto simp: posted_def)
  ultimately show ?case using ledger_closes [of ?w r ex w' v p y] closes by simp
qed

lemma moves_keep: "move\<^sup>*\<^sup>* w w' \<Longrightarrow> ledger_ok w \<Longrightarrow> ledger_ok w'"
  by (induction rule: rtranclp_induct) (auto dest: move_keeps)

section \<open>History\<close>

lemma extends_trans:
  assumes "extends_to u v" "extends_to v w" shows "extends_to u w"
proof -
  have "\<exists>r'\<in>set (w_positions w). same_terms r r' \<and> (pr_status r \<noteq> ''OPEN'' \<longrightarrow> r' = r)" if r: "r \<in> set (w_positions u)" for r
  proof -
    obtain s where s: "s \<in> set (w_positions v)" "same_terms r s" "pr_status r \<noteq> ''OPEN'' \<longrightarrow> s = r"
      using assms(1) r unfolding extends_to_def by blast
    obtain t where "t \<in> set (w_positions w)" "same_terms s t" "pr_status s \<noteq> ''OPEN'' \<longrightarrow> t = s"
      using assms(2) s(1) unfolding extends_to_def by blast
    then show ?thesis using s by (intro bexI [of _ t]) (auto intro: same_terms_trans)
  qed
  then show ?thesis using assms by (auto simp: extends_to_def)
qed

lemma move_extends: "move w w' \<Longrightarrow> extends_to w w' \<and> set (w_bus w) \<subseteq> set (w_bus w')"
proof (induction rule: move.induct)
  case (opens w r w' ex)
  then have "w_positions w' = w_positions w @ [r]" by (simp add: same_books_def)
  then have "\<forall>x \<in> set (w_positions w). \<exists>x' \<in> set (w_positions w'). same_terms x x' \<and> (pr_status x \<noteq> ''OPEN'' \<longrightarrow> x' = x)"
    by (metis UnI1 same_terms_refl set_append)
  then show ?case using opens by (simp add: same_books_def extends_to_def)
next
  case (closes r v ex p y w j w')
  define f where "f = (\<lambda>x. if pr_id x = pr_id r \<and> pr_status x = ''OPEN'' then close_row v (te_Price ex) p y x else x)"
  have "same_terms x (f x) \<and> (pr_status x \<noteq> ''OPEN'' \<longrightarrow> f x = x)" for x by (simp add: same_terms_close f_def)
  moreover have "w_positions w' = map f (w_positions w)" "w_trade_log w' = w_trade_log w"
    "w_bus w' = w_bus w @ [(ExecuteSubject (te_Ticker ex), j)]"
    using closes(1) by (simp_all add: same_books_def f_def)
  ultimately show ?case by (auto simp: extends_to_def)
qed (auto simp: same_books_def extends_to_def intro: same_terms_refl)

lemma moves_extend: "move\<^sup>*\<^sup>* w w' \<Longrightarrow> extends_to w w' \<and> set (w_bus w) \<subseteq> set (w_bus w')"
proof (induction rule: rtranclp_induct)
  case base
  then show ?case by (simp add: extends_same)
next
  case (step v w')
  then show ?case using move_extends [of v w'] extends_trans by blast
qed

text \<open>What has been closed since \<open>w\<close> was ordered since \<open>w\<close>: the messages published after it hold the order.\<close>

definition ordered_in :: "message list \<Rightarrow> position_row \<Rightarrow> bool" where
  "ordered_in new r \<longleftrightarrow> (\<exists>ex j. marshal_execution ex = Inr j \<and> (ExecuteSubject (te_Ticker ex), j) \<in> set new \<and>
     closes_row r ex \<and> pr_exit_price r = Some (te_Price ex))"

lemma ordered_in_more: "ordered_in new r \<Longrightarrow> set new \<subseteq> set new' \<Longrightarrow> ordered_in new' r"
  unfolding ordered_in_def by blast

lemma move_closes:
  assumes "move w w'" "db_ok w" "r \<in> set (w_positions w')" "pr_status r \<noteq> ''OPEN''" "r \<notin> set (w_positions w)"
  shows "ordered_in (drop (length (w_bus w)) (w_bus w')) r"
  using assms
proof (induction rule: move.induct)
  case (closes r0 v ex p y w j w')
  define f where "f = (\<lambda>x. if pr_id x = pr_id r0 \<and> pr_status x = ''OPEN'' then close_row v (te_Price ex) p y x else x)"
  have b: "w_positions w' = map f (w_positions w)" "w_bus w' = w_bus w @ [(ExecuteSubject (te_Ticker ex), j)]"
    using closes(1) by (simp_all add: same_books_def f_def)
  then obtain x where x: "x \<in> set (w_positions w)" "r = f x" using closes by auto
  then have o: "pr_id x = pr_id r0" "pr_status x = ''OPEN''" using closes unfolding f_def by (metis (full_types))+
  have "inj_on pr_id (set (w_positions w))" using closes by (simp add: db_ok_def distinct_map)
  then have "x = r0" using x(1) closes(4) o(1) by (auto dest: inj_onD)
  then have "r = close_row v (te_Price ex) p y r0" using x(2) o by (simp add: f_def)
  then have "closes_row r ex" "pr_exit_price r = Some (te_Price ex)"
    using closes(5) closes_row_terms [OF same_terms_close] by auto
  then show ?case using closes(3) b(2) unfolding ordered_in_def by auto
qed (auto simp: same_books_def)

lemma move_bus: "move w w' \<Longrightarrow> \<exists>b. w_bus w' = w_bus w @ b"
  by (induction rule: move.induct) (auto simp: same_books_def)

lemma moves_bus: "move\<^sup>*\<^sup>* w w' \<Longrightarrow> \<exists>b. w_bus w' = w_bus w @ b"
proof (induction rule: rtranclp_induct)
  case (step v w')
  then show ?case using move_bus by fastforce
qed simp

lemma moves_close:
  "move\<^sup>*\<^sup>* w w' \<Longrightarrow> db_ok w \<Longrightarrow> r \<in> set (w_positions w') \<Longrightarrow> pr_status r \<noteq> ''OPEN'' \<Longrightarrow> r \<notin> set (w_positions w) \<Longrightarrow>
     ordered_in (drop (length (w_bus w)) (w_bus w')) r"
proof (induction rule: rtranclp_induct)
  case (step v w')
  obtain b c where b: "w_bus v = w_bus w @ b" "w_bus w' = w_bus v @ c" using moves_bus [OF step(1)] move_bus [OF step(2)] by blast
  show ?case
  proof (cases "r \<in> set (w_positions v)")
    case True
    then have "ordered_in (drop (length (w_bus w)) (w_bus v)) r" using step by blast
    then show ?thesis by (rule ordered_in_more) (simp add: b)
  next
    case False
    have "ordered_in (drop (length (w_bus v)) (w_bus w')) r"
      by (rule move_closes [OF step(2) moves_ok [OF step(1) step.prems(1)] step.prems(2,3) False])
    then show ?thesis by (rule ordered_in_more) (auto simp: b)
  qed
qed simp

section \<open>The position of a built order\<close>

lemma risk_reference_opens:
  assumes "buildExecution c g i = Inr ex" "validate_intent i = None"
    and "ti_SignalReason i \<notin> {ReasonStopLoss, ReasonTakeProfit, ReasonSquareOff}"
  shows "\<not> isClosing ex"
  using built_valid [OF assms(1,2)] assms(3) by (simp add: isClosing_def HasPrefix_def)

lemma reference_fits:
  assumes "length ticker \<le> 10" "0 \<le> c" "c < 2 ^ 63"
  shows "length (''risk-'' @ ticker @ ''-'' @ string_of_int c) \<le> 64"
proof -
  have "nat c < 10 ^ 19" using assms(2,3) by (simp add: nat_less_iff)
  then have "length (string_of_int c) \<le> 19" using assms(2) length_digits_of_nat [of "nat c" 19] by (simp add: string_of_int_def)
  then show ?thesis using assms(1) by simp
qed

lemma built_position_fits:
  assumes b: "buildExecution c g i = Inr ex" "validate_intent i = None" "ti_CurrentPrice i = Fin x" "moderate x"
    and "ti_Side i = SideLong" "length (ti_Ticker i) \<le> 10" "length (sectorOf g (ti_Ticker i)) \<le> 20"
    and "length (te_ExecutionRef ex) \<le> 64" "te_ExecutionRef ex \<notin> pr_execution_ref ` set (w_positions w)"
    and "0 < te_Quantity ex" "te_Quantity ex < 2 ^ 31"
  shows "validate_position (posFromExec ex) = None \<and> position_row_error w (posFromExec ex) = None \<and>
    pos_StopLoss (posFromExec ex) = te_StopLoss ex \<and> pos_TakeProfit (posFromExec ex) = te_TakeProfit ex"
proof -
  have t: "te_Ticker ex = ti_Ticker i" "te_Side ex = SideLong" "te_Price ex = Fin x" "0 < te_StopLoss ex" "0 < te_TakeProfit ex"
    using terms_ordered [OF _ _ b(3,1)] moderate_wide [OF b(4)] assms(3,5) by (auto simp: sound_terms_def)
  have v: "ti_Ticker i \<noteq> ''''" "0 < x" using b(2,3) by (auto simp: validate_intent_ok)
  have z: "\<not> feq (te_StopLoss ex) 0" "\<not> feq (te_TakeProfit ex) 0" using t(4,5) by auto
  have n: "\<not> te_StopLoss ex \<le> 0" "\<not> te_TakeProfit ex \<le> 0" using t(4,5) f64_less_not_sym by blast+
  show ?thesis using built_valid [OF b(1,2)] assms(6-11) t(1-3) v z n
    by (auto simp: validate_position_def position_row_error_def posFromExec_def Let_def SideLong_def SideShort_def PositionOpen_def
      in_int32_def)
qed

lemma terms_kept:
  "sound_terms i ex \<Longrightarrow> pos_StopLoss (posFromExec ex) = te_StopLoss ex \<and> pos_TakeProfit (posFromExec ex) = te_TakeProfit ex"
  by (auto simp: sound_terms_def posFromExec_def Let_def)

text \<open>A valid order is filled: what the trader does with a message of the Risk Manager when no call fails.\<close>

lemma built_filled:
  assumes b: "buildExecution c g i = Inr ex" "validate_intent i = None" "ti_CurrentPrice i = Fin x" "moderate x"
    and "ti_Side i = SideLong" "ti_SignalReason i \<notin> {ReasonStopLoss, ReasonTakeProfit, ReasonSquareOff}" "length (ti_Ticker i) \<le> 10"
    and "rm_sectors g = Some (resolveSectorMap u)" "0 \<le> c" "c < 2 ^ 63" "0 < te_Quantity ex" "te_Quantity ex < 2 ^ 31"
    and "w_db_faults w = []" "te_ExecutionRef ex \<notin> pr_execution_ref ` set (w_positions w)" "unmarshal_execution (Some j) = Inr ex"
  shows "\<exists>w1. handleExecution PaperTrader_Execute c3 (Some j) w = (Ack, w1) \<and>
    w_positions w1 = w_positions w @ [new_position_row (posFromExec ex) w] \<and>
    w_trade_log w1 = w_trade_log w @ [new_trade_row (ex\<lparr>te_PositionID := w_position_seq w\<rparr>) w] \<and> w_db_faults w1 = []"
proof -
  note bv = built_valid [OF b(1,2)]
  have fit: "validate_position (posFromExec ex) = None" "position_row_error w (posFromExec ex) = None"
    using built_position_fits [OF b assms(5,7) _ _ assms(14,11,12)] bv assms(8) resolved_sector_fits [of u "ti_Ticker i"]
      reference_fits [OF assms(7,9,10)] by (simp_all add: sectorOf_def resolveSectorMap_def)
  from opening_run [OF assms(13) risk_reference_opens [OF b(1,2) assms(6)] assms(14) fit, of c3]
  obtain r w1 where "PaperTrader_Execute c3 ex w = (Inr r, w1)" "w_positions w1 = w_positions w @ [new_position_row (posFromExec ex) w]"
    "w_trade_log w1 = w_trade_log w @ [new_trade_row (ex\<lparr>te_PositionID := w_position_seq w\<rparr>) w]" "w_db_faults w1 = []" by blast
  moreover from this(1) have "handleExecution PaperTrader_Execute c3 (Some j) w = (Ack, w1)"
    using assms(15) bv by (simp add: handleExecution_def)
  ultimately show ?thesis by blast
qed

end
