(* ===== verification/ExitMonitor.thy ===== *)
theory ExitMonitor
  imports Ports Database
begin

text \<open>
  The exit monitor of \<open>src/analysts/trader/exitmonitor.go\<close>: the cache of open positions, the test of a
  price against their boundaries, and the closing of positions with its in-flight marks. What a close
  does to the book is proved for any position store; the sign of the profit it records and its faults
  are shown on the database.
\<close>

section \<open>The monitor\<close>

definition ExitRefreshInterval :: Duration where "ExitRefreshInterval = 30 * Second"

record ExitMonitor =
  em_now :: "Time option"
  em_cache :: "string \<rightharpoonup> Position list"
  em_inFlight :: "int set"

definition NewExitMonitor :: ExitMonitor where
  "NewExitMonitor = \<lparr>em_now = None, em_cache = Map.empty, em_inFlight = {}\<rparr>"

definition SetClock :: "Time \<Rightarrow> ExitMonitor \<Rightarrow> ExitMonitor" where
  "SetClock t em = em\<lparr>em_now := Some t\<rparr>"

definition em_currentTime :: "ExitMonitor \<Rightarrow> Time \<Rightarrow> Time" where
  "em_currentTime em clock = (case em_now em of Some t \<Rightarrow> t | None \<Rightarrow> clock)"

definition cached :: "ExitMonitor \<Rightarrow> string \<Rightarrow> Position list" where
  "cached em ticker = (case em_cache em ticker of Some ps \<Rightarrow> ps | None \<Rightarrow> [])"

text \<open>The map built by \<open>Refresh\<close>: each position is appended to its ticker's slice.\<close>

definition add_to_cache :: "Position \<Rightarrow> (string \<rightharpoonup> Position list) \<Rightarrow> (string \<rightharpoonup> Position list)" where
  "add_to_cache pos m =
     m(pos_Ticker pos \<mapsto> (case m (pos_Ticker pos) of Some ps \<Rightarrow> ps | None \<Rightarrow> []) @ [pos])"

definition Refresh :: "'w Ports \<Rightarrow> ExitMonitor \<Rightarrow> 'w \<Rightarrow> error option \<times> ExitMonitor \<times> 'w" where
  "Refresh ports em w =
     (case po_ListOpen ports w of
        (Inl e, w1) \<Rightarrow> (Some (Wrapf ''exit refresh'' e), em, w1)
      | (Inr opened, w1) \<Rightarrow> (None, em\<lparr>em_cache := fold add_to_cache opened Map.empty\<rparr>, w1))"

definition tickerOf :: "string \<Rightarrow> string" where
  "tickerOf subj =
     (if length subj \<le> length SubjectPricePrefix then '''' else drop (length SubjectPricePrefix) subj)"

text \<open>\<open>crossed\<close> returns the reason with the flag \<open>hit\<close>.\<close>

definition crossed :: "Position \<Rightarrow> float64 \<Rightarrow> ExitReason \<times> bool" where
  "crossed pos price =
     (if pos_Side pos = SideLong then
        (if 0 < pos_StopLoss pos \<and> price \<le> pos_StopLoss pos then (ReasonStopLoss, True)
         else if 0 < pos_TakeProfit pos \<and> pos_TakeProfit pos \<le> price then (ReasonTakeProfit, True)
         else ('''', False))
      else if pos_Side pos = SideShort then
        (if 0 < pos_StopLoss pos \<and> pos_StopLoss pos \<le> price then (ReasonStopLoss, True)
         else if 0 < pos_TakeProfit pos \<and> price \<le> pos_TakeProfit pos then (ReasonTakeProfit, True)
         else ('''', False))
      else ('''', False))"

definition em_release :: "int \<Rightarrow> ExitMonitor \<Rightarrow> ExitMonitor" where
  "em_release i em = em\<lparr>em_inFlight := em_inFlight em - {i}\<rparr>"

text \<open>The slice is filtered in place; nobody else holds it, as \<open>evaluate\<close> copies its targets.\<close>

definition dropFromCache :: "int \<Rightarrow> string \<Rightarrow> ExitMonitor \<Rightarrow> ExitMonitor" where
  "dropFromCache i ticker em =
     em\<lparr>em_cache := (em_cache em)(ticker \<mapsto> filter (\<lambda>p. pos_ID p \<noteq> i) (cached em ticker)),
        em_inFlight := em_inFlight em - {i}\<rparr>"

definition exit_order :: "Position \<Rightarrow> ExitReason \<Rightarrow> float64 \<Rightarrow> Time \<Rightarrow> TradeExecution" where
  "exit_order pos reason price clock =
     \<lparr>te_Ticker = pos_Ticker pos, te_Side = (if pos_Side pos = SideLong then SideShort else SideLong),
      te_Quantity = pos_Quantity pos, te_Price = price, te_StopLoss = 0, te_TakeProfit = 0,
      te_Sector = pos_Sector pos, te_SignalReason = reason,
      te_ExecutionRef = ''exit-'' @ string_of_int (pos_ID pos) @ ''-'' @ string_of_int clock,
      te_PositionID = pos_ID pos\<rparr>"

definition em_close :: "'w Ports \<Rightarrow> Time \<Rightarrow> Position \<Rightarrow> ExitReason \<Rightarrow> float64 \<Rightarrow> ExitMonitor \<Rightarrow> 'w \<Rightarrow> ExitMonitor \<times> 'w" where
  "em_close ports clock pos reason price em w =
     (case marshal_execution (exit_order pos reason price clock) of
        Inl _ \<Rightarrow> (em_release (pos_ID pos) em, w)
      | Inr data \<Rightarrow>
          (case po_Publish ports (ExecuteSubject (pos_Ticker pos)) data w of
             (Some _, w1) \<Rightarrow> (em_release (pos_ID pos) em, w1)
           | (None, w1) \<Rightarrow>
               (case po_MarkClosed ports (pos_ID pos) price reason w1 of
                  (Some _, w2) \<Rightarrow> (dropFromCache (pos_ID pos) (pos_Ticker pos) em, w2)
                | (None, w2) \<Rightarrow> (dropFromCache (pos_ID pos) (pos_Ticker pos) em, w2))))"

text \<open>The loop under the lock: the targets with their reasons, and the marks.\<close>

fun select_targets :: "Position list \<Rightarrow> float64 \<Rightarrow> ExitMonitor \<Rightarrow> (Position \<times> ExitReason) list \<times> ExitMonitor" where
  "select_targets [] price em = ([], em)"
| "select_targets (pos # rest) price em =
     (if pos_ID pos \<in> em_inFlight em then select_targets rest price em
      else case crossed pos price of (reason, hit) \<Rightarrow>
        if hit then
          (case select_targets rest price (em\<lparr>em_inFlight := insert (pos_ID pos) (em_inFlight em)\<rparr>) of
             (targets, em1) \<Rightarrow> ((pos, reason) # targets, em1))
        else select_targets rest price em)"

text \<open>The clock of a close depends on the position: each reads the time anew.\<close>

fun close_targets :: "'w Ports \<Rightarrow> (int \<Rightarrow> Time) \<Rightarrow> (Position \<times> ExitReason) list \<Rightarrow> float64 \<Rightarrow> ExitMonitor \<Rightarrow> 'w \<Rightarrow> ExitMonitor \<times> 'w" where
  "close_targets ports clk [] price em w = (em, w)"
| "close_targets ports clk ((pos, reason) # rest) price em w =
     (case em_close ports (clk (pos_ID pos)) pos reason price em w of
        (em1, w1) \<Rightarrow> close_targets ports clk rest price em1 w1)"

text \<open>The first two clocks are the readings of the two window guards.\<close>

definition em_evaluate ::
    "'w Ports \<Rightarrow> Time \<Rightarrow> Time \<Rightarrow> (int \<Rightarrow> Time) \<Rightarrow> string \<Rightarrow> float64 \<Rightarrow> ExitMonitor \<Rightarrow> 'w \<Rightarrow> ExitMonitor \<times> 'w" where
  "em_evaluate ports clock1 clock2 clk ticker price em w =
     (if IsOpeningBuffer (em_currentTime em clock1) then (em, w)
      else if IsClosingCutoff (em_currentTime em clock2) then (em, w)
      else case select_targets (cached em ticker) price em of
        (targets, em1) \<Rightarrow> close_targets ports clk targets price em1 w)"

definition HandlePrice ::
    "'w Ports \<Rightarrow> Time \<Rightarrow> Time \<Rightarrow> (int \<Rightarrow> Time) \<Rightarrow> string \<Rightarrow> payload \<Rightarrow> ExitMonitor \<Rightarrow> 'w \<Rightarrow> ExitMonitor \<times> 'w" where
  "HandlePrice ports clock1 clock2 clk subj data em w =
     (case unmarshal_tick data of
        Inl _ \<Rightarrow> (em, w)
      | Inr tick \<Rightarrow>
          if pt_Ticker tick = '''' \<or> pt_Price tick \<le> 0 then (em, w)
          else em_evaluate ports clock1 clock2 clk (tickerOf subj) (pt_Price tick) em w)"

section \<open>The cache and the marks\<close>

lemma fold_cache: "fold add_to_cache ps m t =
    (case m t of None \<Rightarrow> if \<exists>p \<in> set ps. pos_Ticker p = t then Some (filter (\<lambda>p. pos_Ticker p = t) ps) else None
     | Some qs \<Rightarrow> Some (qs @ filter (\<lambda>p. pos_Ticker p = t) ps))"
  by (induction ps arbitrary: m) (auto simp: add_to_cache_def split: option.splits)

lemma cached_fold: "cached (em\<lparr>em_cache := fold add_to_cache ps Map.empty\<rparr>) t = filter (\<lambda>p. pos_Ticker p = t) ps"
  by (auto simp: cached_def fold_cache filter_empty_conv)

lemma select_targets_marks:
  "select_targets ps price em = (ts, em') \<Longrightarrow>
     em' = em\<lparr>em_inFlight := em_inFlight em \<union> (pos_ID \<circ> fst) ` set ts\<rparr> \<and>
     distinct (map (pos_ID \<circ> fst) ts) \<and> (pos_ID \<circ> fst) ` set ts \<inter> em_inFlight em = {} \<and>
     (\<forall>(p, r) \<in> set ts. p \<in> set ps \<and> crossed p price = (r, True)) \<and>
     (\<forall>p \<in> set ps. snd (crossed p price) \<longrightarrow> pos_ID p \<in> em_inFlight em')"
proof (induction ps arbitrary: em em' ts)
  case (Cons p ps)
  obtain r hit where c: "crossed p price = (r, hit)" by (cases "crossed p price")
  let ?em = "em\<lparr>em_inFlight := insert (pos_ID p) (em_inFlight em)\<rparr>"
  consider "pos_ID p \<in> em_inFlight em \<or> \<not> hit" | "pos_ID p \<notin> em_inFlight em" "hit" by blast
  then show ?case
  proof cases
    case 1
    then have "select_targets ps price em = (ts, em')" using Cons.prems c by (auto split: if_splits)
    from Cons.IH [OF this] show ?thesis using 1 c by auto
  next
    case 2
    obtain us em1 where s: "select_targets ps price ?em = (us, em1)" by (cases "select_targets ps price ?em")
    with Cons.prems c 2 have e: "ts = (p, r) # us" "em' = em1" by simp_all
    from Cons.IH [OF s] show ?thesis using c 2 unfolding e by auto
  qed
qed simp

lemma em_close_frame:
  assumes "em_close ports c p r x em w = (em', w')"
  shows "em_inFlight em' = em_inFlight em - {pos_ID p} \<and> em_now em' = em_now em"
  using assms by (auto simp: em_close_def em_release_def dropFromCache_def split: sum.splits prod.splits option.splits)

lemma close_targets_marks:
  "close_targets ports clk ts x em w = (em', w') \<Longrightarrow>
     em_inFlight em' = em_inFlight em - (pos_ID \<circ> fst) ` set ts \<and> em_now em' = em_now em"
proof (induction ts arbitrary: em w)
  case (Cons t ts)
  obtain p r where t: "t = (p, r)" by (cases t)
  obtain em1 w1 where c: "em_close ports (clk (pos_ID p)) p r x em w = (em1, w1)"
    by (cases "em_close ports (clk (pos_ID p)) p r x em w")
  show ?case using Cons.IH [of em1 w1] Cons.prems em_close_frame [OF c] c t by auto
qed simp

lemma em_evaluate_marks:
  assumes "em_evaluate ports c1 c2 clk t x em w = (em', w')" shows "em_inFlight em' = em_inFlight em"
proof -
  obtain ts em1 where s: "select_targets (cached em t) x em = (ts, em1)" by (cases "select_targets (cached em t) x em")
  obtain em2 w2 where c: "close_targets ports clk ts x em1 w = (em2, w2)" by (cases "close_targets ports clk ts x em1 w")
  have "em_inFlight em2 = em_inFlight em" using select_targets_marks [OF s] close_targets_marks [OF c] by auto
  then show ?thesis using assms s c by (auto simp: em_evaluate_def split: if_splits)
qed

text \<open>No in-flight mark outlives the handling of the price that set it, whether the closes succeed or fail:
  after each price the marks are what they were before. So a position whose \<open>MarkClosed\<close> failed is not
  marked any more, although the sources say its mark is kept.\<close>

theorem HandlePrice_clears_marks:
  "em_inFlight (fst (HandlePrice ports c1 c2 clk subj data em w)) = em_inFlight em"
proof -
  have "em_inFlight (fst (em_evaluate ports c1 c2 clk t x em w)) = em_inFlight em" for t x
    by (rule em_evaluate_marks [where w' = "snd (em_evaluate ports c1 c2 clk t x em w)"]) simp
  then show ?thesis by (simp add: HandlePrice_def split: sum.split)
qed

section \<open>What a price does to the book\<close>

context position_store
begin

lemma em_close_book:
  assumes "ok w" "em_close ports c p r x em w = (em', w')"
  shows "ok w' \<and> open_ids w' \<subseteq> open_ids w \<and> open_ids w \<subseteq> insert (pos_ID p) (open_ids w')"
proof (cases "marshal_execution (exit_order p r x c)")
  case (Inl e)
  then show ?thesis using assms by (auto simp: em_close_def)
next
  case (Inr d)
  obtain q w1 where pu: "po_Publish ports (ExecuteSubject (pos_Ticker p)) d w = (q, w1)"
    by (cases "po_Publish ports (ExecuteSubject (pos_Ticker p)) d w")
  have w1: "ok w1" "open_ids w1 = open_ids w" using publish_frame [OF assms(1), of "ExecuteSubject (pos_Ticker p)" d] pu by simp_all
  obtain q2 w2 where m: "po_MarkClosed ports (pos_ID p) x r w1 = (q2, w2)" by (cases "po_MarkClosed ports (pos_ID p) x r w1")
  have "ok w2" "open_ids w2 \<subseteq> open_ids w1" "open_ids w1 - {pos_ID p} \<subseteq> open_ids w2"
    using close_ok [OF w1(1), of "pos_ID p" x r] close_subset [OF w1(1), of "pos_ID p" x r]
      close_keeps_others [OF w1(1), of "pos_ID p" x r] unfolding m by auto
  moreover have "w' = w1 \<or> w' = w2" using assms(2) Inr pu m by (cases q; cases q2) (auto simp: em_close_def)
  ultimately show ?thesis using w1 by blast
qed

lemma close_targets_book:
  "ok w \<Longrightarrow> close_targets ports clk ts x em w = (em', w') \<Longrightarrow>
     ok w' \<and> open_ids w' \<subseteq> open_ids w \<and> open_ids w \<subseteq> open_ids w' \<union> (pos_ID \<circ> fst) ` set ts"
proof (induction ts arbitrary: em w)
  case (Cons t ts)
  obtain p r where t: "t = (p, r)" by (cases t)
  obtain em1 w1 where c: "em_close ports (clk (pos_ID p)) p r x em w = (em1, w1)"
    by (cases "em_close ports (clk (pos_ID p)) p r x em w")
  have "close_targets ports clk ts x em1 w1 = (em', w')" using Cons.prems(2) c t by simp
  from Cons.IH [OF _ this] em_close_book [OF Cons.prems(1) c] t show ?case by auto
qed simp

lemma em_evaluate_book:
  assumes "ok w" "em_evaluate ports c1 c2 clk t x em w = (em', w')" "i \<in> open_ids w - open_ids w'"
  shows "\<exists>p \<in> set (cached em t). pos_ID p = i \<and> i \<notin> em_inFlight em \<and> snd (crossed p x) \<and>
     \<not> IsOpeningBuffer (em_currentTime em c1) \<and> \<not> IsClosingCutoff (em_currentTime em c2)"
proof -
  have hours: "\<not> IsOpeningBuffer (em_currentTime em c1) \<and> \<not> IsClosingCutoff (em_currentTime em c2)"
    using assms(2,3) by (auto simp: em_evaluate_def split: if_splits)
  obtain ts em1 where s: "select_targets (cached em t) x em = (ts, em1)" by (cases "select_targets (cached em t) x em")
  have "close_targets ports clk ts x em1 w = (em', w')" using assms(2) hours s by (simp add: em_evaluate_def)
  from close_targets_book [OF assms(1) this] assms(3) obtain p r where p: "(p, r) \<in> set ts" "pos_ID p = i" by force
  then show ?thesis using select_targets_marks [OF s] hours by (intro bexI [of _ p]) force+
qed

end

section \<open>Exits on the database\<close>

lemma em_close_bus:
  assumes "em_close db_ports c p r x em w = (em', w')"
  shows "\<exists>new. w_bus w' = w_bus w @ new \<and> (open_ids w' \<noteq> open_ids w \<longrightarrow>
    (\<exists>j. marshal_execution (exit_order p r x c) = Inr j \<and> (ExecuteSubject (pos_Ticker p), j) \<in> set new))"
proof (cases "marshal_execution (exit_order p r x c)")
  case (Inl e)
  then show ?thesis using assms by (auto simp: em_close_def)
next
  case (Inr d)
  obtain q w1 where pu: "publish (ExecuteSubject (pos_Ticker p)) d w = (q, w1)"
    by (cases "publish (ExecuteSubject (pos_Ticker p)) d w")
  obtain q2 w2 where m: "MarkClosed (pos_ID p) x r w1 = (q2, w2)" by (cases "MarkClosed (pos_ID p) x r w1")
  have "w_bus w2 = w_bus w1" using bus_frame(2) [of "pos_ID p" x r w1] m by simp
  moreover have "q \<noteq> None \<and> w' = w1 \<or> q = None \<and> w' = w2" using assms Inr pu m by (cases q; cases q2) (auto simp: em_close_def)
  moreover have "open_ids w1 = open_ids w" using publish_frame [of "ExecuteSubject (pos_Ticker p)" d w] pu by (simp add: open_ids_def)
  moreover have "\<exists>new. w_bus w1 = w_bus w @ new \<and> (q = None \<longrightarrow> (ExecuteSubject (pos_Ticker p), d) \<in> set new)"
    using publish_bus [OF pu] by auto
  ultimately show ?thesis using Inr by metis
qed

lemma close_targets_bus:
  "db_ok w \<Longrightarrow> close_targets db_ports clk ts x em w = (em', w') \<Longrightarrow> \<exists>new. w_bus w' = w_bus w @ new \<and>
     (\<forall>i \<in> open_ids w - open_ids w'. \<exists>(p, r) \<in> set ts. pos_ID p = i \<and>
        (\<exists>j. marshal_execution (exit_order p r x (clk i)) = Inr j \<and> (ExecuteSubject (pos_Ticker p), j) \<in> set new))"
proof (induction ts arbitrary: em w)
  case (Cons t ts)
  obtain p r where t: "t = (p, r)" by (cases t)
  obtain em1 w1 where c: "em_close db_ports (clk (pos_ID p)) p r x em w = (em1, w1)"
    by (cases "em_close db_ports (clk (pos_ID p)) p r x em w")
  have ct: "close_targets db_ports clk ts x em1 w1 = (em', w')" using Cons.prems(2) c t by simp
  note b = db.em_close_book [OF Cons.prems(1) c]
  obtain new where ih: "w_bus w' = w_bus w1 @ new"
     "\<forall>i \<in> open_ids w1 - open_ids w'. \<exists>(p, r) \<in> set ts. pos_ID p = i \<and>
        (\<exists>j. marshal_execution (exit_order p r x (clk i)) = Inr j \<and> (ExecuteSubject (pos_Ticker p), j) \<in> set new)"
    using Cons.IH [OF _ ct] b by blast
  obtain old where cb: "w_bus w1 = w_bus w @ old"
     "open_ids w1 \<noteq> open_ids w \<longrightarrow> (\<exists>j. marshal_execution (exit_order p r x (clk (pos_ID p))) = Inr j \<and>
        (ExecuteSubject (pos_Ticker p), j) \<in> set old)"
    using em_close_bus [OF c] by blast
  have "\<exists>(p, r) \<in> set (t # ts). pos_ID p = i \<and>
      (\<exists>j. marshal_execution (exit_order p r x (clk i)) = Inr j \<and> (ExecuteSubject (pos_Ticker p), j) \<in> set (old @ new))"
    if i: "i \<in> open_ids w - open_ids w'" for i
  proof (cases "i \<in> open_ids w1")
    case True
    then obtain p' r' where "(p', r') \<in> set ts" "pos_ID p' = i"
        "\<exists>j. marshal_execution (exit_order p' r' x (clk i)) = Inr j \<and> (ExecuteSubject (pos_Ticker p'), j) \<in> set new"
      using i ih(2) by fast
    then show ?thesis by (intro bexI [of _ "(p', r')"]) auto
  next
    case False
    then have "pos_ID p = i" "open_ids w1 \<noteq> open_ids w" using i b by auto
    then show ?thesis using cb by (auto simp: t)
  qed
  then show ?case using cb(1) ih(1) by (intro exI [of _ "old @ new"] conjI ballI) simp_all
qed simp

lemma em_evaluate_bus:
  assumes "db_ok w" "em_evaluate db_ports c1 c2 clk t x em w = (em', w')" "i \<in> open_ids w - open_ids w'"
  shows "\<exists>p r j. p \<in> set (cached em t) \<and> pos_ID p = i \<and> i \<notin> em_inFlight em \<and> crossed p x = (r, True) \<and>
     marshal_execution (exit_order p r x (clk i)) = Inr j \<and>
     (ExecuteSubject (pos_Ticker p), j) \<in> set (drop (length (w_bus w)) (w_bus w'))"
proof -
  have hours: "\<not> IsOpeningBuffer (em_currentTime em c1) \<and> \<not> IsClosingCutoff (em_currentTime em c2)"
    using assms(2,3) by (auto simp: em_evaluate_def split: if_splits)
  obtain ts em1 where s: "select_targets (cached em t) x em = (ts, em1)" by (cases "select_targets (cached em t) x em")
  have "close_targets db_ports clk ts x em1 w = (em', w')" using assms(2) hours s by (simp add: em_evaluate_def)
  from close_targets_bus [OF assms(1) this] obtain new where "w_bus w' = w_bus w @ new"
      "\<forall>i \<in> open_ids w - open_ids w'. \<exists>(p, r) \<in> set ts. pos_ID p = i \<and>
        (\<exists>j. marshal_execution (exit_order p r x (clk i)) = Inr j \<and> (ExecuteSubject (pos_Ticker p), j) \<in> set new)" by blast
  then obtain p r j where "(p, r) \<in> set ts" "pos_ID p = i" "marshal_execution (exit_order p r x (clk i)) = Inr j"
      "(ExecuteSubject (pos_Ticker p), j) \<in> set (drop (length (w_bus w)) (w_bus w'))"
    using assms(3) by fastforce
  then show ?thesis using select_targets_marks [OF s]
    by (intro exI [of _ p] exI [of _ r] exI [of _ j]) force
qed

text \<open>C18: An exit has its reason. A price closes a position in the database only outside the opening buffer and
  before the closing cutoff (the two guards the code has: a price at night or on a weekend passes them), only if
  the monitor has it cached under the ticker of the subject, unmarked, and the price has crossed its stop or its
  target; and then this very price has published the closing order, on the opposite side, for the full quantity
  and with that reason. No position is ever opened, whatever call fails.\<close>

theorem exits_only_crossed:
  assumes "db_ok w" "HandlePrice db_ports c1 c2 clk subj data em w = (em', w')"
  shows "open_ids w' \<subseteq> open_ids w \<and> (\<forall>i \<in> open_ids w - open_ids w'.
    \<not> IsOpeningBuffer (em_currentTime em c1) \<and> \<not> IsClosingCutoff (em_currentTime em c2) \<and>
    (\<exists>tick p r j. unmarshal_tick data = Inr tick \<and> p \<in> set (cached em (tickerOf subj)) \<and> pos_ID p = i \<and>
       i \<notin> em_inFlight em \<and> crossed p (pt_Price tick) = (r, True) \<and>
       marshal_execution (exit_order p r (pt_Price tick) (clk i)) = Inr j \<and>
       (ExecuteSubject (pos_Ticker p), j) \<in> set (drop (length (w_bus w)) (w_bus w'))))"
proof (cases "unmarshal_tick data")
  case (Inl e)
  then show ?thesis using assms(2) by (simp add: HandlePrice_def)
next
  case (Inr tick)
  show ?thesis
  proof (cases "pt_Ticker tick = '''' \<or> pt_Price tick \<le> 0")
    case True
    then show ?thesis using assms(2) Inr by (auto simp: HandlePrice_def)
  next
    case False
    then have e: "em_evaluate db_ports c1 c2 clk (tickerOf subj) (pt_Price tick) em w = (em', w')"
      using assms(2) Inr by (simp add: HandlePrice_def)
    have "open_ids w' \<subseteq> open_ids w"
    proof -
      obtain ts em1 where s: "select_targets (cached em (tickerOf subj)) (pt_Price tick) em = (ts, em1)"
        by (cases "select_targets (cached em (tickerOf subj)) (pt_Price tick) em")
      then have "w' = w \<or> close_targets db_ports clk ts (pt_Price tick) em1 w = (em', w')"
        using e by (auto simp: em_evaluate_def split: if_splits)
      then show ?thesis using db.close_targets_book [OF assms(1)] by blast
    qed
    moreover have "\<not> IsOpeningBuffer (em_currentTime em c1) \<and> \<not> IsClosingCutoff (em_currentTime em c2)"
      if "i \<in> open_ids w - open_ids w'" for i
      using db.em_evaluate_book [OF assms(1) e that] by blast
    ultimately show ?thesis using em_evaluate_bus [OF assms(1) e] Inr by blast
  qed
qed

section \<open>The profit of an exit\<close>

lemma pg_sub_Fin: "pg_sub (Fin a) (Fin b) = Some d \<Longrightarrow> \<exists>r. d = Fin r \<and> rnd (a - b) = Fin r"
  by (cases "rnd (a - b)") (auto simp: pg_sub_def f64_minus_Fin Let_def split: if_splits)

lemma pg_mul_Fin: "pg_mul (Fin a) (Fin b) = Some d \<Longrightarrow> \<exists>r. d = Fin r \<and> rnd (a * b) = Fin r"
  by (cases "rnd (a * b)") (auto simp: pg_mul_def Let_def split: if_splits)

lemma rnd_sign: "rnd a = Fin r \<Longrightarrow> (0 \<le> a \<longrightarrow> 0 \<le> r) \<and> (a \<le> 0 \<longrightarrow> r \<le> 0)"
  using rnd_mono [of 0 a] rnd_mono [of a 0] by auto

text \<open>The sign of the stored profit is that of the price difference, seen from the side of the position.\<close>

lemma pnl_sign:
  assumes "pnl_of row (Fin x) = Some p" "pr_entry_price row = Fin y" "0 \<le> pr_quantity row" "in_int32 (pr_quantity row)"
  shows "\<exists>r. p = Fin r \<and> (if pr_side row = ''LONG'' then (x \<le> y \<longrightarrow> r \<le> 0) \<and> (y \<le> x \<longrightarrow> 0 \<le> r)
     else (x \<le> y \<longrightarrow> 0 \<le> r) \<and> (y \<le> x \<longrightarrow> r \<le> 0))"
proof -
  define q :: rat where "q = of_int (pr_quantity row)"
  have "f64_of_int (pr_quantity row) = Fin q"
    using assms(3,4) by (simp add: q_def f64_of_int_exact in_int32_def)
  then obtain d g where d: "pg_sub (Fin x) (Fin y) = Some d" and g: "pg_mul d (Fin q) = Some g"
      and p: "pg_mul g (if pr_side row = ''LONG'' then 1 else - 1) = Some p"
    using assms(1,2) by (auto simp: pnl_of_def bind_eq_Some_conv)
  obtain a where a: "d = Fin a" "rnd (x - y) = Fin a" using pg_sub_Fin [OF d] by blast
  obtain b where b: "g = Fin b" "rnd (a * q) = Fin b" using pg_mul_Fin [OF g [unfolded a(1)]] by blast
  define s :: rat where "s = (if pr_side row = ''LONG'' then 1 else - 1)"
  have "(if pr_side row = ''LONG'' then 1 else - 1 :: float64) = Fin s" by (simp add: s_def one_float64_def)
  then obtain r where r: "p = Fin r" "rnd (b * s) = Fin r" using p b(1) pg_mul_Fin [of b s] by auto
  have q0: "0 \<le> q" using assms(3) by (simp add: q_def)
  have up: "0 \<le> b" if "y \<le> x"
  proof -
    have "0 \<le> a" using rnd_sign [OF a(2)] that by simp
    then show ?thesis using rnd_sign [OF b(2)] q0 by simp
  qed
  have down: "b \<le> 0" if "x \<le> y"
  proof -
    have "a \<le> 0" using rnd_sign [OF a(2)] that by simp
    then show ?thesis using rnd_sign [OF b(2)] q0 by (simp add: mult_nonpos_nonneg)
  qed
  show ?thesis using r(1) rnd_sign [OF r(2)] up down by (auto simp: s_def)
qed

text \<open>A stop-loss exit never books a profit, and a take-profit exit never a loss: for a position whose
  stop, entry and target are in the order the Risk Manager gives them, the profit that the database computes
  for the price that crossed has the sign of the reason, in spite of the roundings.\<close>

theorem exit_profit_sign:
  assumes "crossed (scan_open row) (Fin x) = (reason, True)" "pnl_of row (Fin x) = Some p"
    and "pr_entry_price row = Fin y" "0 \<le> pr_quantity row" "in_int32 (pr_quantity row)"
    and "if pr_side row = SideShort then pr_take_profit row \<le> Fin y \<and> Fin y \<le> pr_stop_loss row
         else pr_stop_loss row \<le> Fin y \<and> Fin y \<le> pr_take_profit row"
  shows "(reason = ReasonStopLoss \<longrightarrow> p \<le> 0) \<and> (reason = ReasonTakeProfit \<longrightarrow> 0 \<le> p)"
proof -
  obtain r where r: "p = Fin r" "if pr_side row = ''LONG'' then (x \<le> y \<longrightarrow> r \<le> 0) \<and> (y \<le> x \<longrightarrow> 0 \<le> r)
     else (x \<le> y \<longrightarrow> 0 \<le> r) \<and> (y \<le> x \<longrightarrow> r \<le> 0)"
    using pnl_sign [OF assms(2-5)] by blast
  have sides: "pr_side row = ''LONG'' \<or> pr_side row = SideShort"
    using assms(1) by (auto simp: crossed_def scan_open_def SideLong_def split: if_splits)
  have "(reason = ReasonStopLoss \<and> (if pr_side row = SideShort then y \<le> x else x \<le> y)) \<or>
    (reason = ReasonTakeProfit \<and> (if pr_side row = SideShort then x \<le> y else y \<le> x))"
    using assms(1,6) f64_le_trans [of "Fin x" _ "Fin y"] f64_le_trans [of "Fin y" _ "Fin x"]
    by (auto simp: crossed_def scan_open_def split: if_splits)
  then show ?thesis using r sides by (auto simp: SideShort_def split: if_splits)
qed

lemma exit_profit_sign_witness:
  "\<exists>p. pnl_of open_row (Fin 95) = Some p \<and> p \<le> 0"
proof -
  have p: "pnl_of open_row (Fin 95) = Some (Fin (- 50))"
    by (simp add: pnl_of_def pg_sub_def pg_mul_def open_row_def f64_minus_Fin one_float64_def zero_float64_def)
  have "crossed (scan_open open_row) (Fin 95) = (ReasonStopLoss, True)"
    by (simp add: crossed_def scan_open_def open_row_def SideLong_def)
  from exit_profit_sign [OF this p, of 100] p show ?thesis by (simp add: open_row_def in_int32_def SideShort_def)
qed

section \<open>Exits happen\<close>

lemma marshal_exit: "is_fin x \<Longrightarrow> \<exists>j. marshal_execution (exit_order p r x c) = Inr j"
  by (cases x) (simp_all add: marshal_execution_def execution_fields_def exit_order_def field_defs marshal_def)

lemma crossed_reason: "crossed p x = (r, True) \<Longrightarrow> r \<in> {ReasonStopLoss, ReasonTakeProfit, ReasonSquareOff}"
  by (auto simp: crossed_def split: if_splits)

text \<open>A position of the cache that the database can close at this price.\<close>

definition exitable :: "float64 \<Rightarrow> World \<Rightarrow> Position \<Rightarrow> bool" where
  "exitable x w p \<longleftrightarrow> (\<exists>row \<in> set (w_positions w). p = scan_open row \<and> pr_status row = ''OPEN'' \<and> pnl_of row x \<noteq> None)"

lemma em_close_quiet:
  assumes "db_ok w" "quiet w" "is_fin x" "exitable x w p" "r \<in> {ReasonStopLoss, ReasonTakeProfit, ReasonSquareOff}"
  shows "\<exists>j w'. marshal_execution (exit_order p r x c) = Inr j \<and>
    em_close db_ports c p r x em w = (dropFromCache (pos_ID p) (pos_Ticker p) em, w') \<and> db_ok w' \<and> quiet w' \<and>
    pos_ID p \<notin> open_ids w' \<and> (\<forall>q. exitable x w q \<and> pos_ID q \<noteq> pos_ID p \<longrightarrow> exitable x w' q)"
proof -
  obtain row pl where row: "row \<in> set (w_positions w)" "p = scan_open row" "pr_status row = ''OPEN''" "pnl_of row x = Some pl"
    using assms(4) by (auto simp: exitable_def)
  have id: "pos_ID p = pr_id row" using row(2) by (simp add: scan_open_def)
  obtain j where j: "marshal_execution (exit_order p r x c) = Inr j" using marshal_exit [OF assms(3)] by blast
  define w1 where "w1 = w\<lparr>w_bus := w_bus w @ [(ExecuteSubject (pos_Ticker p), j)]\<rparr>"
  have pu: "publish (ExecuteSubject (pos_Ticker p)) j w = (None, w1)" using publish_quiet [OF assms(2)] by (simp add: w1_def)
  have w1: "db_ok w1" "quiet w1" "w_positions w1 = w_positions w" using assms(1,2) by (simp_all add: w1_def quiet_def)
  define w2 where "w2 = w1\<lparr>w_positions := map (\<lambda>y. if pr_id y = pr_id row \<and> pr_status y = ''OPEN''
    then close_row w1 x pl r y else y) (w_positions w1)\<rparr>"
  have m: "MarkClosed (pos_ID p) x r w1 = (None, w2)"
    using MarkClosed_quiet [OF w1(1,2), of row x pl r] row assms(5) w1(3) id by (simp add: w2_def)
  have "db_ok w2" using operations_ok(3) [OF w1(1), of "pos_ID p" x r] m by simp
  moreover have "quiet w2" using w1(2) by (simp add: w2_def quiet_def)
  moreover have "pos_ID p \<notin> open_ids w2" using MarkClosed_outcome [OF w1(1) m] by blast
  moreover have "exitable x w2 q" if q: "exitable x w q" "pos_ID q \<noteq> pos_ID p" for q
  proof -
    obtain r2 where r2: "r2 \<in> set (w_positions w)" "q = scan_open r2" "pr_status r2 = ''OPEN''" "pnl_of r2 x \<noteq> None"
      using q(1) by (auto simp: exitable_def)
    then have "pr_id r2 \<noteq> pr_id row" using q(2) id by (simp add: scan_open_def)
    then have "r2 \<in> set (w_positions w2)" using r2(1) w1(3) by (force simp: w2_def)
    then show ?thesis using r2 unfolding exitable_def by blast
  qed
  ultimately show ?thesis using j pu m by (intro exI [of _ j] exI [of _ w2]) (simp add: em_close_def)
qed

lemma close_targets_quiet:
  "db_ok w \<Longrightarrow> quiet w \<Longrightarrow> is_fin x \<Longrightarrow> distinct (map (pos_ID \<circ> fst) ts) \<Longrightarrow>
     \<forall>(p, r) \<in> set ts. exitable x w p \<and> r \<in> {ReasonStopLoss, ReasonTakeProfit, ReasonSquareOff} \<Longrightarrow>
     close_targets db_ports clk ts x em w = (em', w') \<Longrightarrow> (pos_ID \<circ> fst) ` set ts \<inter> open_ids w' = {}"
proof (induction ts arbitrary: em w)
  case (Cons t ts)
  obtain p r where t: "t = (p, r)" by (cases t)
  have pr: "exitable x w p" "r \<in> {ReasonStopLoss, ReasonTakeProfit, ReasonSquareOff}" using Cons.prems(5) t by auto
  obtain w1 where c: "em_close db_ports (clk (pos_ID p)) p r x em w = (dropFromCache (pos_ID p) (pos_Ticker p) em, w1)"
      "db_ok w1" "quiet w1" "pos_ID p \<notin> open_ids w1" "\<forall>q. exitable x w q \<and> pos_ID q \<noteq> pos_ID p \<longrightarrow> exitable x w1 q"
    using em_close_quiet [OF Cons.prems(1-3) pr, of "clk (pos_ID p)" em] by blast
  have ct: "close_targets db_ports clk ts x (dropFromCache (pos_ID p) (pos_Ticker p) em) w1 = (em', w')"
    using Cons.prems(6) c(1) t by simp
  have "\<forall>(q, r) \<in> set ts. exitable x w1 q \<and> r \<in> {ReasonStopLoss, ReasonTakeProfit, ReasonSquareOff}"
  proof clarify
    fix q s assume q: "(q, s) \<in> set ts"
    then have "pos_ID q \<noteq> pos_ID p" using Cons.prems(4) t by force
    then show "exitable x w1 q \<and> s \<in> {ReasonStopLoss, ReasonTakeProfit, ReasonSquareOff}"
      using Cons.prems(5) q c(5) by fastforce
  qed
  then have "(pos_ID \<circ> fst) ` set ts \<inter> open_ids w' = {}"
    using Cons.IH [OF c(2,3) Cons.prems(3) _ _ ct] Cons.prems(4) by simp
  moreover have "pos_ID p \<notin> open_ids w'" using db.close_targets_book [OF c(2) ct] c(4) by blast
  ultimately show ?case by (simp add: t)
qed simp

lemma evaluate_exits:
  assumes "db_ok w" "quiet w" "is_fin x" "\<not> IsOpeningBuffer (em_currentTime em c1)" "\<not> IsClosingCutoff (em_currentTime em c2)"
    "\<forall>p \<in> set (cached em t). exitable x w p"
    "p \<in> set (cached em t)" "snd (crossed p x)" "pos_ID p \<notin> em_inFlight em"
  shows "pos_ID p \<notin> open_ids (snd (em_evaluate db_ports c1 c2 clk t x em w))"
proof -
  obtain ts em1 where s: "select_targets (cached em t) x em = (ts, em1)" by (cases "select_targets (cached em t) x em")
  obtain em2 w2 where c: "close_targets db_ports clk ts x em1 w = (em2, w2)" by (cases "close_targets db_ports clk ts x em1 w")
  note m = select_targets_marks [OF s]
  have "\<forall>(p, r) \<in> set ts. exitable x w p \<and> r \<in> {ReasonStopLoss, ReasonTakeProfit, ReasonSquareOff}"
    using m assms(6) crossed_reason by fast
  then have "(pos_ID \<circ> fst) ` set ts \<inter> open_ids w2 = {}" using close_targets_quiet [OF assms(1-3) _ _ c] m by blast
  moreover have "pos_ID p \<in> (pos_ID \<circ> fst) ` set ts" using m assms(7-9) by auto
  ultimately show ?thesis using assms(4,5) s c by (auto simp: em_evaluate_def)
qed


text \<open>The example: the position of \<open>one_position_world\<close>, refreshed into the cache, at a price below its stop.\<close>

definition watching :: ExitMonitor where
  "watching = fst (snd (Refresh db_ports NewExitMonitor one_position_world))"

definition falling :: payload where
  "falling = Some (JObj [(''ticker'', JStr ''TCS''), (''price'', JInt 95), (''ts_millis'', JInt 0)])"

lemma watching_cache: "cached watching ''TCS'' = [scan_open open_row]" "em_inFlight watching = {}" "em_now watching = None"
proof -
  have q: "quiet one_position_world" "w_positions one_position_world = [open_row]" "pr_status open_row = ''OPEN''" "pr_ticker open_row = ''TCS''"
    by (simp_all add: quiet_def one_position_world_def empty_world_def open_row_def)
  have "ListOpen one_position_world = (Inr [scan_open open_row], one_position_world)"
    using q by (simp add: ListOpen_def db_call_quiet quiet_def list_open_stmt_def wrap_error_def)
  then have w: "watching = NewExitMonitor\<lparr>em_cache := fold add_to_cache [scan_open open_row] Map.empty\<rparr>"
    by (simp add: watching_def Refresh_def)
  have "pos_Ticker (scan_open open_row) = ''TCS''" using q(4) by (simp add: scan_open_def)
  then show "cached watching ''TCS'' = [scan_open open_row]" unfolding w cached_fold by simp
  show "em_inFlight watching = {}" "em_now watching = None" unfolding w by (simp_all add: NewExitMonitor_def)
qed

lemma morning_hours: "\<not> IsOpeningBuffer (6 * Hour)" "\<not> IsClosingCutoff (6 * Hour)"
  by (simp_all add: IsOpeningBuffer_iff IsClosingCutoff_iff ns_of_day_def ist_def nsec_def Hour_def day_ns_def)

lemma falling_tick: "unmarshal_tick falling = Inr \<lparr>pt_Ticker = ''TCS'', pt_Price = Fin 95, pt_TsInMillis = 0\<rparr>"
  by (simp add: unmarshal_tick_def unmarshal_def falling_def dec_tick_member_def zero_tick_def in_int64_def)

lemma open_row_exit: "exitable (Fin 95) one_position_world (scan_open open_row)" "crossed (scan_open open_row) (Fin 95) = (ReasonStopLoss, True)"
proof -
  have "pnl_of open_row (Fin 95) = Some (Fin (- 50))"
    by (simp add: pnl_of_def pg_sub_def pg_mul_def open_row_def f64_minus_Fin one_float64_def zero_float64_def)
  moreover have "pr_status open_row = ''OPEN''" "open_row \<in> set (w_positions one_position_world)"
    by (simp_all add: open_row_def one_position_world_def)
  ultimately show "exitable (Fin 95) one_position_world (scan_open open_row)" unfolding exitable_def by blast
  show "crossed (scan_open open_row) (Fin 95) = (ReasonStopLoss, True)"
    by (simp add: crossed_def scan_open_def open_row_def SideLong_def)
qed

lemma tcs_subject: "tickerOf ''signal.price.TCS'' = ''TCS''"
  by (simp add: tickerOf_def subject_defs)

lemma exits_only_crossed_witness:
  "\<exists>j. (''signal.execute.TCS'', j) \<in> set (w_bus (snd (HandlePrice db_ports (6 * Hour) (6 * Hour) (\<lambda>_. 0)
     ''signal.price.TCS'' falling watching one_position_world)))"
proof -
  obtain em' w' where e: "HandlePrice db_ports (6 * Hour) (6 * Hour) (\<lambda>_. 0) ''signal.price.TCS'' falling watching
      one_position_world = (em', w')" by fastforce
  have id: "pos_ID (scan_open open_row) = 1" "pos_Ticker (scan_open open_row) = ''TCS''" by (simp_all add: scan_open_def open_row_def)
  have h: "\<not> IsOpeningBuffer (em_currentTime watching (6 * Hour))" "\<not> IsClosingCutoff (em_currentTime watching (6 * Hour))"
    using morning_hours by (simp_all add: em_currentTime_def watching_cache)
  have q: "quiet one_position_world" by (simp add: quiet_def one_position_world_def empty_world_def)
  have "em_evaluate db_ports (6 * Hour) (6 * Hour) (\<lambda>_. 0) ''TCS'' (Fin 95) watching one_position_world = (em', w')"
    using e by (simp add: HandlePrice_def falling_tick tcs_subject)
  moreover have "\<forall>p \<in> set (cached watching ''TCS''). exitable (Fin 95) one_position_world p"
    by (simp add: watching_cache open_row_exit)
  ultimately have "1 \<notin> open_ids w'"
    using evaluate_exits [OF one_position_ok q _ h, of "Fin 95" "''TCS''" "scan_open open_row" "\<lambda>_. 0"] id
    by (simp add: watching_cache open_row_exit)
  moreover have "1 \<in> open_ids one_position_world" by (force simp: open_ids_def one_position_world_def open_row_def)
  ultimately have "1 \<in> open_ids one_position_world - open_ids w'" by blast
  from bspec [OF conjunct2 [OF exits_only_crossed [OF one_position_ok e]] this]
  obtain tick p r j where x: "p \<in> set (cached watching (tickerOf ''signal.price.TCS''))"
      "(ExecuteSubject (pos_Ticker p), j) \<in> set (drop (length (w_bus one_position_world)) (w_bus w'))"
    by blast
  have "p = scan_open open_row" using x(1) by (simp add: tcs_subject watching_cache)
  then show ?thesis using x(2) e id in_set_dropD [OF x(2)] by (auto simp: ExecuteSubject_def subject_defs)
qed


end
