(* ===== verification/GoHttp.thy ===== *)
theory GoHttp
  imports GoJson
begin

text \<open>
  What the sources use of Go's package \<open>net/http\<close>: a request, and what can come of sending it. The
  servers are arguments of the operations that call them.
\<close>

record http_request =
  rq_method :: string
  rq_url :: string
  rq_headers :: "(string \<times> string) list"
  rq_body :: "json option"

text \<open>A reply: its status; its body as text (\<open>None\<close> if reading it fails), as one JSON document, and as
  the first JSON value in it, which is what a \<open>json.Decoder\<close> reads; and what closing the body returns.\<close>

record http_reply =
  rp_status :: int
  rp_text :: "string option"
  rp_doc :: payload
  rp_json :: payload
  rp_close :: "error option"

datatype http_outcome = Unbuildable error | Undelivered error | Reply http_reply

type_synonym transport = "http_request \<Rightarrow> http_outcome"

section \<open>Escaping in URLs\<close>

text \<open>\<open>url.QueryEscape\<close> and \<open>url.PathEscape\<close>, byte by byte.\<close>

definition unreserved :: "char \<Rightarrow> bool" where
  "unreserved c \<longleftrightarrow> (let n = of_char c :: nat in 48 \<le> n \<and> n \<le> 57 \<or> 65 \<le> n \<and> n \<le> 90 \<or> 97 \<le> n \<and> n \<le> 122 \<or>
     n = 45 \<or> n = 95 \<or> n = 46 \<or> n = 126)"

definition hex_digit :: "nat \<Rightarrow> char" where
  "hex_digit n = char_of (if n < 10 then 48 + n else 55 + n)"

definition percent :: "char \<Rightarrow> string" where
  "percent c = [CHR ''%'', hex_digit (of_char c div 16), hex_digit (of_char c mod 16)]"

definition query_char :: "char \<Rightarrow> string" where
  "query_char c = (if c = CHR '' '' then ''+'' else if unreserved c then [c] else percent c)"

definition path_char :: "char \<Rightarrow> string" where
  "path_char c = (if unreserved c \<or> c \<in> set ''$&+:=@'' then [c] else percent c)"

definition QueryEscape :: "string \<Rightarrow> string" where "QueryEscape s = concat (map query_char s)"
definition PathEscape :: "string \<Rightarrow> string" where "PathEscape s = concat (map path_char s)"

lemma hex_digit_range: "n < 16 \<Longrightarrow> (of_char (hex_digit n) :: nat) \<in> {48..57} \<union> {65..70}"
  by (auto simp: hex_digit_def)

lemma hex_digit_inj: "a < 16 \<Longrightarrow> b < 16 \<Longrightarrow> hex_digit a = hex_digit b \<Longrightarrow> a = b"
proof -
  assume h: "a < 16" "b < 16" "hex_digit a = hex_digit b"
  then have "(if a < 10 then 48 + a else 55 + a) mod 256 = (if b < 10 then 48 + b else 55 + b) mod 256"
    unfolding hex_digit_def by (metis of_char_of)
  then show "a = b" using h(1,2) by (auto split: if_splits)
qed

lemma percent_inj: "percent c = percent d \<Longrightarrow> c = d"
proof -
  assume h: "percent c = percent d"
  have b: "(of_char c :: nat) < 256" "(of_char d :: nat) < 256" by simp_all
  then have "(of_char c :: nat) div 16 < 16" "(of_char d :: nat) div 16 < 16" by linarith+
  with h have "(of_char c :: nat) div 16 = of_char d div 16" "(of_char c :: nat) mod 16 = of_char d mod 16"
    by (auto simp: percent_def dest!: hex_digit_inj [rotated 2])
  then have "(of_char c :: nat) = of_char d" by (metis div_mult_mod_eq)
  then show "c = d" by (simp add: of_char_eq_iff)
qed

text \<open>An escaped path segment holds no slash and no question mark, and tells its text.\<close>

lemma path_char_safe: "x \<in> set (path_char c) \<Longrightarrow> x \<noteq> CHR ''/'' \<and> x \<noteq> CHR ''?''"
proof -
  assume x: "x \<in> set (path_char c)"
  have h: "hex_digit n \<noteq> CHR ''/'' \<and> hex_digit n \<noteq> CHR ''?''" if "n < 16" for n
    using hex_digit_range [OF that] by auto
  show ?thesis
  proof (cases "unreserved c \<or> c \<in> set ''$&+:=@''")
    case True
    then show ?thesis using x by (auto simp: path_char_def unreserved_def)
  next
    case False
    moreover have "(of_char c :: nat) div 16 < 16"
    proof -
      have "(of_char c :: nat) < 256" by simp
      then show ?thesis by linarith
    qed
    ultimately show ?thesis using x h by (auto simp: path_char_def percent_def)
  qed
qed

lemma PathEscape_safe: "CHR ''/'' \<notin> set (PathEscape s)" "CHR ''?'' \<notin> set (PathEscape s)"
  using path_char_safe by (auto simp: PathEscape_def)

lemma path_char_prefix: "path_char c @ xs = path_char d @ ys \<Longrightarrow> c = d \<and> xs = ys"
proof -
  have p: "\<not> unreserved (CHR ''%'')" by (simp add: unreserved_def)
  assume "path_char c @ xs = path_char d @ ys"
  then show ?thesis using p percent_inj [of c d]
    by (auto simp: path_char_def percent_def split: if_splits)
qed

lemma PathEscape_inj: "PathEscape s = PathEscape t \<Longrightarrow> s = t"
proof (induction s arbitrary: t)
  case Nil
  then show ?case by (cases t) (auto simp: PathEscape_def path_char_def percent_def split: if_splits)
next
  case (Cons c s)
  then obtain d t' where t: "t = d # t'" by (cases t) (auto simp: PathEscape_def path_char_def percent_def split: if_splits)
  then have "path_char c @ PathEscape s = path_char d @ PathEscape t'" using Cons.prems by (simp add: PathEscape_def)
  then show ?case using path_char_prefix Cons.IH t by blast
qed

end
