(* ===== verification/LLM.thy ===== *)
theory LLM
  imports Models GoHttp
begin

text \<open>
  The scoring of articles by a language model, \<open>src/analysts/sentiment/llm.go\<close>: the configuration from the
  environment, the clients for the two providers, and the conversion of a model's answer to a sentiment
  score. The transport, the environment, the reading of durations and of JSON texts, and the embedded
  prompt are arguments.
\<close>

section \<open>Configuration\<close>

datatype provider = OpenAI | Ollama

record LLMConfig =
  lc_Provider :: string
  lc_BaseURL :: string
  lc_APIKey :: string
  lc_Model :: string
  lc_Timeout :: Duration

text \<open>A client; \<open>cl_apiKey\<close> is used by the provider openai only, \<open>cl_timeout\<close> is that of its HTTP client.\<close>

record LLMClient =
  cl_kind :: provider
  cl_baseURL :: string
  cl_apiKey :: string
  cl_model :: string
  cl_timeout :: Duration

definition NewLLMClient :: "LLMConfig \<Rightarrow> error + LLMClient" where
  "NewLLMClient cfg =
     (if lc_Model cfg = '''' then Inl (NewErr ''llm: model is required'')
      else
        let timeout = (if lc_Timeout cfg \<le> 0 then 60 * Second else lc_Timeout cfg);
            p = ToLower (lc_Provider cfg)
        in if p = '''' \<or> p = ''openai'' then
             Inr \<lparr>cl_kind = OpenAI, cl_baseURL = TrimSuffix (lc_BaseURL cfg) ''/'', cl_apiKey = lc_APIKey cfg,
                  cl_model = lc_Model cfg, cl_timeout = timeout\<rparr>
           else if p = ''ollama'' then
             Inr \<lparr>cl_kind = Ollama, cl_baseURL = TrimSuffix (lc_BaseURL cfg) ''/'', cl_apiKey = '''',
                  cl_model = lc_Model cfg, cl_timeout = timeout\<rparr>
           else Inl (NewErr (''llm: unsupported provider '' @ quoted (lc_Provider cfg) @ '' (want openai or ollama)'')))"

definition envOr :: "(string \<Rightarrow> string) \<Rightarrow> string \<Rightarrow> string \<Rightarrow> string" where
  "envOr getenv key fallback = (let v = getenv key in if v \<noteq> '''' then v else fallback)"

definition LLMConfigFromEnv :: "(string \<Rightarrow> string) \<Rightarrow> (string \<Rightarrow> Duration option) \<Rightarrow> LLMConfig" where
  "LLMConfigFromEnv getenv parse_duration =
     (let p0 = ToLower (getenv ''LLM_PROVIDER'');
          provider = (if p0 = '''' then ''ollama'' else p0);
          (baseURL, model) =
            (if provider = ''openai''
             then (envOr getenv ''LLM_BASE_URL'' ''https://api.openai.com/v1'', envOr getenv ''LLM_MODEL'' ''gpt-4o-mini'')
             else (envOr getenv ''LLM_BASE_URL'' ''http://localhost:11434'', envOr getenv ''LLM_MODEL'' ''llama3''));
          raw = getenv ''LLM_TIMEOUT'';
          timeout = (if raw \<noteq> '''' then (case parse_duration raw of Some d \<Rightarrow> d | None \<Rightarrow> 60 * Second) else 60 * Second)
      in \<lparr>lc_Provider = provider, lc_BaseURL = baseURL, lc_APIKey = getenv ''LLM_API_KEY'', lc_Model = model,
          lc_Timeout = timeout\<rparr>)"

section \<open>Requests\<close>

text \<open>\<open>rfc3339\<close> writes a time in its own location.\<close>

definition userPrompt :: "(Time \<Rightarrow> string) \<Rightarrow> Article \<Rightarrow> string" where
  "userPrompt rfc3339 a =
     (let published = (if ar_PublishedAt a = zero_time then '''' else rfc3339 (ar_PublishedAt a)); nl = [CHR 0x0A]
      in ''Ticker: '' @ ar_Ticker a @ nl @ ''Headline: '' @ ar_Title a @ nl @ ''Published: '' @ published @ nl @
         ''Source: '' @ ar_Source a @ nl @ ''URL: '' @ ar_URL a @ nl @ nl @
         ''Classify the sentiment of this headline for the ticker.'')"

record chatMessage =
  cm_Role :: string
  cm_Content :: string

record chatRequest =
  cr_Model :: string
  cr_Messages :: "chatMessage list"
  cr_Stream :: bool
  cr_Format :: string
  cr_ResponseFormat :: "string option"
  cr_Temperature :: float64

definition message_fields :: "chatMessage \<Rightarrow> field list" where
  "message_fields m = [str_field ''role'' (cm_Role m), str_field ''content'' (cm_Content m)]"

definition request_fields :: "chatRequest \<Rightarrow> field list" where
  "request_fields r = [
     str_field ''model'' (cr_Model r),
     (''messages'', False, Inr (JArr (map (\<lambda>m. case marshal (message_fields m) of Inr j \<Rightarrow> j | Inl _ \<Rightarrow> JNull) (cr_Messages r)))),
     (''stream'', \<not> cr_Stream r, Inr (JBool (cr_Stream r))),
     str_field_omit ''format'' (cr_Format r),
     (''response_format'', cr_ResponseFormat r = None,
        Inr (JObj [(''type'', JStr (case cr_ResponseFormat r of Some t \<Rightarrow> t | None \<Rightarrow> ''''))])),
     float_field_omit ''temperature'' (cr_Temperature r)]"

definition marshal_request :: "chatRequest \<Rightarrow> error + json" where
  "marshal_request r = marshal (request_fields r)"

section \<open>The transport\<close>

definition openai_do :: "transport \<Rightarrow> LLMClient \<Rightarrow> string \<Rightarrow> json \<Rightarrow> error + http_reply" where
  "openai_do http c url body =
     (let auth = (if cl_apiKey c \<noteq> '''' then [(''Authorization'', ''Bearer '' @ cl_apiKey c)] else []) in
      case http \<lparr>rq_method = ''POST'', rq_url = url, rq_headers = (''Content-Type'', ''application/json'') # auth, rq_body = Some body\<rparr> of
        Unbuildable e \<Rightarrow> Inl (Wrapf ''llm: build request'' e)
      | Undelivered e \<Rightarrow> Inl (Wrapf ''llm'' e)
      | Reply r \<Rightarrow> Inr r)"

definition ollama_do :: "transport \<Rightarrow> string \<Rightarrow> json \<Rightarrow> error + http_reply" where
  "ollama_do http url body =
     (case http \<lparr>rq_method = ''POST'', rq_url = url, rq_headers = [(''Content-Type'', ''application/json'')], rq_body = Some body\<rparr> of
        Unbuildable e \<Rightarrow> Inl (Wrapf ''llm: build request'' e)
      | Undelivered e \<Rightarrow> Inl (Wrapf ''llm'' e)
      | Reply r \<Rightarrow> Inr r)"

definition httpStatusError :: "http_reply \<Rightarrow> string \<Rightarrow> error" where
  "httpStatusError r caller =
     (let msg = (case rp_text r of None \<Rightarrow> '''' | Some t \<Rightarrow> if 0 < length t then '': '' @ TrimSpace t else '''')
      in NewErr (caller @ '': provider returned HTTP '' @ string_of_int (rp_status r) @ msg))"

section \<open>Answers\<close>

definition code_fence :: string where "code_fence = replicate 3 (CHR 0x60)"

definition stripCodeFences :: "string \<Rightarrow> string" where
  "stripCodeFences s0 =
     (let s = TrimSpace s0;
          s = (if HasPrefix s code_fence
               then (case dropWhile (\<lambda>c. c \<noteq> CHR 0x0A) s of [] \<Rightarrow> '''' | _ # rest \<Rightarrow> rest)
               else s);
          s = (case LastIndex s code_fence of None \<Rightarrow> s | Some i \<Rightarrow> take i s)
      in TrimSpace s)"

record raw_score =
  rs_Bias :: string
  rs_Confidence :: float64
  rs_Summary :: string

definition dec_score_member :: "string \<Rightarrow> json \<Rightarrow> raw_score \<Rightarrow> raw_score \<times> bool" where
  "dec_score_member k v =
     (if k = ''bias'' then set_str (\<lambda>x. rs_Bias_update (\<lambda>_. x)) v
      else if k = ''confidence'' then set_float (\<lambda>x. rs_Confidence_update (\<lambda>_. x)) v
      else if k = ''summary'' then set_str (\<lambda>x. rs_Summary_update (\<lambda>_. x)) v
      else (\<lambda>st. (st, False)))"

definition zero_raw :: raw_score where
  "zero_raw = \<lparr>rs_Bias = '''', rs_Confidence = 0, rs_Summary = ''''\<rparr>"

definition buildScore :: "(string \<Rightarrow> payload) \<Rightarrow> string \<Rightarrow> Article \<Rightarrow> error + SentimentScore" where
  "buildScore parse content0 article =
     (let content = stripCodeFences content0 in
      case unmarshal dec_score_member zero_raw (parse content) of
        Inl e \<Rightarrow> Inl (Wrapf ''llm: parse content'' e)
      | Inr raw \<Rightarrow>
          let score = \<lparr>ss_ID = 0, ss_Ticker = ar_Ticker article, ss_Bias = ToUpper (TrimSpace (rs_Bias raw)),
                ss_Confidence = rs_Confidence raw, ss_Summary = rs_Summary raw, ss_Source = ar_Source article,
                ss_SourceURL = ar_URL article, ss_RawResponse = content, ss_RecordedAt = zero_time\<rparr>
          in case validate_score score of
               Some e \<Rightarrow> Inl (Wrapf ''llm: invalid score'' e)
             | None \<Rightarrow> Inr score)"

definition dec_content :: "string \<Rightarrow> json \<Rightarrow> string \<Rightarrow> string \<times> bool" where
  "dec_content k v = (if k = ''content'' then set_str (\<lambda>x _. x) v else (\<lambda>st. (st, False)))"

definition dec_message :: "string \<Rightarrow> json \<Rightarrow> string \<Rightarrow> string \<times> bool" where
  "dec_message k v = (if k = ''message'' then set_struct dec_content id (\<lambda>x _. x) v else (\<lambda>st. (st, False)))"

definition dec_choices :: "string \<Rightarrow> json \<Rightarrow> string list \<Rightarrow> string list \<times> bool" where
  "dec_choices k v =
     (if k = ''choices'' then set_slice (\<lambda>j. set_struct dec_message id (\<lambda>x _. x) j) '''' (\<lambda>xs _. xs) v
      else (\<lambda>st. (st, False)))"

section \<open>The two clients\<close>

definition chat_messages :: "string \<Rightarrow> string \<Rightarrow> chatMessage list" where
  "chat_messages systemPrompt prompt =
     [\<lparr>cm_Role = ''system'', cm_Content = systemPrompt\<rparr>, \<lparr>cm_Role = ''user'', cm_Content = prompt\<rparr>]"

definition openai_Score :: "transport \<Rightarrow> (string \<Rightarrow> payload) \<Rightarrow> (Time \<Rightarrow> string) \<Rightarrow> string \<Rightarrow> LLMClient \<Rightarrow> Article \<Rightarrow> error + SentimentScore" where
  "openai_Score http parse rfc3339 systemPrompt c article =
     (case marshal_request \<lparr>cr_Model = cl_model c, cr_Messages = chat_messages systemPrompt (userPrompt rfc3339 article), cr_Stream = False,
          cr_Format = '''', cr_ResponseFormat = Some ''json_object'', cr_Temperature = 0\<rparr> of
        Inl e \<Rightarrow> Inl (Wrapf ''llm: marshal request'' e)
      | Inr body \<Rightarrow>
          (case openai_do http c (cl_baseURL c @ ''/chat/completions'') body of
             Inl e \<Rightarrow> Inl e
           | Inr r \<Rightarrow>
               if rp_status r \<noteq> 200 then Inl (httpStatusError r ''llm'')
               else case unmarshal dec_choices [] (rp_json r) of
                 Inl e \<Rightarrow> Inl (Wrapf ''llm: decode response'' e)
               | Inr choices \<Rightarrow>
                   if length choices = 0 \<or> TrimSpace (choices ! 0) = '''' then Inl (NewErr ''llm: empty response from provider'')
                   else buildScore parse (choices ! 0) article))"

definition ollama_Score :: "transport \<Rightarrow> (string \<Rightarrow> payload) \<Rightarrow> (Time \<Rightarrow> string) \<Rightarrow> string \<Rightarrow> LLMClient \<Rightarrow> Article \<Rightarrow> error + SentimentScore" where
  "ollama_Score http parse rfc3339 systemPrompt c article =
     (case marshal_request \<lparr>cr_Model = cl_model c, cr_Messages = chat_messages systemPrompt (userPrompt rfc3339 article), cr_Stream = False,
          cr_Format = ''json'', cr_ResponseFormat = None, cr_Temperature = 0\<rparr> of
        Inl e \<Rightarrow> Inl (Wrapf ''llm: marshal request'' e)
      | Inr body \<Rightarrow>
          (case ollama_do http (cl_baseURL c @ ''/api/chat'') body of
             Inl e \<Rightarrow> Inl e
           | Inr r \<Rightarrow>
               if rp_status r \<noteq> 200 then Inl (httpStatusError r ''llm'')
               else case unmarshal dec_message '''' (rp_json r) of
                 Inl e \<Rightarrow> Inl (Wrapf ''llm: decode response'' e)
               | Inr content \<Rightarrow>
                   if TrimSpace content = '''' then Inl (NewErr ''llm: empty response from provider'')
                   else buildScore parse content article))"

text \<open>The method of the interface \<open>LLMClient\<close>.\<close>

definition Score :: "transport \<Rightarrow> (string \<Rightarrow> payload) \<Rightarrow> (Time \<Rightarrow> string) \<Rightarrow> string \<Rightarrow> LLMClient \<Rightarrow> Article \<Rightarrow> error + SentimentScore" where
  "Score http parse rfc3339 systemPrompt c =
     (case cl_kind c of
        OpenAI \<Rightarrow> openai_Score http parse rfc3339 systemPrompt c
      | Ollama \<Rightarrow> ollama_Score http parse rfc3339 systemPrompt c)"

text \<open>What the two have in common, and where they differ. A missing content reads as empty.\<close>

definition answer_content :: "provider \<Rightarrow> payload \<Rightarrow> error + string" where
  "answer_content p data =
     (case p of
        OpenAI \<Rightarrow> map_sum id (\<lambda>cs. case cs of [] \<Rightarrow> '''' | c # _ \<Rightarrow> c) (unmarshal dec_choices [] data)
      | Ollama \<Rightarrow> unmarshal dec_message '''' data)"

definition chat_request :: "LLMClient \<Rightarrow> string \<Rightarrow> string \<Rightarrow> chatRequest" where
  "chat_request c systemPrompt prompt =
     \<lparr>cr_Model = cl_model c, cr_Messages = chat_messages systemPrompt prompt, cr_Stream = False,
      cr_Format = (case cl_kind c of OpenAI \<Rightarrow> '''' | Ollama \<Rightarrow> ''json''),
      cr_ResponseFormat = (case cl_kind c of OpenAI \<Rightarrow> Some ''json_object'' | Ollama \<Rightarrow> None),
      cr_Temperature = 0\<rparr>"

definition endpoint :: "LLMClient \<Rightarrow> string" where
  "endpoint c = cl_baseURL c @ (case cl_kind c of OpenAI \<Rightarrow> ''/chat/completions'' | Ollama \<Rightarrow> ''/api/chat'')"

definition llm_do :: "transport \<Rightarrow> LLMClient \<Rightarrow> string \<Rightarrow> json \<Rightarrow> error + http_reply" where
  "llm_do http c = (case cl_kind c of OpenAI \<Rightarrow> openai_do http c | Ollama \<Rightarrow> ollama_do http)"

lemma llm_do_eq:
  "llm_do http c url body =
     (let auth = (if cl_kind c = OpenAI \<and> cl_apiKey c \<noteq> '''' then [(''Authorization'', ''Bearer '' @ cl_apiKey c)] else []) in
      case http \<lparr>rq_method = ''POST'', rq_url = url, rq_headers = (''Content-Type'', ''application/json'') # auth, rq_body = Some body\<rparr> of
        Unbuildable e \<Rightarrow> Inl (Wrapf ''llm: build request'' e)
      | Undelivered e \<Rightarrow> Inl (Wrapf ''llm'' e)
      | Reply r \<Rightarrow> Inr r)"
  by (cases "cl_kind c") (simp_all add: llm_do_def openai_do_def ollama_do_def)

lemma Score_eq:
  "Score http parse rfc3339 systemPrompt c article =
     (case marshal_request (chat_request c systemPrompt (userPrompt rfc3339 article)) of
        Inl e \<Rightarrow> Inl (Wrapf ''llm: marshal request'' e)
      | Inr body \<Rightarrow>
          (case llm_do http c (endpoint c) body of
             Inl e \<Rightarrow> Inl e
           | Inr r \<Rightarrow>
               if rp_status r \<noteq> 200 then Inl (httpStatusError r ''llm'')
               else case answer_content (cl_kind c) (rp_json r) of
                 Inl e \<Rightarrow> Inl (Wrapf ''llm: decode response'' e)
               | Inr content \<Rightarrow>
                   if TrimSpace content = '''' then Inl (NewErr ''llm: empty response from provider'')
                   else buildScore parse content article))"
proof (cases "cl_kind c")
  case OpenAI
  have "TrimSpace '''' = ''''" by (simp add: TrimSpace_def)
  then show ?thesis
    by (auto simp: OpenAI Score_def openai_Score_def chat_request_def endpoint_def llm_do_def answer_content_def split: sum.split list.split)
next
  case Ollama
  then show ?thesis
    by (simp add: Score_def ollama_Score_def chat_request_def endpoint_def llm_do_def answer_content_def split: sum.split)
qed

section \<open>Fences\<close>

lemma fence_facts: "code_fence \<noteq> []" "hd code_fence = CHR 0x60" "last code_fence = CHR 0x60" "CHR 0x0A \<notin> set code_fence"
  "length code_fence = 3" "\<not> is_space (CHR 0x60)"
  by (simp_all add: code_fence_def is_space_def numeral_eq_Suc)

lemma dropWhile_line: "CHR 0x0A \<notin> set a \<Longrightarrow> dropWhile (\<lambda>c. c \<noteq> CHR 0x0A) (a @ CHR 0x0A # b) = CHR 0x0A # b"
  by (induction a) auto

lemma LastIndex_fence: "LastIndex (body @ code_fence) code_fence = Some (length body)"
proof -
  have "code_fence @ [] \<noteq> x @ code_fence @ y" if "x \<noteq> []" for x y
  proof
    assume "code_fence @ [] = x @ code_fence @ y"
    then have "length code_fence = length x + length code_fence + length y" by (metis append_Nil2 length_append add.assoc)
    then show False using that by simp
  qed
  then show ?thesis using LastIndex_some [of code_fence "[]" body] fence_facts(1) by simp
qed

text \<open>Code fences come off, and nothing else does: from an answer wrapped in a fence with any language tag,
  with white space around it, what is parsed is the trimmed text between the fences, fences within it
  included; an answer without fences is only trimmed.\<close>

theorem stripCodeFences_unwraps:
  assumes "CHR 0x0A \<notin> set tag" "\<forall>c \<in> set ws1 \<union> set ws2. is_space c"
  shows "stripCodeFences (ws1 @ code_fence @ tag @ [CHR 0x0A] @ body @ code_fence @ ws2) = TrimSpace body \<and>
    ((\<forall>a b. text \<noteq> a @ code_fence @ b) \<longrightarrow> stripCodeFences text = TrimSpace text)"
proof (intro conjI impI)
  let ?t = "code_fence @ tag @ [CHR 0x0A] @ body @ code_fence"
  have "TrimSpace (ws1 @ ?t @ ws2) = TrimSpace ?t" using assms(2) by (intro TrimSpace_spaces) simp_all
  also have "\<dots> = ?t" using fence_facts by (intro TrimSpace_same) (simp_all add: hd_append)
  finally have t: "TrimSpace (ws1 @ code_fence @ tag @ [CHR 0x0A] @ body @ code_fence @ ws2) = ?t" by simp
  have "CHR 0x0A \<notin> set (code_fence @ tag)" using assms(1) fence_facts(4) by simp
  then have d: "dropWhile (\<lambda>c. c \<noteq> CHR 0x0A) ?t = CHR 0x0A # body @ code_fence"
    using dropWhile_line [of "code_fence @ tag" "body @ code_fence"] by simp
  show "stripCodeFences (ws1 @ code_fence @ tag @ [CHR 0x0A] @ body @ code_fence @ ws2) = TrimSpace body"
    unfolding stripCodeFences_def Let_def t d by (simp add: LastIndex_fence)
next
  assume none: "\<forall>a b. text \<noteq> a @ code_fence @ b"
  have part: "\<exists>a b. text = a @ TrimSpace text @ b"
    unfolding TrimSpace_def by (metis append.assoc rev_append rev_rev_ident takeWhile_dropWhile_id)
  then obtain a b where ab: "text = a @ TrimSpace text @ b" by blast
  have none': "TrimSpace text \<noteq> x @ code_fence @ y" for x y
  proof
    assume "TrimSpace text = x @ code_fence @ y"
    then have "text = (a @ x) @ code_fence @ (y @ b)" using ab by simp
    then show False using none by blast
  qed
  then have "\<not> HasPrefix (TrimSpace text) code_fence"
    unfolding HasPrefix_def by (metis append_Nil append_take_drop_id)
  moreover have "LastIndex (TrimSpace text) code_fence = None" unfolding LastIndex_none using none' by blast
  ultimately show "stripCodeFences text = TrimSpace text" by (simp add: stripCodeFences_def Let_def)
qed

lemma stripCodeFences_unwraps_witness:
  "stripCodeFences (code_fence @ ''json'' @ [CHR 0x0A] @ ''{}'' @ code_fence @ [CHR 0x0A]) = ''{}''"
proof -
  have "TrimSpace ''{}'' = ''{}''" by (rule TrimSpace_same) (simp_all add: is_space_def)
  then show ?thesis using stripCodeFences_unwraps [of "''json''" "[]" "[CHR 0x0A]" "''{}''"] by (simp add: is_space_def)
qed

section \<open>The configured client\<close>

text \<open>The environment configures a working client or a clear refusal. A client is built exactly when
  \<open>LLM_PROVIDER\<close> is empty, openai or ollama in any letter case; it is the one of OpenAI exactly for
  openai, has a model and a positive timeout whatever the other variables hold.\<close>

theorem configured_client:
  "(\<exists>c. NewLLMClient (LLMConfigFromEnv getenv pd) = Inr c) =
     (ToLower (getenv ''LLM_PROVIDER'') \<in> {'''', ''openai'', ''ollama''}) \<and>
   (\<forall>c. NewLLMClient (LLMConfigFromEnv getenv pd) = Inr c \<longrightarrow>
      (cl_kind c = OpenAI) = (ToLower (getenv ''LLM_PROVIDER'') = ''openai'') \<and> cl_model c \<noteq> '''' \<and> 0 < cl_timeout c)"
proof -
  have idem: "ToLower (ToLower s) = ToLower s" for s
  proof -
    have "lower_char (lower_char c) = lower_char c" for c :: char
      by (auto simp: lower_char_def of_char_of)
    then show ?thesis by (simp add: ToLower_def)
  qed
  have names: "ToLower ''ollama'' = ''ollama''" "ToLower ''openai'' = ''openai''" by (simp_all add: ToLower_def lower_char_def)
  have model: "envOr getenv k s \<noteq> ''''" if "s \<noteq> ''''" for k s using that by (simp add: envOr_def Let_def)
  have sec: "0 < 60 * Second" by (simp add: Second_def)
  let ?p = "ToLower (getenv ''LLM_PROVIDER'')"
  consider "?p = ''''" | "?p = ''openai''" | "?p = ''ollama''" | "?p \<notin> {'''', ''openai'', ''ollama''}" by blast
  then show ?thesis
  proof cases
    case 4
    then have "\<exists>e. NewLLMClient (LLMConfigFromEnv getenv pd) = Inl e"
      using idem by (auto simp: NewLLMClient_def LLMConfigFromEnv_def Let_def model)
    then show ?thesis using 4 by auto
  qed (use sec in \<open>auto simp: NewLLMClient_def LLMConfigFromEnv_def Let_def model names idem\<close>)
qed

lemma configured_client_witness:
  "\<exists>c. NewLLMClient (LLMConfigFromEnv (\<lambda>k. '''') (\<lambda>_. None)) = Inr c \<and> cl_kind c = Ollama \<and> 0 < cl_timeout c"
proof -
  have "ToLower '''' = ''''" by (simp add: ToLower_def)
  then obtain c where c: "NewLLMClient (LLMConfigFromEnv (\<lambda>k. '''') (\<lambda>_. None)) = Inr c"
    using configured_client [of "\<lambda>k. ''''" "\<lambda>_. None"] by auto
  then have "cl_kind c \<noteq> OpenAI" "0 < cl_timeout c" using configured_client [of "\<lambda>k. ''''" "\<lambda>_. None"] by (auto simp: ToLower_def)
  then show ?thesis using c by (cases "cl_kind c") auto
qed

section \<open>What a score promises\<close>

lemma dec_score_finite: "unmarshal dec_score_member zero_raw p = Inr raw \<Longrightarrow> is_fin (rs_Confidence raw)"
  by (erule unmarshal_keeps [where P = "\<lambda>r. is_fin (rs_Confidence r)"])
    (auto simp: zero_raw_def zero_float64_Fin dec_score_member_def split: if_splits elim!: set_str_keeps set_float_keeps)

lemma buildScore_Inr:
  assumes "buildScore parse content a = Inr s"
  shows "validate_score s = None \<and> ss_Bias s \<in> {BiasBullish, BiasBearish, BiasNeutral} \<and>
    0 \<le> ss_Confidence s \<and> ss_Confidence s \<le> 1 \<and> ss_Ticker s = ar_Ticker a \<and> ss_Source s = ar_Source a \<and>
    ss_SourceURL s = ar_URL a \<and> ss_RawResponse s = stripCodeFences content"
proof -
  obtain raw where raw: "unmarshal dec_score_member zero_raw (parse (stripCodeFences content)) = Inr raw"
    using assms by (auto simp: buildScore_def Let_def split: sum.splits)
  then have s: "validate_score s = None" "ss_Confidence s = rs_Confidence raw" "ss_Ticker s = ar_Ticker a"
      "ss_Source s = ar_Source a" "ss_SourceURL s = ar_URL a" "ss_RawResponse s = stripCodeFences content"
    using assms by (auto simp: buildScore_def Let_def split: option.splits)
  obtain r where r: "ss_Confidence s = Fin r" using dec_score_finite [OF raw] s(2) by (cases "rs_Confidence raw") auto
  have "ss_Bias s \<in> {BiasBullish, BiasBearish, BiasNeutral}" "\<not> ss_Confidence s < 0" "\<not> 1 < ss_Confidence s"
    using s(1) by (auto simp: validate_score_def split: if_splits)
  then have "0 \<le> ss_Confidence s \<and> ss_Confidence s \<le> 1" by (simp add: r one_float64_def)
  then show ?thesis using s(1,3-) \<open>ss_Bias s \<in> _\<close> by simp
qed

lemma Score_built:
  assumes "Score http parse rfc prompt c a = Inr s" shows "\<exists>content. buildScore parse content a = Inr s"
  using assms by (auto simp: Score_eq split: sum.splits if_splits)

text \<open>The request of a client: to its endpoint, with the key if it is the client of OpenAI and has one.\<close>

definition llm_request :: "LLMClient \<Rightarrow> json \<Rightarrow> http_request" where
  "llm_request c body = \<lparr>rq_method = ''POST'', rq_url = endpoint c,
     rq_headers = (''Content-Type'', ''application/json'') #
       (if cl_kind c = OpenAI \<and> cl_apiKey c \<noteq> '''' then [(''Authorization'', ''Bearer '' @ cl_apiKey c)] else []),
     rq_body = Some body\<rparr>"

text \<open>C30: A score comes from an answer, and it is sound. When \<open>Score\<close> returns a score, the one request made of the prompt and
  the article could be encoded and built and was answered, with status 200 and a content that is not blank; the score has the
  bias, in capitals, the confidence and the summary read from that content without its code fences, and cites content and
  article; it passes the validation, its bias is one of the three and its confidence lies between 0 and 1. So a
  request that cannot be built or delivered, any other status, an undecodable or blank answer and an invalid score
  are errors.\<close>

theorem Score_sound:
  assumes "Score http parse rfc prompt c a = Inr s"
  shows "(\<exists>body r content raw. marshal_request (chat_request c prompt (userPrompt rfc a)) = Inr body \<and>
      http (llm_request c body) = Reply r \<and> rp_status r = 200 \<and> answer_content (cl_kind c) (rp_json r) = Inr content \<and>
      TrimSpace content \<noteq> '''' \<and> unmarshal dec_score_member zero_raw (parse (stripCodeFences content)) = Inr raw \<and>
      ss_Bias s = ToUpper (TrimSpace (rs_Bias raw)) \<and> ss_Confidence s = rs_Confidence raw \<and> ss_Summary s = rs_Summary raw \<and>
      ss_RawResponse s = stripCodeFences content) \<and>
    validate_score s = None \<and> ss_Bias s \<in> {BiasBullish, BiasBearish, BiasNeutral} \<and> 0 \<le> ss_Confidence s \<and> ss_Confidence s \<le> 1 \<and>
    ss_Ticker s = ar_Ticker a \<and> ss_Source s = ar_Source a \<and> ss_SourceURL s = ar_URL a \<and> ar_URL a \<noteq> ''''"
proof -
  obtain body where b: "marshal_request (chat_request c prompt (userPrompt rfc a)) = Inr body"
    using assms by (cases "marshal_request (chat_request c prompt (userPrompt rfc a))") (auto simp: Score_eq)
  obtain r where r: "http (llm_request c body) = Reply r"
    using assms b by (cases "http (llm_request c body)") (auto simp: Score_eq llm_do_eq llm_request_def Let_def)
  then have d: "llm_do http c (endpoint c) body = Inr r" by (simp add: llm_do_eq llm_request_def Let_def)
  obtain content where content: "rp_status r = 200" "answer_content (cl_kind c) (rp_json r) = Inr content"
    "TrimSpace content \<noteq> ''''" "buildScore parse content a = Inr s"
    using assms b d by (cases "answer_content (cl_kind c) (rp_json r)") (auto simp: Score_eq split: if_splits)
  obtain raw where raw: "unmarshal dec_score_member zero_raw (parse (stripCodeFences content)) = Inr raw"
    "ss_Bias s = ToUpper (TrimSpace (rs_Bias raw))" "ss_Confidence s = rs_Confidence raw" "ss_Summary s = rs_Summary raw"
    using content(4) by (auto simp: buildScore_def Let_def split: sum.splits option.splits)
  note s = buildScore_Inr [OF content(4)]
  then have "ar_URL a \<noteq> ''''" by (auto simp: validate_score_def split: if_splits)
  with s raw b r content(1-3) show ?thesis by blast
qed

definition sample_client :: LLMClient where
  "sample_client = \<lparr>cl_kind = Ollama, cl_baseURL = ''http://localhost:11434'', cl_apiKey = '''', cl_model = ''llama3'',
     cl_timeout = 60 * Second\<rparr>"

definition sample_article :: Article where
  "sample_article = \<lparr>ar_Ticker = ''TCS'', ar_Title = ''Results'', ar_URL = ''u'', ar_Source = ''s'', ar_Description = '''',
     ar_PublishedAt = zero_time\<rparr>"

definition good_http :: transport where
  "good_http q = Reply \<lparr>rp_status = 200, rp_text = None, rp_doc = None, rp_json = Some (JObj [(''message'', JObj [(''content'', JStr ''x'')])]), rp_close = None\<rparr>"

definition good_parse :: "string \<Rightarrow> payload" where
  "good_parse t = Some (JObj [(''bias'', JStr ''bullish''), (''confidence'', JInt 1)])"

definition good_llm :: "Article \<Rightarrow> error + SentimentScore" where
  "good_llm = Score good_http good_parse (\<lambda>_. '''') '''' sample_client"

lemma sample_keys [simp]: "fold_key ''message'' = ''message''" "fold_key ''content'' = ''content''" "fold_key ''bias'' = ''bias''"
  "fold_key ''confidence'' = ''confidence''" "ToUpper (TrimSpace ''bullish'') = ''BULLISH''" "TrimSpace ''x'' = ''x''"
  by code_simp+

lemma good_llm_score: "\<exists>s. good_llm sample_article = Inr s \<and> ss_Confidence s = 1"
proof -
  have m: "\<exists>j. marshal_request (chat_request sample_client '''' p) = Inr j" for p
    by (simp add: marshal_request_def request_fields_def chat_request_def chat_messages_def marshal_def field_defs sample_client_def zero_float64_Fin)
  obtain j where j: "marshal_request (chat_request sample_client '''' (userPrompt (\<lambda>_. '''') sample_article)) = Inr j" using m by blast
  have "answer_content Ollama (Some (JObj [(''message'', JObj [(''content'', JStr ''x'')])])) = Inr ''x''"
    by (simp add: answer_content_def unmarshal_def dec_message_def dec_content_def)
  moreover have "\<exists>s. buildScore good_parse ''x'' sample_article = Inr s \<and> ss_Confidence s = 1"
    by (simp add: buildScore_def good_parse_def unmarshal_def dec_score_member_def zero_raw_def Let_def validate_score_def
        sample_article_def enum_defs one_float64_def)
  ultimately show ?thesis using j
    by (simp add: good_llm_def Score_eq llm_do_eq good_http_def Let_def) (simp add: sample_client_def)
qed

lemma Score_sound_witness:
  "\<exists>s body. good_llm sample_article = Inr s \<and> ss_Confidence s = 1 \<and> ss_SourceURL s = ''u'' \<and>
     marshal_request (chat_request sample_client '''' (userPrompt (\<lambda>_. '''') sample_article)) = Inr body"
proof -
  obtain s where s: "good_llm sample_article = Inr s" "ss_Confidence s = 1" using good_llm_score by blast
  from Score_sound [OF s(1) [unfolded good_llm_def]] obtain body where
    "marshal_request (chat_request sample_client '''' (userPrompt (\<lambda>_. '''') sample_article)) = Inr body"
    "ss_SourceURL s = ar_URL sample_article" by blast
  then show ?thesis using s by (auto simp: sample_article_def)
qed

end
