(* ===== verification/Scraper.thy ===== *)
theory Scraper
  imports Models
begin

text \<open>
  The news scraper of \<open>src/analysts/sentiment/scraper.go\<close>: the source Google News with its rate limiter, the
  conversion of feed items to articles, the deduplicating \<open>Scraper\<close>, and the interval of the scheduler, whose run is in \<open>Scheduler\<close>.
  The transport, the XML decoder, the decoding of HTML entities, the escaping of queries, the parsing of dates
  and the SHA-256 hash are arguments.
\<close>

section \<open>The rate limiter\<close>

record rateLimiter =
  rl_minInterval :: Duration
  rl_last :: Time

definition newRateLimiter :: "Duration \<Rightarrow> rateLimiter" where
  "newRateLimiter minInterval = \<lparr>rl_minInterval = minInterval, rl_last = zero_time\<rparr>"

text \<open>The time that \<open>Wait\<close> computes before it sleeps.\<close>

definition wait_time :: "rateLimiter \<Rightarrow> Time \<Rightarrow> Duration" where
  "wait_time r now = (let wait = rl_minInterval r - (now - rl_last r) in if wait < 0 then 0 else wait)"

text \<open>The arguments are the clock before and after the sleep, and the error of a context that ends during it.\<close>

definition Wait :: "error option \<Rightarrow> Time \<Rightarrow> Time \<Rightarrow> rateLimiter \<Rightarrow> error option \<times> rateLimiter" where
  "Wait ctx now1 now2 r =
     (if rl_minInterval r \<le> 0 then (None, r)
      else if 0 < wait_time r now1 \<and> ctx \<noteq> None then (ctx, r)
      else (None, r\<lparr>rl_last := now2\<rparr>))"

section \<open>Feed items\<close>

record rssItem =
  ri_Title :: string
  ri_Link :: string
  ri_PubDate :: string
  ri_Source :: string
  ri_Desc :: string

text \<open>The regular expression for tags: a match runs from an angle bracket to the next closing one, and a
  bracket that is never closed stays.\<close>

function replace_tags :: "string \<Rightarrow> string" where
  "replace_tags s =
     (case s of
        [] \<Rightarrow> []
      | c # rest \<Rightarrow>
          if c = CHR ''<'' then
            (case dropWhile (\<lambda>x. x \<noteq> CHR ''>'') rest of
               [] \<Rightarrow> s
             | _ # after \<Rightarrow> CHR '' '' # replace_tags after)
          else c # replace_tags rest)"
  by pat_completeness auto

termination
proof (relation "measure length")
  fix s c rest x after
  assume "s = c # rest" "dropWhile (\<lambda>x. x \<noteq> CHR ''>'') rest = x # after"
  then show "(after, s) \<in> measure length"
    using length_dropWhile_le [of "\<lambda>x. x \<noteq> CHR ''>''" rest] by simp
qed simp_all

declare replace_tags.simps [simp del]

definition cleanDescription :: "(string \<Rightarrow> string) \<Rightarrow> string \<Rightarrow> string" where
  "cleanDescription unescape desc = TrimSpace (unescape (replace_tags desc))"

definition date_layouts :: "string list" where
  "date_layouts = [''Mon, 02 Jan 2006 15:04:05 -0700'', ''Mon, 02 Jan 2006 15:04:05 MST'', ''2006-01-02T15:04:05Z07:00'',
     ''Mon, 2 Jan 2006 15:04:05 -0700'', ''Mon, 02 Jan 2006 15:04:05 MST'']"

fun first_layout :: "(string \<Rightarrow> string \<Rightarrow> Time option) \<Rightarrow> string list \<Rightarrow> string \<Rightarrow> Time" where
  "first_layout parse_time [] raw = zero_time"
| "first_layout parse_time (l # ls) raw =
     (case parse_time l (TrimSpace raw) of Some t \<Rightarrow> t | None \<Rightarrow> first_layout parse_time ls raw)"

definition parsePubDate :: "(string \<Rightarrow> string \<Rightarrow> Time option) \<Rightarrow> string \<Rightarrow> Time" where
  "parsePubDate parse_time raw = first_layout parse_time date_layouts raw"

text \<open>The first argument is what the XML decoder makes of the body.\<close>

definition parseRSS :: "(string \<Rightarrow> string) \<Rightarrow> (string \<Rightarrow> string \<Rightarrow> Time option) \<Rightarrow> error + rssItem list \<Rightarrow> string \<Rightarrow> error + Article list" where
  "parseRSS unescape parse_time decoded ticker =
     (case decoded of
        Inl e \<Rightarrow> Inl (Wrapf ''google news: parse rss'' e)
      | Inr items \<Rightarrow>
          Inr (map (\<lambda>i. \<lparr>ar_Ticker = ticker, ar_Title = TrimSpace (ri_Title i), ar_URL = TrimSpace (ri_Link i),
                 ar_Source = TrimSpace (ri_Source i), ar_Description = cleanDescription unescape (ri_Desc i),
                 ar_PublishedAt = parsePubDate parse_time (ri_PubDate i)\<rparr>) items))"

section \<open>The source\<close>

definition DefaultGoogleNewsURL :: string where "DefaultGoogleNewsURL = ''https://news.google.com/rss/search''"

record GoogleNewsRSS =
  gn_baseURL :: string
  gn_limiter :: rateLimiter

definition NewGoogleNewsRSS :: "string \<Rightarrow> Duration \<Rightarrow> GoogleNewsRSS" where
  "NewGoogleNewsRSS baseURL minInterval =
     \<lparr>gn_baseURL = (if baseURL = '''' then DefaultGoogleNewsURL else baseURL), gn_limiter = newRateLimiter minInterval\<rparr>"

text \<open>What a request for a feed comes to: it cannot be built, it fails, or there is a reply with its status and
  what the decoder makes of its body.\<close>

datatype feed_reply = NoRequest error | NoReply error | FeedReply int "error + rssItem list"

definition feed_endpoint :: "(string \<Rightarrow> string) \<Rightarrow> GoogleNewsRSS \<Rightarrow> string \<Rightarrow> string" where
  "feed_endpoint escape g ticker =
     gn_baseURL g @ ''?q='' @ escape (ticker @ '' stock news'') @ ''&hl=en-IN&gl=IN&ceid=IN:en''"

definition Fetch :: "(string \<Rightarrow> string) \<Rightarrow> (string \<Rightarrow> string) \<Rightarrow> (string \<Rightarrow> string \<Rightarrow> Time option) \<Rightarrow> (string \<Rightarrow> feed_reply) \<Rightarrow>
    error option \<Rightarrow> Time \<Rightarrow> Time \<Rightarrow> string \<Rightarrow> GoogleNewsRSS \<Rightarrow> (error + Article list) \<times> GoogleNewsRSS" where
  "Fetch escape unescape parse_time get ctx now1 now2 ticker g =
     (case Wait ctx now1 now2 (gn_limiter g) of
        (Some e, l) \<Rightarrow> (Inl (Wrapf ''google news: rate limit wait'' e), g\<lparr>gn_limiter := l\<rparr>)
      | (None, l) \<Rightarrow>
          ((case get (feed_endpoint escape g ticker) of
              NoRequest e \<Rightarrow> Inl (Wrapf ''google news: build request'' e)
            | NoReply e \<Rightarrow> Inl (Wrapf ''google news'' e)
            | FeedReply status decoded \<Rightarrow>
                if status \<noteq> 200 then Inl (NewErr (''google news: http '' @ string_of_int status))
                else parseRSS unescape parse_time decoded ticker),
           g\<lparr>gn_limiter := l\<rparr>))"

section \<open>Deduplication\<close>

record Scraper =
  sc_ttl :: Duration
  sc_seen :: "string \<rightharpoonup> Time"

definition NewScraper :: "Duration \<Rightarrow> Scraper" where
  "NewScraper ttl = \<lparr>sc_ttl = ttl, sc_seen = Map.empty\<rparr>"

text \<open>The hash is the hexadecimal form of the first eight bytes of SHA-256.\<close>

definition articleHash :: "(string \<Rightarrow> string) \<Rightarrow> Article \<Rightarrow> string" where
  "articleHash sha a = sha (if ar_URL a = '''' then ar_Title a else ar_URL a)"

definition prune :: "Time \<Rightarrow> Scraper \<Rightarrow> Scraper" where
  "prune now s = s\<lparr>sc_seen := (\<lambda>h. case sc_seen s h of
     Some firstSeen \<Rightarrow> if sc_ttl s \<le> now - firstSeen then None else Some firstSeen | None \<Rightarrow> None)\<rparr>"

fun keep_fresh :: "(string \<Rightarrow> string) \<Rightarrow> Time \<Rightarrow> Article list \<Rightarrow> Scraper \<Rightarrow> Article list \<times> Scraper" where
  "keep_fresh sha now [] s = ([], s)"
| "keep_fresh sha now (a # as) s =
     (let h = articleHash sha a in
      if (case sc_seen s h of Some firstSeen \<Rightarrow> now - firstSeen < sc_ttl s | None \<Rightarrow> False) then keep_fresh sha now as s
      else case keep_fresh sha now as (s\<lparr>sc_seen := (sc_seen s)(h \<mapsto> now)\<rparr>) of (fresh, s1) \<Rightarrow> (a # fresh, s1))"

text \<open>The outcome of the source's \<open>Fetch\<close> and the clock after it are arguments.\<close>

definition FetchFresh :: "(string \<Rightarrow> string) \<Rightarrow> error + Article list \<Rightarrow> Time \<Rightarrow> Scraper \<Rightarrow> (error + Article list) \<times> Scraper" where
  "FetchFresh sha fetched now s =
     (case fetched of
        Inl e \<Rightarrow> (Inl e, s)
      | Inr articles \<Rightarrow> (case keep_fresh sha now articles s of (fresh, s1) \<Rightarrow> (Inr fresh, prune now s1)))"

section \<open>The scheduler\<close>

definition NewScheduler :: "Duration \<Rightarrow> Duration" where
  "NewScheduler interval = (if interval \<le> 0 then Minute else interval)"

section \<open>Requests are spaced\<close>

record wait_call =
  wc_ctx :: "error option"
  wc_now1 :: Time
  wc_now2 :: Time

text \<open>A run of calls one after another; the log holds the times at which they returned without an error.\<close>

fun wait_run :: "wait_call list \<Rightarrow> rateLimiter \<Rightarrow> Time list" where
  "wait_run [] r = []"
| "wait_run (c # cs) r =
     (case Wait (wc_ctx c) (wc_now1 c) (wc_now2 c) r of
        (None, r1) \<Rightarrow> wc_now2 c # wait_run cs r1
      | (Some e, r1) \<Rightarrow> wait_run cs r1)"

text \<open>The clock of a run: sleeping takes at least the time asked for.\<close>

fun sleeps :: "wait_call list \<Rightarrow> rateLimiter \<Rightarrow> bool" where
  "sleeps [] r \<longleftrightarrow> True"
| "sleeps (c # cs) r \<longleftrightarrow>
     wc_now1 c + wait_time r (wc_now1 c) \<le> wc_now2 c \<and> sleeps cs (snd (Wait (wc_ctx c) (wc_now1 c) (wc_now2 c) r))"

lemma wait_run_spaced:
  "0 < rl_minInterval r \<Longrightarrow> sleeps cs r \<Longrightarrow>
     sorted_wrt (\<lambda>t t'. t + rl_minInterval r \<le> t') (rl_last r # wait_run cs r)"
proof (induction cs arbitrary: r)
  case (Cons c cs)
  let ?w = "Wait (wc_ctx c) (wc_now1 c) (wc_now2 c) r"
  show ?case
  proof (cases "fst ?w")
    case (Some e)
    then have "?w = (Some e, r)" using Cons.prems(1) by (auto simp: Wait_def split: if_splits)
    then show ?thesis using Cons by simp
  next
    case None
    then have w: "?w = (None, r\<lparr>rl_last := wc_now2 c\<rparr>)" using Cons.prems(1) by (auto simp: Wait_def split: if_splits)
    then have "sorted_wrt (\<lambda>t t'. t + rl_minInterval r \<le> t') (wc_now2 c # wait_run cs (r\<lparr>rl_last := wc_now2 c\<rparr>))"
      using Cons.IH [of "r\<lparr>rl_last := wc_now2 c\<rparr>"] Cons.prems by simp
    moreover have "rl_last r + rl_minInterval r \<le> wc_now2 c"
      using Cons.prems(2) by (auto simp: wait_time_def Let_def split: if_splits)
    ultimately show ?thesis using Cons.prems(1) w by fastforce
  qed
qed simp

text \<open>Requests made one after another are spaced: any two calls of \<open>Wait\<close> that return without an error are at
  least \<open>minInterval\<close> apart, whatever contexts end between them.\<close>

theorem waits_are_spaced:
  assumes "0 < rl_minInterval r" "sleeps cs r"
  shows "sorted_wrt (\<lambda>t t'. t + rl_minInterval r \<le> t') (wait_run cs r)"
  using wait_run_spaced [OF assms] by simp

lemma waits_are_spaced_witness:
  "sorted_wrt (\<lambda>t t'. t + 2 \<le> t') (wait_run [\<lparr>wc_ctx = None, wc_now1 = 5, wc_now2 = 5\<rparr>, \<lparr>wc_ctx = None, wc_now1 = 6, wc_now2 = 7\<rparr>]
     (newRateLimiter 2))"
  using waits_are_spaced [of "newRateLimiter 2" "[\<lparr>wc_ctx = None, wc_now1 = 5, wc_now2 = 5\<rparr>, \<lparr>wc_ctx = None, wc_now1 = 6, wc_now2 = 7\<rparr>]"]
  by (simp add: newRateLimiter_def wait_time_def Wait_def zero_time_def nsec_def)

section \<open>No story twice within the window\<close>

abbreviation apart :: "(string \<Rightarrow> string) \<Rightarrow> Duration \<Rightarrow> Time \<times> Article \<Rightarrow> Time \<times> Article \<Rightarrow> bool" where
  "apart sha ttl x y \<equiv> articleHash sha (snd x) = articleHash sha (snd y) \<longrightarrow> fst x + ttl \<le> fst y"

text \<open>Whatever was returned before is either out of the window or remembered at least as recently.\<close>

definition remembers :: "(string \<Rightarrow> string) \<Rightarrow> Scraper \<Rightarrow> Time \<Rightarrow> (Time \<times> Article) list \<Rightarrow> bool" where
  "remembers sha s now lg \<longleftrightarrow>
     (\<forall>x \<in> set lg. fst x + sc_ttl s \<le> now \<or> (\<exists>t0. sc_seen s (articleHash sha (snd x)) = Some t0 \<and> fst x \<le> t0))"

lemma remembers_later: "remembers sha s now lg \<Longrightarrow> now \<le> now' \<Longrightarrow> remembers sha s now' lg"
  by (force simp: remembers_def)

lemma keep_fresh_step:
  "keep_fresh sha now as s = (fresh, s1) \<Longrightarrow> remembers sha s now lg \<Longrightarrow> sorted_wrt (apart sha (sc_ttl s)) lg \<Longrightarrow> 0 < sc_ttl s \<Longrightarrow>
     sc_ttl s1 = sc_ttl s \<and> remembers sha s1 now (lg @ map (Pair now) fresh) \<and>
     sorted_wrt (apart sha (sc_ttl s)) (lg @ map (Pair now) fresh)"
proof (induction "as" arbitrary: s fresh lg)
  case (Cons a as)
  let ?h = "articleHash sha a"
  let ?s = "s\<lparr>sc_seen := (sc_seen s)(?h \<mapsto> now)\<rparr>"
  show ?case
  proof (cases "case sc_seen s ?h of Some firstSeen \<Rightarrow> now - firstSeen < sc_ttl s | None \<Rightarrow> False")
    case True
    then show ?thesis using Cons by simp
  next
    case False
    obtain rest where k: "keep_fresh sha now as ?s = (rest, s1)" "fresh = a # rest"
      using Cons.prems(1) False by (auto simp: Let_def split: prod.splits)
    have old: "fst x + sc_ttl s \<le> now" if "x \<in> set lg" "articleHash sha (snd x) = ?h" for x
      using Cons.prems(2) that False by (auto simp: remembers_def split: option.splits)
    then have "sorted_wrt (apart sha (sc_ttl s)) (lg @ [(now, a)])" using Cons.prems(3) by (auto simp: sorted_wrt_append)
    moreover have "remembers sha ?s now (lg @ [(now, a)])" using Cons.prems(2) old by (auto simp: remembers_def)
    ultimately show ?thesis using Cons.IH [OF k(1), of "lg @ [(now, a)]"] Cons.prems(4) k(2) by simp
  qed
qed simp

lemma prune_remembers: "remembers sha s now lg \<Longrightarrow> remembers sha (prune now s) now lg"
  by (force simp: remembers_def prune_def split: option.splits)

text \<open>A history of calls, each with the outcome of the source and the clock; the log of returned articles.\<close>

fun scrape_run :: "(string \<Rightarrow> string) \<Rightarrow> ((error + Article list) \<times> Time) list \<Rightarrow> Scraper \<Rightarrow> (Time \<times> Article) list" where
  "scrape_run sha [] s = []"
| "scrape_run sha ((fetched, now) # calls) s =
     (case FetchFresh sha fetched now s of
        (Inl e, s1) \<Rightarrow> scrape_run sha calls s1
      | (Inr fresh, s1) \<Rightarrow> map (Pair now) fresh @ scrape_run sha calls s1)"

lemma scrape_run_apart:
  "remembers sha s now0 lg \<Longrightarrow> sorted_wrt (apart sha (sc_ttl s)) lg \<Longrightarrow> 0 < sc_ttl s \<Longrightarrow> sorted (now0 # map snd calls) \<Longrightarrow>
     sorted_wrt (apart sha (sc_ttl s)) (lg @ scrape_run sha calls s)"
proof (induction calls arbitrary: s now0 lg)
  case (Cons c calls)
  obtain fetched now where c: "c = (fetched, now)" by (cases c)
  have now: "now0 \<le> now" "sorted (now # map snd calls)" using Cons.prems(4) c by simp_all
  note r = remembers_later [OF Cons.prems(1) now(1)]
  show ?case
  proof (cases fetched)
    case (Inl e)
    then show ?thesis using Cons.IH [OF r Cons.prems(2,3) now(2)] c by (simp add: FetchFresh_def)
  next
    case (Inr articles)
    obtain fresh s1 where k: "keep_fresh sha now articles s = (fresh, s1)" by (cases "keep_fresh sha now articles s")
    note st = keep_fresh_step [OF k r Cons.prems(2,3)]
    have "sc_ttl (prune now s1) = sc_ttl s" using st by (simp add: prune_def)
    then show ?thesis
      using Cons.IH [of "prune now s1" now "lg @ map (Pair now) fresh"] prune_remembers st now(2) Cons.prems(3) c Inr k
      by (simp add: FetchFresh_def)
  qed
qed simp

text \<open>C34: No story twice within the window: over any history of fetches with a clock that does not run backwards,
  two articles with the same hash are returned at least the TTL apart; in particular no batch holds the
  same story twice. Pruning the memory never undoes this.\<close>

theorem FetchFresh_dedup:
  assumes "0 < ttl" "sorted (map snd calls)"
  shows "sorted_wrt (\<lambda>(t, a) (t', a'). articleHash sha a = articleHash sha a' \<longrightarrow> t + ttl \<le> t')
    (scrape_run sha calls (NewScraper ttl))"
proof -
  obtain now0 where "sorted (now0 # map snd calls)"
    using assms(2) by (cases "map snd calls") (auto intro: order_refl that)
  then have "sorted_wrt (apart sha ttl) (scrape_run sha calls (NewScraper ttl))"
    using scrape_run_apart [of sha "NewScraper ttl" now0 "[]" calls] assms(1) by (simp add: NewScraper_def remembers_def)
  then show ?thesis by (simp add: case_prod_unfold)
qed

lemma keep_fresh_complete:
  "keep_fresh sha now as s = (fresh, s1) \<Longrightarrow> a \<in> set as \<Longrightarrow> 
     (\<exists>b \<in> set fresh. articleHash sha b = articleHash sha a) \<or>
     (\<exists>t. sc_seen s (articleHash sha a) = Some t \<and> now - t < sc_ttl s)"
proof (induction "as" arbitrary: s fresh)
  case (Cons x as)
  show ?case
  proof (cases "case sc_seen s (articleHash sha x) of Some firstSeen \<Rightarrow> now - firstSeen < sc_ttl s | None \<Rightarrow> False")
    case True
    then show ?thesis using Cons by (auto split: option.splits)
  next
    case False
    obtain rest where k: "keep_fresh sha now as (s\<lparr>sc_seen := (sc_seen s)(articleHash sha x \<mapsto> now)\<rparr>) = (rest, s1)" "fresh = x # rest"
      using Cons.prems(1) False by (auto simp: Let_def split: prod.splits)
    then show ?thesis using Cons.IH [OF k(1)] Cons.prems(2) by (auto split: if_splits)
  qed
qed simp

text \<open>Nothing is missed and nothing is kept for ever: of every article a fetch brings, one with the same hash
  is returned by this call or was seen within the TTL before it; and after the call the memory holds only
  entries younger than the TTL.\<close>

theorem FetchFresh_complete:
  assumes "FetchFresh sha (Inr articles) now s = (Inr fresh, s')"
  shows "(\<forall>a \<in> set articles. (\<exists>b \<in> set fresh. articleHash sha b = articleHash sha a) \<or>
       (\<exists>t. sc_seen s (articleHash sha a) = Some t \<and> now - t < sc_ttl s)) \<and>
    (\<forall>h t. sc_seen s' h = Some t \<longrightarrow> now - t < sc_ttl s')"
proof -
  obtain s1 where k: "keep_fresh sha now articles s = (fresh, s1)" "s' = prune now s1"
    using assms by (auto simp: FetchFresh_def split: prod.splits)
  then show ?thesis using keep_fresh_complete [OF k(1)] by (auto simp: prune_def split: option.splits if_splits)
qed

definition news :: "string \<Rightarrow> Article" where
  "news u = \<lparr>ar_Ticker = ''TCS'', ar_Title = ''t'', ar_URL = u, ar_Source = ''s'', ar_Description = '''', ar_PublishedAt = zero_time\<rparr>"

lemma FetchFresh_dedup_witness:
  "sorted_wrt (\<lambda>(t, a) (t', a'). articleHash id a = articleHash id a' \<longrightarrow> t + 5 \<le> t')
    (scrape_run id [(Inr [news ''u'', news ''v''], 1), (Inr [news ''u''], 3), (Inr [news ''u''], 6)] (NewScraper 5))"
  by (rule FetchFresh_dedup) simp_all

lemma FetchFresh_complete_witness:
  "\<exists>s' fresh. FetchFresh id (Inr [news ''u'']) 1 (NewScraper 5) = (Inr fresh, s') \<and> (\<exists>b \<in> set fresh. ar_URL b = ''u'')"
proof -
  obtain fresh s1 where k: "keep_fresh id 1 [news ''u''] (NewScraper 5) = (fresh, s1)"
    by (cases "keep_fresh id 1 [news ''u''] (NewScraper 5)")
  have f: "FetchFresh id (Inr [news ''u'']) 1 (NewScraper 5) = (Inr fresh, prune 1 s1)"
    by (simp add: FetchFresh_def k del: keep_fresh.simps)
  from FetchFresh_complete [OF f] obtain b where "b \<in> set fresh" "articleHash id b = ''u''"
    by (auto simp: NewScraper_def articleHash_def news_def)
  moreover have "fresh = [news ''u'']" using k by (simp add: NewScraper_def Let_def)
  ultimately show ?thesis using f by (auto simp: news_def)
qed

end
