(* ===== verification/Sentiment.thy ===== *)
theory Sentiment
  imports LLM Scraper Database Universe Gates
begin

text \<open>
  The Sentiment Analyst, \<open>src/analysts/sentiment/agent.go\<close>: the pipeline of one ticker (staleness guard, fresh
  news, scoring, persistence, announcement), the cycle over the universe, and the configuration from the
  environment. The language model is a function from articles to scores or errors, the clocks and the
  outcome of the news source are inputs, and the database is the one of \<open>Database\<close>.
\<close>

section \<open>The agent\<close>

record SentimentAgent =
  sa_js :: bool
  sa_scraper :: Scraper
  sa_universe :: "string list"
  sa_interval :: Duration
  sa_staleness :: Duration

definition newSentimentAnalyst :: "bool \<Rightarrow> Scraper \<Rightarrow> string list \<Rightarrow> Duration \<Rightarrow> Duration \<Rightarrow> SentimentAgent" where
  "newSentimentAnalyst js scraper universe interval staleness =
     \<lparr>sa_js = js, sa_scraper = scraper, sa_universe = universe, sa_interval = interval, sa_staleness = staleness\<rparr>"

text \<open>The value of a variable and the reading of durations are arguments.\<close>

definition parseDurationEnv :: "(string \<Rightarrow> Duration option) \<Rightarrow> string \<Rightarrow> Duration \<Rightarrow> Duration" where
  "parseDurationEnv parse_duration raw fallback =
     (if raw \<noteq> '''' then (case parse_duration raw of Some d \<Rightarrow> d | None \<Rightarrow> fallback) else fallback)"

text \<open>The values of \<open>SENTIMENT_UNIVERSE\<close> and \<open>QUANT_UNIVERSE\<close>.\<close>

definition resolveSentimentUniverse :: "string \<Rightarrow> string \<Rightarrow> string list" where
  "resolveSentimentUniverse raw quant =
     (if raw = '''' then un_Symbols (ResolveUniverse quant)
      else
        let symbols = filter (\<lambda>s. s \<noteq> '''') (map TrimSpace (split_on (CHR '','') raw))
        in if length symbols = 0 then un_Symbols (ResolveUniverse quant) else symbols)"

text \<open>The agent of \<open>NewAgent\<close>, once its connections stand.\<close>

definition production_analyst :: "(string \<Rightarrow> string) \<Rightarrow> (string \<Rightarrow> Duration option) \<Rightarrow> SentimentAgent" where
  "production_analyst getenv parse_duration =
     newSentimentAnalyst True (NewScraper (24 * Hour))
       (resolveSentimentUniverse (getenv ''SENTIMENT_UNIVERSE'') (getenv ''QUANT_UNIVERSE''))
       (parseDurationEnv parse_duration (getenv ''SENTIMENT_INTERVAL'') (15 * Minute))
       (parseDurationEnv parse_duration (getenv ''SENTIMENT_STALENESS'') (60 * Minute))"

section \<open>The pipeline\<close>

definition score_fields :: "SentimentScore \<Rightarrow> field list" where
  "score_fields s = [
     int_field ''id'' (ss_ID s),
     str_field ''ticker'' (ss_Ticker s),
     str_field ''bias'' (ss_Bias s),
     float_field ''confidence'' (ss_Confidence s),
     str_field_omit ''summary'' (ss_Summary s),
     str_field_omit ''source'' (ss_Source s),
     str_field_omit ''source_url'' (ss_SourceURL s),
     str_field_omit ''raw_response'' (ss_RawResponse s),
     time_field ''recorded_at'' (ss_RecordedAt s)]"

definition marshal_score :: "SentimentScore \<Rightarrow> error + json" where
  "marshal_score s = marshal (score_fields s)"

definition publishUpdate :: "SentimentAgent \<Rightarrow> SentimentScore \<Rightarrow> World \<Rightarrow> World" where
  "publishUpdate g score w =
     (if \<not> sa_js g then w
      else case marshal_score score of
        Inl _ \<Rightarrow> w
      | Inr data \<Rightarrow> snd (publish SubjectSentimentUpd data w))"

definition hasFreshScore :: "Time \<Rightarrow> SentimentAgent \<Rightarrow> string \<Rightarrow> World \<Rightarrow> (error + bool) \<times> World" where
  "hasFreshScore now g ticker w =
     (case LatestScore ticker w of
        (Inl e, w1) \<Rightarrow> (Inl e, w1)
      | (Inr None, w1) \<Rightarrow> (Inr False, w1)
      | (Inr (Some latest), w1) \<Rightarrow> (Inr (now - ss_RecordedAt latest < sa_staleness g), w1))"

text \<open>The loop over the fresh articles; \<open>clk\<close> is the clock when a score is stamped.\<close>

fun score_articles :: "(Article \<Rightarrow> error + SentimentScore) \<Rightarrow> (Article \<Rightarrow> Time) \<Rightarrow> SentimentAgent \<Rightarrow> string \<Rightarrow> Article list \<Rightarrow> World \<Rightarrow> World" where
  "score_articles llm clk g ticker [] w = w"
| "score_articles llm clk g ticker (article # articles) w =
     (case llm article of
        Inl _ \<Rightarrow> score_articles llm clk g ticker articles w
      | Inr score \<Rightarrow>
          (case SentimentStore_Insert (score\<lparr>ss_Ticker := ticker, ss_RecordedAt := clk article\<rparr>) w of
             (Inl _, w1) \<Rightarrow> score_articles llm clk g ticker articles w1
           | (Inr stored, w1) \<Rightarrow> score_articles llm clk g ticker articles (publishUpdate g stored w1)))"

text \<open>What a turn meets: the clock of the staleness guard, the outcome of the news source and the clock after
  it, the answers of the model and the clocks of the stamps.\<close>

record turn =
  tu_now :: Time
  tu_fetched :: "error + Article list"
  tu_fetch_now :: Time
  tu_llm :: "Article \<Rightarrow> error + SentimentScore"
  tu_clk :: "Article \<Rightarrow> Time"

definition processTicker :: "(string \<Rightarrow> string) \<Rightarrow> turn \<Rightarrow> string \<Rightarrow> SentimentAgent \<Rightarrow> World \<Rightarrow> error option \<times> SentimentAgent \<times> World" where
  "processTicker sha tu ticker g w =
     (case hasFreshScore (tu_now tu) g ticker w of
        (Inl e, w1) \<Rightarrow> (Some (Wrapf ''staleness check'' e), g, w1)
      | (Inr fresh, w1) \<Rightarrow>
          if fresh then (None, g, w1)
          else case FetchFresh sha (tu_fetched tu) (tu_fetch_now tu) (sa_scraper g) of
            (Inl e, sc) \<Rightarrow> (Some (Wrapf ''scrape'' e), g\<lparr>sa_scraper := sc\<rparr>, w1)
          | (Inr articles, sc) \<Rightarrow>
              if length articles = 0 then (None, g\<lparr>sa_scraper := sc\<rparr>, w1)
              else (None, g\<lparr>sa_scraper := sc\<rparr>, score_articles (tu_llm tu) (tu_clk tu) g ticker articles w1))"

text \<open>A cycle: one turn per ticker of the universe; an error is only logged.\<close>

fun run_tickers :: "(string \<Rightarrow> string) \<Rightarrow> (turn \<times> string) list \<Rightarrow> SentimentAgent \<Rightarrow> World \<Rightarrow> SentimentAgent \<times> World" where
  "run_tickers sha [] g w = (g, w)"
| "run_tickers sha ((tu, ticker) # rest) g w =
     (case processTicker sha tu ticker g w of (_, g1, w1) \<Rightarrow> run_tickers sha rest g1 w1)"

definition runCycle :: "(string \<Rightarrow> string) \<Rightarrow> turn list \<Rightarrow> SentimentAgent \<Rightarrow> World \<Rightarrow> SentimentAgent \<times> World" where
  "runCycle sha turns g w = run_tickers sha (zip turns (sa_universe g)) g w"

section \<open>What a turn can do to the world\<close>

text \<open>A stored score and its row, but for the time, which the database sets.\<close>

definition row_holds :: "SentimentScore \<Rightarrow> score_row \<Rightarrow> bool" where
  "row_holds s r \<longleftrightarrow> sr_confidence r = ss_Confidence s \<and> sr_bias r = ss_Bias s \<and> sr_summary r = ss_Summary s \<and>
     sr_source r = ss_Source s \<and> sr_source_url r = ss_SourceURL s \<and> sr_raw_response r = ss_RawResponse s"

text \<open>The announcement of a row: the encoding of a score with its id, its ticker and its contents.\<close>

definition announces :: "json \<Rightarrow> score_row \<Rightarrow> bool" where
  "announces j r \<longleftrightarrow> (\<exists>s. marshal_score s = Inr j \<and> ss_ID s = sr_id r \<and> ss_Ticker s = sr_ticker r \<and> row_holds s r)"

text \<open>A row that a turn may add: for its ticker, in the range of the table, with what the model made of one of the articles.\<close>

definition scored_row :: "(Article \<Rightarrow> error + SentimentScore) \<Rightarrow> string \<Rightarrow> Article list \<Rightarrow> score_row \<Rightarrow> bool" where
  "scored_row llm ticker articles r \<longleftrightarrow> sr_ticker r = ticker \<and> 0 \<le> sr_confidence r \<and> sr_confidence r \<le> 1 \<and>
     sr_bias r \<in> {''BULLISH'', ''BEARISH'', ''NEUTRAL''} \<and> (\<exists>a \<in> set articles. \<exists>s. llm a = Inr s \<and> row_holds s r)"

text \<open>Everything but the scores, the bus and what the calls consume stays; new scores come at the end.\<close>

definition scores_added :: "(Article \<Rightarrow> error + SentimentScore) \<Rightarrow> string \<Rightarrow> Article list \<Rightarrow> World \<Rightarrow> World \<Rightarrow> bool" where
  "scores_added llm ticker articles w w' \<longleftrightarrow>
     w_positions w' = w_positions w \<and> w_trade_log w' = w_trade_log w \<and>
     (\<exists>rows msgs. w_scores w' = w_scores w @ rows \<and> w_bus w' = w_bus w @ map (Pair SubjectSentimentUpd) msgs \<and>
        length rows \<le> length articles \<and> length msgs \<le> length rows \<and>
        (\<forall>r \<in> set rows. scored_row llm ticker articles r) \<and> (\<forall>j \<in> set msgs. \<exists>r \<in> set rows. announces j r))"

lemma scores_added_refl: "w_positions w' = w_positions w \<Longrightarrow> w_trade_log w' = w_trade_log w \<Longrightarrow> w_scores w' = w_scores w \<Longrightarrow>
    w_bus w' = w_bus w \<Longrightarrow> scores_added llm ticker articles w w'"
  by (simp add: scores_added_def)

lemma scored_row_mono: "scored_row llm t xs r \<Longrightarrow> set xs \<subseteq> set ys \<Longrightarrow> scored_row llm t ys r"
  unfolding scored_row_def by blast

lemma scores_added_mono:
  "scores_added llm t xs w w' \<Longrightarrow> set xs \<subseteq> set ys \<Longrightarrow> length xs \<le> length ys \<Longrightarrow> scores_added llm t ys w w'"
  unfolding scores_added_def by (meson le_trans scored_row_mono)

lemma scores_added_trans:
  assumes "scores_added llm t xs w w1" "scores_added llm t ys w1 w2" shows "scores_added llm t (xs @ ys) w w2"
proof -
  obtain r1 m1 where a: "w_scores w1 = w_scores w @ r1" "w_bus w1 = w_bus w @ map (Pair SubjectSentimentUpd) m1"
      "length r1 \<le> length xs" "length m1 \<le> length r1" "\<forall>r \<in> set r1. scored_row llm t xs r" "\<forall>j \<in> set m1. \<exists>r \<in> set r1. announces j r"
    using assms(1) unfolding scores_added_def by blast
  obtain r2 m2 where b: "w_scores w2 = w_scores w1 @ r2" "w_bus w2 = w_bus w1 @ map (Pair SubjectSentimentUpd) m2"
      "length r2 \<le> length ys" "length m2 \<le> length r2" "\<forall>r \<in> set r2. scored_row llm t ys r" "\<forall>j \<in> set m2. \<exists>r \<in> set r2. announces j r"
    using assms(2) unfolding scores_added_def by blast
  have "w_positions w2 = w_positions w" "w_trade_log w2 = w_trade_log w" using assms by (simp_all add: scores_added_def)
  moreover have "\<forall>r \<in> set (r1 @ r2). scored_row llm t (xs @ ys) r" using a(5) b(5) scored_row_mono by fastforce
  moreover have "\<forall>j \<in> set (m1 @ m2). \<exists>r \<in> set (r1 @ r2). announces j r" using a(6) b(6) by auto
  ultimately show ?thesis unfolding scores_added_def
    using a(1-4) b(1-4) by (intro conjI exI [of _ "r1 @ r2"] exI [of _ "m1 @ m2"]) simp_all
qed

text \<open>An insert adds the row of its score, or nothing; the score that is returned has the id of the row.\<close>

definition inserted :: "SentimentScore \<Rightarrow> World \<Rightarrow> World \<Rightarrow> score_row \<Rightarrow> bool" where
  "inserted s w w' r \<longleftrightarrow> w_scores w' = w_scores w @ [r] \<and> sr_ticker r = ss_Ticker s \<and> row_holds s r \<and>
     0 \<le> sr_confidence r \<and> sr_confidence r \<le> 1 \<and> sr_bias r \<in> {''BULLISH'', ''BEARISH'', ''NEUTRAL''}"

lemma insert_score_row:
  assumes "insert_score_stmt s v = (q, v')"
  shows "w_positions v' = w_positions v \<and> w_trade_log v' = w_trade_log v \<and> w_bus v' = w_bus v \<and>
    (case q of Inl _ \<Rightarrow> w_scores v' = w_scores v | Inr n \<Rightarrow> \<exists>r. inserted s v v' r \<and> sr_id r = n)"
  using assms by (cases "score_row_error s")
    (auto simp: insert_score_stmt_def Let_def inserted_def row_holds_def score_row_error_def split: if_splits)

lemma Insert_added:
  assumes "SentimentStore_Insert s w = (q, w')"
  shows "w_positions w' = w_positions w \<and> w_trade_log w' = w_trade_log w \<and> w_bus w' = w_bus w \<and>
    (w_scores w' = w_scores w \<or> (\<exists>r. inserted s w w' r)) \<and>
    (\<forall>x. q = Inr x \<longrightarrow> (\<exists>r. inserted s w w' r \<and> x = s\<lparr>ss_ID := sr_id r\<rparr>))"
proof -
  let ?v = "w\<lparr>w_db_faults := tl (w_db_faults w)\<rparr>"
  obtain p v' where st: "insert_score_stmt s ?v = (p, v')" by (cases "insert_score_stmt s ?v")
  obtain d w1 where d: "db_call (insert_score_stmt s) w = (d, w1)" by (cases "db_call (insert_score_stmt s) w")
  have q: "w' = w1" "q = map_sum id (\<lambda>n. s\<lparr>ss_ID := n\<rparr>) (wrap_error ''insert sentiment score'' d)"
    using assms d by (auto simp: SentimentStore_Insert_def)
  have c: "w1 = ?v \<or> w1 = v'" using db_call_cases [of "insert_score_stmt s" w] d st by auto
  have i: "inserted s ?v u r = inserted s w u r" for u r by (simp add: inserted_def)
  note row = insert_score_row [OF st, unfolded i]
  have "w_scores v' = w_scores w \<or> (\<exists>r. inserted s w v' r)" using row by (cases p) auto
  then have "w_scores w1 = w_scores w \<or> (\<exists>r. inserted s w w1 r)" using c by auto
  moreover have "\<exists>r. inserted s w w1 r \<and> x = s\<lparr>ss_ID := sr_id r\<rparr>" if x: "q = Inr x" for x
  proof -
    obtain n where n: "d = Inr n" "x = s\<lparr>ss_ID := n\<rparr>" using x q(2) by (cases d) (auto simp: wrap_error_def)
    then have "w1 = v'" "p = Inr n" using db_call_Inr [of "insert_score_stmt s" w n w1] d st by auto
    then show ?thesis using row n(2) by auto
  qed
  moreover have "w_positions w1 = w_positions w \<and> w_trade_log w1 = w_trade_log w \<and> w_bus w1 = w_bus w" using c row by auto
  ultimately show ?thesis using q(1) by blast
qed

lemma publishUpdate_frame:
  "w_positions (publishUpdate g s w) = w_positions w \<and> w_trade_log (publishUpdate g s w) = w_trade_log w \<and>
   w_scores (publishUpdate g s w) = w_scores w \<and>
   (w_bus (publishUpdate g s w) = w_bus w \<or>
     (\<exists>j. marshal_score s = Inr j \<and> w_bus (publishUpdate g s w) = w_bus w @ [(SubjectSentimentUpd, j)]))"
proof (cases "\<not> sa_js g \<or> (\<exists>e. marshal_score s = Inl e)")
  case True
  then show ?thesis by (auto simp: publishUpdate_def)
next
  case False
  then obtain j where j: "marshal_score s = Inr j" by (cases "marshal_score s") auto
  obtain r w' where p: "publish SubjectSentimentUpd j w = (r, w')" by (cases "publish SubjectSentimentUpd j w")
  then have "w_positions w' = w_positions w" "w_trade_log w' = w_trade_log w" "w_scores w' = w_scores w"
    by (auto simp: publish_def Let_def split: prod.splits)
  then show ?thesis using publish_bus [OF p] False j p by (auto simp: publishUpdate_def)
qed

text \<open>One article: its score is stored and announced, stored only, or neither.\<close>

lemma article_added:
  assumes "llm a = Inr s" "SentimentStore_Insert (s\<lparr>ss_Ticker := ticker, ss_RecordedAt := t\<rparr>) w = (q, w1)"
  shows "scores_added llm ticker [a] w (case q of Inl _ \<Rightarrow> w1 | Inr x \<Rightarrow> publishUpdate g x w1)"
proof -
  let ?s = "s\<lparr>ss_Ticker := ticker, ss_RecordedAt := t\<rparr>"
  note ins = Insert_added [OF assms(2)]
  have f: "w_positions w1 = w_positions w" "w_trade_log w1 = w_trade_log w" "w_bus w1 = w_bus w" using ins by blast+
  have row: "scored_row llm ticker [a] r" if "inserted ?s w w1 r" for r
    using that assms(1) by (auto simp: inserted_def scored_row_def row_holds_def)
  show ?thesis
  proof (cases q)
    case (Inl e)
    have "scores_added llm ticker [a] w w1"
    proof (cases "w_scores w1 = w_scores w")
      case True
      then show ?thesis using f by (simp add: scores_added_refl)
    next
      case False
      then obtain r where r: "inserted ?s w w1 r" using ins by blast
      then show ?thesis using f row [OF r] unfolding scores_added_def
        by (intro conjI exI [of _ "[r]"] exI [of _ "[]"]) (simp_all add: inserted_def)
    qed
    then show ?thesis using Inl by simp
  next
    case (Inr x)
    then obtain r where r: "inserted ?s w w1 r" "x = ?s\<lparr>ss_ID := sr_id r\<rparr>" using ins by blast
    have ann: "announces j r" if "marshal_score x = Inr j" for j
      using that r unfolding announces_def by (intro exI [of _ x]) (simp add: inserted_def row_holds_def)
    note p = publishUpdate_frame [of g x w1]
    obtain msgs where "w_bus (publishUpdate g x w1) = w_bus w @ map (Pair SubjectSentimentUpd) msgs" "length msgs \<le> 1"
      "\<forall>j \<in> set msgs. announces j r"
      using p f(3) ann that [of "[]"] that [of "[_]"] by auto
    then have "scores_added llm ticker [a] w (publishUpdate g x w1)"
      using p f(1,2) row [OF r(1)] r(1) unfolding scores_added_def
      by (intro conjI exI [of _ "[r]"] exI [of _ msgs]) (simp_all add: inserted_def)
    then show ?thesis using Inr by simp
  qed
qed

lemma score_articles_added: "scores_added llm ticker as w (score_articles llm clk g ticker as w)"
proof (induction "as" arbitrary: w)
  case (Cons a as)
  show ?case
  proof (cases "llm a")
    case (Inl e)
    have "scores_added llm ticker ([a] @ as) w (score_articles llm clk g ticker as w)"
      by (rule scores_added_trans [OF _ Cons.IH]) (simp add: scores_added_refl)
    then show ?thesis using Inl by simp
  next
    case (Inr s)
    obtain q w1 where i: "SentimentStore_Insert (s\<lparr>ss_Ticker := ticker, ss_RecordedAt := clk a\<rparr>) w = (q, w1)"
      by (cases "SentimentStore_Insert (s\<lparr>ss_Ticker := ticker, ss_RecordedAt := clk a\<rparr>) w")
    note one = article_added [where llm = llm and ticker = ticker and t = "clk a" and g = g, OF Inr i]
    have "score_articles llm clk g ticker (a # as) w =
        score_articles llm clk g ticker as (case q of Inl _ \<Rightarrow> w1 | Inr x \<Rightarrow> publishUpdate g x w1)"
      using Inr i by (cases q) simp_all
    then show ?thesis using scores_added_trans [OF one Cons.IH] by simp
  qed
qed (simp add: scores_added_refl)

lemma hasFreshScore_frame: "snd (hasFreshScore now g t w) = w\<lparr>w_db_faults := tl (w_db_faults w)\<rparr>"
  using LatestScore_frame [of t w]
  by (cases "LatestScore t w") (auto simp: hasFreshScore_def split: sum.split option.split)

lemma keep_fresh_part: "keep_fresh sha now as s = (fresh, s1) \<Longrightarrow> length fresh \<le> length as \<and> set fresh \<subseteq> set as"
  by (induction "as" arbitrary: s fresh) (fastforce simp: Let_def split: prod.splits if_splits)+

definition feed_articles :: "turn \<Rightarrow> Article list" where
  "feed_articles tu = (case tu_fetched tu of Inl _ \<Rightarrow> [] | Inr as \<Rightarrow> as)"

text \<open>C28: A turn of the Sentiment Analyst touches nothing but its own table and stream. Whatever the source, the model,
  the clocks and the faults of database and bus do, positions and trade log stay as they were; each row
  added is for the ticker of the turn, within the range of confidence and of biases, and holds what the model made of one of the
  articles of the feed, and there are no more of them than articles; every message is on the sentiment stream and
  encodes one of these rows, its id, ticker, bias, confidence and citation, and there are no more of them than
  rows; and a turn that reports an error has added nothing.\<close>

theorem processTicker_effect:
  assumes "processTicker sha tu ticker g w = (r, g', w')"
  shows "scores_added (tu_llm tu) ticker (if r = None then feed_articles tu else []) w w'"
proof -
  obtain h w1 where h: "hasFreshScore (tu_now tu) g ticker w = (h, w1)" by (cases "hasFreshScore (tu_now tu) g ticker w")
  then have w1: "w1 = w\<lparr>w_db_faults := tl (w_db_faults w)\<rparr>" using hasFreshScore_frame [of "tu_now tu" g ticker w] by simp
  then have z: "scores_added (tu_llm tu) ticker xs w w1" for xs by (intro scores_added_refl) simp_all
  show ?thesis
  proof (cases "h = Inr False \<and> (\<exists>as. tu_fetched tu = Inr as)")
    case False
    then have "w' = w1" using assms h
      by (cases "tu_fetched tu") (auto simp: processTicker_def FetchFresh_def split: sum.splits if_splits)
    then show ?thesis using z by blast
  next
    case True
    then obtain "as" where "as": "h = Inr False" "tu_fetched tu = Inr as" by blast
    obtain fresh s1 where k: "keep_fresh sha (tu_fetch_now tu) as (sa_scraper g) = (fresh, s1)"
      by (cases "keep_fresh sha (tu_fetch_now tu) as (sa_scraper g)")
    then have out: "r = None" "w' = (if fresh = [] then w1 else score_articles (tu_llm tu) (tu_clk tu) g ticker fresh w1)"
      using assms h "as" by (auto simp: processTicker_def FetchFresh_def split: if_splits)
    have "scores_added (tu_llm tu) ticker fresh w w'"
      using out(2) z scores_added_trans [OF z [of "[]"] score_articles_added] by simp
    then have "scores_added (tu_llm tu) ticker as w w'" using keep_fresh_part [OF k] by (blast intro: scores_added_mono)
    then show ?thesis using out(1) "as" by (simp add: feed_articles_def)
  qed
qed

section \<open>The staleness guard\<close>

lemma newest_None: "newest rs = None \<longleftrightarrow> rs = []"
  by (cases rs) (auto split: option.split)

lemma newest_max: "newest rs = Some m \<Longrightarrow> m \<in> set rs \<and> (\<forall>r \<in> set rs. sr_recorded_at r \<le> sr_recorded_at m)"
  by (induction rs arbitrary: m) (fastforce simp: newer_def newest_None split: option.splits if_splits)+

lemma LatestScore_cases:
  assumes "w_db_faults w = []"
  shows "LatestScore t w = ((case newest (filter (\<lambda>r. sr_ticker r = t) (w_scores w)) of
    None \<Rightarrow> Inr None | Some r \<Rightarrow> Inr (Some (scan_score r))), w)"
  using assms by (auto simp: LatestScore_def db_call_quiet latest_score_stmt_def ErrNoRows_def split: option.split)

text \<open>The staleness guard holds: when no call fails and a score of the ticker is younger than the window, the turn
  ends without an error and has changed nothing, not even the scraper's memory, so neither the
  source nor the model was asked.\<close>

theorem staleness_guard:
  assumes "w_db_faults w = []" "r \<in> set (w_scores w)" "sr_ticker r = ticker" "tu_now tu - sr_recorded_at r < sa_staleness g"
  shows "processTicker sha tu ticker g w = (None, g, w)"
proof -
  let ?rs = "filter (\<lambda>r. sr_ticker r = ticker) (w_scores w)"
  have r: "r \<in> set ?rs" using assms(2,3) by simp
  then have "newest ?rs \<noteq> None" unfolding newest_None by (metis empty_iff list.set(1))
  then obtain m where m: "newest ?rs = Some m" "sr_recorded_at r \<le> sr_recorded_at m"
    using newest_max [of ?rs] r by blast
  then have "LatestScore ticker w = (Inr (Some (scan_score m)), w)" using LatestScore_cases [OF assms(1)] by simp
  moreover have "tu_now tu - sr_recorded_at m < sa_staleness g" using m(2) assms(4) by linarith
  ultimately show ?thesis by (simp add: processTicker_def hasFreshScore_def scan_score_def)
qed

section \<open>From an article to the gate\<close>

lemma publishUpdate_faults: "w_db_faults (publishUpdate g s w) = w_db_faults w"
  by (auto simp: publishUpdate_def publish_def Let_def split: sum.split prod.split)

lemma Insert_faults: "SentimentStore_Insert s w = (r, w') \<Longrightarrow> w_db_faults w' = tl (w_db_faults w)"
  using db_call_cases [of "insert_score_stmt s" w]
  by (cases "db_call (insert_score_stmt s) w")
    (auto simp: SentimentStore_Insert_def insert_score_stmt_def Let_def split: option.splits)

lemma fresh_single:
  assumes "sc_seen s (articleHash sha a) = None"
  shows "\<exists>s1. FetchFresh sha (Inr [a]) now s = (Inr [a], s1)"
  using assms by (simp add: FetchFresh_def Let_def)

text \<open>C29: News reaches the gate: when no call fails, no score of the ticker is younger than the staleness window, none is dated after
  the clock of the database, the source brings one unseen article and the model returns a score for it, then the turn
  stores the score, and a sentiment gate that reads this table admits the ticker exactly when the confidence of
  that score is not below the floor. The gate has to be given the table with \<open>SetScoreStore\<close>: the Risk Manager that
  \<open>NewAgent\<close> builds has no score store, and its gate admits every ticker.\<close>

theorem scored_article_reaches_gate:
  assumes "db_ok w" "quiet w" "\<forall>r \<in> set (w_scores w). sr_recorded_at r \<le> w_clock w"
    and "\<forall>r \<in> set (w_scores w). sr_ticker r = ticker \<longrightarrow> sa_staleness g \<le> tu_now tu - sr_recorded_at r"
    and "tu_fetched tu = Inr [a]" "sc_seen (sa_scraper g) (articleHash sha a) = None"
    and "tu_llm tu a = Score http parse rfc prompt c a" "Score http parse rfc prompt c a = Inr s" "length ticker \<le> 10"
    and "processTicker sha tu ticker g w = (r, g', w')"
  shows "r = None \<and> length (w_scores w') = Suc (length (w_scores w)) \<and>
    (sentimentGate (Some (\<lambda>t. fst (LatestScore t w'))) ticker m = None \<longleftrightarrow> \<not> ss_Confidence s < m)"
proof -
  let ?rs = "filter (\<lambda>r. sr_ticker r = ticker) (w_scores w)"
  let ?s = "s\<lparr>ss_Ticker := ticker, ss_RecordedAt := tu_clk tu a\<rparr>"
  have nf: "w_db_faults w = []" using assms(2) by (simp add: quiet_def)
  have "hasFreshScore (tu_now tu) g ticker w = (Inr False, w)"
    using LatestScore_cases [OF nf, of ticker] newest_max [of ?rs] assms(4)
    by (cases "newest ?rs") (force simp: hasFreshScore_def scan_score_def)+
  moreover obtain sc where "FetchFresh sha (tu_fetched tu) (tu_fetch_now tu) (sa_scraper g) = (Inr [a], sc)"
    using fresh_single [OF assms(6)] assms(5) by auto
  ultimately have p: "r = None" "w' = score_articles (tu_llm tu) (tu_clk tu) g ticker [a] w"
    using assms(10) by (simp_all add: processTicker_def)
  obtain content where b: "buildScore parse content a = Inr s" using Score_built assms(8) by blast
  have "score_row_error ?s = None"
    using buildScore_Inr [OF b] assms(9) by (auto simp: score_row_error_def enum_defs)
  from LatestScore_after_Insert [OF assms(1) nf this assms(3)]
  obtain s' w1 where i: "SentimentStore_Insert ?s w = (Inr s', w1)"
      "fst (LatestScore ticker w1) = Inr (Some (s'\<lparr>ss_RecordedAt := w_clock w\<rparr>))" by auto
  have w': "w' = publishUpdate g s' w1" using p(2) assms(7,8) i(1) by simp
  have "ss_Confidence s' = ss_Confidence s"
    using i(1) by (auto simp: SentimentStore_Insert_def wrap_error_def split: prod.splits sum.splits)
  moreover have "fst (LatestScore ticker w') = fst (LatestScore ticker w1)"
  proof -
    have "w_db_faults w1 = []" "w_db_faults w' = []"
      using i(1) nf w' publishUpdate_faults [of g s' w1] Insert_faults [OF i(1)] by simp_all
    then show ?thesis using LatestScore_cases publishUpdate_frame [of g s' w1] w' by simp
  qed
  moreover have "length (w_scores w') = Suc (length (w_scores w))"
    using Insert_added [OF i(1)] publishUpdate_frame [of g s' w1] w' by (auto simp: inserted_def)
  ultimately show ?thesis using p(1) i(2) by (simp add: sentimentGate_def SentimentGateRaw_def)
qed

section \<open>An article is scored once or never\<close>

lemma keep_fresh_all_seen:
  "(\<forall>a \<in> set as. \<exists>t. sc_seen s (articleHash sha a) = Some t \<and> now - t < sc_ttl s) \<Longrightarrow> keep_fresh sha now as s = ([], s)"
  by (induction "as") (auto simp: Let_def)

lemma keep_fresh_marks:
  "keep_fresh sha now as s = (fresh, s1) \<Longrightarrow> 0 < sc_ttl s \<Longrightarrow>
     \<forall>a \<in> set as. sc_seen s (articleHash sha a) = None \<or> sc_seen s (articleHash sha a) = Some now \<Longrightarrow>
     sc_ttl s1 = sc_ttl s \<and> (\<forall>h. sc_seen s h = Some now \<longrightarrow> sc_seen s1 h = Some now) \<and>
     (\<forall>a \<in> set as. sc_seen s1 (articleHash sha a) = Some now)"
proof (induction "as" arbitrary: s fresh)
  case (Cons a as)
  let ?h = "articleHash sha a"
  show ?case
  proof (cases "sc_seen s ?h")
    case (Some t)
    then have "t = now" "keep_fresh sha now as s = (fresh, s1)" using Cons.prems by (auto simp: Let_def)
    then show ?thesis using Cons.IH [of s fresh] Cons.prems(2,3) Some by simp
  next
    case None
    then obtain rest where k: "keep_fresh sha now as (s\<lparr>sc_seen := (sc_seen s)(?h \<mapsto> now)\<rparr>) = (rest, s1)"
      using Cons.prems(1) by (auto simp: Let_def split: prod.splits)
    then show ?thesis using Cons.IH [OF k] Cons.prems(2,3) by simp
  qed
qed simp

text \<open>An article whose scoring fails is not tried again. Once a turn has taken a batch of unseen articles from
  the source, whatever became of their scoring, a later turn within the TTL that is offered the same articles
  adds no score, even if the model works again and no call fails.\<close>

theorem failed_article_lost:
  assumes "processTicker sha tu1 ticker g w = (r1, g1, w1)" "hasFreshScore (tu_now tu1) g ticker w = (Inr False, v)"
    and "tu_fetched tu1 = Inr articles" "\<forall>a \<in> set articles. sc_seen (sa_scraper g) (articleHash sha a) = None"
    and "0 < sc_ttl (sa_scraper g)"
    and "processTicker sha tu2 ticker g1 w2 = (r2, g2, w3)" "tu_fetched tu2 = Inr articles"
    and "tu_fetch_now tu2 - tu_fetch_now tu1 < sc_ttl (sa_scraper g)"
  shows "w_scores w3 = w_scores w2 \<and> w_bus w3 = w_bus w2"
proof -
  obtain fresh s1 where k: "keep_fresh sha (tu_fetch_now tu1) articles (sa_scraper g) = (fresh, s1)"
    by (cases "keep_fresh sha (tu_fetch_now tu1) articles (sa_scraper g)")
  have g1: "sa_scraper g1 = prune (tu_fetch_now tu1) s1"
    using assms(1-3) k by (auto simp: processTicker_def FetchFresh_def split: if_splits)
  note m = keep_fresh_marks [OF k assms(5)]
  have "keep_fresh sha (tu_fetch_now tu2) articles (sa_scraper g1) = ([], sa_scraper g1)"
    using m assms(4,5,8) by (intro keep_fresh_all_seen) (auto simp: g1 prune_def)
  moreover obtain h w4 where h: "hasFreshScore (tu_now tu2) g1 ticker w2 = (h, w4)" by (cases "hasFreshScore (tu_now tu2) g1 ticker w2")
  moreover have "w4 = w2\<lparr>w_db_faults := tl (w_db_faults w2)\<rparr>" using hasFreshScore_frame [of "tu_now tu2" g1 ticker w2] h by simp
  ultimately show ?thesis using assms(6,7) by (auto simp: processTicker_def FetchFresh_def split: sum.splits if_splits)
qed

section \<open>Examples\<close>

definition bull_row :: score_row where
  "bull_row = \<lparr>sr_id = 0, sr_ticker = ''TCS'', sr_confidence = 1, sr_bias = ''BULLISH'', sr_summary = '''', sr_source = '''',
     sr_recorded_at = 0, sr_source_url = ''u'', sr_raw_response = ''''\<rparr>"

definition test_analyst :: SentimentAgent where
  "test_analyst = newSentimentAnalyst True (NewScraper Hour) [''TCS''] Minute Minute"

definition test_turn :: "(Article \<Rightarrow> error + SentimentScore) \<Rightarrow> Time \<Rightarrow> turn" where
  "test_turn llm t = \<lparr>tu_now = t, tu_fetched = Inr [sample_article], tu_fetch_now = t, tu_llm = llm, tu_clk = (\<lambda>_. t)\<rparr>"

lemma processTicker_effect_witness:
  "w_positions (snd (snd (processTicker id (test_turn good_llm 5) ''TCS'' test_analyst empty_world))) = []"
proof -
  obtain r g w where p: "processTicker id (test_turn good_llm 5) ''TCS'' test_analyst empty_world = (r, g, w)"
    by (metis prod.exhaust)
  from processTicker_effect [OF p] have "w_positions w = []" by (simp add: scores_added_def empty_world_def)
  then show ?thesis by (simp only: p snd_conv)
qed

lemma staleness_guard_witness:
  "processTicker id (test_turn good_llm 5) ''TCS'' test_analyst (empty_world\<lparr>w_scores := [bull_row]\<rparr>) =
     (None, test_analyst, empty_world\<lparr>w_scores := [bull_row]\<rparr>)"
  by (rule staleness_guard [where r = bull_row])
    (simp_all add: empty_world_def bull_row_def test_turn_def test_analyst_def newSentimentAnalyst_def Minute_def nsec_def)

lemma unseen: "sc_seen (sa_scraper test_analyst) h = None" "sc_ttl (sa_scraper test_analyst) = Hour"
  by (simp_all add: test_analyst_def newSentimentAnalyst_def NewScraper_def)

lemma scored_article_reaches_gate_witness:
  "\<exists>w'. sentimentGate (Some (\<lambda>t. fst (LatestScore t w'))) ''TCS'' 1 = None"
proof -
  obtain s where s: "good_llm sample_article = Inr s" "ss_Confidence s = 1" using good_llm_score by blast
  obtain r g w where p: "processTicker id (test_turn good_llm 5) ''TCS'' test_analyst empty_world = (r, g, w)"
    by (metis prod.exhaust)
  have "quiet empty_world" "w_scores empty_world = []" by (simp_all add: quiet_def empty_world_def)
  from scored_article_reaches_gate [OF db_ok_empty this(1) _ _ _ _ _ s(1) [unfolded good_llm_def] _ p, of 1] this s(2)
  show ?thesis by (auto simp: test_turn_def unseen good_llm_def)
qed

lemma failed_article_lost_witness:
  "w_scores (snd (snd (processTicker id (test_turn good_llm 6) ''TCS''
     (fst (snd (processTicker id (test_turn (\<lambda>_. Inl (NewErr ''down'')) 5) ''TCS'' test_analyst empty_world))) empty_world))) = []"
proof -
  let ?down = "test_turn (\<lambda>_. Inl (NewErr ''down'')) 5"
  obtain r1 g1 w1 where p1: "processTicker id ?down ''TCS'' test_analyst empty_world = (r1, g1, w1)" by (metis prod.exhaust)
  obtain r2 g2 w3 where p2: "processTicker id (test_turn good_llm 6) ''TCS'' g1 empty_world = (r2, g2, w3)" by (metis prod.exhaust)
  have "w_scores empty_world = []" "w_db_faults empty_world = []" by (simp_all add: empty_world_def)
  then have h: "hasFreshScore (tu_now ?down) test_analyst ''TCS'' empty_world = (Inr False, empty_world)"
    using LatestScore_cases [of empty_world "''TCS''"] by (simp add: hasFreshScore_def)
  from failed_article_lost [OF p1 h _ _ _ p2, of "[sample_article]"]
  have "w_scores w3 = []" by (simp add: test_turn_def unseen Hour_def nsec_def) (simp add: empty_world_def)
  then show ?thesis by (simp only: p1 p2 snd_conv fst_conv)
qed

end
