(* ===== verification/Handlers.thy ===== *)
theory Handlers
  imports Ledger ExitMonitor Sentiment
begin

text \<open>
  The handlers of the agents as sequences of the moves of \<open>Ledger\<close>: each call to the database or the bus
  is at most one move, an order and the close after it together are one, and the Risk Manager, the trader, the exit
  monitor and the Sentiment Analyst make only such calls, whatever faults they meet. A position that an agent
  holds has the terms of a row of the table.
\<close>

section \<open>Calls as moves\<close>

lemma ListOpen_world: "snd (ListOpen w) = w\<lparr>w_db_faults := tl (w_db_faults w)\<rparr>"
proof -
  have "snd (db_call list_open_stmt w) = w\<lparr>w_db_faults := tl (w_db_faults w)\<rparr>"
    using db_call_cases [of list_open_stmt w] by (simp add: list_open_stmt_def)
  then show ?thesis by (cases "db_call list_open_stmt w") (simp add: ListOpen_def)
qed

lemma same_books_faults [simp]: "same_books w (w\<lparr>w_db_faults := fs\<rparr>)" "same_books w (w\<lparr>w_bus_faults := fs\<rparr>)"
  by (simp_all add: same_books_def)

lemma read_move: "db_ok w \<Longrightarrow> move w (snd (ListOpen w))" "db_ok w \<Longrightarrow> move w (snd (LatestScore t w))"
  unfolding ListOpen_world LatestScore_frame by (rule nothing; simp)+

lemma publish_books:
  assumes "db_ok w" "publish s j w = (r, w')"
  shows "db_ok w' \<and> (same_books w w' \<or> same_books (w\<lparr>w_bus := w_bus w @ [(s, j)]\<rparr>) w') \<and>
    (r = None \<longrightarrow> same_books (w\<lparr>w_bus := w_bus w @ [(s, j)]\<rparr>) w')"
proof -
  have "w_positions w' = w_positions w" "w_trade_log w' = w_trade_log w" "w_position_seq w' = w_position_seq w"
    using assms(2) by (auto simp: publish_def Let_def split: prod.splits)
  moreover have "db_ok w'" using operations_ok(7) [OF assms(1), of s j] assms(2) by simp
  ultimately show ?thesis using publish_bus [OF assms(2)] by (auto simp: same_books_def)
qed

lemma publish_speaks:
  assumes "db_ok w" "publish s j w = (r, w')" "\<forall>t. s \<noteq> ExecuteSubject t" shows "move w w'"
  using publish_books [OF assms(1,2)] assms(3) move.nothing move.speaks by blast

lemma publish_enters:
  assumes "db_ok w" "publish (ExecuteSubject (te_Ticker ex)) j w = (r, w')" "marshal_execution ex = Inr j" "entry_order (w_bus w) ex"
  shows "move w w'"
  using publish_books [OF assms(1,2)] assms(3,4) move.nothing move.enters by blast

lemma publish_leaves:
  assumes "db_ok w" "publish (ExecuteSubject (te_Ticker ex)) j w = (r, w')" "marshal_execution ex = Inr j"
    "row \<in> set (w_positions w)" "closes_row row ex"
  shows "move w w'"
  using publish_books [OF assms(1,2)] assms(3-5) move.nothing move.leaves by blast

lemma MarkClosed_books:
  assumes "db_ok w" "MarkClosed i x y w = (r, w')"
  shows "db_ok w' \<and> (same_books w w' \<or> (\<exists>v p. same_books (w\<lparr>w_positions := map (\<lambda>q. if pr_id q = i \<and> pr_status q = ''OPEN''
      then close_row v x p y q else q) (w_positions w)\<rparr>) w'))"
proof -
  let ?v = "w\<lparr>w_db_faults := tl (w_db_faults w)\<rparr>"
  define F where "F = (\<lambda>v p. map (\<lambda>q. if pr_id q = i \<and> pr_status q = ''OPEN'' then close_row v x p y q else q) (w_positions w))"
  have s: "snd (mark_closed_stmt i x y ?v) = ?v \<or> (\<exists>p. snd (mark_closed_stmt i x y ?v) = ?v\<lparr>w_positions := F ?v p\<rparr>)"
    by (auto simp: mark_closed_stmt_def F_def split: option.split)
  have "w' = snd (db_call (mark_closed_stmt i x y) w)"
    using assms(2) by (auto simp: MarkClosed_def split: prod.splits sum.splits if_splits)
  then have c: "w' = ?v \<or> w' = snd (mark_closed_stmt i x y ?v)" using db_call_cases [of "mark_closed_stmt i x y" w] by simp
  have "same_books w w' \<or> (\<exists>v p. same_books (w\<lparr>w_positions := F v p\<rparr>) w')"
  proof (cases "w' = ?v")
    case False
    with c s have "w' = ?v \<or> (\<exists>p. w' = ?v\<lparr>w_positions := F ?v p\<rparr>)" by simp
    with False obtain p where "w' = ?v\<lparr>w_positions := F ?v p\<rparr>" by blast
    then have "same_books (w\<lparr>w_positions := F ?v p\<rparr>) w'" by (simp add: same_books_def)
    then show ?thesis by blast
  qed simp
  then show ?thesis using operations_ok(3) [OF assms(1), of i x y] assms(2) unfolding F_def by simp
qed

text \<open>An order that is confirmed and the update after it, which may fail.\<close>

lemma ordered_close_move:
  assumes "db_ok w" "publish (ExecuteSubject (te_Ticker ex)) j w = (None, w1)" "marshal_execution ex = Inr j"
    "row \<in> set (w_positions w)" "closes_row row ex" "MarkClosed (pr_id row) (te_Price ex) y w1 = (r, w2)"
  shows "move w w2"
proof -
  have p: "db_ok w1" "same_books (w\<lparr>w_bus := w_bus w @ [(ExecuteSubject (te_Ticker ex), j)]\<rparr>) w1"
    using publish_books [OF assms(1,2)] by blast+
  let ?F = "\<lambda>v q. map (\<lambda>x. if pr_id x = pr_id row \<and> pr_status x = ''OPEN'' then close_row v (te_Price ex) q y x else x)"
  consider "db_ok w2" "same_books w1 w2" | v q where "db_ok w2" "same_books (w1\<lparr>w_positions := ?F v q (w_positions w1)\<rparr>) w2"
    using MarkClosed_books [OF p(1) assms(6)] by blast
  then show ?thesis
  proof cases
    case 1
    then show ?thesis using move.leaves [OF _ _ assms(3-5)] same_books_trans [OF p(2)] by blast
  next
    case 2
    have "same_books (w\<lparr>w_bus := w_bus w @ [(ExecuteSubject (te_Ticker ex), j)], w_positions := ?F v q (w_positions w)\<rparr>) w2"
      using p(2) 2(2) by (simp add: same_books_def)
    then show ?thesis using 2(1) by (rule move.closes [OF _ _ assms(3-5)])
  qed
qed

section \<open>The Risk Manager\<close>

lemma evaluate_move:
  assumes "db_ok w" "evaluate_intent db_ports c i g w = (r, w1)" shows "move w w1 \<and> w_bus w1 = w_bus w"
proof -
  have "w1 = w \<or> w1 = snd (LatestScore (ti_Ticker i) w)" using evaluate_world [of db_ports c i g w] assms(2) by simp
  then show ?thesis using evaluate_tables [OF assms(2)] read_move(2) [OF assms(1)] move.nothing [of w w] assms(1) by auto
qed

lemma handleIntent_moves:
  assumes "db_ok w" "handleIntent db_ports c1 c2 (Some ji) g w = (d, g', w')" "(SubjectIntentNew, ji) \<in> set (w_bus w)"
  shows "move\<^sup>*\<^sup>* w w'"
proof (cases "unmarshal_intent (Some ji)")
  case (Inl e)
  then show ?thesis using assms(2) by (simp add: handleIntent_def)
next
  case (Inr i)
  show ?thesis
  proof (cases "validate_intent i")
    case (Some e)
    then show ?thesis using assms(2) Inr by (simp add: handleIntent_def)
  next
    case valid: None
    obtain r w1 where e: "evaluate_intent db_ports c1 i g w = (r, w1)" by (cases "evaluate_intent db_ports c1 i g w")
    note m = evaluate_move [OF assms(1) e]
    have ok: "db_ok w1" using m move_ok by blast
    show ?thesis
    proof (cases r)
      case (Some er)
      then have "w' = w1" using assms(2) Inr valid e by (simp add: handleIntent_def)
      then show ?thesis using m by blast
    next
      case None
      obtain q g2 w2 where p: "promote db_ports c2 i g w1 = (q, g2, w2)" by (cases "promote db_ports c2 i g w1") auto
      have "w' = w2" using assms(2) Inr valid e None p by (auto simp: handleIntent_def split: option.splits if_splits)
      moreover have "w2 = w1 \<or> (\<exists>ex r. buildExecution c2 g i = Inr ex \<and> publishExecution db_ports g ex w1 = (r, w2))"
        using promote_cases [OF p] by blast
      moreover have "move w1 w2" if b: "buildExecution c2 g i = Inr ex" "publishExecution db_ports g ex w1 = (r, w2)" for ex r
      proof (cases "w2 = w1")
        case False
        then obtain j where j: "marshal_execution ex = Inr j" "publish (ExecuteSubject (te_Ticker ex)) j w1 = (r, w2)"
          using b(2) by (auto simp: publishExecution_def split: if_splits sum.splits)
        have "entry_order (w_bus w1) ex" using assms(3) Inr valid b(1) m unfolding entry_order_def by auto
        then show ?thesis using publish_enters [OF ok j(2,1)] by blast
      qed (use ok in \<open>simp add: move.nothing\<close>)
      ultimately show ?thesis using m by (metis r_into_rtranclp rtranclp.rtrancl_into_rtrancl)
    qed
  qed
qed

text \<open>A position as one of the agents holds it: the terms of a row.\<close>

definition held :: "Position \<Rightarrow> position_row \<Rightarrow> bool" where
  "held p r \<longleftrightarrow> pos_ID p = pr_id r \<and> pos_Ticker p = pr_ticker r \<and> pos_Side p = pr_side r \<and> pos_Quantity p = pr_quantity r"

lemma held_terms: "held p r \<Longrightarrow> same_terms r r' \<Longrightarrow> held p r'"
  by (simp add: held_def same_terms_def)

lemma held_scan: "held (scan_open r) r"
  by (simp add: held_def scan_open_def)

definition known :: "World \<Rightarrow> Position \<Rightarrow> bool" where
  "known w p \<longleftrightarrow> (\<exists>r \<in> set (w_positions w). held p r)"

lemma known_extends: "known w p \<Longrightarrow> extends_to w w' \<Longrightarrow> known w' p"
  unfolding known_def extends_to_def by (blast intro: held_terms)

lemma known_moves: "known w p \<Longrightarrow> move\<^sup>*\<^sup>* w w' \<Longrightarrow> known w' p"
  using known_extends moves_extend by blast

lemma listed_known: "ListOpen w = (Inr ps, w') \<Longrightarrow> p \<in> set ps \<Longrightarrow> known w p"
  using ListOpen_result [of w ps w'] held_scan by (force simp: known_def)

lemma long_row: "db_ok w \<Longrightarrow> r \<in> set (w_positions w) \<Longrightarrow> pr_side r = SideLong"
  by (auto simp: db_ok_def row_ok_def SideLong_def)

lemma square_off_closes: "held p r \<Longrightarrow> pr_side r = SideLong \<Longrightarrow> closes_row r (square_off_order p x now)"
  by (simp add: closes_row_def square_off_order_def held_def opposite_def isClosing_def HasPrefix_def)

lemma exit_closes: "held p r \<Longrightarrow> pr_side r = SideLong \<Longrightarrow> closes_row r (exit_order p q x now)"
  by (simp add: closes_row_def exit_order_def held_def isClosing_def HasPrefix_def)

lemma signal_moves:
  assumes "db_ok w" "rm_js g" "known w p" "signalSquareOff db_ports g p x now w = (r, w')"
  shows "move\<^sup>*\<^sup>* w w' \<and> (r = None \<longrightarrow> move\<^sup>*\<^sup>* w (snd (MarkClosed (pos_ID p) x y w')))"
proof (cases "marshal_execution (square_off_order p x now)")
  case (Inl e)
  then show ?thesis using assms(2,4) by (auto simp: signalSquareOff_def)
next
  case (Inr j)
  let ?ex = "square_off_order p x now"
  obtain row where row: "row \<in> set (w_positions w)" "held p row" using assms(3) by (auto simp: known_def)
  note cl = square_off_closes [OF row(2) long_row [OF assms(1) row(1)], of x now]
  obtain q w1 where pu: "publish (ExecuteSubject (te_Ticker ?ex)) j w = (q, w1)"
    by (cases "publish (ExecuteSubject (te_Ticker ?ex)) j w")
  have "te_Ticker ?ex = pos_Ticker p" "te_Price ?ex = x" "pr_id row = pos_ID p" using row(2) by (simp_all add: square_off_order_def held_def)
  moreover from this have "w' = w1 \<and> (r = None \<longrightarrow> q = None)"
    using assms(2,4) Inr pu by (auto simp: signalSquareOff_def split: option.splits)
  ultimately show ?thesis
    using publish_leaves [OF assms(1) pu Inr row(1) cl] ordered_close_move [OF assms(1) _ Inr row(1) cl, of w1 y] pu
    by (metis prod.collapse r_into_rtranclp)
qed

lemma liquidate_each_moves:
  "db_ok w \<Longrightarrow> rm_js g \<Longrightarrow> \<forall>p \<in> set ps. known w p \<Longrightarrow> liquidate_each db_ports now ps a g w = (a', g', w') \<Longrightarrow>
     move\<^sup>*\<^sup>* w w' \<and> rm_js g'"
proof (induction ps arbitrary: a g w)
  case (Cons p rest)
  let ?x = "exit_price_for g p"
  obtain r w1 where s: "signalSquareOff db_ports g p ?x now w = (r, w1)" by (cases "signalSquareOff db_ports g p ?x now w")
  have kp: "known w p" using Cons.prems(3) by simp
  note m1 = signal_moves [OF Cons.prems(1,2) kp s, of ReasonSquareOff]
  have ok1: "db_ok w1" using moves_ok [OF conjunct1 [OF m1] Cons.prems(1)] .
  have rest1: "\<forall>q \<in> set rest. known w1 q" using Cons.prems(3) known_moves [OF _ conjunct1 [OF m1]] by simp
  show ?case
  proof (cases r)
    case (Some e)
    then have "liquidate_each db_ports now rest False g w1 = (a', g', w')" using Cons.prems(4) s by (simp add: Let_def)
    from Cons.IH [OF ok1 Cons.prems(2) rest1 this] m1 show ?thesis by auto
  next
    case None
    obtain q w2 where mc: "MarkClosed (pos_ID p) ?x ReasonSquareOff w1 = (q, w2)"
      by (cases "MarkClosed (pos_ID p) ?x ReasonSquareOff w1")
    have m2: "move\<^sup>*\<^sup>* w w2" using m1 None mc by (metis snd_conv)
    define g1 where "g1 = (if q = None then g\<lparr>rm_exposure := map_option (Release (pos_Side p) (pos_Sector p)) (rm_exposure g)\<rparr> else g)"
    have "liquidate_each db_ports now rest (a \<and> q = None) g1 w2 = (a', g', w')"
      using Cons.prems(4) s None mc by (cases q) (simp_all add: Let_def g1_def)
    moreover have "rm_js g1" "\<forall>q \<in> set rest. known w2 q" using Cons.prems(2,3) known_moves [OF _ m2] by (auto simp: g1_def)
    ultimately have "move\<^sup>*\<^sup>* w2 w' \<and> rm_js g'" using Cons.IH moves_ok [OF m2 Cons.prems(1)] by blast
    then show ?thesis using m2 by (meson rtranclp_trans)
  qed
qed simp

lemma squareOff_moves:
  assumes "db_ok w" "rm_js g" "squareOff db_ports now g w = (g', w')" shows "move\<^sup>*\<^sup>* w w' \<and> rm_js g'"
proof (cases "ListOpen w")
  case (Pair r w0)
  have w0: "move w w0" "db_ok w0" using read_move(1) [OF assms(1)] Pair move_ok by auto
  obtain e g1 w1 where l: "liquidate db_ports now g w = (e, g1, w1)" by (cases "liquidate db_ports now g w") auto
  have "move\<^sup>*\<^sup>* w w1 \<and> rm_js g1"
  proof (cases "\<exists>ps. r = Inr ps \<and> length ps \<noteq> 0")
    case False
    then have "w1 = w0" "rm_js g1" using l Pair assms(2) by (auto simp: liquidate_def split: sum.splits)
    then show ?thesis using w0 by blast
  next
    case True
    then obtain ps where ps: "r = Inr ps" "length ps \<noteq> 0" by blast
    obtain a g2 w2 where e: "liquidate_each db_ports now ps True g w0 = (a, g2, w2)"
      by (cases "liquidate_each db_ports now ps True g w0") auto
    have "known w0 p" if "p \<in> set ps" for p
      using listed_known [OF Pair [unfolded ps(1)] that] known_moves w0(1) by blast
    then have "move\<^sup>*\<^sup>* w0 w2 \<and> rm_js g2" using liquidate_each_moves [OF w0(2) assms(2) _ e] by blast
    moreover have "w1 = w2" "rm_js g1 = rm_js g2" using l Pair ps e by (auto simp: liquidate_def)
    ultimately show ?thesis using w0(1) by (metis converse_rtranclp_into_rtranclp)
  qed
  then show ?thesis using assms(2,3) l by (auto simp: squareOff_def Let_def split: if_splits option.splits sum.splits)
qed

lemma tick_moves:
  assumes "db_ok w" "rm_js g" "tick db_ports now g w = (g', w')" shows "move\<^sup>*\<^sup>* w w' \<and> rm_js g'"
proof -
  obtain g1 w1 where s: "squareOff db_ports now g w = (g1, w1)" by (cases "squareOff db_ports now g w")
  note m = squareOff_moves [OF assms(1,2) s]
  have ok: "db_ok w1" using moves_ok m assms(1) by blast
  have "(w' = w1 \<or> w' = snd (ListOpen w1)) \<and> rm_js g'"
    using assms(3) s m by (auto simp: tick_def split: bool.splits option.splits prod.splits sum.splits)
  then show ?thesis using m read_move(1) [OF ok] by (metis rtranclp.rtrancl_into_rtrancl)
qed

section \<open>The trader\<close>

lemma marshal_finite:
  assumes "marshal_execution t = Inr j" shows "is_fin (te_Price t) \<and> is_fin (te_StopLoss t) \<and> is_fin (te_TakeProfit t)"
proof -
  have p: "is_fin x \<or> (\<exists>e. enc_float x = Inl e \<and> \<not> feq x 0)" for x by (cases x) (simp_all add: zero_float64_Fin feq_def)
  have "is_fin (te_Price t)"
    using assms p [of "te_Price t"] by (auto simp: marshal_execution_def execution_fields_def field_defs marshal_def)
  moreover have "is_fin (te_StopLoss t)"
    using assms p [of "te_StopLoss t"] by (cases "enc_float (te_Price t)") (auto simp: marshal_execution_def execution_fields_def field_defs marshal_def)
  moreover have "is_fin (te_TakeProfit t)"
    using assms p [of "te_TakeProfit t"] by (cases "enc_float (te_Price t)"; cases "enc_float (te_StopLoss t)"; cases "feq (te_StopLoss t) 0")
      (auto simp: marshal_execution_def execution_fields_def field_defs marshal_def)
  ultimately show ?thesis by blast
qed

text \<open>What the trader reads of an order in the stream: an entry order as it was built, and of a closing order
  at least what makes it one.\<close>

lemma entry_sendable:
  assumes "entry_order bus ex" "marshal_execution ex = Inr j" shows "sendable_execution ex \<and> validate_execution ex = None"
proof -
  obtain ji i c g where e: "unmarshal_intent (Some ji) = Inr i" "validate_intent i = None" "buildExecution c g i = Inr ex"
    using assms(1) by (auto simp: entry_order_def)
  have f: "is_fin (te_Price ex)" "is_fin (te_StopLoss ex)" "is_fin (te_TakeProfit ex)"
    using marshal_finite [OF assms(2)] by blast+
  have b: "te_Price ex = ti_CurrentPrice i" "te_StopLoss ex = stopLossFor i" "te_PositionID ex = 0"
    "te_TakeProfit ex = calculateTakeProfit (ti_Side i) (ti_CurrentPrice i) (stopLossFor i)"
    "te_Quantity ex = CalculateQuantity (rm_capital g) (ti_CurrentPrice i) (stopLossFor i)"
    using e(3) by (auto simp: buildExecution_def Let_def split: if_splits)
  have "in_int64 (f64_to_int x)" for x by (cases x) (simp_all add: in_int64_def)
  then have "in_int64 (te_Quantity ex)"
    unfolding b CalculateQuantity_def CalculateQuantityPct_def by (auto simp: Let_def in_int64_def)
  moreover have "is_f64 (te_StopLoss ex)" "is_f64 (te_TakeProfit ex)"
    unfolding b by (auto simp: stopLossFor_def calculateTakeProfit_def Let_def)
  ultimately show ?thesis using f unmarshal_intent_price [OF e(1)] built_valid [OF e(3,2)] b
    by (simp add: sendable_execution_def fin64_def in_int64_def)
qed

lemma entry_read_back:
  assumes "entry_order bus ex" "marshal_execution ex = Inr j" shows "unmarshal_execution (Some j) = Inr ex"
  using sendable_read_back [OF conjunct1 [OF entry_sendable [OF assms]]] assms(2) by auto

lemma set_float_of_rat: "set_float f (json_of_rat r) st = (if is_fin (rnd r) then (f (rnd r) st, False) else (st, True))"
  by (auto simp: json_of_rat_def)

lemma closing_read_back:
  assumes "closes_row r ex" "marshal_execution ex = Inr j" "unmarshal_execution (Some j) = Inr x"
  shows "isClosing x \<and> te_Side x = SideShort"
proof -
  have z: "te_StopLoss ex = 0" "te_TakeProfit ex = 0" "isClosing ex" "te_Side ex = SideShort"
    using assms(1) by (simp_all add: closes_row_def)
  have "te_ExecutionRef x = te_ExecutionRef ex \<and> te_SignalReason x = te_SignalReason ex \<and> te_Side x = te_Side ex"
    using assms(2,3) z(1,2) by (cases "te_Price ex") (auto simp: marshal_execution_def unmarshal_execution_def execution_fields_def
        field_defs marshal_def unmarshal_def zero_execution_def set_float_of_rat split: if_splits)
  then show ?thesis using z(3,4) by (simp add: isClosing_def)
qed

lemma TradeLog_books:
  assumes "db_ok w" "TradeLogStore_Insert x StatusSimulated w = (e, w')"
  shows "db_ok w' \<and> (same_books w w' \<or>
    trade_row_error w x StatusSimulated = None \<and> same_books (w\<lparr>w_trade_log := w_trade_log w @ [new_trade_row x w]\<rparr>) w')"
proof -
  let ?v = "w\<lparr>w_db_faults := tl (w_db_faults w)\<rparr>" and ?s = "insert_trade_stmt x StatusSimulated"
  have v: "trade_row_error ?v x StatusSimulated = trade_row_error w x StatusSimulated" by (simp add: trade_row_error_def)
  have "w' = snd (db_call ?s w)"
    using assms(2) by (auto simp: TradeLogStore_Insert_def split: prod.splits sum.splits)
  then consider "w' = ?v" | "w' = snd (?s ?v)" using db_call_cases [of ?s w] by metis
  then have "same_books w w' \<or>
    trade_row_error w x StatusSimulated = None \<and> same_books (w\<lparr>w_trade_log := w_trade_log w @ [new_trade_row x w]\<rparr>) w'"
  proof cases
    case 2
    then show ?thesis by (cases "trade_row_error w x StatusSimulated")
        (simp_all add: insert_trade_stmt_def Let_def v same_books_def new_trade_row_def)
  qed simp
  then show ?thesis using operations_ok(4) [OF assms(1), of x StatusSimulated] assms(2) by simp
qed

text \<open>The audit row of a closing order never fits its table.\<close>

lemma closing_not_logged:
  "db_ok w \<Longrightarrow> TradeLogStore_Insert x StatusSimulated w = (e, w') \<Longrightarrow> te_Side x = SideShort \<Longrightarrow> same_books w w' \<and> db_ok w'"
  using TradeLog_books [of w x e w'] by (auto simp: trade_row_error_def SideShort_def split: if_splits)

lemma Insert_books:
  assumes "db_ok w" "PositionStore_Insert p w = (r, w')"
  shows "db_ok w' \<and> (same_books w w' \<and> isl r \<or>
    position_row_error w p = None \<and> same_books (w\<lparr>w_positions := w_positions w @ [new_position_row p w]\<rparr>) w' \<and>
    (\<forall>q. r = Inr q \<longrightarrow> pos_ID q = w_position_seq w))"
proof -
  let ?v = "w\<lparr>w_db_faults := tl (w_db_faults w)\<rparr>" and ?s = "insert_position_stmt p"
  let ?u = "?v\<lparr>w_position_seq := w_position_seq w + 1, w_positions := w_positions w @ [new_position_row p w]\<rparr>"
  have st: "?s ?v = (case position_row_error w p of Some e \<Rightarrow> (Inl e, ?v\<lparr>w_position_seq := w_position_seq w + 1\<rparr>)
      | None \<Rightarrow> (Inr (w_position_seq w), ?u))"
    by (cases "position_row_error w p") (simp_all add: insert_position_stmt_def Let_def position_error_frame new_row_frame)
  obtain q w1 where d: "db_call ?s w = (q, w1)" by (cases "db_call ?s w")
  have r: "w' = w1" "isl r = isl q" "\<And>y. r = Inr y \<Longrightarrow> \<exists>n. q = Inr n \<and> pos_ID y = n"
    using assms(2) d by (auto simp: PositionStore_Insert_def wrap_error_def split: sum.splits)
  have "same_books w w1 \<and> isl q \<or> position_row_error w p = None \<and>
      same_books (w\<lparr>w_positions := w_positions w @ [new_position_row p w]\<rparr>) w1 \<and> (\<forall>n. q = Inr n \<longrightarrow> n = w_position_seq w)"
    using d st by (cases "next_fault (w_db_faults w)"; cases "position_row_error w p")
      (auto simp: db_call_def Let_def same_books_def)
  then show ?thesis using r operations_ok(1) [OF assms(1), of p] assms(2) by auto
qed

lemma position_opens:
  assumes "ledger_ok w" "position_row_error w (posFromExec x) = None"
    and "same_books (w\<lparr>w_positions := w_positions w @ [new_position_row (posFromExec x) w]\<rparr>) w'" "db_ok w'"
    and "entry_order (w_bus w) x" "posted (w_bus w) x" "\<not> isClosing x" "validate_position (posFromExec x) = None"
  shows "move w w'"
proof (rule move.opens [OF assms(3,4) _ _ assms(5,6)])
  show "pr_status (new_position_row (posFromExec x) w) = ''OPEN''" "w_position_seq w \<le> pr_id (new_position_row (posFromExec x) w)"
    by (simp_all add: new_position_row_def posFromExec_def Let_def PositionOpen_def)
  show "opens_row x (new_position_row (posFromExec x) w)"
    using assms(7,8) same_terms_refl unfolding opens_row_def by blast
qed

text \<open>The audit row of an opening order belongs to the row just opened.\<close>

lemma opening_fills:
  assumes "ledger_ok w" "db_ok w'" "r \<in> set (w_positions w)" "r = new_position_row (posFromExec x) v"
    and "\<forall>f \<in> set (w_trade_log w). tr_position_id f \<noteq> pr_id r"
    and "TradeLogStore_Insert (x\<lparr>te_PositionID := pr_id r\<rparr>) StatusSimulated w = (e, w')"
  shows "move w w'"
proof -
  let ?x = "x\<lparr>te_PositionID := pr_id r\<rparr>"
  have "fills_row r (new_trade_row ?x w)"
    unfolding assms(4) by (simp add: fills_row_def new_trade_row_def new_position_row_def posFromExec_def Let_def)
  moreover have "pr_id r \<notin> tr_position_id ` set (w_trade_log w)" using assms(5) by force
  moreover have "db_ok w" using assms(1) by (simp add: ledger_ok_def)
  ultimately show ?thesis using TradeLog_books [OF _ assms(6)] move.nothing move.fills [OF _ _ assms(3)] by blast
qed

text \<open>Carrying out an entry order opens its position and fills it, as far as the database lets it.\<close>

lemma Execute_entry_moves:
  assumes "ledger_ok w" "entry_order (w_bus w) x" "posted (w_bus w) x" "PaperTrader_Execute c x w = (r, w')"
  shows "move\<^sup>*\<^sup>* w w'"
proof -
  have ok: "db_ok w" using assms(1) by (simp add: ledger_ok_def)
  note h = hasExecution_frame
  from assms(4) show ?thesis
  proof (cases rule: Execute_paths)
    case (closing e)
    have "te_PositionID x = 0" using assms(2) built_valid unfolding entry_order_def by blast
    moreover have "0 \<notin> pr_id ` set (w_positions w)" using assms(1) by (force simp: ledger_ok_def entries_ok_def)
    ultimately have "trade_row_error w x StatusSimulated \<noteq> None" by (simp add: trade_row_error_def)
    then have "same_books w w' \<and> db_ok w'" using TradeLog_books [OF ok closing(2)] by auto
    then have "move w w'" using move.nothing by blast
    then show ?thesis by (rule r_into_rtranclp)
  next
    case dup
    then show ?thesis using h [OF dup(2)] ok move.nothing [of w w'] by auto
  next
    case invalid
    then show ?thesis using h [OF invalid(2)] ok move.nothing [of w w'] by auto
  next
    case (failed w1 e)
    have w1: "same_books w w1" "db_ok w1" using h [OF failed(2)] ok by simp_all
    have l: "ledger_ok w1" by (rule ledger_same [OF assms(1) w1])
    have eb: "entry_order (w_bus w1) x" "posted (w_bus w1) x" using assms(2,3) w1(1) by (simp_all add: same_books_def)
    have "move w w1" using w1 by (rule move.nothing)
    moreover have "move w1 w'"
      using Insert_books [OF w1(2) failed(4)] position_opens [OF l _ _ _ eb failed(1,3)] move.nothing [of w1 w'] by blast
    ultimately show ?thesis by (meson r_into_rtranclp rtranclp_trans)
  next
    case (opened w1 p w2 e)
    have w1: "same_books w w1" "db_ok w1" using h [OF opened(2)] ok by simp_all
    have l: "ledger_ok w1" by (rule ledger_same [OF assms(1) w1])
    have i: "position_row_error w1 (posFromExec x) = None" "pos_ID p = w_position_seq w1"
      "same_books (w1\<lparr>w_positions := w_positions w1 @ [new_position_row (posFromExec x) w1]\<rparr>) w2" "db_ok w2"
      using Insert_books [OF w1(2) opened(4)] by auto
    have eb: "entry_order (w_bus w1) x" "posted (w_bus w1) x" using assms(2,3) w1(1) by (simp_all add: same_books_def)
    have m1: "move w w1" using w1 by (rule move.nothing)
    have m2: "move w1 w2" by (rule position_opens [OF l i(1,3,4) eb opened(1,3)])
    have old: "tr_position_id f < w_position_seq w1" if "f \<in> set (w_trade_log w1)" for f
      using l that by (fastforce simp: ledger_ok_def fills_ok_def fills_row_def db_ok_def)
    have r: "new_position_row (posFromExec x) w1 \<in> set (w_positions w2)" "w_trade_log w2 = w_trade_log w1"
      "pr_id (new_position_row (posFromExec x) w1) = pos_ID p"
      using i(2,3) by (auto simp: same_books_def new_position_row_def)
    have "move w2 w'"
    proof (rule opening_fills [OF move_keeps [OF m2 l] _ r(1) refl])
      show "db_ok w'" using operations_ok(4) [OF i(4), of "x\<lparr>te_PositionID := pos_ID p\<rparr>" StatusSimulated] opened(5) by simp
      show "\<forall>f\<in>set (w_trade_log w2). tr_position_id f \<noteq> pr_id (new_position_row (posFromExec x) w1)"
        unfolding r(2,3) i(2) using old by force
    qed (use opened(5) r(3) in simp)
    then show ?thesis using m1 m2 by (meson r_into_rtranclp rtranclp_trans)
  qed
qed

text \<open>The handler of executions, for a message of the stream.\<close>

lemma handleExecution_moves:
  assumes "ledger_ok w" "(ExecuteSubject t, j) \<in> set (w_bus w)" "handleExecution PaperTrader_Execute c (Some j) w = (d, w')"
  shows "move\<^sup>*\<^sup>* w w'"
proof (cases "\<exists>x. unmarshal_execution (Some j) = Inr x \<and> validate_execution x = None")
  case False
  then show ?thesis using paper.handle_invalid [OF False, of c w] assms(3) by simp
next
  case True
  then obtain x where x: "unmarshal_execution (Some j) = Inr x" "validate_execution x = None" by blast
  obtain r v where e: "PaperTrader_Execute c x w = (r, v)" by (cases "PaperTrader_Execute c x w")
  have v: "w' = v" using paper.handle_valid(1) [OF x, of c w] assms(3) e by simp
  obtain ex where ex: "marshal_execution ex = Inr j" "te_Ticker ex = t"
    "entry_order (w_bus w) ex \<or> (\<exists>r \<in> set (w_positions w). closes_row r ex)"
    using assms(1,2) unfolding ledger_ok_def orders_ok_def by blast
  from ex(3) show ?thesis
  proof
    assume en: "entry_order (w_bus w) ex"
    then have "ex = x" using entry_read_back [OF en ex(1)] x(1) by simp
    moreover have "posted (w_bus w) ex" using ex(1,2) assms(2) by (auto simp: posted_def)
    ultimately show ?thesis using Execute_entry_moves [OF assms(1) _ _ e] en v by simp
  next
    assume "\<exists>r \<in> set (w_positions w). closes_row r ex"
    then have c: "isClosing x" "te_Side x = SideShort" using closing_read_back [OF _ ex(1) x(1)] by blast+
    have "\<exists>err. TradeLogStore_Insert x StatusSimulated w = (err, v)"
      using e c(1) by (auto simp: PaperTrader_Execute_def split: prod.splits option.splits)
    then have "same_books w v \<and> db_ok v" using closing_not_logged [OF _ _ c(2)] assms(1) unfolding ledger_ok_def by blast
    then show ?thesis using v move.nothing [of w v] by blast
  qed
qed

section \<open>The exit monitor\<close>

definition cache_known :: "ExitMonitor \<Rightarrow> World \<Rightarrow> bool" where
  "cache_known em w \<longleftrightarrow> (\<forall>t. \<forall>p \<in> set (cached em t). known w p)"

lemma cache_extends: "cache_known em w \<Longrightarrow> move\<^sup>*\<^sup>* w w' \<Longrightarrow> cache_known em w'"
  unfolding cache_known_def using known_moves by blast

lemma Refresh_moves:
  assumes "db_ok w" "cache_known em w" "Refresh db_ports em w = (e, em', w')"
  shows "move\<^sup>*\<^sup>* w w' \<and> cache_known em' w'"
proof (cases "ListOpen w")
  case (Pair r v)
  have m: "move\<^sup>*\<^sup>* w v" using read_move(1) [OF assms(1)] Pair by auto
  have v: "w' = v" using assms(3) Pair by (cases r) (simp_all add: Refresh_def)
  show ?thesis
  proof (cases r)
    case (Inl x)
    then show ?thesis using assms(3) Pair v m cache_extends [OF assms(2) m] by (simp add: Refresh_def)
  next
    case (Inr ps)
    then have em: "em' = em\<lparr>em_cache := fold add_to_cache ps Map.empty\<rparr>" using assms(3) Pair by (simp add: Refresh_def)
    have "known v p" if "p \<in> set ps" for p using known_moves [OF listed_known [OF Pair [unfolded Inr] that] m] .
    then have "cache_known em' v" unfolding cache_known_def em cached_fold by simp
    then show ?thesis using m v by simp
  qed
qed

lemma em_close_moves:
  assumes "db_ok w" "known w p" "em_close db_ports c p q x em w = (em', w')"
  shows "move\<^sup>*\<^sup>* w w' \<and> (\<forall>t. set (cached em' t) \<subseteq> set (cached em t))"
proof -
  have sub: "\<forall>t. set (cached em' t) \<subseteq> set (cached em t)"
    using assms(3) by (auto simp: em_close_def em_release_def dropFromCache_def cached_def split: sum.splits prod.splits option.splits if_splits)
  show ?thesis
  proof (cases "marshal_execution (exit_order p q x c)")
    case (Inl e)
    then show ?thesis using assms(3) sub by (auto simp: em_close_def)
  next
    case (Inr j)
    let ?ex = "exit_order p q x c"
    obtain row where row: "row \<in> set (w_positions w)" "held p row" using assms(2) by (auto simp: known_def)
    note cl = exit_closes [OF row(2) long_row [OF assms(1) row(1)]]
    obtain r w1 where pu: "publish (ExecuteSubject (pos_Ticker p)) j w = (r, w1)"
      by (cases "publish (ExecuteSubject (pos_Ticker p)) j w")
    have t: "te_Ticker ?ex = pos_Ticker p" "te_Price ?ex = x" "pr_id row = pos_ID p"
      using row(2) by (simp_all add: exit_order_def held_def)
    obtain r2 w2 where mc: "MarkClosed (pos_ID p) x q w1 = (r2, w2)" by (cases "MarkClosed (pos_ID p) x q w1")
    have "r = None \<and> w' = w2 \<or> w' = w1" using assms(3) Inr pu mc by (cases r; cases r2) (auto simp: em_close_def)
    moreover have "move w w1" using publish_leaves [OF assms(1) _ Inr row(1) cl] pu t(1) by simp
    moreover have "move w w2" if "r = None"
      using ordered_close_move [OF assms(1) _ Inr row(1) cl] pu mc that t by simp
    ultimately show ?thesis using sub by blast
  qed
qed

lemma close_targets_moves:
  "db_ok w \<Longrightarrow> \<forall>(p, q) \<in> set ts. known w p \<Longrightarrow> close_targets db_ports clk ts x em w = (em', w') \<Longrightarrow>
     move\<^sup>*\<^sup>* w w' \<and> (\<forall>t. set (cached em' t) \<subseteq> set (cached em t))"
proof (induction ts arbitrary: em w)
  case (Cons pq ts)
  obtain p q where t: "pq = (p, q)" by (cases pq)
  obtain em1 w1 where c: "em_close db_ports (clk (pos_ID p)) p q x em w = (em1, w1)"
    by (cases "em_close db_ports (clk (pos_ID p)) p q x em w")
  have k: "known w p" using Cons.prems(2) t by simp
  note m = em_close_moves [OF Cons.prems(1) k c]
  have "\<forall>(p, q) \<in> set ts. known w1 p" using Cons.prems(2) known_moves [OF _ conjunct1 [OF m]] by auto
  moreover have "close_targets db_ports clk ts x em1 w1 = (em', w')" using Cons.prems(3) c t by simp
  ultimately have "move\<^sup>*\<^sup>* w1 w' \<and> (\<forall>t. set (cached em' t) \<subseteq> set (cached em1 t))"
    using Cons.IH moves_ok [OF conjunct1 [OF m] Cons.prems(1)] by blast
  then show ?case using m by (meson rtranclp_trans subset_trans)
qed simp

lemma HandlePrice_moves:
  assumes "db_ok w" "cache_known em w" "HandlePrice db_ports c1 c2 clk subj data em w = (em', w')"
  shows "move\<^sup>*\<^sup>* w w' \<and> cache_known em' w'"
proof (cases "em' = em \<and> w' = w")
  case True
  then show ?thesis using assms(2) by simp
next
  case False
  then have "\<exists>tk :: PriceTick. em_evaluate db_ports c1 c2 clk (tickerOf subj) (pt_Price tk) em w = (em', w')"
    using assms(3) by (cases "unmarshal_tick data") (auto simp: HandlePrice_def split: if_splits)
  then obtain tk :: PriceTick where e: "em_evaluate db_ports c1 c2 clk (tickerOf subj) (pt_Price tk) em w = (em', w')" by blast
  obtain ts em1 where s: "select_targets (cached em (tickerOf subj)) (pt_Price tk) em = (ts, em1)"
    by (cases "select_targets (cached em (tickerOf subj)) (pt_Price tk) em")
  have c: "close_targets db_ports clk ts (pt_Price tk) em1 w = (em', w')"
    using e s False by (auto simp: em_evaluate_def split: if_splits)
  note sm = select_targets_marks [OF s]
  have "\<forall>(p, q) \<in> set ts. known w p" using sm assms(2) unfolding cache_known_def by fastforce
  from close_targets_moves [OF assms(1) this c] have m: "move\<^sup>*\<^sup>* w w'" "\<forall>t. set (cached em' t) \<subseteq> set (cached em1 t)" by blast+
  have "cached em1 t = cached em t" for t using sm by (simp add: cached_def)
  then have "\<forall>t. \<forall>p \<in> set (cached em' t). known w' p"
    using m(2) cache_extends [OF assms(2) m(1)] unfolding cache_known_def by fastforce
  then show ?thesis using m(1) by (simp add: cache_known_def)
qed

section \<open>The Sentiment Analyst\<close>

lemma score_move:
  assumes "db_ok w" "SentimentStore_Insert s w = (r, w')" shows "move w w'"
proof (rule move.nothing)
  let ?v = "w\<lparr>w_db_faults := tl (w_db_faults w)\<rparr>"
  have "w' = snd (db_call (insert_score_stmt s) w)"
    using assms(2) by (auto simp: SentimentStore_Insert_def split: prod.splits)
  then have "w' = ?v \<or> w' = snd (insert_score_stmt s ?v)" using db_call_cases [of "insert_score_stmt s" w] by simp
  moreover have "same_books w (snd (insert_score_stmt s ?v))"
    by (auto simp: insert_score_stmt_def Let_def same_books_def split: option.split)
  ultimately show "same_books w w'" by auto
  show "db_ok w'" using operations_ok(5) [OF assms(1), of s] assms(2) by simp
qed

lemma update_moves: "db_ok w \<Longrightarrow> move\<^sup>*\<^sup>* w (publishUpdate g s w)"
proof -
  assume ok: "db_ok w"
  have "SubjectSentimentUpd \<noteq> ExecuteSubject t" for t by (simp add: subject_defs)
  then have "move w (snd (publish SubjectSentimentUpd j w))" for j
    using publish_speaks [OF ok, of SubjectSentimentUpd j] by (metis prod.collapse)
  then show ?thesis by (auto simp: publishUpdate_def split: sum.split)
qed

lemma score_articles_moves: "db_ok w \<Longrightarrow> move\<^sup>*\<^sup>* w (score_articles llm clk g ticker arts w)"
proof (induction arts arbitrary: w)
  case (Cons a arts)
  show ?case
  proof (cases "llm a")
    case (Inl e)
    then show ?thesis using Cons.IH [OF Cons.prems] by simp
  next
    case (Inr s)
    let ?s = "s\<lparr>ss_Ticker := ticker, ss_RecordedAt := clk a\<rparr>"
    obtain r w1 where i: "SentimentStore_Insert ?s w = (r, w1)" by (cases "SentimentStore_Insert ?s w")
    note m = score_move [OF Cons.prems i]
    define w2 where "w2 = (case r of Inl _ \<Rightarrow> w1 | Inr x \<Rightarrow> publishUpdate g x w1)"
    have "move\<^sup>*\<^sup>* w1 w2" using update_moves [OF move_ok [OF m]] by (simp add: w2_def split: sum.split)
    moreover from this have "move\<^sup>*\<^sup>* w2 (score_articles llm clk g ticker arts w2)"
      using Cons.IH moves_ok move_ok [OF m] by blast
    moreover have "score_articles llm clk g ticker (a # arts) w = score_articles llm clk g ticker arts w2"
      using Inr i by (simp add: w2_def split: sum.split)
    ultimately show ?thesis using m by (metis converse_rtranclp_into_rtranclp rtranclp_trans)
  qed
qed simp

lemma processTicker_moves:
  assumes "db_ok w" "processTicker sha tu ticker n w = (r, n', w')" shows "move\<^sup>*\<^sup>* w w'"
proof -
  obtain q w1 where h: "hasFreshScore (tu_now tu) n ticker w = (q, w1)" by (cases "hasFreshScore (tu_now tu) n ticker w")
  have w1: "w1 = w\<lparr>w_db_faults := tl (w_db_faults w)\<rparr>" using hasFreshScore_frame [of "tu_now tu" n ticker w] h by simp
  have ok: "db_ok w1" using assms(1) w1 by simp
  have "w' = w1 \<or> (\<exists>arts. w' = score_articles (tu_llm tu) (tu_clk tu) n ticker arts w1)"
    using assms(2) h by (auto simp: processTicker_def split: sum.splits prod.splits if_splits)
  then have "move\<^sup>*\<^sup>* w1 w'" using score_articles_moves [OF ok] by blast
  moreover have "move w w1" using ok w1 by (intro move.nothing) simp_all
  ultimately show ?thesis by (rule converse_rtranclp_into_rtranclp [rotated])
qed

end
