(* ===== verification/TradingSystem.thy ===== *)
theory TradingSystem
  imports Handlers
begin

text \<open>
  The agents together: Risk Manager, trader, exit monitor and Sentiment Analyst over one database and one
  bus, in any order of their handlers, with redelivery, faults and restarts. As each handler is a sequence
  of moves, the record of the day holds in every state the system can reach.
\<close>

section \<open>The system\<close>

record trading =
  sy_risk :: Analyst
  sy_exits :: ExitMonitor
  sy_news :: SentimentAgent
  sy_world :: World

text \<open>The Risk Manager as \<open>NewAgent\<close> builds it, or with the stores its setters install.\<close>

definition risk_agent :: "Analyst \<Rightarrow> bool" where
  "risk_agent g \<longleftrightarrow> (\<exists>u c k. g \<in> {NewAgent u c k, SetPositions (NewAgent u c k), SetScoreStore (NewAgent u c k),
     SetScoreStore (SetPositions (NewAgent u c k))})"

text \<open>The steps: the scout (or the replay tool) publishes a price or an intent; a handler gets a message of its
  subject that has been published, at any time and any number of times; a ticker fires; a process restarts with
  nothing but tables and stream left; clock and network change. Handlers of one agent do not overlap. \<open>w_bus\<close> is the
  history of what the server accepted. The trading stream drops a message 24 hours after it was published, so the server
  delivers fewer messages than these steps allow: every run of the agents is among those of the steps, and
  nothing below says that a message is still retained.\<close>

inductive system_step :: "trading \<Rightarrow> trading \<Rightarrow> bool" where
  scout: "subj = SubjectIntentNew \<or> (\<exists>t. subj = PriceSubject t) \<Longrightarrow> publish subj j (sy_world s) = (e, w') \<Longrightarrow>
    system_step s (s\<lparr>sy_world := w'\<rparr>)"
| intent: "(SubjectIntentNew, j) \<in> set (w_bus (sy_world s)) \<Longrightarrow>
    handleIntent db_ports c1 c2 (Some j) (sy_risk s) (sy_world s) = (d, g', w') \<Longrightarrow>
    system_step s (s\<lparr>sy_risk := g', sy_world := w'\<rparr>)"
| quote: "(PriceSubject t, j) \<in> set (w_bus (sy_world s)) \<Longrightarrow>
    system_step s (s\<lparr>sy_risk := handlePrice c (Some j) (sy_risk s)\<rparr>)"
| turn: "tick db_ports now (sy_risk s) (sy_world s) = (g', w') \<Longrightarrow> system_step s (s\<lparr>sy_risk := g', sy_world := w'\<rparr>)"
| order: "(ExecuteSubject t, j) \<in> set (w_bus (sy_world s)) \<Longrightarrow>
    handleExecution PaperTrader_Execute c (Some j) (sy_world s) = (d, w') \<Longrightarrow> system_step s (s\<lparr>sy_world := w'\<rparr>)"
| price: "(PriceSubject t, j) \<in> set (w_bus (sy_world s)) \<Longrightarrow>
    HandlePrice db_ports c1 c2 clk (PriceSubject t) (Some j) (sy_exits s) (sy_world s) = (em', w') \<Longrightarrow>
    system_step s (s\<lparr>sy_exits := em', sy_world := w'\<rparr>)"
| refresh: "Refresh db_ports (sy_exits s) (sy_world s) = (e, em', w') \<Longrightarrow> system_step s (s\<lparr>sy_exits := em', sy_world := w'\<rparr>)"
| news: "processTicker sha tu ticker (sy_news s) (sy_world s) = (e, n', w') \<Longrightarrow> system_step s (s\<lparr>sy_news := n', sy_world := w'\<rparr>)"
| restart: "risk_agent g \<Longrightarrow> system_step s (s\<lparr>sy_risk := g, sy_exits := NewExitMonitor, sy_news := production_analyst env pd\<rparr>)"
| network: "system_step s (s\<lparr>sy_world := (sy_world s)\<lparr>w_clock := t, w_db_faults := fs, w_bus_faults := bs\<rparr>\<rparr>)"

definition system_start :: "trading \<Rightarrow> bool" where
  "system_start s \<longleftrightarrow> risk_agent (sy_risk s) \<and> sy_exits s = NewExitMonitor \<and> sy_world s = empty_world"

definition reachable :: "trading \<Rightarrow> bool" where
  "reachable s \<longleftrightarrow> (\<exists>s0. system_start s0 \<and> system_step\<^sup>*\<^sup>* s0 s)"

lemma reachable_step: "reachable s \<Longrightarrow> system_step s s' \<Longrightarrow> reachable s'"
  unfolding reachable_def by (meson rtranclp.rtrancl_into_rtrancl)

lemma risk_agent_js: "risk_agent g \<Longrightarrow> rm_js g"
  by (auto simp: risk_agent_def NewAgent_def newAnalyst_def SetPositions_def SetScoreStore_def)

section \<open>Every handler is a sequence of moves\<close>

definition agents_ok :: "trading \<Rightarrow> bool" where
  "agents_ok s \<longleftrightarrow> rm_js (sy_risk s) \<and> cache_known (sy_exits s) (sy_world s)"

lemma handleIntent_js: "handleIntent ports c1 c2 data g w = (d, g', w') \<Longrightarrow> rm_js g' = rm_js g"
  using accepted_iff [of ports c1 c2 data g w d g' w'] by auto

lemma cache_new: "cache_known NewExitMonitor w"
  by (simp add: cache_known_def NewExitMonitor_def cached_def)

lemma speaking_subject: "subj = SubjectIntentNew \<or> (\<exists>t. subj = PriceSubject t) \<Longrightarrow> subj \<noteq> ExecuteSubject t"
  by (auto simp: subject_defs)

lemma step_moves:
  "system_step s s' \<Longrightarrow> ledger_ok (sy_world s) \<Longrightarrow> agents_ok s \<Longrightarrow> move\<^sup>*\<^sup>* (sy_world s) (sy_world s') \<and> agents_ok s'"
proof (induction rule: system_step.induct)
  case (scout subj j s e w')
  then have "move (sy_world s) w'" using publish_speaks speaking_subject by (metis ledger_ok_def)
  then show ?case using scout cache_extends by (auto simp: agents_ok_def)
next
  case (intent j s c1 c2 d g' w')
  then have "move\<^sup>*\<^sup>* (sy_world s) w'" using handleIntent_moves [of "sy_world s"] by (simp add: ledger_ok_def)
  moreover have "rm_js g' = rm_js (sy_risk s)" by (rule handleIntent_js [OF intent(2)])
  ultimately show ?case using intent cache_extends by (auto simp: agents_ok_def)
next
  case (quote t j s c)
  have "rm_js (handlePrice c (Some j) (sy_risk s)) = rm_js (sy_risk s)" by (auto simp: handlePrice_def split: sum.split)
  then show ?case using quote by (simp add: agents_ok_def)
next
  case (turn now s g' w')
  then have "db_ok (sy_world s)" "rm_js (sy_risk s)" by (simp_all add: agents_ok_def ledger_ok_def)
  then have "move\<^sup>*\<^sup>* (sy_world s) w' \<and> rm_js g'" using tick_moves turn(1) by blast
  then show ?case using turn cache_extends by (auto simp: agents_ok_def)
next
  case (order t j s c d w')
  then have "move\<^sup>*\<^sup>* (sy_world s) w'" using handleExecution_moves by blast
  then show ?case using order cache_extends by (auto simp: agents_ok_def)
next
  case (price t j s c1 c2 clk em' w')
  then have "db_ok (sy_world s)" "cache_known (sy_exits s) (sy_world s)" by (simp_all add: agents_ok_def ledger_ok_def)
  from HandlePrice_moves [OF this price(2)] show ?case using price by (simp add: agents_ok_def)
next
  case (refresh s e em' w')
  then have "db_ok (sy_world s)" "cache_known (sy_exits s) (sy_world s)" by (simp_all add: agents_ok_def ledger_ok_def)
  from Refresh_moves [OF this refresh(1)] show ?case using refresh by (simp add: agents_ok_def)
next
  case (news sha tu ticker s e n' w')
  then have "move\<^sup>*\<^sup>* (sy_world s) w'" using processTicker_moves by (simp add: ledger_ok_def)
  then show ?case using news cache_extends by (auto simp: agents_ok_def)
next
  case (restart g s env pd)
  then show ?case using risk_agent_js cache_new by (simp add: agents_ok_def)
next
  case (network s bs fs t)
  let ?w = "sy_world s"
  have "move ?w (?w\<lparr>w_clock := t, w_db_faults := fs, w_bus_faults := bs\<rparr>)"
    using network by (intro move.nothing) (simp_all add: same_books_def ledger_ok_def)
  then show ?case using network cache_extends by (auto simp: agents_ok_def)
qed

lemma steps_keep:
  "system_step\<^sup>*\<^sup>* s s' \<Longrightarrow> ledger_ok (sy_world s) \<Longrightarrow> agents_ok s \<Longrightarrow>
     ledger_ok (sy_world s') \<and> agents_ok s' \<and> move\<^sup>*\<^sup>* (sy_world s) (sy_world s')"
proof (induction rule: rtranclp_induct)
  case (step t u)
  then show ?case using step_moves moves_keep by (meson rtranclp_trans)
qed simp

lemma start_ok: "system_start s \<Longrightarrow> ledger_ok (sy_world s) \<and> agents_ok s"
  using ledger_empty cache_new risk_agent_js by (simp add: system_start_def agents_ok_def)

lemma reachable_ok: "reachable s \<Longrightarrow> ledger_ok (sy_world s) \<and> agents_ok s"
  unfolding reachable_def using start_ok steps_keep by blast

section \<open>What holds in every reachable state\<close>

lemma opened_terms:
  assumes "opens_row ex r" "buildExecution c g i = Inr ex" "fin64 (ti_CurrentPrice i)" "pr_side r = SideLong"
  shows "pr_ticker r = ti_Ticker i \<and> ti_Side i = SideLong \<and> pr_entry_price r = ti_CurrentPrice i \<and>
    pr_quantity r = te_Quantity ex \<and> pr_execution_ref r = te_ExecutionRef ex \<and> 0 < pr_quantity r \<and>
    (Fin (pw (-900)) \<le> ti_CurrentPrice i \<and> ti_CurrentPrice i \<le> Fin (pw 900) \<longrightarrow>
      pr_stop_loss r < pr_entry_price r \<and> pr_entry_price r < pr_take_profit r)"
proof -
  obtain w where s: "same_terms (new_position_row (posFromExec ex) w) r" using assms(1) by (auto simp: opens_row_def)
  have b: "te_Ticker ex = ti_Ticker i" "te_Side ex = ti_Side i" "te_Price ex = ti_CurrentPrice i" "0 < te_Quantity ex"
    using assms(2) by (auto simp: buildExecution_def Let_def split: if_splits)
  have r: "pr_ticker r = te_Ticker ex" "pr_side r = te_Side ex" "pr_quantity r = te_Quantity ex" "pr_entry_price r = te_Price ex"
    "pr_execution_ref r = te_ExecutionRef ex" "pr_stop_loss r = pos_StopLoss (posFromExec ex)"
    "pr_take_profit r = pos_TakeProfit (posFromExec ex)"
    using s by (auto simp: same_terms_def new_position_row_def posFromExec_def Let_def)
  have "pr_stop_loss r < pr_entry_price r \<and> pr_entry_price r < pr_take_profit r"
    if p: "Fin (pw (-900)) \<le> ti_CurrentPrice i" "ti_CurrentPrice i \<le> Fin (pw 900)"
  proof -
    obtain x where x: "ti_CurrentPrice i = Fin x" using fin64E [OF assms(3)] by blast
    have t: "sound_terms i ex" using terms_ordered [OF _ _ x assms(2)] p x by simp
    then have "te_StopLoss ex \<noteq> 0" "te_TakeProfit ex \<noteq> 0" by (auto simp: sound_terms_def)
    moreover have "ti_Side i = SideLong" using r(2) b(2) assms(4) by simp
    ultimately show ?thesis using t r b by (simp add: sound_terms_def posFromExec_def Let_def SideLong_def SideShort_def)
  qed
  then show ?thesis using b r assms(4) by simp
qed

text \<open>C5: No position without an intent. In every state the five agents can reach together, by any order of handlers,
  redeliveries, faults and restarts, each position in the database was opened by a published order that
  the Risk Manager built from a published valid long intent: it has the ticker, entry price, quantity and
  reference of that order, is long, and for a price from 2^-900 to 2^900 its stop lies below and its target above.\<close>

theorem positions_come_from_intents:
  assumes "reachable s" "r \<in> set (w_positions (sy_world s))"
  shows "\<exists>ji i c g ex j. (SubjectIntentNew, ji) \<in> set (w_bus (sy_world s)) \<and> unmarshal_intent (Some ji) = Inr i \<and>
    validate_intent i = None \<and> buildExecution c g i = Inr ex \<and> marshal_execution ex = Inr j \<and>
    (ExecuteSubject (ti_Ticker i), j) \<in> set (w_bus (sy_world s)) \<and>
    pr_ticker r = ti_Ticker i \<and> ti_Side i = SideLong \<and> pr_side r = SideLong \<and> pr_entry_price r = ti_CurrentPrice i \<and>
    pr_quantity r = te_Quantity ex \<and> pr_execution_ref r = te_ExecutionRef ex \<and> 0 < pr_quantity r \<and>
    (Fin (pw (-900)) \<le> ti_CurrentPrice i \<and> ti_CurrentPrice i \<le> Fin (pw 900) \<longrightarrow>
      pr_stop_loss r < pr_entry_price r \<and> pr_entry_price r < pr_take_profit r)"
proof -
  have ok: "ledger_ok (sy_world s)" using reachable_ok [OF assms(1)] by blast
  then obtain ex where ex: "entry_order (w_bus (sy_world s)) ex" "posted (w_bus (sy_world s)) ex" "opens_row ex r"
    using assms(2) unfolding ledger_ok_def entries_ok_def by blast
  have long: "pr_side r = SideLong" using long_row [OF _ assms(2)] ok by (simp add: ledger_ok_def)
  obtain ji i c g where i: "(SubjectIntentNew, ji) \<in> set (w_bus (sy_world s))" "unmarshal_intent (Some ji) = Inr i"
    "validate_intent i = None" "buildExecution c g i = Inr ex" using ex(1) by (auto simp: entry_order_def)
  obtain j where j: "marshal_execution ex = Inr j" "(ExecuteSubject (te_Ticker ex), j) \<in> set (w_bus (sy_world s))"
    using ex(2) by (auto simp: posted_def)
  have "te_Ticker ex = ti_Ticker i" using i(4) by (auto simp: buildExecution_def Let_def split: if_splits)
  then show ?thesis using opened_terms [OF ex(3) i(4) unmarshal_intent_price [OF i(2)] long] i j long by metis
qed

text \<open>C6: No close without an order. A step of the system after which a row of the positions stands closed that did not stand
  so before has itself published a closing order, whichever agent made it and whatever failed: for that position, on the
  opposite side, for the full quantity, at the exit price that the database records.\<close>

theorem closed_positions_were_ordered:
  assumes "reachable s" "system_step s s'"
    and "r \<in> set (w_positions (sy_world s'))" "pr_status r \<noteq> ''OPEN''" "r \<notin> set (w_positions (sy_world s))"
  shows "\<exists>ex j. marshal_execution ex = Inr j \<and>
    (ExecuteSubject (pr_ticker r), j) \<in> set (drop (length (w_bus (sy_world s))) (w_bus (sy_world s'))) \<and> isClosing ex \<and>
    te_PositionID ex = pr_id r \<and> te_Side ex = opposite (pr_side r) \<and> te_Quantity ex = pr_quantity r \<and>
    pr_exit_price r = Some (te_Price ex)"
proof -
  have ok: "ledger_ok (sy_world s)" "agents_ok s" using reachable_ok [OF assms(1)] by blast+
  have m: "move\<^sup>*\<^sup>* (sy_world s) (sy_world s')" using step_moves [OF assms(2) ok] by blast
  have db: "db_ok (sy_world s)" using ok(1) by (simp add: ledger_ok_def)
  obtain ex j where ex: "marshal_execution ex = Inr j" "closes_row r ex" "pr_exit_price r = Some (te_Price ex)"
    "(ExecuteSubject (te_Ticker ex), j) \<in> set (drop (length (w_bus (sy_world s))) (w_bus (sy_world s')))"
    using moves_close [OF m db assms(3-5)] unfolding ordered_in_def by blast
  have "pr_side r = SideLong" by (rule long_row [OF moves_ok [OF m db] assms(3)])
  then have "te_Side ex = opposite (pr_side r)" using ex(2) by (simp add: closes_row_def opposite_def)
  then show ?thesis using ex unfolding closes_row_def by metis
qed

text \<open>C12: The trade log holds entries only, each at most once. In every reachable state each of its rows is the fill of a
  position of the table at the entry price and on the entry side, and no two are of one position: redelivery
  never fills twice, and no exit, though ordered and closed, is ever logged.\<close>

theorem trade_log_holds_entries_only:
  assumes "reachable s"
  shows "distinct (map tr_position_id (w_trade_log (sy_world s))) \<and>
    (\<forall>f \<in> set (w_trade_log (sy_world s)). \<exists>r \<in> set (w_positions (sy_world s)). tr_position_id f = pr_id r \<and>
       tr_ticker f = pr_ticker r \<and> tr_side f = SideLong \<and> tr_quantity f = pr_quantity r \<and> tr_price f = pr_entry_price r)"
proof -
  let ?w = "sy_world s"
  have l: "ledger_ok ?w" using reachable_ok [OF assms] by (rule conjunct1)
  have ok: "db_ok ?w" using l unfolding ledger_ok_def by (elim conjE)
  have fl: "fills_ok ?w" using l unfolding ledger_ok_def by (elim conjE)
  have d: "distinct (map tr_position_id (w_trade_log ?w))" using fl unfolding fills_ok_def by (rule conjunct1)
  show ?thesis
  proof (rule conjI [OF d], rule ballI)
    fix f assume "f \<in> set (w_trade_log ?w)"
    then obtain r where r: "r \<in> set (w_positions ?w)" "fills_row r f" using fl unfolding fills_ok_def by blast
    have "pr_side r = SideLong" by (rule long_row [OF ok r(1)])
    with r(2) have "tr_position_id f = pr_id r \<and> tr_ticker f = pr_ticker r \<and> tr_side f = SideLong \<and>
        tr_quantity f = pr_quantity r \<and> tr_price f = pr_entry_price r"
      unfolding fills_row_def by metis
    with r(1) show "\<exists>r \<in> set (w_positions ?w). tr_position_id f = pr_id r \<and>
       tr_ticker f = pr_ticker r \<and> tr_side f = SideLong \<and> tr_quantity f = pr_quantity r \<and> tr_price f = pr_entry_price r"
      by (rule bexI [rotated])
  qed
qed

lemma one_row:
  assumes "extends_to w w'" "inj_on pr_id (set (w_positions w'))" "r \<in> set (w_positions w)"
  shows "\<exists>!r'. r' \<in> set (w_positions w') \<and> pr_id r' = pr_id r"
proof -
  obtain r' where r': "r' \<in> set (w_positions w')" "same_terms r r'"
    using bspec [OF conjunct1 [OF assms(1) [unfolded extends_to_def]] assms(3)] by (elim bexE conjE)
  have i: "pr_id r' = pr_id r" using r'(2) unfolding same_terms_def by (elim conjE) simp
  show ?thesis
  proof (rule ex1I [of _ r'])
    show "r' \<in> set (w_positions w') \<and> pr_id r' = pr_id r" using r'(1) i by (rule conjI)
    show "x = r'" if "x \<in> set (w_positions w') \<and> pr_id x = pr_id r" for x
      by (rule inj_onD [OF assms(2)]) (use that i r'(1) in simp_all)
  qed
qed

text \<open>C13: History is final for the whole system. Whatever the agents do from a reachable state on, with whatever faults and
  restarts, every position keeps one row, with the same terms, a closed one keeps its whole row, exit price, time and
  result included, and the trade log only grows at its end.\<close>

theorem system_history_final:
  assumes "reachable s" "system_step\<^sup>*\<^sup>* s s'"
  shows "(\<forall>r \<in> set (w_positions (sy_world s)). \<exists>!r'. r' \<in> set (w_positions (sy_world s')) \<and> pr_id r' = pr_id r) \<and>
    (\<forall>r \<in> set (w_positions (sy_world s)). \<exists>r' \<in> set (w_positions (sy_world s')). same_terms r r' \<and>
       (pr_status r \<noteq> ''OPEN'' \<longrightarrow> r' = r)) \<and>
    (\<exists>more. w_trade_log (sy_world s') = w_trade_log (sy_world s) @ more)"
proof -
  note ok = reachable_ok [OF assms(1)]
  note sk = steps_keep [OF assms(2) conjunct1 [OF ok] conjunct2 [OF ok]]
  have k: "ledger_ok (sy_world s')" using sk by (rule conjunct1)
  have e: "extends_to (sy_world s) (sy_world s')" by (rule conjunct1 [OF moves_extend [OF conjunct2 [OF conjunct2 [OF sk]]]])
  have "db_ok (sy_world s')" using k unfolding ledger_ok_def by (rule conjunct1)
  then have i: "inj_on pr_id (set (w_positions (sy_world s')))" by (simp add: db_ok_def distinct_map)
  have u: "\<exists>!r'. r' \<in> set (w_positions (sy_world s')) \<and> pr_id r' = pr_id r" if r: "r \<in> set (w_positions (sy_world s))" for r
    by (rule one_row [OF e i r])
  show ?thesis by (rule conjI [OF ballI [OF u] e [unfolded extends_to_def]])
qed

section \<open>A run\<close>

definition sample_json :: json where
  "sample_json = JObj [(''ticker'', JStr ''TCS''), (''side'', JStr ''LONG''), (''current_price'', JInt 100),
     (''signal_reason'', JStr ''breakout''), (''timestamp'', JTime 0)]"

definition first_day :: trading where
  "first_day = \<lparr>sy_risk = production, sy_exits = NewExitMonitor, sy_news = production_analyst (\<lambda>_. '''') (\<lambda>_. None),
     sy_world = empty_world\<rparr>"

lemma first_day_reachable: "reachable first_day"
proof -
  have "system_start first_day"
    unfolding system_start_def risk_agent_def first_day_def production_def by auto
  then show ?thesis unfolding reachable_def by blast
qed

lemma sample_read: "unmarshal_intent (Some sample_json) = Inr sample_intent"
  using sample_decodes by (simp add: sample_payload_def sample_json_def)

lemma production_admits_any: "admitted db_ports morning sample_intent production w"
  using production_admits by (simp add: admitted_def production_def NewAgent_def newAnalyst_def)

lemma calm_reachable: "reachable s \<Longrightarrow> reachable (s\<lparr>sy_world := (sy_world s)\<lparr>w_clock := t, w_db_faults := fs, w_bus_faults := bs\<rparr>\<rparr>)"
  using reachable_step network by blast

text \<open>From any reachable state a restarted Risk Manager and the trader can take one more position: the network
  calms down, the process restarts, the intent is posted, admitted and carried out.\<close>

lemma entry_step:
  assumes "reachable s" "0 \<le> c" "c < 2 ^ 63" "''risk-TCS-'' @ string_of_int c \<notin> pr_execution_ref ` set (w_positions (sy_world s))"
  shows "\<exists>s' row f. reachable s' \<and> w_positions (sy_world s') = w_positions (sy_world s) @ [row] \<and>
     w_trade_log (sy_world s') = w_trade_log (sy_world s) @ [f] \<and> pr_status row = ''OPEN'' \<and> pr_entry_price row = Fin 100 \<and>
     0 < pr_quantity row \<and> pr_quantity row < 2 ^ 31 \<and> pr_side row = ''LONG'' \<and> pr_execution_ref row = ''risk-TCS-'' @ string_of_int c"
proof -
  define u where "u = (sy_world s)\<lparr>w_clock := morning, w_db_faults := [], w_bus_faults := []\<rparr>"
  define v where "v = u\<lparr>w_bus := w_bus u @ [(SubjectIntentNew, sample_json)]\<rparr>"
  define n where "n = production_analyst (\<lambda>_. '''') (\<lambda>_. None)"
  let ?s = "\<lambda>g w. \<lparr>sy_risk = g, sy_exits = NewExitMonitor, sy_news = n, sy_world = w\<rparr> :: trading"
  have "risk_agent production" unfolding risk_agent_def production_def by blast
  then have "system_step (s\<lparr>sy_world := u\<rparr>) ((s\<lparr>sy_world := u\<rparr>)\<lparr>sy_risk := production, sy_exits := NewExitMonitor, sy_news := n\<rparr>)"
    unfolding n_def by (rule restart)
  moreover have "reachable (s\<lparr>sy_world := u\<rparr>)" unfolding u_def by (rule calm_reachable [OF assms(1)])
  moreover have "(s\<lparr>sy_world := u\<rparr>)\<lparr>sy_risk := production, sy_exits := NewExitMonitor, sy_news := n\<rparr> = ?s production u" by (cases s) simp
  ultimately have r0: "reachable (?s production u)" using reachable_step by metis
  have q: "quiet v" "publish SubjectIntentNew sample_json u = (None, v)"
    using publish_quiet [of u SubjectIntentNew sample_json] by (simp_all add: quiet_def v_def u_def)
  have "system_step (?s production u) ((?s production u)\<lparr>sy_world := v\<rparr>)"
    by (rule scout [where subj = SubjectIntentNew and j = sample_json and e = None]) (simp_all add: q(2))
  then have r1: "reachable (?s production v)" using reachable_step [OF r0] by simp
  obtain ex j where h: "handleIntent db_ports morning c (Some sample_json) production v =
      (Ack, production\<lparr>rm_accepted := rm_accepted production + 1,
              rm_exposure := map_option (Register (te_Side ex) (te_Sector ex)) (rm_exposure production)\<rparr>,
       v\<lparr>w_bus := w_bus v @ [(ExecuteSubject (te_Ticker ex), j)]\<rparr>)"
    "buildExecution c production sample_intent = Inr ex" "unmarshal_execution (Some j) = Inr ex"
    "0 < te_Quantity ex" "te_Quantity ex < 2 ^ 31"
    using accepted_run [OF sample_read production_admits_any q(1) production_facts(2-5) production_margin, of c] by blast
  define g where "g = production\<lparr>rm_accepted := rm_accepted production + 1,
      rm_exposure := map_option (Register (te_Side ex) (te_Sector ex)) (rm_exposure production)\<rparr>"
  define w where "w = v\<lparr>w_bus := w_bus v @ [(ExecuteSubject (te_Ticker ex), j)]\<rparr>"
  have posted: "(SubjectIntentNew, sample_json) \<in> set (w_bus v)" "(ExecuteSubject (te_Ticker ex), j) \<in> set (w_bus w)"
    by (simp_all add: v_def w_def)
  have "system_step (?s production v) ((?s production v)\<lparr>sy_risk := g, sy_world := w\<rparr>)"
    by (rule intent [where j = sample_json and ?c1.0 = morning and ?c2.0 = c and d = Ack]) (simp_all add: posted h(1) [folded g_def w_def])
  then have r2: "reachable (?s g w)" using reachable_step [OF r1] by simp
  have p: "w_positions w = w_positions (sy_world s)" "w_trade_log w = w_trade_log (sy_world s)" "w_db_faults w = []"
    by (simp_all add: w_def v_def u_def)
  have ok: "validate_intent sample_intent = None" using production_admits_any by (simp add: admitted_def)
  have long: "ti_Side sample_intent = SideLong" "ti_SignalReason sample_intent \<notin> {ReasonStopLoss, ReasonTakeProfit, ReasonSquareOff}"
    "length (ti_Ticker sample_intent) \<le> 10" "rm_sectors production = Some (resolveSectorMap '''')"
    by (simp_all add: sample_intent_def enum_defs production_def NewAgent_def)
  have ref: "te_ExecutionRef ex = ''risk-TCS-'' @ string_of_int c"
    using built_valid [OF h(2) ok] by (simp add: sample_intent_def)
  then have "te_ExecutionRef ex \<notin> pr_execution_ref ` set (w_positions w)" using p(1) assms(4) by simp
  from built_filled [OF h(2) ok production_facts(3,4) long assms(2,3) h(4,5) p(3) this h(3), of morning]
  obtain z where f: "handleExecution PaperTrader_Execute morning (Some j) w = (Ack, z)"
    "w_positions z = w_positions (sy_world s) @ [new_position_row (posFromExec ex) w]"
    "w_trade_log z = w_trade_log (sy_world s) @ [new_trade_row (ex\<lparr>te_PositionID := w_position_seq w\<rparr>) w]"
    using p by auto
  have "system_step (?s g w) ((?s g w)\<lparr>sy_world := z\<rparr>)"
    by (rule order [where j = j and t = "te_Ticker ex" and c = morning and d = Ack]) (simp_all add: posted f(1))
  then have r3: "reachable (?s g z)" using reachable_step [OF r2] by simp
  have "te_Side ex = SideLong" "te_Price ex = Fin 100"
    using h(2) by (auto simp: buildExecution_def Let_def sample_intent_def SideLong_def split: if_splits)
  then show ?thesis using r3 f(2,3) h(4,5) ref
    by (intro exI [of _ "?s g z"] exI [of _ "new_position_row (posFromExec ex) w"] exI [of _ "new_trade_row (ex\<lparr>te_PositionID := w_position_seq w\<rparr>) w"])
      (simp add: new_position_row_def posFromExec_def Let_def PositionOpen_def SideLong_def)
qed

lemma sample_entry:
  "\<exists>s row. reachable s \<and> w_positions (sy_world s) = [row] \<and> pr_status row = ''OPEN'' \<and> pr_entry_price row = Fin 100 \<and>
     0 < pr_quantity row \<and> pr_quantity row < 2 ^ 31 \<and> pr_side row = ''LONG'' \<and> length (w_trade_log (sy_world s)) = 1"
  using entry_step [OF first_day_reachable, of 0] by (simp add: first_day_def empty_world_def) (metis append_Nil length_append_singleton list.size(3) One_nat_def)



lemma positions_come_from_intents_witness:
  "\<exists>s r. reachable s \<and> r \<in> set (w_positions (sy_world s)) \<and> pr_side r = SideLong \<and> pr_stop_loss r < pr_entry_price r \<and>
     (\<exists>ji i. (SubjectIntentNew, ji) \<in> set (w_bus (sy_world s)) \<and> unmarshal_intent (Some ji) = Inr i)"
proof -
  obtain s row where s: "reachable s" "w_positions (sy_world s) = [row]" "pr_entry_price row = Fin 100" using sample_entry by blast
  have r: "row \<in> set (w_positions (sy_world s))" using s(2) by simp
  have "Fin (pw (-900)) \<le> Fin 100" "Fin 100 \<le> Fin (pw 900)" using moderate_wide [OF production_facts(4)] by simp_all
  with positions_come_from_intents [OF s(1) r] s(3) have "pr_side row = SideLong" "pr_stop_loss row < pr_entry_price row"
    "\<exists>ji i. (SubjectIntentNew, ji) \<in> set (w_bus (sy_world s)) \<and> unmarshal_intent (Some ji) = Inr i" by metis+
  with s(1) r show ?thesis by blast
qed

lemma trade_log_holds_entries_only_witness: "\<exists>s f. reachable s \<and> f \<in> set (w_trade_log (sy_world s)) \<and> tr_side f = SideLong"
proof -
  obtain s row where s: "reachable s" "length (w_trade_log (sy_world s)) = 1" using sample_entry by blast
  then obtain f where "f \<in> set (w_trade_log (sy_world s))" by (cases "w_trade_log (sy_world s)") auto
  then show ?thesis using trade_log_holds_entries_only [OF s(1)] s(1) by blast
qed

lemma system_history_final_witness:
  "\<exists>s s' row. w_positions (sy_world s) = [row] \<and> s' \<noteq> (s :: trading) \<and>
     (\<exists>!r'. r' \<in> set (w_positions (sy_world s')) \<and> pr_id r' = pr_id row)"
proof -
  obtain s row where s: "reachable s" "w_positions (sy_world s) = [row]" using sample_entry by blast
  let ?t = "w_clock (sy_world s) + 1"
  let ?s = "s\<lparr>sy_world := (sy_world s)\<lparr>w_clock := ?t, w_db_faults := [], w_bus_faults := []\<rparr>\<rparr>"
  have "system_step\<^sup>*\<^sup>* s ?s" using network by blast
  from system_history_final [OF s(1) this] have "\<exists>!r'. r' \<in> set (w_positions (sy_world ?s)) \<and> pr_id r' = pr_id row"
    unfolding s(2) by simp
  moreover have "w_clock (sy_world ?s) \<noteq> w_clock (sy_world s)" by simp
  then have "?s \<noteq> s" by metis
  ultimately show ?thesis using s(2) by blast
qed

text \<open>The position of the run is squared off by a Risk Manager that has been given the position store.\<close>

lemma sample_exit:
  "\<exists>s s' r. reachable s \<and> system_step s s' \<and> r \<in> set (w_positions (sy_world s')) \<and> pr_status r \<noteq> ''OPEN'' \<and>
     r \<notin> set (w_positions (sy_world s))"
proof -
  obtain s row where s: "reachable s" "w_positions (sy_world s) = [row]" "pr_status row = ''OPEN''" "pr_entry_price row = Fin 100"
    "0 < pr_quantity row" "pr_quantity row < 2 ^ 31" "pr_side row = ''LONG''" using sample_entry by blast
  define w where "w = (sy_world s)\<lparr>w_clock := afternoon, w_db_faults := [], w_bus_faults := []\<rparr>"
  define g where "g = SetPositions production"
  let ?t = "s\<lparr>sy_world := w\<rparr>\<lparr>sy_risk := g, sy_exits := NewExitMonitor, sy_news := production_analyst (\<lambda>_. '''') (\<lambda>_. None)\<rparr>"
  have "risk_agent g" unfolding risk_agent_def g_def production_def by blast
  then have t: "reachable ?t" using reachable_step [OF calm_reachable [OF s(1)] restart] unfolding w_def by blast
  have g: "rm_positions g" "rm_js g" "rm_sqDone g \<noteq> format_day (civil_day ist afternoon)" "LatestPrice g x = 0" for x
    using wired_ready(3) by (simp_all add: g_def SetPositions_def production_def NewAgent_def newAnalyst_def LatestPrice_def wired_def)
  have w: "db_ok w" "quiet w" "w_positions w = [row]"
    using reachable_ok [OF t] s(2) by (simp_all add: ledger_ok_def w_def quiet_def)
  have "\<bar>pr_quantity row\<bar> \<le> 2 ^ 53" using s(5,6) by simp
  then have "f64_of_int (pr_quantity row) = Fin (of_int (pr_quantity row))" by (rule f64_of_int_exact)
  then have "pnl_of row (Fin 100) = Some 0"
    using s(4,7) by (simp add: pnl_of_def pg_sub_def pg_mul_def Let_def zero_float64_Fin one_float64_def f64_minus_Fin)
  moreover have "exit_price_for g (scan_open row) = Fin 100"
    using s(4) by (simp add: exit_price_for_def g(4) scan_open_def zero_float64_Fin)
  ultimately have marked: "rm_sqDone (fst (squareOff db_ports afternoon g w)) = format_day (civil_day ist afternoon)"
    using squareOff_quiet [OF w(1,2) g(1) afternoon_facts(1) g(3)] w(3) by simp
  obtain g1 w1 where sq: "squareOff db_ports afternoon g w = (g1, w1)" by (cases "squareOff db_ports afternoon g w")
  have flat: "open_ids w1 = {}" using db.squareOff_book [OF w(1) sq] marked g(3) sq by auto
  obtain g2 w2 where tk: "tick db_ports afternoon g w = (g2, w2)" by (cases "tick db_ports afternoon g w")
  have "w2 = w1 \<or> w2 = snd (ListOpen w1)"
    using tk sq by (auto simp: tick_def split: bool.splits option.splits prod.splits sum.splits)
  then have w2: "w_positions w2 = w_positions w1" by (auto simp: ListOpen_world)
  have st: "system_step ?t (?t\<lparr>sy_risk := g2, sy_world := w2\<rparr>)"
    by (rule turn [where now = afternoon]) (simp add: tk)
  have "extends_to w w1" using squareOff_moves [OF w(1) g(2) sq] moves_extend by blast
  then obtain r where "r \<in> set (w_positions w1)" using w(3) by (auto simp: extends_to_def)
  then have "r \<in> set (w_positions w2)" "pr_status r \<noteq> ''OPEN''" using flat w2 by (auto simp: open_ids_def)
  moreover from this(2) have "r \<noteq> row" using s(3) by blast
  ultimately show ?thesis using t st w(3)
    by (intro exI [of _ ?t] exI [of _ "?t\<lparr>sy_risk := g2, sy_world := w2\<rparr>"] exI [of _ r]) simp
qed

lemma closed_positions_were_ordered_witness:
  "\<exists>s s' r ex. reachable s \<and> system_step s s' \<and> r \<in> set (w_positions (sy_world s')) \<and> te_PositionID ex = pr_id r \<and>
     isClosing ex \<and> pr_exit_price r = Some (te_Price ex)"
proof -
  obtain s s' r where s: "reachable s" "system_step s s'" "r \<in> set (w_positions (sy_world s'))" "pr_status r \<noteq> ''OPEN''"
    "r \<notin> set (w_positions (sy_world s))" using sample_exit by blast
  from closed_positions_were_ordered [OF s] show ?thesis using s(1-3) by blast
qed

section \<open>A lost confirmation\<close>

text \<open>The reading of scores does not depend on the bus.\<close>

lemma LatestScore_bus: "fst (LatestScore t (w\<lparr>w_bus := b, w_bus_faults := f\<rparr>)) = fst (LatestScore t w)"
proof -
  have "fst (db_call (latest_score_stmt t) (w\<lparr>w_bus := b, w_bus_faults := f\<rparr>)) = fst (db_call (latest_score_stmt t) w)"
    by (cases "next_fault (w_db_faults w)") (simp_all add: db_call_def Let_def latest_score_stmt_def)
  then show ?thesis
    by (cases "db_call (latest_score_stmt t) (w\<lparr>w_bus := b, w_bus_faults := f\<rparr>)"; cases "db_call (latest_score_stmt t) w")
      (auto simp: LatestScore_def split: sum.split)
qed

lemma admitted_bus: "admitted db_ports c i g (w\<lparr>w_bus := b, w_bus_faults := f\<rparr>) = admitted db_ports c i g w"
  by (simp add: admitted_def LatestScore_bus)

text \<open>The execution of an affordable intent can be sent and is read back as it was.\<close>

lemma built_sent:
  assumes "unmarshal_intent data = Inr i" "ti_CurrentPrice i = Fin x" "moderate x" "rm_capital g = Fin C" "1 \<le> C" "7 * x \<le> C" "C \<le> 2 ^ 31 * x"
  obtains ex j where "buildExecution c g i = Inr ex" "marshal_execution ex = Inr j" "unmarshal_execution (Some j) = Inr ex"
    "0 < te_Quantity ex" "te_Quantity ex < 2 ^ 31"
proof -
  obtain ex where ex: "buildExecution c g i = Inr ex" "sendable_execution ex" "0 < te_Quantity ex" "te_Quantity ex < 2 ^ 31"
    using build_affordable [OF unmarshal_intent_price [OF assms(1)] assms(2-7)] by blast
  obtain j where "marshal_execution ex = Inr j" "unmarshal_execution (Some j) = Inr ex" using sendable_read_back [OF ex(2)] by blast
  with ex show thesis using that by blast
qed

lemma lost_reply_run:
  assumes "unmarshal_intent data = Inr i" "admitted db_ports c1 i g w" "quiet w" "rm_js g" "\<not> errors_is e ErrInsufficientCapital"
    and "buildExecution c2 g i = Inr ex" "marshal_execution ex = Inr j"
  shows "handleIntent db_ports c1 c2 data g (w\<lparr>w_bus_faults := [LostReply e]\<rparr>) =
    (NakWithDelay (5 * Second), g, w\<lparr>w_bus := w_bus w @ [(ExecuteSubject (te_Ticker ex), j)]\<rparr>)"
proof -
  let ?w = "w\<lparr>w_bus_faults := [LostReply e]\<rparr>"
  have v: "validate_intent i = None" using assms(2) by (simp add: admitted_def)
  have w: "?w = w\<lparr>w_bus := w_bus w, w_bus_faults := [LostReply e]\<rparr>" by simp
  have "admitted db_ports c1 i g ?w" unfolding w admitted_bus by (rule assms(2))
  moreover have "w_db_faults ?w = []" using assms(3) by (simp add: quiet_def)
  ultimately have ev: "evaluate_intent db_ports c1 i g ?w = (None, ?w)" by (rule evaluate_quiet [rotated])
  have "publish (ExecuteSubject (te_Ticker ex)) j ?w = (Some (Wrapf (''publish '' @ quoted (ExecuteSubject (te_Ticker ex))) e),
      w\<lparr>w_bus := w_bus w @ [(ExecuteSubject (te_Ticker ex), j)]\<rparr>)"
    using assms(3) by (simp add: publish_def Publish_def quiet_def)
  then have "promote db_ports c2 i g ?w = (Some (Wrapf (''publish '' @ quoted (ExecuteSubject (te_Ticker ex))) e), g,
      w\<lparr>w_bus := w_bus w @ [(ExecuteSubject (te_Ticker ex), j)]\<rparr>)"
    using assms(4,6,7) by (simp add: promote_def publishExecution_def)
  then show ?thesis using assms(1,5) v ev by (simp add: handleIntent_def ErrInsufficientCapital_def)
qed

text \<open>C14: One lost confirmation, two positions. If the stream stores the execution of a good intent but its confirmation is lost,
  the Risk Manager asks for the intent again and, as nothing marks the execution, publishes a second one under
  another reference; the trader carries out both, and two positions of the same size are open where the counter of accepted intents and the
  exposure tracker of the Risk Manager have gone up by one.\<close>

theorem lost_confirmation_doubles:
  assumes "unmarshal_intent data = Inr i" "admitted db_ports c1 i g w" "admitted db_ports c1' i g w" "quiet w" "rm_js g"
    and "\<not> errors_is e ErrInsufficientCapital"
    and "ti_CurrentPrice i = Fin x" "moderate x" "rm_capital g = Fin C" "1 \<le> C" "7 * x \<le> C" "C \<le> 2 ^ 31 * x"
    and "ti_Side i = SideLong" "ti_SignalReason i \<notin> {ReasonStopLoss, ReasonTakeProfit, ReasonSquareOff}"
    and "length (ti_Ticker i) \<le> 10" "rm_sectors g = Some (resolveSectorMap u)" "0 \<le> c2" "c2 < c2'" "c2' < 2 ^ 63"
    and "''risk-'' @ ti_Ticker i @ ''-'' @ string_of_int c2 \<notin> pr_execution_ref ` set (w_positions w)"
    and "''risk-'' @ ti_Ticker i @ ''-'' @ string_of_int c2' \<notin> pr_execution_ref ` set (w_positions w)"
  shows "\<exists>w1 g' w2 j1 j2 w3 w4 r1 r2.
    handleIntent db_ports c1 c2 data g (w\<lparr>w_bus_faults := [LostReply e]\<rparr>) = (NakWithDelay (5 * Second), g, w1) \<and>
    handleIntent db_ports c1' c2' data g w1 = (Ack, g', w2) \<and> rm_accepted g' = rm_accepted g + 1 \<and>
    rm_exposure g' = map_option (Register SideLong (sectorOf g (ti_Ticker i))) (rm_exposure g) \<and>
    (\<forall>t t'. rm_exposure g = Some t \<and> rm_exposure g' = Some t' \<longrightarrow> ex_total t' = ex_total t + 1 \<and> ex_longs t' = ex_longs t + 1) \<and>
    w_bus w2 = w_bus w @ [(ExecuteSubject (ti_Ticker i), j1), (ExecuteSubject (ti_Ticker i), j2)] \<and>
    handleExecution PaperTrader_Execute c3 (Some j1) w2 = (Ack, w3) \<and>
    handleExecution PaperTrader_Execute c4 (Some j2) w3 = (Ack, w4) \<and>
    w_positions w4 = w_positions w @ [r1, r2] \<and> pr_status r1 = ''OPEN'' \<and> pr_status r2 = ''OPEN'' \<and>
    pr_ticker r1 = ti_Ticker i \<and> pr_ticker r2 = ti_Ticker i \<and> pr_quantity r1 = pr_quantity r2 \<and> pr_execution_ref r1 \<noteq> pr_execution_ref r2"
proof -
  have v: "validate_intent i = None" using assms(2) by (simp add: admitted_def)
  obtain x1 j1 where b1: "buildExecution c2 g i = Inr x1" "marshal_execution x1 = Inr j1" "unmarshal_execution (Some j1) = Inr x1"
    "0 < te_Quantity x1" "te_Quantity x1 < 2 ^ 31" using built_sent [OF assms(1,7-12)] by blast
  define w1 where "w1 = w\<lparr>w_bus := w_bus w @ [(ExecuteSubject (te_Ticker x1), j1)]\<rparr>"
  have h1: "handleIntent db_ports c1 c2 data g (w\<lparr>w_bus_faults := [LostReply e]\<rparr>) = (NakWithDelay (5 * Second), g, w1)"
    unfolding w1_def by (rule lost_reply_run [OF assms(1,2,4-6) b1(1,2)])
  have w1: "w1 = w\<lparr>w_bus := w_bus w1, w_bus_faults := w_bus_faults w\<rparr>" "quiet w1" using assms(4) by (simp_all add: w1_def quiet_def)
  have a1: "admitted db_ports c1' i g w1" using assms(3) admitted_bus w1(1) by metis
  obtain x2 j2 where b2: "handleIntent db_ports c1' c2' data g w1 =
      (Ack, g\<lparr>rm_accepted := rm_accepted g + 1, rm_exposure := map_option (Register (te_Side x2) (te_Sector x2)) (rm_exposure g)\<rparr>,
       w1\<lparr>w_bus := w_bus w1 @ [(ExecuteSubject (te_Ticker x2), j2)]\<rparr>)"
    "buildExecution c2' g i = Inr x2" "unmarshal_execution (Some j2) = Inr x2" "0 < te_Quantity x2" "te_Quantity x2 < 2 ^ 31"
    using accepted_run [OF assms(1) a1 w1(2) assms(5,7-12), of c2'] by blast
  define w2 where "w2 = w1\<lparr>w_bus := w_bus w1 @ [(ExecuteSubject (te_Ticker x2), j2)]\<rparr>"
  note v1 = built_valid [OF b1(1) v] and v2 = built_valid [OF b2(2) v]
  have t: "te_Ticker x1 = ti_Ticker i" "te_Ticker x2 = ti_Ticker i" "te_Side x2 = SideLong" "te_Sector x2 = sectorOf g (ti_Ticker i)"
    using b1(1) b2(2) assms(13) by (auto simp: buildExecution_def Let_def split: if_splits)
  have reg: "ex_total (Register SideLong sec y) = ex_total y + 1 \<and> ex_longs (Register SideLong sec y) = ex_longs y + 1" for sec y
    by (simp add: Register_def Let_def bump_sector_def SideLong_def SideShort_def)
  have refs: "te_ExecutionRef x1 \<noteq> te_ExecutionRef x2"
    using v1 v2 string_of_int_inject [of c2 c2'] assms(17,18) by auto
  have p: "w_positions w2 = w_positions w" "w_db_faults w2 = []" "w_bus w2 = w_bus w @ [(ExecuteSubject (ti_Ticker i), j1), (ExecuteSubject (ti_Ticker i), j2)]"
    using assms(4) t by (simp_all add: w2_def w1_def quiet_def)
  have bounds: "c2 < 2 ^ 63" "0 \<le> c2'" using assms(17-19) by linarith+
  have n1: "te_ExecutionRef x1 \<notin> pr_execution_ref ` set (w_positions w2)" using v1 p(1) assms(20) by simp
  obtain w3 where w3: "handleExecution PaperTrader_Execute c3 (Some j1) w2 = (Ack, w3)"
    "w_positions w3 = w_positions w @ [new_position_row (posFromExec x1) w2]" "w_db_faults w3 = []"
    using built_filled [OF b1(1) v assms(7,8,13-17) bounds(1) b1(4,5) p(2) n1 b1(3), of c3] p(1) by auto
  have n2: "te_ExecutionRef x2 \<notin> pr_execution_ref ` set (w_positions w3)"
    using v2 w3(2) assms(21) refs new_row_recorded [of x1 w2] by auto
  obtain w4 where w4: "handleExecution PaperTrader_Execute c4 (Some j2) w3 = (Ack, w4)"
    "w_positions w4 = w_positions w @ [new_position_row (posFromExec x1) w2, new_position_row (posFromExec x2) w3]"
    using built_filled [OF b2(2) v assms(7,8,13-16) bounds(2) assms(19) b2(4,5) w3(3) n2 b2(3), of c4] w3(2) by auto
  have rows: "pr_status (new_position_row (posFromExec y) u) = ''OPEN''" "pr_ticker (new_position_row (posFromExec y) u) = te_Ticker y"
    "pr_quantity (new_position_row (posFromExec y) u) = te_Quantity y" "pr_execution_ref (new_position_row (posFromExec y) u) = te_ExecutionRef y" for y u
    by (simp_all add: new_position_row_def posFromExec_def Let_def PositionOpen_def)
  have "te_Quantity x1 = te_Quantity x2" using v1 v2 by simp
  then show ?thesis using h1 b2(1) p(3) w3(1) w4 rows t refs reg unfolding w2_def [symmetric]
    by (intro exI [of _ w1] exI [of _ "g\<lparr>rm_accepted := rm_accepted g + 1, rm_exposure := map_option (Register (te_Side x2) (te_Sector x2)) (rm_exposure g)\<rparr>"]
        exI [of _ w2] exI [of _ j1] exI [of _ j2] exI [of _ w3] exI [of _ w4] exI [of _ "new_position_row (posFromExec x1) w2"]
        exI [of _ "new_position_row (posFromExec x2) w3"]) auto
qed

lemma lost_confirmation_doubles_witness:
  "\<exists>w1 g' w2 j1 j2 w3 w4 r1 r2.
    handleIntent db_ports morning morning sample_payload production (empty_world\<lparr>w_bus_faults := [LostReply (NewErr ''timeout'')]\<rparr>) =
      (NakWithDelay (5 * Second), production, w1) \<and>
    handleIntent db_ports morning (morning + 1) sample_payload production w1 = (Ack, g', w2) \<and>
    handleExecution PaperTrader_Execute morning (Some j1) w2 = (Ack, w3) \<and>
    handleExecution PaperTrader_Execute morning (Some j2) w3 = (Ack, w4) \<and> w_positions w4 = [r1, r2]"
proof -
  have e: "\<not> errors_is (NewErr ''timeout'') ErrInsufficientCapital" by (simp add: ErrInsufficientCapital_def)
  have f: "ti_Side sample_intent = SideLong" "ti_SignalReason sample_intent \<notin> {ReasonStopLoss, ReasonTakeProfit, ReasonSquareOff}"
    "length (ti_Ticker sample_intent) \<le> 10" "rm_sectors production = Some (resolveSectorMap '''')" "0 \<le> morning"
    "morning < morning + 1" "morning + 1 < 2 ^ 63"
    "''risk-'' @ ti_Ticker sample_intent @ ''-'' @ string_of_int morning \<notin> pr_execution_ref ` set (w_positions empty_world)"
    "''risk-'' @ ti_Ticker sample_intent @ ''-'' @ string_of_int (morning + 1) \<notin> pr_execution_ref ` set (w_positions empty_world)"
    by (simp_all add: sample_intent_def enum_defs empty_world_def production_def NewAgent_def morning_def Hour_def nsec_def)
  have "w_positions empty_world = []" by (simp add: empty_world_def)
  with lost_confirmation_doubles [OF sample_decodes production_admits production_admits production_facts(1,2) e production_facts(3-5)
      production_margin f, of morning morning] show ?thesis by (metis append_Nil)
qed

end
