(* ===== verification/Archive.thy ===== *)
theory Archive
  imports Database
begin

text \<open>
  The Market Recorder of \<open>src/analysts/recorder\<close>, which appends price ticks to one file per day, and the
  replay engine of \<open>src/pkg/replay/engine.go\<close>, which loads such a file, plans its pacing and publishes it
  again. A file is the list of its lines and an unterminated tail; a line is kept by its payload and its
  length. The file operations meet the next fault of a script. The length of the text that
  \<open>json.Marshal\<close> writes is an argument, as texts are not modelled. Paths are joined with a slash: the
  directory is taken to be clean already.
\<close>

section \<open>Files\<close>

text \<open>What becomes of a file operation: success, an error without effect, or a write that fails after some bytes.\<close>

datatype io = IoOk | IoFail error | IoShort nat error

type_synonym file_line = "payload \<times> nat"

record archive_file =
  af_lines :: "file_line list"
  af_tail :: "file_line option"

record Disk =
  dk_files :: "string \<rightharpoonup> archive_file"
  dk_faults :: "io list"

definition empty_file :: archive_file where "empty_file = \<lparr>af_lines = [], af_tail = None\<rparr>"

definition file_at :: "Disk \<Rightarrow> string \<Rightarrow> archive_file" where
  "file_at d p = (case dk_files d p of Some f \<Rightarrow> f | None \<Rightarrow> empty_file)"

definition ErrClosed :: error where "ErrClosed = Sentinel ''file already closed''"
definition ErrInvalid :: error where "ErrInvalid = Sentinel ''invalid argument''"
definition ErrNotExist :: error where "ErrNotExist = Sentinel ''file does not exist''"
definition ErrTooLong :: error where "ErrTooLong = Sentinel ''bufio.Scanner: token too long''"

definition next_io :: "Disk \<Rightarrow> io \<times> Disk" where
  "next_io d = ((case dk_faults d of [] \<Rightarrow> IoOk | f # fs \<Rightarrow> f), d\<lparr>dk_faults := tl (dk_faults d)\<rparr>)"

text \<open>\<open>os.OpenFile\<close> with the flags for creating and appending.\<close>

definition open_append :: "string \<Rightarrow> Disk \<Rightarrow> error option \<times> Disk" where
  "open_append path d =
     (case next_io d of
        (IoOk, d1) \<Rightarrow> (None, d1\<lparr>dk_files := (dk_files d1)(path \<mapsto> file_at d1 path)\<rparr>)
      | (IoFail e, d1) \<Rightarrow> (Some e, d1)
      | (IoShort _ e, d1) \<Rightarrow> (Some e, d1))"

text \<open>A close that reports an error has closed the file nevertheless; a second close fails.\<close>

definition close_file :: "bool \<Rightarrow> Disk \<Rightarrow> error option \<times> Disk" where
  "close_file shut d =
     (if shut then (Some ErrClosed, d)
      else case next_io d of
        (IoOk, d1) \<Rightarrow> (None, d1)
      | (IoFail e, d1) \<Rightarrow> (Some e, d1)
      | (IoShort _ e, d1) \<Rightarrow> (Some e, d1))"

text \<open>\<open>n\<close> bytes of a line without its end, after whatever tail the file has: the text of the line is readable
  only when it is whole and starts a line. The text of a line that follows a tail is not a JSON text.\<close>

definition extend_tail :: "file_line option \<Rightarrow> json \<Rightarrow> nat \<Rightarrow> nat \<Rightarrow> file_line option" where
  "extend_tail tail j len n =
     (if n = 0 then tail
      else case tail of
        None \<Rightarrow> Some (if len \<le> n then (Some j, len) else (None, n))
      | Some (_, m) \<Rightarrow> Some (None, m + min n len))"

definition write_line :: "string \<Rightarrow> json \<Rightarrow> nat \<Rightarrow> Disk \<Rightarrow> error option \<times> Disk" where
  "write_line path j len d =
     (case next_io d of (r, d1) \<Rightarrow>
        let f = file_at d1 path in
        case r of
          IoOk \<Rightarrow>
            (None, d1\<lparr>dk_files := (dk_files d1)(path \<mapsto>
               \<lparr>af_lines = af_lines f @ [the (extend_tail (af_tail f) j len (Suc len))], af_tail = None\<rparr>)\<rparr>)
        | IoFail e \<Rightarrow> (Some e, d1)
        | IoShort n e \<Rightarrow>
            (Some e, d1\<lparr>dk_files := (dk_files d1)(path \<mapsto> f\<lparr>af_tail := extend_tail (af_tail f) j len n\<rparr>)\<rparr>))"

section \<open>The recorder\<close>

text \<open>\<open>ta_file\<close> is the open file, by its path and whether it has been closed; \<open>ta_loc\<close> the location of the
  clock's times.\<close>

record TickArchive =
  ta_dir :: string
  ta_file :: "(string \<times> bool) option"
  ta_day :: string
  ta_loc :: int

definition DefaultTicksDir :: string where "DefaultTicksDir = ''data/ticks''"

definition envTicksDir :: "string \<Rightarrow> string" where
  "envTicksDir dir = (if dir \<noteq> '''' then dir else DefaultTicksDir)"

text \<open>The first argument is what \<open>os.MkdirAll\<close> returns.\<close>

definition OpenTickStore :: "error option \<Rightarrow> int \<Rightarrow> string \<Rightarrow> error + TickArchive" where
  "OpenTickStore mkdir loc dir =
     (case mkdir of
        Some e \<Rightarrow> Inl (Wrapf ''recorder: create dir'' e)
      | None \<Rightarrow> Inr \<lparr>ta_dir = dir, ta_file = None, ta_day = '''', ta_loc = loc\<rparr>)"

definition archive_path :: "string \<Rightarrow> string \<Rightarrow> string" where
  "archive_path dir day = dir @ ''/'' @ day @ ''.jsonl''"

definition rotateLocked :: "string \<Rightarrow> TickArchive \<Rightarrow> Disk \<Rightarrow> error option \<times> TickArchive \<times> Disk" where
  "rotateLocked day s d =
     (let path = archive_path (ta_dir s) day in
      case open_append path d of
        (Some e, d1) \<Rightarrow> (Some (Wrapf (''recorder: open '' @ path) e), s, d1)
      | (None, d1) \<Rightarrow>
          (case ta_file s of
             None \<Rightarrow> (None, s\<lparr>ta_file := Some (path, False), ta_day := day\<rparr>, d1)
           | Some (old, shut) \<Rightarrow>
               (case close_file shut d1 of
                  (Some e, d2) \<Rightarrow> (Some (Wrapf (''recorder: close '' @ old) e), s\<lparr>ta_file := Some (old, True)\<rparr>, d2)
                | (None, d2) \<Rightarrow> (None, s\<lparr>ta_file := Some (path, False), ta_day := day\<rparr>, d2))))"

definition archive_day :: "TickArchive \<Rightarrow> Time \<Rightarrow> string" where
  "archive_day s clock = format_day (civil_day (ta_loc s) clock)"

definition archive_Append :: "(json \<Rightarrow> nat) \<Rightarrow> Time \<Rightarrow> PriceTick \<Rightarrow> TickArchive \<Rightarrow> Disk \<Rightarrow> error option \<times> TickArchive \<times> Disk" where
  "archive_Append text_len clock tick s d =
     (case marshal_tick tick of
        Inl e \<Rightarrow> (Some (Wrapf ''recorder: marshal tick'' e), s, d)
      | Inr line \<Rightarrow>
          let day = archive_day s clock in
          case (if ta_file s = None \<or> day \<noteq> ta_day s then rotateLocked day s d else (None, s, d)) of
            (Some e, s1, d1) \<Rightarrow> (Some e, s1, d1)
          | (None, s1, d1) \<Rightarrow>
              (case ta_file s1 of
                 None \<Rightarrow> (Some (Wrapf ''recorder: append tick'' ErrInvalid), s1, d1)
               | Some (path, shut) \<Rightarrow>
                   if shut then (Some (Wrapf ''recorder: append tick'' ErrClosed), s1, d1)
                   else case write_line path line (text_len line) d1 of
                     (Some e, d2) \<Rightarrow> (Some (Wrapf ''recorder: append tick'' e), s1, d2)
                   | (None, d2) \<Rightarrow> (None, s1, d2)))"

definition archive_Close :: "TickArchive \<Rightarrow> Disk \<Rightarrow> error option \<times> TickArchive \<times> Disk" where
  "archive_Close s d =
     (case ta_file s of
        None \<Rightarrow> (None, s, d)
      | Some (path, shut) \<Rightarrow> (case close_file shut d of (r, d1) \<Rightarrow> (r, s\<lparr>ta_file := None\<rparr>, d1)))"

definition record_price :: "(json \<Rightarrow> nat) \<Rightarrow> Time \<Rightarrow> payload \<Rightarrow> TickArchive \<Rightarrow> Disk \<Rightarrow> TickArchive \<times> Disk" where
  "record_price text_len clock data s d =
     (case unmarshal_tick data of
        Inl _ \<Rightarrow> (s, d)
      | Inr tick \<Rightarrow> snd (archive_Append text_len clock tick s d))"

section \<open>The replay engine\<close>

definition MaxScanTokenSize :: nat where "MaxScanTokenSize = 65536"

fun scan_lines :: "file_line list \<Rightarrow> PriceTick list \<Rightarrow> error + PriceTick list" where
  "scan_lines [] ticks = Inr ticks"
| "scan_lines ((p, len) # ls) ticks =
     (if MaxScanTokenSize \<le> len then Inl ErrTooLong
      else case unmarshal_tick p of
        Inl _ \<Rightarrow> scan_lines ls ticks
      | Inr tick \<Rightarrow> scan_lines ls (ticks @ [tick]))"

definition LoadTicks :: "string \<Rightarrow> Disk \<Rightarrow> error + PriceTick list" where
  "LoadTicks path d =
     (case dk_files d path of
        None \<Rightarrow> Inl (Wrapf ''replay: open archive'' ErrNotExist)
      | Some f \<Rightarrow>
          (case scan_lines (af_lines f @ (case af_tail f of None \<Rightarrow> [] | Some l \<Rightarrow> [l])) [] of
             Inl e \<Rightarrow> Inl (Wrapf (''replay: scan '' @ path) e)
           | Inr ticks \<Rightarrow> Inr (sort_key pt_TsInMillis ticks)))"

record Step =
  st_Tick :: PriceTick
  st_Delay :: Duration

definition Millisecond :: Duration where "Millisecond = 1000000"

text \<open>The loop of \<open>Plan\<close>: \<open>first\<close> holds in its first turn.\<close>

fun plan_from :: "float64 \<Rightarrow> bool \<Rightarrow> int \<Rightarrow> PriceTick list \<Rightarrow> Step list" where
  "plan_from speed first prevMillis [] = []"
| "plan_from speed first prevMillis (tick # ticks) =
     (let delay =
        (if \<not> first \<and> 0 < speed then
           (let gap = wrap64 (pt_TsInMillis tick - prevMillis) in
            if 0 < gap then f64_to_int (f64_of_int gap / speed * f64_of_int Millisecond) else 0)
         else 0)
      in \<lparr>st_Tick = tick, st_Delay = delay\<rparr> # plan_from speed False (pt_TsInMillis tick) ticks)"

definition Plan :: "PriceTick list \<Rightarrow> float64 \<Rightarrow> Step list" where
  "Plan ticks speed = plan_from speed True 0 ticks"

definition ErrCanceled :: error where "ErrCanceled = Sentinel ''context canceled''"

text \<open>The loop of \<open>Run\<close> over a publisher. The list says of each step that waits whether the context ends first.\<close>

fun run_from :: "(string \<Rightarrow> json \<Rightarrow> 'w \<Rightarrow> error option \<times> 'w) \<Rightarrow> (Step \<Rightarrow> bool) \<Rightarrow> Step list \<Rightarrow> int \<Rightarrow> 'w \<Rightarrow> (int \<times> error option) \<times> 'w" where
  "run_from pub cancelled [] published w = ((published, None), w)"
| "run_from pub cancelled (step # steps) published w =
     (if 0 < st_Delay step \<and> cancelled step then ((published, Some ErrCanceled), w)
      else case marshal_tick (st_Tick step) of
        Inl e \<Rightarrow> ((published, Some (Wrapf ''replay: marshal tick'' e)), w)
      | Inr data \<Rightarrow>
          (case pub (PriceSubject (pt_Ticker (st_Tick step))) data w of
             (Some e, w1) \<Rightarrow> ((published, Some (Wrapf (''replay: publish '' @ pt_Ticker (st_Tick step)) e)), w1)
           | (None, w1) \<Rightarrow> run_from pub cancelled steps (published + 1) w1))"

definition Run_replay :: "(string \<Rightarrow> json \<Rightarrow> 'w \<Rightarrow> error option \<times> 'w) \<Rightarrow> (Step \<Rightarrow> bool) \<Rightarrow> Step list \<Rightarrow> 'w \<Rightarrow> (int \<times> error option) \<times> 'w" where
  "Run_replay pub cancelled steps w = run_from pub cancelled steps 0 w"

section \<open>What is acknowledged is read back\<close>

text \<open>A run of the recorder; the log holds the ticks whose \<open>Append\<close> returned no error, with their day.\<close>

fun record_all :: "(json \<Rightarrow> nat) \<Rightarrow> (Time \<times> PriceTick) list \<Rightarrow> TickArchive \<Rightarrow> Disk \<Rightarrow>
    (string \<times> PriceTick) list \<times> TickArchive \<times> Disk" where
  "record_all text_len [] s d = ([], s, d)"
| "record_all text_len ((clock, tick) # ops) s d =
     (case archive_Append text_len clock tick s d of (r, s1, d1) \<Rightarrow>
        case record_all text_len ops s1 d1 of (acked, s2, d2) \<Rightarrow>
          ((if r = None then [(archive_day s clock, tick)] else []) @ acked, s2, d2))"

definition of_day :: "string \<Rightarrow> (string \<times> PriceTick) list \<Rightarrow> PriceTick list" where
  "of_day day acked = map snd (filter (\<lambda>x. fst x = day) acked)"

lemma of_day_append [simp]: "of_day day (xs @ ys) = of_day day xs @ of_day day ys" "of_day day [] = []"
  by (simp_all add: of_day_def)

definition tick_line :: "(json \<Rightarrow> nat) \<Rightarrow> PriceTick \<Rightarrow> file_line" where
  "tick_line text_len t = (case marshal_tick t of Inl _ \<Rightarrow> (None, 0) | Inr j \<Rightarrow> (Some j, text_len j))"

definition no_short :: "Disk \<Rightarrow> bool" where
  "no_short d \<longleftrightarrow> (\<forall>n e. IoShort n e \<notin> set (dk_faults d))"

text \<open>The files of the directory hold exactly the acknowledged ticks, and the open file is the one of the day.\<close>

definition archived :: "(json \<Rightarrow> nat) \<Rightarrow> TickArchive \<Rightarrow> Disk \<Rightarrow> (string \<times> PriceTick) list \<Rightarrow> bool" where
  "archived text_len s d acked \<longleftrightarrow>
     (\<forall>day. file_at d (archive_path (ta_dir s) day) =
        \<lparr>af_lines = map (tick_line text_len) (of_day day acked), af_tail = None\<rparr>) \<and>
     (\<forall>x \<in> set acked. dk_files d (archive_path (ta_dir s) (fst x)) \<noteq> None) \<and>
     (\<forall>p. ta_file s = Some (p, False) \<longrightarrow> p = archive_path (ta_dir s) (ta_day s))"

lemma archive_path_inj [simp]: "archive_path dir a = archive_path dir b \<longleftrightarrow> a = b"
  by (simp add: archive_path_def)

lemma next_io_frame: "next_io d = (r, d1) \<Longrightarrow> dk_files d1 = dk_files d \<and> (no_short d \<longrightarrow> no_short d1 \<and> (\<forall>n e. r \<noteq> IoShort n e))"
  by (cases "dk_faults d") (auto simp: next_io_def no_short_def)

lemma file_at_same: "dk_files d1 = dk_files d \<Longrightarrow> file_at d1 = file_at d"
  by (simp add: file_at_def fun_eq_iff)

lemma open_append_frame:
  assumes "open_append p d = (r, d1)"
  shows "file_at d1 = file_at d \<and> (\<forall>q. dk_files d q \<noteq> None \<longrightarrow> dk_files d1 q \<noteq> None) \<and>
    (r = None \<longrightarrow> dk_files d1 p \<noteq> None) \<and> (no_short d \<longrightarrow> no_short d1)"
proof -
  obtain io d0 where n: "next_io d = (io, d0)" by (cases "next_io d")
  note f = next_io_frame [OF n] file_at_same [of d0 d]
  have "file_at (d0\<lparr>dk_files := (dk_files d0)(p \<mapsto> file_at d0 p)\<rparr>) = file_at d0"
    by (simp add: file_at_def fun_eq_iff)
  moreover have "no_short (d0\<lparr>dk_files := m\<rparr>) = no_short d0" for m by (simp add: no_short_def)
  ultimately show ?thesis using assms n f by (cases io) (auto simp: open_append_def)
qed

lemma close_file_frame:
  assumes "close_file b d = (r, d1)"
  shows "dk_files d1 = dk_files d \<and> (no_short d \<longrightarrow> no_short d1)"
proof (cases b)
  case False
  obtain io d0 where n: "next_io d = (io, d0)" by (cases "next_io d")
  then show ?thesis using assms False next_io_frame [OF n] by (cases io) (auto simp: close_file_def)
qed (use assms in \<open>simp add: close_file_def\<close>)

lemma write_line_frame:
  assumes "write_line p j n d = (r, d1)" "no_short d" "af_tail (file_at d p) = None"
  shows "no_short d1 \<and> (\<forall>q. dk_files d q \<noteq> None \<longrightarrow> dk_files d1 q \<noteq> None) \<and> (r = None \<longrightarrow> dk_files d1 p \<noteq> None) \<and>
    file_at d1 = (if r = None then (file_at d)(p := (file_at d p)\<lparr>af_lines := af_lines (file_at d p) @ [(Some j, n)]\<rparr>) else file_at d)"
proof -
  obtain io d0 where n: "next_io d = (io, d0)" by (cases "next_io d")
  note f = next_io_frame [OF n] file_at_same [of d0 d]
  have ns: "no_short (d0\<lparr>dk_files := m\<rparr>) = no_short d0" for m by (simp add: no_short_def)
  show ?thesis
  proof (cases io)
    case IoOk
    have "\<lparr>af_lines = af_lines g @ [l], af_tail = None\<rparr> = g\<lparr>af_lines := af_lines g @ [l]\<rparr>" if "af_tail g = None" for g l
      using that by (cases g) simp
    then show ?thesis using assms n f IoOk ns
      by (auto simp: write_line_def Let_def extend_tail_def file_at_def fun_eq_iff split: option.splits)
  qed (use assms n f in \<open>auto simp: write_line_def\<close>)
qed

lemma rotateLocked_archived:
  assumes "rotateLocked day s d = (r, s1, d1)" "archived text_len s d acked" "no_short d"
  shows "archived text_len s1 d1 acked \<and> no_short d1 \<and> ta_dir s1 = ta_dir s \<and> ta_loc s1 = ta_loc s \<and>
    (r = None \<longrightarrow> ta_file s1 = Some (archive_path (ta_dir s) day, False) \<and> ta_day s1 = day)"
proof -
  let ?p = "archive_path (ta_dir s) day"
  obtain q d0 where o: "open_append ?p d = (q, d0)" by (cases "open_append ?p d")
  note f = open_append_frame [OF o]
  have a0: "archived text_len s' d' acked" if "ta_dir s' = ta_dir s" "dk_files d' = dk_files d0"
    "\<forall>p. ta_file s' = Some (p, False) \<longrightarrow> p = archive_path (ta_dir s') (ta_day s')" for s' d'
    using assms(2) f that file_at_same [OF that(2)] by (auto simp: archived_def)
  show ?thesis
  proof (cases q)
    case (Some e)
    then show ?thesis using assms o f a0 [of s d0] by (auto simp: rotateLocked_def Let_def archived_def)
  next
    case None
    show ?thesis
    proof (cases "ta_file s")
      case (Some h)
      obtain old b where h: "h = (old, b)" by (cases h)
      obtain c d2 where cl: "close_file b d0 = (c, d2)" by (cases "close_file b d0")
      note g = close_file_frame [OF cl]
      show ?thesis using assms(1,3) None Some h o cl f g a0 [of s1 d2]
        by (cases c) (auto simp: rotateLocked_def Let_def)
    qed (use assms(1,3) None o f a0 [of s1 d0] in \<open>auto simp: rotateLocked_def Let_def\<close>)
  qed
qed

lemma archive_Append_archived:
  assumes "archive_Append text_len c t s d = (r, s1, d1)" "archived text_len s d acked" "no_short d"
  shows "archived text_len s1 d1 (acked @ (if r = None then [(archive_day s c, t)] else [])) \<and> no_short d1 \<and>
    ta_dir s1 = ta_dir s \<and> ta_loc s1 = ta_loc s"
proof (cases "marshal_tick t")
  case (Inl e)
  then show ?thesis using assms by (auto simp: archive_Append_def)
next
  case (Inr j)
  let ?day = "archive_day s c"
  obtain q s0 d0 where rot: "(if ta_file s = None \<or> ?day \<noteq> ta_day s then rotateLocked ?day s d else (None, s, d)) = (q, s0, d0)"
    by (cases "if ta_file s = None \<or> ?day \<noteq> ta_day s then rotateLocked ?day s d else (None, s, d)")
  have a0: "archived text_len s0 d0 acked" "no_short d0" "ta_dir s0 = ta_dir s" "ta_loc s0 = ta_loc s"
      "q = None \<longrightarrow> (\<forall>p. ta_file s0 = Some (p, False) \<longrightarrow> p = archive_path (ta_dir s) ?day)"
    using rot rotateLocked_archived [OF _ assms(2,3), of ?day q s0 d0] assms(2,3)
    by (auto simp: archived_def split: if_splits)
  show ?thesis
  proof (cases "\<exists>p. q = None \<and> ta_file s0 = Some (p, False)")
    case False
    then show ?thesis using assms(1) Inr rot a0
      by (cases q; cases "ta_file s0") (auto simp: archive_Append_def Let_def)
  next
    case True
    then have h: "q = None" "ta_file s0 = Some (archive_path (ta_dir s0) ?day, False)" using a0 by auto
    let ?p = "archive_path (ta_dir s0) ?day"
    obtain w d2 where wr: "write_line ?p j (text_len j) d0 = (w, d2)" by (cases "write_line ?p j (text_len j) d0")
    have "af_tail (file_at d0 ?p) = None" using a0(1) by (simp add: archived_def)
    note f = write_line_frame [OF wr a0(2) this]
    have out: "s1 = s0" "d1 = d2" "r = None \<longleftrightarrow> w = None"
      using assms(1) Inr rot h wr by (auto simp: archive_Append_def Let_def split: option.splits)
    have "tick_line text_len t = (Some j, text_len j)" using Inr by (simp add: tick_line_def)
    then have "archived text_len s0 d2 (acked @ (if w = None then [(?day, t)] else []))"
      using f a0(1) h(2) by (auto simp: archived_def of_day_def)
    then show ?thesis using out f a0 by simp
  qed
qed

lemma record_all_archived:
  "archived text_len s d log0 \<Longrightarrow> no_short d \<Longrightarrow> record_all text_len ops s d = (acked, s1, d1) \<Longrightarrow>
     archived text_len s1 d1 (log0 @ acked) \<and> ta_dir s1 = ta_dir s"
proof (induction ops arbitrary: s d log0 acked)
  case (Cons op ops)
  obtain c t where op: "op = (c, t)" by (cases op)
  obtain r s2 d2 where ap: "archive_Append text_len c t s d = (r, s2, d2)" by (cases "archive_Append text_len c t s d")
  obtain acked2 where rec: "record_all text_len ops s2 d2 = (acked2, s1, d1)"
      "acked = (if r = None then [(archive_day s c, t)] else []) @ acked2"
    using Cons.prems(3) op ap by (cases "record_all text_len ops s2 d2") auto
  note st = archive_Append_archived [OF ap Cons.prems(1,2)]
  then have "archived text_len s2 d2 (log0 @ (if r = None then [(archive_day s c, t)] else []))" "no_short d2" by blast+
  from Cons.IH [OF this rec(1)] show ?case using st unfolding rec(2) append_assoc by metis
qed simp

lemma tick_read_back:
  assumes "marshal_tick t = Inr j" "is_f64 (pt_Price t)" "in_int64 (pt_TsInMillis t)"
  shows "unmarshal_tick (Some j) = Inr t"
proof -
  obtain r where r: "pt_Price t = Fin r"
    using assms(1) by (cases "pt_Price t") (auto simp: marshal_tick_def tick_fields_def field_defs marshal_def)
  have m: "dec_tick_member ''ticker'' = set_str (\<lambda>x. pt_Ticker_update (\<lambda>_. x))"
    "dec_tick_member ''price'' = set_float (\<lambda>x. pt_Price_update (\<lambda>_. x))"
    "dec_tick_member ''ts_millis'' = set_int (\<lambda>x. pt_TsInMillis_update (\<lambda>_. x))"
    by (simp_all add: dec_tick_member_def fun_eq_iff)
  show ?thesis using assms r
    by (cases t) (auto simp: marshal_tick_def unmarshal_tick_def tick_fields_def field_defs marshal_def unmarshal_def
        zero_tick_def m simp del: is_f64.simps)
qed

text \<open>Ticks as the feed makes them, whose lines the scanner can hold.\<close>

definition recordable :: "(json \<Rightarrow> nat) \<Rightarrow> PriceTick \<Rightarrow> bool" where
  "recordable text_len t \<longleftrightarrow> is_f64 (pt_Price t) \<and> in_int64 (pt_TsInMillis t) \<and>
     (\<forall>j. marshal_tick t = Inr j \<longrightarrow> text_len j < MaxScanTokenSize)"

lemma scan_tick_lines:
  "\<forall>t \<in> set ticks. recordable text_len t \<and> (\<exists>j. marshal_tick t = Inr j) \<Longrightarrow>
     scan_lines (map (tick_line text_len) ticks @ ls) acc = scan_lines ls (acc @ ticks)"
proof (induction ticks arbitrary: acc)
  case (Cons t ticks)
  then obtain j where j: "marshal_tick t = Inr j" "text_len j < MaxScanTokenSize" "unmarshal_tick (Some j) = Inr t"
    using tick_read_back by (auto simp: recordable_def)
  then show ?case using Cons by (simp add: tick_line_def not_le)
qed simp

lemma record_all_acked:
  "record_all text_len ops s d = (acked, s1, d1) \<Longrightarrow> x \<in> set acked \<Longrightarrow>
     snd x \<in> snd ` set ops \<and> (\<exists>j. marshal_tick (snd x) = Inr j)"
proof (induction ops arbitrary: s d acked)
  case (Cons op ops)
  obtain c t where op: "op = (c, t)" by (cases op)
  obtain r s2 d2 where ap: "archive_Append text_len c t s d = (r, s2, d2)" by (cases "archive_Append text_len c t s d")
  obtain acked2 where rec: "record_all text_len ops s2 d2 = (acked2, s1, d1)"
      "acked = (if r = None then [(archive_day s c, t)] else []) @ acked2"
    using Cons.prems(1) op ap by (cases "record_all text_len ops s2 d2") auto
  have "\<exists>j. marshal_tick t = Inr j" if "r = None" using ap that by (cases "marshal_tick t") (auto simp: archive_Append_def)
  then show ?case using Cons.IH [OF rec(1)] Cons.prems(2) rec(2) op by (auto split: if_splits)
qed simp

lemma recorded_day_loads:
  assumes "\<forall>(c, t) \<in> set ops. recordable text_len t" "no_short d" "dk_files d = Map.empty"
    and "record_all text_len ops \<lparr>ta_dir = dir, ta_file = None, ta_day = '''', ta_loc = loc\<rparr> d = (acked, s1, d1)"
    and "day \<in> fst ` set acked"
  shows "LoadTicks (archive_path dir day) d1 = Inr (sort_key pt_TsInMillis (of_day day acked))"
proof -
  let ?s = "\<lparr>ta_dir = dir, ta_file = None, ta_day = '''', ta_loc = loc\<rparr>"
  have "archived text_len ?s d []" using assms(3) by (simp add: archived_def file_at_def empty_file_def)
  from record_all_archived [OF this assms(2,4)]
  have a: "archived text_len s1 d1 acked" and dir: "ta_dir s1 = dir" by simp_all
  obtain f where f: "dk_files d1 (archive_path dir day) = Some f" using a dir assms(5) by (auto simp: archived_def)
  have "file_at d1 (archive_path dir day) = \<lparr>af_lines = map (tick_line text_len) (of_day day acked), af_tail = None\<rparr>"
    using a dir by (simp add: archived_def)
  then have lines: "af_lines f = map (tick_line text_len) (of_day day acked)" "af_tail f = None"
    by (simp_all add: file_at_def f)
  have "\<forall>t \<in> set (of_day day acked). recordable text_len t \<and> (\<exists>j. marshal_tick t = Inr j)"
    using record_all_acked [OF assms(4)] assms(1) by (fastforce simp: of_day_def)
  then show ?thesis using scan_tick_lines [of "of_day day acked" text_len "[]" "[]"] by (simp add: LoadTicks_def f lines)
qed

text \<open>What the recorder acknowledges, the replay engine finds: start with an empty directory, record any ticks
  on any days, and let any open, close or write fail without effect. Then loading the file of a
  day gives exactly the ticks of that day whose \<open>Append\<close> returned no error, none twice, sorted by their
  timestamps and in the order of recording where these are equal.\<close>

theorem record_then_load:
  assumes "\<forall>(c, t) \<in> set ops. recordable text_len t" "no_short d" "dk_files d = Map.empty"
    and "record_all text_len ops \<lparr>ta_dir = dir, ta_file = None, ta_day = '''', ta_loc = loc\<rparr> d = (acked, s1, d1)"
    and "day \<in> fst ` set acked"
  shows "LoadTicks (archive_path dir day) d1 = Inr (sort_key pt_TsInMillis (of_day day acked))"
  using assms by (rule recorded_day_loads)

section \<open>Faults the recorder does not survive\<close>

text \<open>A tick can be lost although it was acknowledged. After a write that stopped short, the file ends in an
  unterminated tail; the next tick is written behind it, \<open>Append\<close> reports success, and yet loading the
  file then gives only the ticks of its complete lines: neither the tail nor the acknowledged tick.\<close>

theorem append_after_short_write:
  assumes "dk_files d (archive_path (ta_dir s) (archive_day s c)) = Some f" "af_tail f = Some tail"
    and "snd tail + text_len j < MaxScanTokenSize" "marshal_tick t = Inr j"
    and "ta_file s = Some (archive_path (ta_dir s) (archive_day s c), False)" "ta_day s = archive_day s c"
    and "dk_faults d = []" "scan_lines (af_lines f) [] = Inr ticks"
  shows "\<exists>s1 d1. archive_Append text_len c t s d = (None, s1, d1) \<and>
    LoadTicks (archive_path (ta_dir s) (archive_day s c)) d1 = Inr (sort_key pt_TsInMillis ticks)"
proof -
  let ?p = "archive_path (ta_dir s) (archive_day s c)"
  obtain q m where tail: "tail = (q, m)" by (cases tail)
  have end_line: "scan_lines (ls @ [(None, n)]) acc = scan_lines ls acc" if "n < MaxScanTokenSize" for ls acc n
    using that by (induction ls acc rule: scan_lines.induct)
      (auto simp: unmarshal_tick_def unmarshal_def not_le split: sum.splits)
  define g where "g = \<lparr>af_lines = af_lines f @ [(None, m + text_len j)], af_tail = None\<rparr>"
  define d1 where "d1 = d\<lparr>dk_files := (dk_files d)(?p \<mapsto> g)\<rparr>"
  have "archive_Append text_len c t s d = (None, s, d1)"
    using assms(1,2,4-7) tail
    by (simp add: archive_Append_def write_line_def next_io_def file_at_def extend_tail_def Let_def d1_def g_def)
  moreover have "LoadTicks ?p d1 = Inr (sort_key pt_TsInMillis ticks)"
    using end_line [of "m + text_len j" "af_lines f" "[]"] assms(3,8) tail
    by (simp add: LoadTicks_def d1_def g_def)
  ultimately show ?thesis by blast
qed

lemma closed_for_good:
  assumes "ta_file s = Some (p, True)" "archive_Append text_len c t s d = (r, s1, d1)"
  shows "r \<noteq> None \<and> ta_file s1 = Some (p, True) \<and> file_at d1 = file_at d"
proof (cases "marshal_tick t")
  case (Inl e)
  then show ?thesis using assms by (auto simp: archive_Append_def)
next
  case (Inr j)
  obtain q d0 where o: "open_append (archive_path (ta_dir s) (archive_day s c)) d = (q, d0)"
    by (cases "open_append (archive_path (ta_dir s) (archive_day s c)) d")
  then have "file_at d0 = file_at d" using open_append_frame [OF o] by simp
  then show ?thesis using assms Inr o
    by (cases q) (auto simp: archive_Append_def rotateLocked_def close_file_def Let_def split: if_splits)
qed

lemma record_all_closed:
  "ta_file s = Some (p, True) \<Longrightarrow> record_all text_len ops s d = (acked, s1, d1) \<Longrightarrow> acked = [] \<and> file_at d1 = file_at d"
proof (induction ops arbitrary: s d acked)
  case (Cons op ops)
  obtain c t where op: "op = (c, t)" by (cases op)
  obtain r s2 d2 where ap: "archive_Append text_len c t s d = (r, s2, d2)" by (cases "archive_Append text_len c t s d")
  obtain acked2 where rec: "record_all text_len ops s2 d2 = (acked2, s1, d1)"
      "acked = (if r = None then [(archive_day s c, t)] else []) @ acked2"
    using Cons.prems(2) op ap by (cases "record_all text_len ops s2 d2") auto
  note cl = closed_for_good [OF Cons.prems(1) ap]
  show ?case using Cons.IH [OF _ rec(1)] cl rec(2) by simp
qed simp

text \<open>A failed close ends the recording. When closing the old file fails at a rotation, the recorder keeps the
  closed file; from then on every \<open>Append\<close>, of whatever tick on whatever day, returns an error and no
  file gains a line, although the disk works again.\<close>

theorem failed_close_ends_recording:
  assumes "ta_file s = Some (old, False)" "dk_faults d = [IoOk, IoFail e]"
    and "rotateLocked day s d = (r, s1, d1)" "record_all text_len ops s1 d1 = (acked, s2, d2)"
  shows "dk_faults d1 = [] \<and> r \<noteq> None \<and> acked = [] \<and> file_at d2 = file_at d"
proof -
  have s1: "ta_file s1 = Some (old, True)" "r \<noteq> None" "dk_faults d1 = []" "file_at d1 = file_at d"
    using assms(1-3)
    by (auto simp: rotateLocked_def Let_def open_append_def close_file_def next_io_def file_at_def fun_eq_iff)
  then show ?thesis using record_all_closed [OF s1(1) assms(4)] by simp
qed

section \<open>The pacing of a replay\<close>

lemma plan_from_ticks: "map st_Tick (plan_from speed first prev ticks) = ticks"
  by (induction ticks arbitrary: first prev) (simp_all add: Let_def)

lemma plan_from_still: "\<not> 0 < speed \<Longrightarrow> \<forall>s \<in> set (plan_from speed first prev ticks). st_Delay s = 0"
  by (induction ticks arbitrary: first prev) (simp_all add: Let_def)

text \<open>At most 2^53 nanoseconds, a hundred days, are exact.\<close>

lemma delay_exact:
  assumes "0 < gap" "gap \<le> 9007199254"
  shows "f64_to_int (f64_of_int gap / 1 * f64_of_int Millisecond) = gap * 1000000"
proof -
  have "f64_of_int gap = Fin (of_int gap)" "f64_of_int Millisecond = Fin 1000000"
    using assms f64_of_int_exact [of gap] by (simp_all add: Millisecond_def)
  moreover have "rnd (of_int gap) = Fin (of_int gap)" using assms by (intro rnd_of_int) simp
  moreover have "rnd (of_int (gap * 1000000)) = Fin (of_int (gap * 1000000))" using assms by (intro rnd_of_int) simp
  ultimately have "f64_of_int gap / 1 * f64_of_int Millisecond = Fin (of_int (gap * 1000000))" by (simp add: one_float64_def)
  moreover have "in_int64 (gap * 1000000)" using assms by (simp add: in_int64_def)
  moreover have "rat_trunc (of_int k) = k" for k by (simp add: rat_trunc_def)
  ultimately show ?thesis by (simp only: f64_to_int.simps if_True)
qed

lemma sorted_last: "sorted (map f xs) \<Longrightarrow> x \<in> set xs \<Longrightarrow> f x \<le> (f (last xs) :: int)"
  by (induction xs) auto

lemma plan_from_total:
  "sorted (map pt_TsInMillis ticks) \<Longrightarrow> \<forall>t \<in> set ticks. prev \<le> pt_TsInMillis t \<and> pt_TsInMillis t - prev \<le> 9007199254 \<Longrightarrow>
     (\<Sum>s\<leftarrow>plan_from 1 False prev ticks. st_Delay s) = (last (prev # map pt_TsInMillis ticks) - prev) * 1000000"
proof (induction ticks arbitrary: prev)
  case (Cons t ticks)
  let ?ts = "pt_TsInMillis t"
  have gap: "0 \<le> ?ts - prev" "?ts - prev \<le> 9007199254" using Cons.prems(2) by simp_all
  then have w: "wrap64 (?ts - prev) = ?ts - prev" by (intro wrap64_id) (simp add: in_int64_def)
  have one: "0 < (1 :: float64)" by (simp add: one_float64_def)
  have d: "(if 0 < ?ts - prev then f64_to_int (f64_of_int (?ts - prev) / 1 * f64_of_int Millisecond) else 0) = (?ts - prev) * 1000000"
    using delay_exact [of "?ts - prev"] gap by auto
  have "(\<Sum>s\<leftarrow>plan_from 1 False ?ts ticks. st_Delay s) = (last (?ts # map pt_TsInMillis ticks) - ?ts) * 1000000"
    using Cons.prems by (intro Cons.IH) fastforce+
  then show ?case using d one by (simp add: Let_def w algebra_simps)
qed simp

text \<open>A plan replays every tick once and in order, the first at once. A speed that is not positive means no waiting
  at all; at speed 1 the waits of a sorted archive of at most a hundred days add up, to the nanosecond, to
  the time between its first and its last tick.\<close>

theorem Plan_paces:
  "map st_Tick (Plan ticks speed) = ticks \<and>
   (ticks \<noteq> [] \<longrightarrow> st_Delay (hd (Plan ticks speed)) = 0) \<and>
   (\<not> 0 < speed \<longrightarrow> (\<forall>s \<in> set (Plan ticks speed). st_Delay s = 0)) \<and>
   (ticks \<noteq> [] \<and> sorted (map pt_TsInMillis ticks) \<and>
      pt_TsInMillis (last ticks) - pt_TsInMillis (hd ticks) \<le> 9007199254 \<longrightarrow>
      (\<Sum>s\<leftarrow>Plan ticks 1. st_Delay s) = (pt_TsInMillis (last ticks) - pt_TsInMillis (hd ticks)) * 1000000)"
proof (intro conjI impI)
  show "map st_Tick (Plan ticks speed) = ticks" unfolding Plan_def by (rule plan_from_ticks)
  show "ticks \<noteq> [] \<Longrightarrow> st_Delay (hd (Plan ticks speed)) = 0" by (cases ticks) (simp_all add: Plan_def Let_def)
  show "\<not> 0 < speed \<Longrightarrow> \<forall>s \<in> set (Plan ticks speed). st_Delay s = 0" unfolding Plan_def by (rule plan_from_still)
  assume h: "ticks \<noteq> [] \<and> sorted (map pt_TsInMillis ticks) \<and> pt_TsInMillis (last ticks) - pt_TsInMillis (hd ticks) \<le> 9007199254"
  then obtain t ts where t: "ticks = t # ts" by (cases ticks) auto
  have "\<forall>x \<in> set ts. pt_TsInMillis t \<le> pt_TsInMillis x \<and> pt_TsInMillis x - pt_TsInMillis t \<le> 9007199254"
    using h t sorted_last [of pt_TsInMillis ticks] by fastforce
  then have "(\<Sum>s\<leftarrow>plan_from 1 False (pt_TsInMillis t) ts. st_Delay s)
      = (last (pt_TsInMillis t # map pt_TsInMillis ts) - pt_TsInMillis t) * 1000000"
    using h t by (intro plan_from_total) simp_all
  moreover have "last (pt_TsInMillis t # map pt_TsInMillis ts) = pt_TsInMillis (last ticks)"
    by (simp add: t last_map)
  ultimately show "(\<Sum>s\<leftarrow>Plan ticks 1. st_Delay s) = (pt_TsInMillis (last ticks) - pt_TsInMillis (hd ticks)) * 1000000"
    by (simp add: Plan_def t Let_def)
qed

section \<open>What a replay publishes\<close>

definition price_message :: "PriceTick \<Rightarrow> message" where
  "price_message t = (PriceSubject (pt_Ticker t), case marshal_tick t of Inr j \<Rightarrow> j | Inl _ \<Rightarrow> JNull)"

lemma run_from_prefix:
  "run_from publish cancelled steps m w = ((n, e), w') \<Longrightarrow>
     \<exists>k i. n = m + int k \<and> k \<le> i \<and> i \<le> Suc k \<and> i \<le> length steps \<and>
       w_bus w' = w_bus w @ map (price_message \<circ> st_Tick) (take i steps) \<and>
       (e = None \<longleftrightarrow> k = length steps) \<and> (e = None \<longrightarrow> i = k)"
proof (induction steps arbitrary: m w)
  case (Cons s steps)
  let ?t = "st_Tick s"
  show ?case
  proof (cases "0 < st_Delay s \<and> cancelled s \<or> (\<exists>x. marshal_tick ?t = Inl x)")
    case True
    then have "n = m" "w' = w" "e \<noteq> None" using Cons.prems by (auto split: if_splits)
    then show ?thesis by (intro exI [of _ "0 :: nat"]) auto
  next
    case False
    then obtain j where j: "marshal_tick ?t = Inr j" by (cases "marshal_tick ?t") auto
    obtain q w1 where p: "publish (PriceSubject (pt_Ticker ?t)) j w = (q, w1)" by (cases "publish (PriceSubject (pt_Ticker ?t)) j w")
    have msg: "price_message ?t = (PriceSubject (pt_Ticker ?t), j)" by (simp add: price_message_def j)
    note b = publish_bus [OF p]
    show ?thesis
    proof (cases q)
      case (Some x)
      then have "n = m" "w' = w1" "e \<noteq> None" using Cons.prems False j p by auto
      moreover obtain i :: nat where "i \<le> 1" "w_bus w1 = w_bus w @ map (price_message \<circ> st_Tick) (take i (s # steps))"
        using b msg by (metis (no_types, lifting) append_Nil2 comp_apply le_numeral_extra(3,4) list.map(1,2) take_0 take_Suc_Cons One_nat_def zero_le_one)
      ultimately show ?thesis by (intro exI [of _ "0 :: nat"] exI [of _ i]) auto
    next
      case None
      then have "run_from publish cancelled steps (m + 1) w1 = ((n, e), w')" using Cons.prems False j p by auto
      from Cons.IH [OF this] obtain k i where k: "n = m + 1 + int k" "k \<le> i" "i \<le> Suc k" "i \<le> length steps"
        "w_bus w' = w_bus w1 @ map (price_message \<circ> st_Tick) (take i steps)" "e = None \<longleftrightarrow> k = length steps" "e = None \<longrightarrow> i = k"
        by blast
      have "w_bus w1 = w_bus w @ [price_message ?t]" using b None msg by simp
      then show ?thesis using k by (intro exI [of _ "Suc k"] exI [of _ "Suc i"]) auto
    qed
  qed
qed simp

text \<open>A replay publishes a prefix of its schedule, in order and nothing twice. The count it returns is the
  number of ticks published, or one less when the confirmation of the last was lost, and there is no
  error exactly when the whole schedule was published.\<close>

theorem Run_replay_prefix:
  assumes "Run_replay publish cancelled steps w = ((n, e), w')"
  shows "\<exists>i \<le> length steps. int i - 1 \<le> n \<and> n \<le> int i \<and>
    w_bus w' = w_bus w @ map (price_message \<circ> st_Tick) (take i steps) \<and> (e = None \<longleftrightarrow> n = int (length steps))"
  using run_from_prefix [OF assms [unfolded Run_replay_def]] by force

section \<open>Examples\<close>

definition sample_tick :: PriceTick where
  "sample_tick = \<lparr>pt_Ticker = ''TCS'', pt_Price = Fin 100, pt_TsInMillis = 5\<rparr>"

definition sample_json :: json where
  "sample_json = JObj [(''ticker'', JStr ''TCS''), (''price'', JInt 100), (''ts_millis'', JInt 5)]"

lemma sample_marshal: "marshal_tick sample_tick = Inr sample_json"
  by (simp add: marshal_tick_def tick_fields_def field_defs marshal_def sample_tick_def sample_json_def json_of_rat_def)

lemma sample_recordable: "recordable (\<lambda>_. 50) sample_tick"
  using fin64_int [of 100]
  by (simp add: recordable_def sample_tick_def fin64_def in_int64_def MaxScanTokenSize_def del: is_f64.simps)

definition blank_disk :: Disk where "blank_disk = \<lparr>dk_files = Map.empty, dk_faults = []\<rparr>"

definition new_archive :: TickArchive where
  "new_archive = \<lparr>ta_dir = ''ticks'', ta_file = None, ta_day = '''', ta_loc = 0\<rparr>"

lemma epoch_day: "archive_day new_archive 0 = ''1970-01-01''"
  by (simp add: archive_day_def new_archive_def civil_day_def format_day_epoch)

lemma sample_append:
  "archive_Append (\<lambda>_. 50) 0 sample_tick new_archive blank_disk =
     (None, new_archive\<lparr>ta_file := Some (archive_path ''ticks'' ''1970-01-01'', False), ta_day := ''1970-01-01''\<rparr>,
      blank_disk\<lparr>dk_files := [archive_path ''ticks'' ''1970-01-01'' \<mapsto> \<lparr>af_lines = [(Some sample_json, 50)], af_tail = None\<rparr>]\<rparr>)"
  by (simp add: archive_Append_def sample_marshal epoch_day Let_def rotateLocked_def open_append_def next_io_def
      write_line_def file_at_def empty_file_def extend_tail_def)
    (simp add: new_archive_def blank_disk_def write_line_def next_io_def file_at_def empty_file_def extend_tail_def)

lemma record_then_load_witness:
  "\<exists>d1. LoadTicks (archive_path ''ticks'' ''1970-01-01'') d1 = Inr [sample_tick]"
proof -
  obtain s1 d1 where r: "record_all (\<lambda>_. 50) [(0, sample_tick)] new_archive blank_disk = ([(''1970-01-01'', sample_tick)], s1, d1)"
    by (simp add: sample_append epoch_day)
  have ops: "\<forall>(c, t) \<in> set [(0 :: Time, sample_tick)]. recordable (\<lambda>_. 50) t" using sample_recordable by simp
  have d: "no_short blank_disk" "dk_files blank_disk = Map.empty" by (simp_all add: no_short_def blank_disk_def)
  from record_then_load [OF ops d r [unfolded new_archive_def], of "''1970-01-01''"]
  have "LoadTicks (archive_path ''ticks'' ''1970-01-01'') d1 = Inr [sample_tick]" by (simp add: of_day_def)
  then show ?thesis by blast
qed

text \<open>A disk whose file for the day ends in ten bytes of a tick.\<close>

definition torn_disk :: Disk where
  "torn_disk = \<lparr>dk_files = [archive_path ''ticks'' ''1970-01-01'' \<mapsto> \<lparr>af_lines = [], af_tail = Some (None, 10)\<rparr>], dk_faults = []\<rparr>"

definition open_archive :: TickArchive where
  "open_archive = new_archive\<lparr>ta_file := Some (archive_path ''ticks'' ''1970-01-01'', False), ta_day := ''1970-01-01''\<rparr>"

lemma append_after_short_write_witness:
  "\<exists>s1 d1. archive_Append (\<lambda>_. 50) 0 sample_tick open_archive torn_disk = (None, s1, d1) \<and>
    LoadTicks (archive_path ''ticks'' ''1970-01-01'') d1 = Inr []"
proof -
  have day: "archive_day open_archive 0 = ''1970-01-01''" "ta_dir open_archive = ''ticks''"
    using epoch_day by (simp_all add: open_archive_def archive_day_def new_archive_def)
  have o: "ta_file open_archive = Some (archive_path ''ticks'' ''1970-01-01'', False)" "ta_day open_archive = ''1970-01-01''"
    by (simp_all add: open_archive_def)
  show ?thesis
    using append_after_short_write [of torn_disk open_archive 0 "\<lparr>af_lines = [], af_tail = Some (None, 10)\<rparr>" "(None, 10)"
        "\<lambda>_. 50" sample_json sample_tick "[]"]
    by (simp add: day torn_disk_def sample_marshal MaxScanTokenSize_def o)
qed

lemma failed_close_ends_recording_witness:
  "fst (record_all (\<lambda>_. 50) [(0, sample_tick)]
     (fst (snd (rotateLocked ''1970-01-02'' open_archive (torn_disk\<lparr>dk_faults := [IoOk, IoFail (NewErr ''close'')]\<rparr>))))
     (snd (snd (rotateLocked ''1970-01-02'' open_archive (torn_disk\<lparr>dk_faults := [IoOk, IoFail (NewErr ''close'')]\<rparr>))))) = []"
proof -
  let ?d = "torn_disk\<lparr>dk_faults := [IoOk, IoFail (NewErr ''close'')]\<rparr>"
  obtain r s1 d1 where r: "rotateLocked ''1970-01-02'' open_archive ?d = (r, s1, d1)"
    by (cases "rotateLocked ''1970-01-02'' open_archive ?d")
  obtain acked s2 d2 where q: "record_all (\<lambda>_. 50) [(0, sample_tick)] s1 d1 = (acked, s2, d2)"
    by (cases "record_all (\<lambda>_. 50) [(0, sample_tick)] s1 d1")
  have "ta_file open_archive = Some (archive_path ''ticks'' ''1970-01-01'', False)" by (simp add: open_archive_def)
  from failed_close_ends_recording [OF this _ r q] show ?thesis by (simp add: r q del: record_all.simps)
qed

lemma Plan_paces_witness:
  "(\<Sum>s\<leftarrow>Plan [sample_tick, sample_tick\<lparr>pt_TsInMillis := 8\<rparr>] 1. st_Delay s) = 3000000"
  using Plan_paces [of "[sample_tick, sample_tick\<lparr>pt_TsInMillis := 8\<rparr>]" 1] by (simp add: sample_tick_def)

lemma Run_replay_prefix_witness:
  "\<exists>i \<le> 1. w_bus (snd (Run_replay publish (\<lambda>_. False) (Plan [sample_tick] 1) empty_world)) =
     map (price_message \<circ> st_Tick) (take i (Plan [sample_tick] 1))"
proof -
  obtain n e w' where r: "Run_replay publish (\<lambda>_. False) (Plan [sample_tick] 1) empty_world = ((n, e), w')"
    by (metis prod.exhaust)
  have "length (Plan [sample_tick] 1) = 1" "w_bus empty_world = []" by (simp_all add: Plan_def empty_world_def)
  then show ?thesis using Run_replay_prefix [OF r] by (auto simp: r)
qed

end
