(* ===== verification/GrowwClient.thy ===== *)
theory GrowwClient
  imports GoHttp Universe
begin

text \<open>
  The transport of the broker's REST client: \<open>src/pkg/groww/client.go\<close> and \<open>errors.go\<close>. The token bucket, the
  request with its retry after a refreshed token, and the decoding of the standard envelope. The clock, the
  server, the environment and SHA-256 are the fields of an argument \<open>groww_env\<close>; whatever they keep
  between calls is a state of any type, threaded through. Go's \<open>do\<close> calls itself for the retry and need not
  return, so it is a partial function whose value \<open>None\<close> means exactly that.
\<close>

section \<open>Errors\<close>

definition ErrAuthExpired :: error where "ErrAuthExpired = Sentinel ''groww: access token expired''"
definition ErrRateLimited :: error where "ErrRateLimited = Sentinel ''groww: rate limit exceeded''"

text \<open>An \<open>APIError\<close>: its text, and what \<open>Unwrap\<close> finds in it.\<close>

definition APIError :: "int \<Rightarrow> string \<Rightarrow> string \<Rightarrow> error" where
  "APIError status code msg =
     (let text = (if code \<noteq> '''' then ''groww: HTTP '' @ string_of_int status @ '' ('' @ code @ ''): '' @ msg
                  else ''groww: HTTP '' @ string_of_int status @ '': '' @ msg)
      in if 500 \<le> status then NewErr text
         else if status = 429 then Wrapf text ErrRateLimited
         else if status = 401 then Wrapf text ErrAuthExpired
         else NewErr text)"

definition IsRateLimited :: "error \<Rightarrow> bool" where "IsRateLimited e \<longleftrightarrow> errors_is e ErrRateLimited"
definition IsAuthExpired :: "error \<Rightarrow> bool" where "IsAuthExpired e \<longleftrightarrow> errors_is e ErrAuthExpired"

lemma APIError_class [simp]:
  "IsRateLimited (APIError st code msg) \<longleftrightarrow> st = 429" "IsAuthExpired (APIError st code msg) \<longleftrightarrow> st = 401"
  by (auto simp: APIError_def IsRateLimited_def IsAuthExpired_def ErrRateLimited_def ErrAuthExpired_def Let_def)

section \<open>The token bucket\<close>

record token_bucket =
  tb_tokens :: float64
  tb_maxRate :: float64
  tb_lastTick :: Time

definition new_bucket :: "float64 \<Rightarrow> Time \<Rightarrow> token_bucket" where
  "new_bucket perSec now = \<lparr>tb_tokens = perSec, tb_maxRate = perSec, tb_lastTick = now\<rparr>"

text \<open>\<open>Duration.Seconds\<close>: whole seconds and the rest are converted apart.\<close>

definition Seconds :: "Duration \<Rightarrow> float64" where
  "Seconds d = (let sec = go_div d nsec in f64_of_int sec + f64_of_int (d - sec * nsec) / f64_of_int nsec)"

text \<open>\<open>Wait\<close> holds its mutex except while it sleeps, so it is two atomic steps: the first tells how long to
  sleep, if at all; the second is taken on waking, on whatever the bucket has become.\<close>

definition bucket_enter :: "Time \<Rightarrow> token_bucket \<Rightarrow> Duration option \<times> token_bucket" where
  "bucket_enter now rl =
     (let elapsed = now - tb_lastTick rl;
          filled = tb_tokens rl + Seconds elapsed * tb_maxRate rl;
          tokens = (if tb_maxRate rl < filled then tb_maxRate rl else filled);
          rl = rl\<lparr>tb_lastTick := now, tb_tokens := tokens\<rparr>
      in if tokens < 1 then (Some (f64_to_int ((1 - tokens) / tb_maxRate rl * f64_of_int nsec)), rl)
         else (None, rl\<lparr>tb_tokens := tokens - 1\<rparr>))"

definition bucket_wake :: "Time \<Rightarrow> token_bucket \<Rightarrow> token_bucket" where
  "bucket_wake now rl = rl\<lparr>tb_lastTick := now, tb_tokens := tb_maxRate rl - 1\<rparr>"

section \<open>The client\<close>

record 's groww_env =
  ge_now :: "'s \<Rightarrow> Time \<times> 's"
  ge_sleep :: "Duration \<Rightarrow> 's \<Rightarrow> 's"
  ge_http :: "http_request \<Rightarrow> 's \<Rightarrow> http_outcome \<times> 's"
  ge_getenv :: "string \<Rightarrow> string"
  ge_sha256hex :: "string \<Rightarrow> string"

record Client =
  gc_baseURL :: string
  gc_apiVersion :: string
  gc_token :: string
  gc_apiKey :: string
  gc_apiSecret :: string
  gc_ordersRL :: token_bucket
  gc_liveDataRL :: token_bucket
  gc_nonTradingRL :: token_bucket

definition envOrDefault :: "'s groww_env \<Rightarrow> string \<Rightarrow> string \<Rightarrow> string" where
  "envOrDefault env key fallback = (let v = ge_getenv env key in if v \<noteq> '''' then v else fallback)"

definition DefaultBaseURL :: string where "DefaultBaseURL = ''https://api.groww.in/v1''"

definition newClient :: "'s groww_env \<Rightarrow> string \<Rightarrow> string \<Rightarrow> string \<Rightarrow> 's \<Rightarrow> Client \<times> 's" where
  "newClient env token apiKey apiSecret s =
     (case ge_now env s of (t1, s) \<Rightarrow> case ge_now env s of (t2, s) \<Rightarrow> case ge_now env s of (t3, s) \<Rightarrow>
        (\<lparr>gc_baseURL = envOrDefault env ''GROWW_BASE_URL'' DefaultBaseURL, gc_apiVersion = ''1.0'', gc_token = token,
          gc_apiKey = apiKey, gc_apiSecret = apiSecret,
          gc_ordersRL = new_bucket (f64_of_int 8) t1, gc_liveDataRL = new_bucket (f64_of_int 8) t2,
          gc_nonTradingRL = new_bucket (f64_of_int 15) t3\<rparr>, s))"

definition NewClient :: "'s groww_env \<Rightarrow> string \<Rightarrow> 's \<Rightarrow> Client \<times> 's" where
  "NewClient env accessToken =
     newClient env (if accessToken = '''' then ge_getenv env ''GROWW_ACCESS_TOKEN'' else accessToken) '''' ''''"

definition NewClientFromKeys :: "'s groww_env \<Rightarrow> string \<Rightarrow> string \<Rightarrow> 's \<Rightarrow> Client \<times> 's" where
  "NewClientFromKeys env apiKey apiSecret =
     newClient env '''' (if apiKey = '''' then ge_getenv env ''GROWW_API_KEY'' else apiKey)
       (if apiSecret = '''' then ge_getenv env ''GROWW_API_SECRET'' else apiSecret)"

definition SetToken :: "string \<Rightarrow> Client \<Rightarrow> Client" where
  "SetToken token c = c\<lparr>gc_token := token\<rparr>"

text \<open>Which bucket a request draws from.\<close>

datatype rate_bucket = OrdersRL | LiveDataRL | NonTradingRL

fun bucket_of :: "rate_bucket \<Rightarrow> Client \<Rightarrow> token_bucket" where
  "bucket_of OrdersRL c = gc_ordersRL c"
| "bucket_of LiveDataRL c = gc_liveDataRL c"
| "bucket_of NonTradingRL c = gc_nonTradingRL c"

fun put_bucket :: "rate_bucket \<Rightarrow> token_bucket \<Rightarrow> Client \<Rightarrow> Client" where
  "put_bucket OrdersRL rl c = c\<lparr>gc_ordersRL := rl\<rparr>"
| "put_bucket LiveDataRL rl c = c\<lparr>gc_liveDataRL := rl\<rparr>"
| "put_bucket NonTradingRL rl c = c\<lparr>gc_nonTradingRL := rl\<rparr>"

definition bucket_Wait :: "'s groww_env \<Rightarrow> rate_bucket \<Rightarrow> Client \<Rightarrow> 's \<Rightarrow> Client \<times> 's" where
  "bucket_Wait env b c s =
     (case ge_now env s of (now, s) \<Rightarrow>
      case bucket_enter now (bucket_of b c) of
        (None, rl) \<Rightarrow> (put_bucket b rl c, s)
      | (Some sleep, rl) \<Rightarrow>
          (case ge_now env (ge_sleep env sleep s) of (woken, s) \<Rightarrow> (put_bucket b (bucket_wake woken rl) c, s)))"

section \<open>A fresh token\<close>

record token_answer =
  tka_Token :: string
  tka_TokenRefID :: string
  tka_Expiry :: string
  tka_IsActive :: bool

definition dec_token :: "string \<Rightarrow> json \<Rightarrow> token_answer \<Rightarrow> token_answer \<times> bool" where
  "dec_token = dec_by [
     (''token'', set_str (\<lambda>x. tka_Token_update (\<lambda>_. x))),
     (''tokenrefid'', set_str (\<lambda>x. tka_TokenRefID_update (\<lambda>_. x))),
     (''expiry'', set_str (\<lambda>x. tka_Expiry_update (\<lambda>_. x))),
     (''isactive'', set_bool (\<lambda>x. tka_IsActive_update (\<lambda>_. x)))]"

definition zero_token :: token_answer where
  "zero_token = \<lparr>tka_Token = '''', tka_TokenRefID = '''', tka_Expiry = '''', tka_IsActive = False\<rparr>"

text \<open>The members of a Go map are marshalled in the order of their keys.\<close>

definition refresh_request :: "'s groww_env \<Rightarrow> Client \<Rightarrow> Time \<Rightarrow> http_request" where
  "refresh_request env c now =
     (let ts = string_of_int (now div nsec)
      in \<lparr>rq_method = ''POST'', rq_url = envOrDefault env ''GROWW_TOKEN_URL'' (gc_baseURL c @ ''/token/api/access''),
          rq_headers = [(''Authorization'', ''Bearer '' @ gc_apiKey c), (''Content-Type'', ''application/json'')],
          rq_body = Some (JObj [(''checksum'', JStr (ge_sha256hex env (gc_apiSecret c @ ts))),
            (''key_type'', JStr ''approval''), (''timestamp'', JStr ts)])\<rparr>)"

definition refreshToken :: "'s groww_env \<Rightarrow> Client \<Rightarrow> 's \<Rightarrow> error option \<times> Client \<times> 's" where
  "refreshToken env c s =
     (case ge_now env s of (now, s) \<Rightarrow>
      case ge_http env (refresh_request env c now) s of
        (Unbuildable e, s) \<Rightarrow> (Some (Wrapf ''token refresh request'' e), c, s)
      | (Undelivered e, s) \<Rightarrow> (Some (Wrapf ''token refresh request'' e), c, s)
      | (Reply r, s) \<Rightarrow>
          if rp_status r \<noteq> 200 then (Some (NewErr (''token refresh HTTP '' @ string_of_int (rp_status r))), c, s)
          else case unmarshal dec_token zero_token (rp_json r) of
            Inl e \<Rightarrow> (Some (Wrapf ''token refresh decode'' e), c, s)
          | Inr result \<Rightarrow>
              if tka_Token result = '''' then (Some (NewErr ''token refresh: empty token in response''), c, s)
              else (None, SetToken (tka_Token result) c, s))"

section \<open>A request\<close>

definition api_request :: "Client \<Rightarrow> string \<Rightarrow> string \<Rightarrow> json option \<Rightarrow> http_request" where
  "api_request c verb path data =
     \<lparr>rq_method = verb, rq_url = gc_baseURL c @ path,
      rq_headers = [(''Authorization'', ''Bearer '' @ gc_token c), (''X-API-VERSION'', gc_apiVersion c),
        (''Accept'', ''application/json'')] @ (if data \<noteq> None then [(''Content-Type'', ''application/json'')] else []),
      rq_body = data\<rparr>"

text \<open>One pass through the body of \<open>do\<close>: it returns (\<open>Inl\<close>), or has fetched a new token and starts over. The
  request body is given with the outcome of marshalling it; \<open>None\<close> stands for nil.\<close>

type_synonym 's do_result = "(error + http_reply) \<times> Client \<times> 's"

definition do_pass :: "'s groww_env \<Rightarrow> string \<Rightarrow> string \<Rightarrow> (error + json) option \<Rightarrow> rate_bucket option \<Rightarrow>
    Client \<Rightarrow> 's \<Rightarrow> 's do_result + Client \<times> 's" where
  "do_pass env verb path body rb c s =
     (case (case rb of None \<Rightarrow> (c, s) | Some b \<Rightarrow> bucket_Wait env b c s) of (c, s) \<Rightarrow>
      case (case body of None \<Rightarrow> Inr None | Some r \<Rightarrow> map_sum id Some r) of
        Inl e \<Rightarrow> Inl (Inl (Wrapf ''groww marshal'' e), c, s)
      | Inr data \<Rightarrow>
          (case ge_http env (api_request c verb path data) s of
             (Unbuildable e, s) \<Rightarrow> Inl (Inl (Wrapf ''groww request'' e), c, s)
           | (Undelivered e, s) \<Rightarrow> Inl (Inl (Wrapf ''groww'' e), c, s)
           | (Reply r, s) \<Rightarrow>
               if rp_status r = 401 \<and> gc_apiKey c \<noteq> '''' \<and> gc_apiSecret c \<noteq> '''' then
                 (case rp_close r of
                    Some e \<Rightarrow> Inl (Inl (Wrapf ''groww close'' e), c, s)
                  | None \<Rightarrow>
                      (case refreshToken env c s of
                         (Some e, c, s) \<Rightarrow> Inl (Inl (Wrapf ''token refresh failed'' ErrAuthExpired), c, s)
                       | (None, c, s) \<Rightarrow> Inr (c, s)))
               else Inl (Inr r, c, s)))"

partial_function (option) groww_do :: "'s groww_env \<Rightarrow> string \<Rightarrow> string \<Rightarrow> (error + json) option \<Rightarrow> rate_bucket option \<Rightarrow>
    Client \<Rightarrow> 's \<Rightarrow> 's do_result option" where
  "groww_do env verb path body rb c s =
     (case do_pass env verb path body rb c s of
        Inl out \<Rightarrow> Some out
      | Inr cs \<Rightarrow> groww_do env verb path body rb (fst cs) (snd cs))"

section \<open>The envelope\<close>

definition APIStatusSuccess :: string where "APIStatusSuccess = ''SUCCESS''"

record error_envelope =
  ee_Status :: string
  ee_Code :: string
  ee_Message :: string
  ee_Remark :: string

definition dec_error_envelope :: "string \<Rightarrow> json \<Rightarrow> error_envelope \<Rightarrow> error_envelope \<times> bool" where
  "dec_error_envelope = dec_by [
     (''status'', set_str (\<lambda>x. ee_Status_update (\<lambda>_. x))),
     (''payload'', set_struct (dec_by [
        (''code'', set_str (\<lambda>x. ee_Code_update (\<lambda>_. x))),
        (''message'', set_str (\<lambda>x. ee_Message_update (\<lambda>_. x))),
        (''remark'', set_str (\<lambda>x. ee_Remark_update (\<lambda>_. x)))]) id (\<lambda>x _. x))]"

definition decodeError :: "int \<Rightarrow> http_reply \<Rightarrow> error" where
  "decodeError status r =
     (let zero = \<lparr>ee_Status = '''', ee_Code = '''', ee_Message = '''', ee_Remark = ''''\<rparr>;
          (msg, code) = (case unmarshal dec_error_envelope zero (rp_doc r) of
             Inl _ \<Rightarrow> (''HTTP '' @ string_of_int status, '''')
           | Inr ev \<Rightarrow> if ee_Message ev \<noteq> '''' then (ee_Message ev, ee_Code ev)
                      else (''HTTP '' @ string_of_int status, ''''));
          msg = (if msg = '''' then (case rp_text r of Some t \<Rightarrow> t | None \<Rightarrow> '''') else msg)
      in APIError status code msg)"

text \<open>The payload is kept raw, \<open>None\<close> when the member is missing, and decoded by the type of the destination.\<close>

record response_envelope =
  re_Status :: string
  re_Payload :: payload

definition dec_envelope :: "string \<Rightarrow> json \<Rightarrow> response_envelope \<Rightarrow> response_envelope \<times> bool" where
  "dec_envelope = dec_by [
     (''status'', set_str (\<lambda>x. re_Status_update (\<lambda>_. x))),
     (''payload'', (\<lambda>v st. (st\<lparr>re_Payload := Some v\<rparr>, False)))]"

definition decodeResponse :: "(payload \<Rightarrow> error + 'a) \<Rightarrow> 'a \<Rightarrow> http_reply \<Rightarrow> error + 'a" where
  "decodeResponse dec zero r =
     (if rp_text r = None then Inl (NewErr ''groww read'')
      else if rp_status r < 200 \<or> 300 \<le> rp_status r then Inl (decodeError (rp_status r) r)
      else case unmarshal dec_envelope \<lparr>re_Status = '''', re_Payload = None\<rparr> (rp_doc r) of
        Inl e \<Rightarrow> Inl (Wrapf ''groww decode'' e)
      | Inr ev \<Rightarrow>
          if re_Status ev \<noteq> APIStatusSuccess then Inl (decodeError (rp_status r) r)
          else case re_Payload ev of
            None \<Rightarrow> Inr zero
          | Some j \<Rightarrow> (case dec (Some j) of Inl e \<Rightarrow> Inl (Wrapf ''groww payload decode'' e) | Inr x \<Rightarrow> Inr x))"

section \<open>The bucket in use\<close>

text \<open>What any number of goroutines do to a bucket is a sequence of the two steps; the clock is read with the
  mutex held, so the times of the sequence do not run backwards.\<close>

datatype bucket_event = Enter Time | Wake Time

fun event_time :: "bucket_event \<Rightarrow> Time" where
  "event_time (Enter t) = t" | "event_time (Wake t) = t"

fun step_bucket :: "bucket_event \<Rightarrow> token_bucket \<Rightarrow> token_bucket" where
  "step_bucket (Enter t) rl = snd (bucket_enter t rl)"
| "step_bucket (Wake t) rl = bucket_wake t rl"

definition bucket_ok :: "int \<Rightarrow> token_bucket \<Rightarrow> bool" where
  "bucket_ok n rl \<longleftrightarrow> is_f64 (tb_tokens rl) \<and> 0 \<le> tb_tokens rl \<and> tb_tokens rl \<le> Fin (of_int n) \<and> tb_maxRate rl = Fin (of_int n)"

lemma f64_of_int_nonneg: "0 \<le> i \<Longrightarrow> 0 \<le> f64_of_int i"
  using f64_of_int_less_0 [of i] by (cases "i = 0") (auto simp: zero_float64_def less_eq_float64_def)

lemma Fin_divide: "b \<noteq> 0 \<Longrightarrow> Fin a / Fin b = rnd (a / b)"
  by simp

lemma Seconds_nonneg:
  assumes d: "0 \<le> d" shows "0 \<le> Seconds d"
proof -
  have z: "(0 :: int) < nsec" by (simp add: nsec_def)
  define m where "m = d - d div nsec * nsec"
  have m: "0 \<le> m" "m \<le> 2 ^ 53"
    using pos_mod_bound [OF z, of d] pos_mod_sign [OF z, of d] by (simp_all add: m_def minus_div_mult_eq_mod nsec_def)
  have r: "f64_of_int m = Fin (of_int m)" "f64_of_int nsec = Fin (of_int nsec)"
    using m by (simp_all add: f64_of_int_exact nsec_def)
  have "f64_of_int m / f64_of_int nsec \<noteq> NaN" unfolding r using z by (cases "nsec = 0") simp_all
  then have "0 \<le> f64_of_int m / f64_of_int nsec"
    using m(1) z by (intro f64_divide_nonneg f64_of_int_nonneg f64_of_int_less_0)
  moreover have "0 \<le> f64_of_int (d div nsec)"
    using d z by (intro f64_of_int_nonneg) (simp add: pos_imp_zdiv_nonneg_iff)
  ultimately show ?thesis
    unfolding Seconds_def Let_def go_div_nonneg [OF d z] m_def by (rule f64_add_nonneg [rotated])
qed

lemma one_less:
  assumes n: "1 \<le> n" "n \<le> 2 ^ 53" and x: "is_f64 x" "1 \<le> x" "x \<le> Fin (of_int n)"
  shows "x - 1 \<le> Fin (of_int n) \<and> is_f64 (x - 1) \<and> 0 \<le> x - 1"
proof -
  obtain r where r: "x = Fin r" "1 \<le> r" "r \<le> of_int n" using x by (cases x) (auto simp: one_float64_def less_eq_float64_def)
  have s: "x - 1 = rnd (r - 1)" by (simp add: r one_float64_def f64_minus_Fin)
  have "rnd 0 \<le> rnd (r - 1)" "rnd (r - 1) \<le> rnd (of_int n)" using r(2,3) by (intro rnd_mono; simp)+
  then show ?thesis using n rnd_of_int [of n] by (simp add: s zero_float64_def)
qed

lemma bucket_wake_ok:
  assumes "1 \<le> n" "n \<le> 2 ^ 53" "bucket_ok n rl"
  shows "bucket_ok n (bucket_wake t rl)"
proof -
  have "is_f64 (Fin (of_int n))" using rnd_of_int [of n] assms(1,2) is_f64_rnd [of "of_int n"] by simp
  then show ?thesis using one_less [OF assms(1,2), of "Fin (of_int n)"] assms
    by (simp add: bucket_ok_def bucket_wake_def one_float64_def)
qed

lemma bucket_enter_ok:
  assumes n: "1 \<le> n" "n \<le> 2 ^ 53" and ok: "bucket_ok n rl" and t: "tb_lastTick rl \<le> now"
  shows "bucket_ok n (snd (bucket_enter now rl))"
proof -
  have m: "tb_maxRate rl = Fin (of_int n)" "is_f64 (Fin (of_int n))"
    using rnd_of_int [of n] n is_f64_rnd [of "of_int n"] ok by (simp_all add: bucket_ok_def)
  define filled where "filled = tb_tokens rl + Seconds (now - tb_lastTick rl) * tb_maxRate rl"
  define x where "x = (if tb_maxRate rl < filled then tb_maxRate rl else filled)"
  have d: "0 \<le> Seconds (now - tb_lastTick rl)" using t by (simp add: Seconds_nonneg)
  have "Seconds (now - tb_lastTick rl) * Fin (of_int n) \<noteq> NaN"
    using d n(1) by (cases "Seconds (now - tb_lastTick rl)") (auto simp: less_eq_float64_def inf_of_def zero_float64_def)
  then have "0 \<le> Seconds (now - tb_lastTick rl) * Fin (of_int n)"
    using d n(1) by (intro f64_mult_nonneg) simp_all
  then have f: "0 \<le> filled" "is_f64 filled" using ok by (simp_all add: filled_def m bucket_ok_def f64_add_nonneg)
  then have "filled \<noteq> NaN" by auto
  then have x: "is_f64 x" "0 \<le> x" "x \<le> Fin (of_int n)" "x \<noteq> NaN"
    using f m n f64_not_less [of "Fin (of_int n)" filled] by (simp_all add: x_def split: if_splits)
  have s: "snd (bucket_enter now rl) = rl\<lparr>tb_lastTick := now, tb_tokens := (if x < 1 then x else x - 1)\<rparr>"
    by (simp add: bucket_enter_def x_def filled_def Let_def)
  have "1 \<le> x" if "\<not> x < 1" using that x f64_not_less [of x 1] by (simp add: one_float64_def)
  then show ?thesis using one_less [OF n x(1) _ x(3)] x m(1) by (simp add: s bucket_ok_def)
qed

lemma bucket_tick: "tb_lastTick (step_bucket e rl) = event_time e"
  by (cases e) (simp_all add: bucket_enter_def bucket_wake_def Let_def)

lemma bucket_run_ok:
  assumes "1 \<le> n" "n \<le> 2 ^ 53"
  shows "bucket_ok n rl \<Longrightarrow> sorted (tb_lastTick rl # map event_time es) \<Longrightarrow> bucket_ok n (fold step_bucket es rl)"
proof (induction es arbitrary: rl)
  case (Cons e es)
  have "bucket_ok n (step_bucket e rl)"
    using Cons.prems bucket_wake_ok [OF assms] bucket_enter_ok [OF assms] by (cases e) simp_all
  then show ?case using Cons.IH [of "step_bucket e rl"] Cons.prems(2) by (simp add: bucket_tick)
qed simp

text \<open>The bucket never overflows and never goes below zero, whatever number of goroutines draw from it and however
  their sleeps interleave: a new bucket of a whole rate \<open>n\<close> holds between 0 and \<open>n\<close> tokens for ever, and its rate
  is not changed.\<close>

theorem bucket_within_rate:
  assumes "1 \<le> n" "n \<le> 2 ^ 53" "sorted (t # map event_time es)"
  shows "let rl = fold step_bucket es (new_bucket (f64_of_int n) t)
    in 0 \<le> tb_tokens rl \<and> tb_tokens rl \<le> f64_of_int n \<and> tb_maxRate rl = f64_of_int n"
proof -
  have n: "f64_of_int n = Fin (of_int n)" "is_f64 (Fin (of_int n))"
    using assms(1,2) f64_of_int_exact [of n] is_f64_of_int [of n] by simp_all
  then have "bucket_ok n (new_bucket (f64_of_int n) t)" using assms(1) by (simp add: bucket_ok_def new_bucket_def)
  then show ?thesis using bucket_run_ok [OF assms(1,2), of "new_bucket (f64_of_int n) t" es] assms(3) n
    by (simp add: bucket_ok_def new_bucket_def Let_def)
qed

lemma bucket_within_rate_witness:
  "0 \<le> tb_tokens (bucket_wake 9 (new_bucket (f64_of_int 8) 5))"
  using bucket_within_rate [of 8 5 "[Wake 9]"] by (simp add: Let_def)

text \<open>A caller that never waits but in \<open>Wait\<close>: when \<open>m\<close> calls in a row are through.\<close>

fun back_to_back :: "nat \<Rightarrow> Time \<Rightarrow> token_bucket \<Rightarrow> Time \<times> token_bucket" where
  "back_to_back 0 t rl = (t, rl)"
| "back_to_back (Suc m) t rl =
     (case bucket_enter t rl of
        (None, rl) \<Rightarrow> back_to_back m t rl
      | (Some d, rl) \<Rightarrow> back_to_back m (t + d) (bucket_wake (t + d) rl))"

definition holding :: "int \<Rightarrow> int \<Rightarrow> Time \<Rightarrow> token_bucket" where
  "holding n j t = \<lparr>tb_tokens = Fin (of_int j), tb_maxRate = Fin (of_int n), tb_lastTick = t\<rparr>"

definition refill_wait :: "int \<Rightarrow> Duration" where
  "refill_wait n = f64_to_int (1 / Fin (of_int n) * f64_of_int nsec)"

lemma enter_holding:
  assumes "0 \<le> j" "j \<le> n" "1 \<le> n" "n \<le> 2 ^ 53"
  shows "bucket_enter t (holding n j t) =
    (if j = 0 then (Some (refill_wait n), holding n 0 t) else (None, holding n (j - 1) t))"
proof -
  have s: "Seconds 0 = Fin 0" by (simp add: Seconds_def go_div_def nsec_def Let_def)
  have r: "rnd (of_int j) = Fin (of_int j)" "rnd (of_int j - 1) = Fin (of_int (j - 1))" if "0 < j"
    using rnd_of_int [of j] rnd_of_int [of "j - 1"] assms that by simp_all
  have z: "1 - Fin 0 = 1" by (simp add: one_float64_def f64_minus_Fin)
  show ?thesis
    using assms r by (simp add: bucket_enter_def holding_def s refill_wait_def z Let_def one_float64_def f64_minus_Fin)
qed

lemma drain:
  "1 \<le> n \<Longrightarrow> n \<le> 2 ^ 53 \<Longrightarrow> int j \<le> n \<Longrightarrow> back_to_back (j + m) t (holding n (int j) t) = back_to_back m t (holding n 0 t)"
  by (induction j) (simp_all add: enter_holding)

lemma one_round:
  assumes "1 \<le> n" "n \<le> 2 ^ 53"
  shows "back_to_back (nat n + m) t (holding n 0 t) = back_to_back m (t + refill_wait n) (holding n 0 (t + refill_wait n))"
proof -
  have i: "nat n = Suc (nat (n - 1))" "n = int (nat (n - 1)) + 1" using assms(1) by simp_all
  define i where "i = nat (n - 1)"
  note i = i [folded i_def]
  have "bucket_wake (t + refill_wait n) (holding n 0 t) = holding n (int i) (t + refill_wait n)"
    using rnd_of_int [of i] i(2) assms by (simp add: bucket_wake_def holding_def one_float64_def f64_minus_Fin)
  then show ?thesis using drain [of n i m "t + refill_wait n"] assms i by (simp add: enter_holding)
qed

lemma rounds:
  "1 \<le> n \<Longrightarrow> n \<le> 2 ^ 53 \<Longrightarrow>
   back_to_back (nat n * k) t (holding n 0 t) = (t + int k * refill_wait n, holding n 0 (t + int k * refill_wait n))"
  by (induction k arbitrary: t) (simp_all add: one_round algebra_simps)

lemma refill_wait_rates: "refill_wait 8 = 125000000" "refill_wait 15 = 66666666"
proof -
  have "rnd (1 / 8) = Fin (1 / 8)" using pw_is_f64 [of "-3"] by (intro rnd_id) (simp add: pw_minus_numeral)
  then show "refill_wait 8 = 125000000" by (simp add: refill_wait_def one_float64_def nsec_def rat_trunc_def in_int64_def)
  have "rnd (1 / 15) = Fin (of_int 4803839602528529 * pw (-56))"
    by (rule rnd_eqI) (simp_all add: pw_minus_numeral)
  moreover have "rnd (4803839602528529 / 2 ^ 56 * 1000000000) = Fin (of_int 8947848533333333 * pw (-27))"
    by (rule rnd_eqI) (simp_all add: pw_minus_numeral)
  moreover have "\<lfloor>8947848533333333 / 134217728 :: rat\<rfloor> = 66666666" by (rule floor_unique) simp_all
  ultimately show "refill_wait 15 = 66666666"
    by (simp add: refill_wait_def one_float64_def nsec_def rat_trunc_def in_int64_def pw_minus_numeral)
qed

text \<open>C35: The limit is not kept. A caller that comes back to back gets \<open>n\<close> requests through at once and, after every
  sleep for the time of a single token, \<open>n\<close> more: waking hands out a full bucket. With the rate of 8 per
  second of the order and live-data buckets, 8 * 9 = 72 requests are through after one second, and with 15
  per second, 15 * 16 = 240.\<close>

theorem bucket_overruns:
  "fst (back_to_back (8 * (k + 1)) t (new_bucket (f64_of_int 8) t)) = t + int k * 125000000 \<and>
   fst (back_to_back (15 * (k + 1)) t (new_bucket (f64_of_int 15) t)) = t + int k * 66666666 \<and>
   fst (back_to_back 72 t (new_bucket (f64_of_int 8) t)) = t + Second"
proof -
  have b: "new_bucket (Fin 8) t = holding 8 8 t" "new_bucket (Fin 15) t = holding 15 15 t"
    by (simp_all add: new_bucket_def holding_def)
  have r8: "fst (back_to_back (8 * (k + 1)) t (new_bucket (f64_of_int 8) t)) = t + int k * 125000000" for k
    using drain [of 8 8 "8 * k" t] rounds [of 8 k t] by (simp add: b refill_wait_rates)
  moreover have "fst (back_to_back (15 * (k + 1)) t (new_bucket (f64_of_int 15) t)) = t + int k * 66666666"
    using drain [of 15 15 "15 * k" t] rounds [of 15 k t] by (simp add: b refill_wait_rates)
  ultimately show ?thesis using r8 [of 8] by (simp add: Second_def nsec_def)
qed

section \<open>When a request returns\<close>

text \<open>The first \<open>n\<close> passes, as long as each starts over.\<close>

primrec do_passes :: "nat \<Rightarrow> ('s groww_env \<Rightarrow> string \<Rightarrow> string \<Rightarrow> (error + json) option \<Rightarrow> rate_bucket option \<Rightarrow>
    Client \<Rightarrow> 's \<Rightarrow> 's do_result + Client \<times> 's)" where
  "do_passes 0 env verb path body rb c s = Inr (c, s)"
| "do_passes (Suc n) env verb path body rb c s =
     (case do_pass env verb path body rb c s of
        Inl out \<Rightarrow> Inl out
      | Inr cs \<Rightarrow> do_passes n env verb path body rb (fst cs) (snd cs))"

lemma do_passes_return: "do_passes n env verb path body rb c s = Inl out \<Longrightarrow> groww_do env verb path body rb c s = Some out"
proof (induction n arbitrary: c s)
  case (Suc n)
  then show ?case by (subst groww_do.simps) (auto split: sum.splits)
qed simp

lemma do_return_passes:
  assumes "groww_do env verb path body rb c s = Some out"
  shows "\<exists>n. do_passes n env verb path body rb c s = Inl out"
  using assms
proof (induction rule: groww_do.raw_induct [rotated, consumes 1, case_names step])
  case (step f env verb path body rb c s out)
  show ?case
  proof (cases "do_pass env verb path body rb c s")
    case (Inl r)
    then have "do_passes 1 env verb path body rb c s = Inl out" using step by simp
    then show ?thesis by blast
  next
    case (Inr cs)
    then obtain n where "do_passes n env verb path body rb (fst cs) (snd cs) = Inl out" using step by fastforce
    then have "do_passes (Suc n) env verb path body rb c s = Inl out" using Inr by simp
    then show ?thesis by blast
  qed
qed

definition has_keys :: "Client \<Rightarrow> bool" where
  "has_keys c \<longleftrightarrow> gc_apiKey c \<noteq> '''' \<and> gc_apiSecret c \<noteq> ''''"

lemma put_bucket_keeps [simp]:
  "has_keys (put_bucket b rl c) = has_keys c" "gc_token (put_bucket b rl c) = gc_token c"
  by (cases b; simp add: has_keys_def)+

lemma bucket_Wait_keeps:
  "bucket_Wait env b c s = (c', s') \<Longrightarrow> has_keys c' = has_keys c \<and> gc_token c' = gc_token c"
  by (auto simp: bucket_Wait_def split: prod.splits option.splits)

lemma refreshToken_keeps: "refreshToken env c s = (r, c', s') \<Longrightarrow> has_keys c' = has_keys c"
  by (auto simp: refreshToken_def has_keys_def SetToken_def split: prod.splits http_outcome.splits sum.splits if_splits)

text \<open>The state a pass has reached when its request is sent, and what it does then.\<close>

definition before_request :: "'s groww_env \<Rightarrow> rate_bucket option \<Rightarrow> Client \<Rightarrow> 's \<Rightarrow> Client \<times> 's" where
  "before_request env rb c s = (case rb of None \<Rightarrow> (c, s) | Some b \<Rightarrow> bucket_Wait env b c s)"

lemma before_request_keeps: "before_request env rb c s = (c', s') \<Longrightarrow> has_keys c' = has_keys c"
  using bucket_Wait_keeps by (fastforce simp: before_request_def split: option.splits)

lemma do_pass_again:
  assumes "do_pass env verb path body rb c s = Inr (c', s')"
  shows "has_keys c \<and> has_keys c' \<and> (\<exists>c1 s1 q r s2. before_request env rb c s = (c1, s1) \<and> ge_http env q s1 = (Reply r, s2) \<and>
    refreshToken env c1 s2 = (None, c', s'))"
proof -
  obtain c1 s1 where b: "before_request env rb c s = (c1, s1)" by (cases "before_request env rb c s")
  obtain data where d: "(case body of None \<Rightarrow> Inr None | Some r \<Rightarrow> map_sum id Some r) = (Inr data :: error + json option)"
    using assms b by (auto simp: do_pass_def before_request_def split: sum.splits)
  obtain r s2 where q: "ge_http env (api_request c1 verb path data) s1 = (Reply r, s2)"
    using assms b d by (auto simp: do_pass_def before_request_def split: prod.splits http_outcome.splits)
  then have "has_keys c1 \<and> refreshToken env c1 s2 = (None, c', s')"
    using assms b d by (auto simp: do_pass_def before_request_def has_keys_def split: if_splits option.splits prod.splits)
  moreover have "has_keys c' = has_keys c1" using calculation refreshToken_keeps [of env c1 s2 None c' s'] by simp
  ultimately show ?thesis using q b before_request_keeps [OF b] by blast
qed

lemma do_pass_reply:
  assumes "do_pass env verb path body rb c s = Inl (Inr r, c', s')"
  shows "rp_status r \<noteq> 401 \<or> \<not> has_keys c"
proof -
  obtain c1 s1 where b: "before_request env rb c s = (c1, s1)" by (cases "before_request env rb c s")
  then show ?thesis using assms before_request_keeps [OF b]
    by (auto simp: do_pass_def before_request_def has_keys_def
      split: sum.splits prod.splits http_outcome.splits if_splits option.splits)
qed

lemma do_passes_keys:
  "do_passes n env verb path body rb c s = Inl (Inr r, c', s') \<Longrightarrow> rp_status r \<noteq> 401 \<or> \<not> has_keys c"
proof (induction n arbitrary: c s)
  case (Suc n)
  show ?case
  proof (cases "do_pass env verb path body rb c s")
    case (Inl out)
    then show ?thesis using Suc.prems do_pass_reply [of env verb path body rb c s r c' s'] by simp
  next
    case (Inr cs)
    then show ?thesis using Suc.IH [of "fst cs" "snd cs"] Suc.prems do_pass_again [of env verb path body rb c s "fst cs" "snd cs"]
      by auto
  qed
qed simp

lemma do_keyless:
  assumes "\<not> has_keys c" shows "\<exists>out. groww_do env verb path body rb c s = Some out"
proof -
  have "\<nexists>cs. do_pass env verb path body rb c s = Inr cs"
    using do_pass_again [of env verb path body rb c s] assms by fastforce
  then obtain out where "do_pass env verb path body rb c s = Inl out"
    by (cases "do_pass env verb path body rb c s") blast+
  then have "groww_do env verb path body rb c s = Some out" by (subst groww_do.simps) simp
  then show ?thesis by (rule exI)
qed

text \<open>A bound on the tokens still to be had, which no call raises.\<close>

definition never_rises :: "('s \<Rightarrow> nat) \<Rightarrow> 's groww_env \<Rightarrow> bool" where
  "never_rises left env \<longleftrightarrow> (\<forall>q s. left (snd (ge_http env q s)) \<le> left s) \<and>
     (\<forall>s. left (snd (ge_now env s)) \<le> left s) \<and> (\<forall>d s. left (ge_sleep env d s) \<le> left s)"

lemma before_request_left:
  assumes "never_rises left env" "before_request env rb c s = (c1, s1)" shows "left s1 \<le> left s"
proof (cases rb)
  case (Some b)
  obtain now s2 where n: "ge_now env s = (now, s2)" by (cases "ge_now env s")
  obtain d rl where e: "bucket_enter now (bucket_of b c) = (d, rl)" by (cases "bucket_enter now (bucket_of b c)")
  have s2: "left s2 \<le> left s" using assms(1) n unfolding never_rises_def by (metis snd_conv)
  show ?thesis
  proof (cases d)
    case (Some sleep)
    obtain t s3 where t: "ge_now env (ge_sleep env sleep s2) = (t, s3)" by (cases "ge_now env (ge_sleep env sleep s2)")
    have "left s3 \<le> left (ge_sleep env sleep s2)" "left (ge_sleep env sleep s2) \<le> left s2"
      using assms(1) t unfolding never_rises_def by (metis snd_conv)+
    moreover have "s1 = s3" using assms(2) n e t Some \<open>rb = _\<close> by (simp add: before_request_def bucket_Wait_def)
    ultimately show ?thesis using s2 by simp
  next
    case None
    then show ?thesis using assms(2) n e s2 \<open>rb = _\<close> by (simp add: before_request_def bucket_Wait_def)
  qed
qed (use assms(2) in \<open>simp add: before_request_def\<close>)

lemma do_finitely_many:
  assumes left: "never_rises left env" "\<forall>c s c' s'. refreshToken env c s = (None, c', s') \<longrightarrow> left s' < left s"
  shows "\<exists>out. groww_do env verb path body rb c s = Some out"
proof (induction "left s" arbitrary: c s rule: less_induct)
  case less
  show ?case
  proof (cases "do_pass env verb path body rb c s")
    case (Inl out)
    then have "groww_do env verb path body rb c s = Some out" by (subst groww_do.simps) simp
    then show ?thesis by (rule exI)
  next
    case (Inr cs)
    then obtain c1 s1 q r s2 where p: "before_request env rb c s = (c1, s1)" "ge_http env q s1 = (Reply r, s2)"
      "refreshToken env c1 s2 = (None, fst cs, snd cs)"
      using do_pass_again [of env verb path body rb c s "fst cs" "snd cs"] by auto
    have "left s2 \<le> left s1" using left(1) p(2) unfolding never_rises_def by (metis snd_conv)
    moreover have "left (snd cs) < left s2" using left(2) p(3) by blast
    ultimately have "left (snd cs) < left s" using before_request_left [OF left(1) p(1)] by simp
    then obtain out where "groww_do env verb path body rb (fst cs) (snd cs) = Some out" using less by blast
    then have "groww_do env verb path body rb c s = Some out" using Inr by (subst groww_do.simps) simp
    then show ?thesis by (rule exI)
  qed
qed

definition always_expired :: "'s groww_env \<Rightarrow> string \<Rightarrow> string \<Rightarrow> bool" where
  "always_expired env verb path \<longleftrightarrow>
     (\<forall>c s. \<exists>c' s'. refreshToken env c s = (None, c', s')) \<and>
     (\<forall>data c s. \<exists>r s'. ge_http env (api_request c verb path data) s = (Reply r, s') \<and> rp_status r = 401 \<and> rp_close r = None)"

lemma do_pass_expired:
  assumes "always_expired env verb path" "has_keys c" "\<forall>e. body \<noteq> Some (Inl e)"
  shows "\<exists>c' s'. do_pass env verb path body rb c s = Inr (c', s')"
proof -
  obtain c1 s1 where b: "before_request env rb c s = (c1, s1)" by (cases "before_request env rb c s")
  obtain data where d: "(case body of None \<Rightarrow> Inr None | Some r \<Rightarrow> map_sum id Some r) = (Inr data :: error + json option)"
  proof (cases body)
    case (Some r)
    then show ?thesis using assms(3) that by (cases r) auto
  qed (use that in simp)
  obtain r s2 where "ge_http env (api_request c1 verb path data) s1 = (Reply r, s2)" "rp_status r = 401" "rp_close r = None"
    using assms(1) unfolding always_expired_def by blast
  moreover obtain c2 s3 where "refreshToken env c1 s2 = (None, c2, s3)"
    using assms(1) unfolding always_expired_def by blast
  ultimately have "do_pass env verb path body rb c s = Inr (c2, s3)"
    using b d before_request_keeps [OF b] assms(2) by (simp add: do_pass_def before_request_def has_keys_def)
  then show ?thesis by blast
qed

lemma do_endless:
  assumes "always_expired env verb path" "has_keys c" "\<forall>e. body \<noteq> Some (Inl e)"
  shows "groww_do env verb path body rb c s = None"
proof -
  have "do_passes n env verb path body rb c s \<noteq> Inl out" for n out
    using assms(2)
  proof (induction n arbitrary: c s)
    case (Suc n)
    obtain c' s' where p: "do_pass env verb path body rb c s = Inr (c', s')"
      using do_pass_expired [OF assms(1) Suc.prems assms(3)] by blast
    then have "has_keys c'" using do_pass_again [OF p] by blast
    then show ?case using Suc.IH [of c' s'] p by simp
  qed simp
  then have "groww_do env verb path body rb c s \<noteq> Some out" for out
    using do_return_passes [of env verb path body rb c s out] by blast
  then show ?thesis by (metis option.exhaust)
qed

text \<open>C9: When a request returns. Without API keys it always does. With keys it does if the token endpoint can
  hand out finitely many tokens only; and a reply 401 is never given back then. But against a server that
  answers every request with 401 and every refresh with a token it does not return: the refresh is not
  attempted once, as the comment says, but without end.\<close>

theorem do_termination:
  "(\<not> has_keys c \<longrightarrow> (\<exists>out. groww_do env verb path body rb c s = Some out)) \<and>
   (never_rises left env \<and> (\<forall>c s c' s'. refreshToken env c s = (None, c', s') \<longrightarrow> left s' < left s) \<longrightarrow>
     (\<exists>out. groww_do env verb path body rb c s = Some out)) \<and>
   (\<forall>r c' s'. groww_do env verb path body rb c s = Some (Inr r, c', s') \<longrightarrow> rp_status r \<noteq> 401 \<or> \<not> has_keys c) \<and>
   (always_expired env verb path \<and> has_keys c \<and> (\<forall>e. body \<noteq> Some (Inl e)) \<longrightarrow>
     groww_do env verb path body rb c s = None)"
proof (intro conjI impI allI)
  fix r c' s' assume "groww_do env verb path body rb c s = Some (Inr r, c', s')"
  from do_return_passes [OF this] obtain n where "do_passes n env verb path body rb c s = Inl (Inr r, c', s')" ..
  then show "rp_status r \<noteq> 401 \<or> \<not> has_keys c" by (rule do_passes_keys)
next
  assume "\<not> has_keys c"
  then show "\<exists>out. groww_do env verb path body rb c s = Some out" by (rule do_keyless)
next
  assume "never_rises left env \<and> (\<forall>c s c' s'. refreshToken env c s = (None, c', s') \<longrightarrow> left s' < left s)"
  then show "\<exists>out. groww_do env verb path body rb c s = Some out" by (elim conjE) (rule do_finitely_many)
next
  assume "always_expired env verb path \<and> has_keys c \<and> (\<forall>e. body \<noteq> Some (Inl e))"
  then show "groww_do env verb path body rb c s = None" by (elim conjE) (rule do_endless)
qed

section \<open>What a decoded reply tells\<close>

lemma decodeError_class [simp]:
  "IsRateLimited (decodeError st r) \<longleftrightarrow> st = 429" "IsAuthExpired (decodeError st r) \<longleftrightarrow> st = 401"
  by (simp_all add: decodeError_def Let_def split: prod.split)

definition envelope_of :: "http_reply \<Rightarrow> error + response_envelope" where
  "envelope_of r = unmarshal dec_envelope \<lparr>re_Status = '''', re_Payload = None\<rparr> (rp_doc r)"

text \<open>A reply is taken for a success only if its status is 2xx and its envelope says SUCCESS; the value is then the
  decoded payload, or the zero value if there is none. Any other status is an error that
  \<open>IsRateLimited\<close> recognises exactly at 429 and \<open>IsAuthExpired\<close> exactly at 401; an envelope that
  says anything but SUCCESS is an error that is neither.\<close>

theorem decodeResponse_class:
  assumes "rp_text r \<noteq> None"
  shows "(\<forall>x. decodeResponse dec zero r = Inr x \<longleftrightarrow>
      200 \<le> rp_status r \<and> rp_status r < 300 \<and>
      (\<exists>ev. envelope_of r = Inr ev \<and> re_Status ev = APIStatusSuccess \<and>
        (case re_Payload ev of None \<Rightarrow> x = zero | Some j \<Rightarrow> dec (Some j) = Inr x))) \<and>
    (\<not> (200 \<le> rp_status r \<and> rp_status r < 300) \<longrightarrow> (\<exists>e. decodeResponse dec zero r = Inl e \<and>
      (IsRateLimited e \<longleftrightarrow> rp_status r = 429) \<and> (IsAuthExpired e \<longleftrightarrow> rp_status r = 401))) \<and>
    (\<forall>ev. 200 \<le> rp_status r \<and> rp_status r < 300 \<and> envelope_of r = Inr ev \<and> re_Status ev \<noteq> APIStatusSuccess \<longrightarrow>
      (\<exists>e. decodeResponse dec zero r = Inl e \<and> \<not> IsRateLimited e \<and> \<not> IsAuthExpired e))"
proof (intro conjI allI impI)
  show "decodeResponse dec zero r = Inr x \<longleftrightarrow>
      200 \<le> rp_status r \<and> rp_status r < 300 \<and>
      (\<exists>ev. envelope_of r = Inr ev \<and> re_Status ev = APIStatusSuccess \<and>
        (case re_Payload ev of None \<Rightarrow> x = zero | Some j \<Rightarrow> dec (Some j) = Inr x))" for x
    using assms by (auto simp: decodeResponse_def envelope_of_def split: sum.splits option.splits)
  show "\<exists>e. decodeResponse dec zero r = Inl e \<and>
      (IsRateLimited e \<longleftrightarrow> rp_status r = 429) \<and> (IsAuthExpired e \<longleftrightarrow> rp_status r = 401)"
    if "\<not> (200 \<le> rp_status r \<and> rp_status r < 300)"
    using assms that by (auto simp: decodeResponse_def not_le not_less)
  show "\<exists>e. decodeResponse dec zero r = Inl e \<and> \<not> IsRateLimited e \<and> \<not> IsAuthExpired e"
    if "200 \<le> rp_status r \<and> rp_status r < 300 \<and> envelope_of r = Inr ev \<and> re_Status ev \<noteq> APIStatusSuccess" for ev
    using assms that by (auto simp: decodeResponse_def envelope_of_def)
qed

section \<open>Examples\<close>

definition json_reply :: "int \<Rightarrow> payload \<Rightarrow> http_reply" where
  "json_reply status doc = \<lparr>rp_status = status, rp_text = Some '''', rp_doc = doc, rp_json = doc, rp_close = None\<rparr>"

lemma decodeResponse_class_witness:
  "\<exists>e. decodeResponse (\<lambda>_. Inr 0) (0 :: int) (json_reply 429 None) = Inl e \<and> IsRateLimited e \<and> \<not> IsAuthExpired e"
  using decodeResponse_class [of "json_reply 429 None" "\<lambda>_. Inr (0 :: int)" 0] by (simp add: json_reply_def)

text \<open>A server that has forgotten every token it ever gave out.\<close>

definition expired_env :: "unit groww_env" where
  "expired_env = \<lparr>ge_now = (\<lambda>s. (0, s)), ge_sleep = (\<lambda>_ s. s),
     ge_http = (\<lambda>q s. (Reply (if rq_url q = ''T'' then json_reply 200 (Some (JObj [(''token'', JStr ''t'')]))
        else json_reply 401 None), s)),
     ge_getenv = (\<lambda>_. ''T''), ge_sha256hex = id\<rparr>"

definition keyed_client :: Client where
  "keyed_client = fst (NewClientFromKeys expired_env ''key'' ''secret'' ())"

lemma expired_env_always: "always_expired expired_env ''GET'' ''/order/list''"
proof -
  have "unmarshal dec_token zero_token (Some (JObj [(''token'', JStr ''t'')])) = Inr (zero_token\<lparr>tka_Token := ''t''\<rparr>)"
    by (simp add: unmarshal_def dec_token_def dec_by_def fold_key_def lower_char_def)
  then show ?thesis
    by (simp add: always_expired_def expired_env_def refreshToken_def refresh_request_def api_request_def json_reply_def
      envOrDefault_def Let_def)
qed

lemma do_termination_witness:
  "groww_do expired_env ''GET'' ''/order/list'' None None keyed_client () = None \<and>
   (\<exists>out. groww_do expired_env ''GET'' ''/order/list'' None None (fst (NewClient expired_env ''t'' ())) () = Some out)"
proof -
  have "has_keys keyed_client" "\<not> has_keys (fst (NewClient expired_env ''t'' ()))"
    by (simp_all add: keyed_client_def NewClientFromKeys_def NewClient_def newClient_def has_keys_def expired_env_def)
  then show ?thesis
    using do_termination [of keyed_client expired_env "''GET''" "''/order/list''" None None "()"]
      do_termination [of "fst (NewClient expired_env ''t'' ())" expired_env "''GET''" "''/order/list''" None None "()"]
      expired_env_always by simp
qed

end
