(* ===== verification/GrowwTypes.thy ===== *)
theory GrowwTypes
  imports GoHttp Universe
begin

text \<open>
  The data of the broker's API: the enumerations and structs of \<open>src/pkg/groww/types.go\<close> with their JSON tags. A
  struct that is read has a table from its keys to its fields; a struct that is sent has the list of its
  fields. The string-based enumerations admit any string, as in the sources; the types of the instrument
  universe, the live prices and the feed's instruments are declared where the scout uses them.
\<close>

section \<open>Enumerations\<close>

type_synonym Product = string

definition ProductMIS :: Product where "ProductMIS = ''MIS''"

type_synonym OrderType = string

definition OrderTypeLimit :: OrderType where "OrderTypeLimit = ''LIMIT''"

type_synonym TransactionType = string

definition TransactionTypeBuy :: TransactionType where "TransactionTypeBuy = ''BUY''"
definition TransactionTypeSell :: TransactionType where "TransactionTypeSell = ''SELL''"

type_synonym OrderStatus = string
type_synonym InstrumentType = string
type_synonym CandleInterval = string

section \<open>Orders\<close>

record PlaceOrderRequest =
  por_TradingSymbol :: string
  por_Quantity :: int
  por_Price :: float64
  por_TriggerPrice :: float64
  por_Exchange :: Exchange
  por_Segment :: Segment
  por_OrderType :: OrderType
  por_TransactionType :: TransactionType
  por_OrderReferenceID :: string

record PlaceOrderResponse =
  pr_GrowwOrderID :: string
  pr_OrderStatus :: OrderStatus
  pr_OrderReferenceID :: string
  pr_Remark :: string

definition zero_PlaceOrderResponse :: PlaceOrderResponse where
  "zero_PlaceOrderResponse = \<lparr>pr_GrowwOrderID = '''', pr_OrderStatus = '''', pr_OrderReferenceID = '''',
     pr_Remark = ''''\<rparr>"

definition dec_PlaceOrderResponse :: "string \<Rightarrow> json \<Rightarrow> PlaceOrderResponse \<Rightarrow> PlaceOrderResponse \<times> bool" where
  "dec_PlaceOrderResponse = dec_by [
     (''groww_order_id'', set_str (\<lambda>x. pr_GrowwOrderID_update (\<lambda>_. x))),
     (''order_status'', set_str (\<lambda>x. pr_OrderStatus_update (\<lambda>_. x))),
     (''order_reference_id'', set_str (\<lambda>x. pr_OrderReferenceID_update (\<lambda>_. x))),
     (''remark'', set_str (\<lambda>x. pr_Remark_update (\<lambda>_. x)))]"

record ModifyOrderRequest =
  mor_GrowwOrderID :: string
  mor_Quantity :: int
  mor_Price :: float64
  mor_TriggerPrice :: float64
  mor_OrderType :: OrderType
  mor_Segment :: Segment

definition ModifyOrderRequest_fields :: "ModifyOrderRequest \<Rightarrow> field list" where
  "ModifyOrderRequest_fields r = [
     str_field ''groww_order_id'' (mor_GrowwOrderID r),
     int_field_omit ''quantity'' (mor_Quantity r),
     float_field_omit ''price'' (mor_Price r),
     float_field_omit ''trigger_price'' (mor_TriggerPrice r),
     str_field ''order_type'' (mor_OrderType r),
     str_field ''segment'' (mor_Segment r)]"

record ModifyOrderResponse =
  mos_GrowwOrderID :: string
  mos_OrderStatus :: OrderStatus

definition zero_ModifyOrderResponse :: ModifyOrderResponse where
  "zero_ModifyOrderResponse = \<lparr>mos_GrowwOrderID = '''', mos_OrderStatus = ''''\<rparr>"

definition dec_ModifyOrderResponse :: "string \<Rightarrow> json \<Rightarrow> ModifyOrderResponse \<Rightarrow> ModifyOrderResponse \<times> bool" where
  "dec_ModifyOrderResponse = dec_by [
     (''groww_order_id'', set_str (\<lambda>x. mos_GrowwOrderID_update (\<lambda>_. x))),
     (''order_status'', set_str (\<lambda>x. mos_OrderStatus_update (\<lambda>_. x)))]"

record CancelOrderRequest =
  cor_Segment :: Segment
  cor_GrowwOrderID :: string

definition CancelOrderRequest_fields :: "CancelOrderRequest \<Rightarrow> field list" where
  "CancelOrderRequest_fields r = [
     str_field ''segment'' (cor_Segment r),
     str_field ''groww_order_id'' (cor_GrowwOrderID r)]"

record CancelOrderResponse =
  cos_GrowwOrderID :: string
  cos_OrderStatus :: OrderStatus

definition zero_CancelOrderResponse :: CancelOrderResponse where
  "zero_CancelOrderResponse = \<lparr>cos_GrowwOrderID = '''', cos_OrderStatus = ''''\<rparr>"

definition dec_CancelOrderResponse :: "string \<Rightarrow> json \<Rightarrow> CancelOrderResponse \<Rightarrow> CancelOrderResponse \<times> bool" where
  "dec_CancelOrderResponse = dec_by [
     (''groww_order_id'', set_str (\<lambda>x. cos_GrowwOrderID_update (\<lambda>_. x))),
     (''order_status'', set_str (\<lambda>x. cos_OrderStatus_update (\<lambda>_. x)))]"

record OrderStatusResponse =
  osr_GrowwOrderID :: string
  osr_OrderStatus :: OrderStatus
  osr_Remark :: string
  osr_FilledQuantity :: int
  osr_OrderReferenceID :: string

definition zero_OrderStatusResponse :: OrderStatusResponse where
  "zero_OrderStatusResponse = \<lparr>osr_GrowwOrderID = '''', osr_OrderStatus = '''', osr_Remark = '''',
     osr_FilledQuantity = 0, osr_OrderReferenceID = ''''\<rparr>"

definition dec_OrderStatusResponse :: "string \<Rightarrow> json \<Rightarrow> OrderStatusResponse \<Rightarrow> OrderStatusResponse \<times> bool" where
  "dec_OrderStatusResponse = dec_by [
     (''groww_order_id'', set_str (\<lambda>x. osr_GrowwOrderID_update (\<lambda>_. x))),
     (''order_status'', set_str (\<lambda>x. osr_OrderStatus_update (\<lambda>_. x))),
     (''remark'', set_str (\<lambda>x. osr_Remark_update (\<lambda>_. x))),
     (''filled_quantity'', set_int (\<lambda>x. osr_FilledQuantity_update (\<lambda>_. x))),
     (''order_reference_id'', set_str (\<lambda>x. osr_OrderReferenceID_update (\<lambda>_. x)))]"

record OrderDetail =
  od_GrowwOrderID :: string
  od_TradingSymbol :: string
  od_OrderStatus :: OrderStatus
  od_Remark :: string
  od_Quantity :: int
  od_Price :: float64
  od_TriggerPrice :: float64
  od_FilledQuantity :: int
  od_RemainingQty :: int
  od_AverageFillPrice :: float64
  od_DeliverableQty :: int
  od_AMOStatus :: string
  od_Exchange :: Exchange
  od_OrderType :: OrderType
  od_TransactionType :: TransactionType
  od_Segment :: Segment
  od_Product :: Product
  od_CreatedAt :: string
  od_ExchangeTime :: string
  od_TradeDate :: string
  od_OrderReferenceID :: string

definition zero_OrderDetail :: OrderDetail where
  "zero_OrderDetail = \<lparr>od_GrowwOrderID = '''', od_TradingSymbol = '''', od_OrderStatus = '''',
     od_Remark = '''', od_Quantity = 0, od_Price = 0, od_TriggerPrice = 0, od_FilledQuantity = 0,
     od_RemainingQty = 0, od_AverageFillPrice = 0, od_DeliverableQty = 0, od_AMOStatus = '''',
     od_Exchange = '''', od_OrderType = '''', od_TransactionType = '''', od_Segment = '''', od_Product = '''',
     od_CreatedAt = '''', od_ExchangeTime = '''', od_TradeDate = '''', od_OrderReferenceID = ''''\<rparr>"

definition dec_OrderDetail :: "string \<Rightarrow> json \<Rightarrow> OrderDetail \<Rightarrow> OrderDetail \<times> bool" where
  "dec_OrderDetail = dec_by [
     (''groww_order_id'', set_str (\<lambda>x. od_GrowwOrderID_update (\<lambda>_. x))),
     (''trading_symbol'', set_str (\<lambda>x. od_TradingSymbol_update (\<lambda>_. x))),
     (''order_status'', set_str (\<lambda>x. od_OrderStatus_update (\<lambda>_. x))),
     (''remark'', set_str (\<lambda>x. od_Remark_update (\<lambda>_. x))),
     (''quantity'', set_int (\<lambda>x. od_Quantity_update (\<lambda>_. x))),
     (''price'', set_float (\<lambda>x. od_Price_update (\<lambda>_. x))),
     (''trigger_price'', set_float (\<lambda>x. od_TriggerPrice_update (\<lambda>_. x))),
     (''filled_quantity'', set_int (\<lambda>x. od_FilledQuantity_update (\<lambda>_. x))),
     (''remaining_quantity'', set_int (\<lambda>x. od_RemainingQty_update (\<lambda>_. x))),
     (''average_fill_price'', set_float (\<lambda>x. od_AverageFillPrice_update (\<lambda>_. x))),
     (''deliverable_quantity'', set_int (\<lambda>x. od_DeliverableQty_update (\<lambda>_. x))),
     (''amo_status'', set_str (\<lambda>x. od_AMOStatus_update (\<lambda>_. x))),
     (''exchange'', set_str (\<lambda>x. od_Exchange_update (\<lambda>_. x))),
     (''order_type'', set_str (\<lambda>x. od_OrderType_update (\<lambda>_. x))),
     (''transaction_type'', set_str (\<lambda>x. od_TransactionType_update (\<lambda>_. x))),
     (''segment'', set_str (\<lambda>x. od_Segment_update (\<lambda>_. x))),
     (''product'', set_str (\<lambda>x. od_Product_update (\<lambda>_. x))),
     (''created_at'', set_str (\<lambda>x. od_CreatedAt_update (\<lambda>_. x))),
     (''exchange_time'', set_str (\<lambda>x. od_ExchangeTime_update (\<lambda>_. x))),
     (''trade_date'', set_str (\<lambda>x. od_TradeDate_update (\<lambda>_. x))),
     (''order_reference_id'', set_str (\<lambda>x. od_OrderReferenceID_update (\<lambda>_. x)))]"

text \<open>An entry of the order list embeds the detail of the order.\<close>

type_synonym OrderListEntry = OrderDetail

record Trade =
  tr_Price :: float64
  tr_ISIN :: string
  tr_Quantity :: int
  tr_GrowwOrderID :: string
  tr_GrowwTradeID :: string
  tr_ExchangeTradeID :: string
  tr_ExchangeOrderID :: string
  tr_TradeStatus :: string
  tr_TradingSymbol :: string
  tr_Remark :: string
  tr_Exchange :: Exchange
  tr_Segment :: Segment
  tr_Product :: Product
  tr_TransactionType :: TransactionType
  tr_CreatedAt :: string
  tr_TradeDateTime :: string
  tr_SettlementNum :: string

definition zero_Trade :: Trade where
  "zero_Trade = \<lparr>tr_Price = 0, tr_ISIN = '''', tr_Quantity = 0, tr_GrowwOrderID = '''',
     tr_GrowwTradeID = '''', tr_ExchangeTradeID = '''', tr_ExchangeOrderID = '''', tr_TradeStatus = '''',
     tr_TradingSymbol = '''', tr_Remark = '''', tr_Exchange = '''', tr_Segment = '''', tr_Product = '''',
     tr_TransactionType = '''', tr_CreatedAt = '''', tr_TradeDateTime = '''', tr_SettlementNum = ''''\<rparr>"

definition dec_Trade :: "string \<Rightarrow> json \<Rightarrow> Trade \<Rightarrow> Trade \<times> bool" where
  "dec_Trade = dec_by [
     (''price'', set_float (\<lambda>x. tr_Price_update (\<lambda>_. x))),
     (''isin'', set_str (\<lambda>x. tr_ISIN_update (\<lambda>_. x))),
     (''quantity'', set_int (\<lambda>x. tr_Quantity_update (\<lambda>_. x))),
     (''groww_order_id'', set_str (\<lambda>x. tr_GrowwOrderID_update (\<lambda>_. x))),
     (''groww_trade_id'', set_str (\<lambda>x. tr_GrowwTradeID_update (\<lambda>_. x))),
     (''exchange_trade_id'', set_str (\<lambda>x. tr_ExchangeTradeID_update (\<lambda>_. x))),
     (''exchange_order_id'', set_str (\<lambda>x. tr_ExchangeOrderID_update (\<lambda>_. x))),
     (''trade_status'', set_str (\<lambda>x. tr_TradeStatus_update (\<lambda>_. x))),
     (''trading_symbol'', set_str (\<lambda>x. tr_TradingSymbol_update (\<lambda>_. x))),
     (''remark'', set_str (\<lambda>x. tr_Remark_update (\<lambda>_. x))),
     (''exchange'', set_str (\<lambda>x. tr_Exchange_update (\<lambda>_. x))),
     (''segment'', set_str (\<lambda>x. tr_Segment_update (\<lambda>_. x))),
     (''product'', set_str (\<lambda>x. tr_Product_update (\<lambda>_. x))),
     (''transaction_type'', set_str (\<lambda>x. tr_TransactionType_update (\<lambda>_. x))),
     (''created_at'', set_str (\<lambda>x. tr_CreatedAt_update (\<lambda>_. x))),
     (''trade_date_time'', set_str (\<lambda>x. tr_TradeDateTime_update (\<lambda>_. x))),
     (''settlement_number'', set_str (\<lambda>x. tr_SettlementNum_update (\<lambda>_. x)))]"

section \<open>Margins\<close>

record FNOMarginDetails =
  fm_NetFNOMarginUsed :: float64
  fm_SpanMarginUsed :: float64
  fm_ExposureMarginUsed :: float64
  fm_FutureBalanceAvail :: float64
  fm_OptionBuyBalanceAvail :: float64
  fm_OptionSellBalanceAvail :: float64

definition zero_FNOMarginDetails :: FNOMarginDetails where
  "zero_FNOMarginDetails = \<lparr>fm_NetFNOMarginUsed = 0, fm_SpanMarginUsed = 0, fm_ExposureMarginUsed = 0,
     fm_FutureBalanceAvail = 0, fm_OptionBuyBalanceAvail = 0, fm_OptionSellBalanceAvail = 0\<rparr>"

definition dec_FNOMarginDetails :: "string \<Rightarrow> json \<Rightarrow> FNOMarginDetails \<Rightarrow> FNOMarginDetails \<times> bool" where
  "dec_FNOMarginDetails = dec_by [
     (''net_fno_margin_used'', set_float (\<lambda>x. fm_NetFNOMarginUsed_update (\<lambda>_. x))),
     (''span_margin_used'', set_float (\<lambda>x. fm_SpanMarginUsed_update (\<lambda>_. x))),
     (''exposure_margin_used'', set_float (\<lambda>x. fm_ExposureMarginUsed_update (\<lambda>_. x))),
     (''future_balance_available'', set_float (\<lambda>x. fm_FutureBalanceAvail_update (\<lambda>_. x))),
     (''option_buy_balance_available'', set_float (\<lambda>x. fm_OptionBuyBalanceAvail_update (\<lambda>_. x))),
     (''option_sell_balance_available'', set_float (\<lambda>x. fm_OptionSellBalanceAvail_update (\<lambda>_. x)))]"

record EquityMarginDetails =
  em_NetEquityMarginUsed :: float64
  em_MISMarginUsed :: float64
  em_MISBalanceAvail :: float64

definition zero_EquityMarginDetails :: EquityMarginDetails where
  "zero_EquityMarginDetails = \<lparr>em_NetEquityMarginUsed = 0, em_MISMarginUsed = 0, em_MISBalanceAvail = 0\<rparr>"

definition dec_EquityMarginDetails :: "string \<Rightarrow> json \<Rightarrow> EquityMarginDetails \<Rightarrow> EquityMarginDetails \<times> bool" where
  "dec_EquityMarginDetails = dec_by [
     (''net_equity_margin_used'', set_float (\<lambda>x. em_NetEquityMarginUsed_update (\<lambda>_. x))),
     (''mis_margin_used'', set_float (\<lambda>x. em_MISMarginUsed_update (\<lambda>_. x))),
     (''mis_balance_available'', set_float (\<lambda>x. em_MISBalanceAvail_update (\<lambda>_. x)))]"

record MarginResponse =
  mr_ClearCash :: float64
  mr_NetMarginUsed :: float64
  mr_BrokerageAndCharges :: float64
  mr_CollateralUsed :: float64
  mr_CollateralAvailable :: float64
  mr_AdhocMargin :: float64
  mr_FNOMarginDetails :: "FNOMarginDetails option"
  mr_EquityMarginDetails :: "EquityMarginDetails option"

definition zero_MarginResponse :: MarginResponse where
  "zero_MarginResponse = \<lparr>mr_ClearCash = 0, mr_NetMarginUsed = 0, mr_BrokerageAndCharges = 0,
     mr_CollateralUsed = 0, mr_CollateralAvailable = 0, mr_AdhocMargin = 0, mr_FNOMarginDetails = None,
     mr_EquityMarginDetails = None\<rparr>"

definition dec_MarginResponse :: "string \<Rightarrow> json \<Rightarrow> MarginResponse \<Rightarrow> MarginResponse \<times> bool" where
  "dec_MarginResponse = dec_by [
     (''clear_cash'', set_float (\<lambda>x. mr_ClearCash_update (\<lambda>_. x))),
     (''net_margin_used'', set_float (\<lambda>x. mr_NetMarginUsed_update (\<lambda>_. x))),
     (''brokerage_and_charges'', set_float (\<lambda>x. mr_BrokerageAndCharges_update (\<lambda>_. x))),
     (''collateral_used'', set_float (\<lambda>x. mr_CollateralUsed_update (\<lambda>_. x))),
     (''collateral_available'', set_float (\<lambda>x. mr_CollateralAvailable_update (\<lambda>_. x))),
     (''adhoc_margin'', set_float (\<lambda>x. mr_AdhocMargin_update (\<lambda>_. x))),
     (''fno_margin_details'', set_ptr dec_FNOMarginDetails zero_FNOMarginDetails mr_FNOMarginDetails (\<lambda>x. mr_FNOMarginDetails_update (\<lambda>_. x))),
     (''equity_margin_details'', set_ptr dec_EquityMarginDetails zero_EquityMarginDetails mr_EquityMarginDetails (\<lambda>x. mr_EquityMarginDetails_update (\<lambda>_. x)))]"

record MarginCalcRequest =
  mcq_TradingSymbol :: string
  mcq_TransactionType :: TransactionType
  mcq_Quantity :: int
  mcq_Price :: float64
  mcq_OrderType :: OrderType
  mcq_Exchange :: Exchange

record MarginCalcResponse =
  mcs_ExposureRequired :: float64
  mcs_SpanRequired :: float64
  mcs_OptionBuyPremium :: float64
  mcs_BrokerageAndCharges :: float64
  mcs_TotalRequirement :: float64
  mcs_CashMISMarginRequired :: float64

definition zero_MarginCalcResponse :: MarginCalcResponse where
  "zero_MarginCalcResponse = \<lparr>mcs_ExposureRequired = 0, mcs_SpanRequired = 0, mcs_OptionBuyPremium = 0,
     mcs_BrokerageAndCharges = 0, mcs_TotalRequirement = 0, mcs_CashMISMarginRequired = 0\<rparr>"

definition dec_MarginCalcResponse :: "string \<Rightarrow> json \<Rightarrow> MarginCalcResponse \<Rightarrow> MarginCalcResponse \<times> bool" where
  "dec_MarginCalcResponse = dec_by [
     (''exposure_required'', set_float (\<lambda>x. mcs_ExposureRequired_update (\<lambda>_. x))),
     (''span_required'', set_float (\<lambda>x. mcs_SpanRequired_update (\<lambda>_. x))),
     (''option_buy_premium'', set_float (\<lambda>x. mcs_OptionBuyPremium_update (\<lambda>_. x))),
     (''brokerage_and_charges'', set_float (\<lambda>x. mcs_BrokerageAndCharges_update (\<lambda>_. x))),
     (''total_requirement'', set_float (\<lambda>x. mcs_TotalRequirement_update (\<lambda>_. x))),
     (''cash_mis_margin_required'', set_float (\<lambda>x. mcs_CashMISMarginRequired_update (\<lambda>_. x)))]"

section \<open>Live data\<close>

record DepthEntry =
  de_Price :: float64
  de_Quantity :: int

definition zero_DepthEntry :: DepthEntry where
  "zero_DepthEntry = \<lparr>de_Price = 0, de_Quantity = 0\<rparr>"

definition dec_DepthEntry :: "string \<Rightarrow> json \<Rightarrow> DepthEntry \<Rightarrow> DepthEntry \<times> bool" where
  "dec_DepthEntry = dec_by [
     (''price'', set_float (\<lambda>x. de_Price_update (\<lambda>_. x))),
     (''quantity'', set_int (\<lambda>x. de_Quantity_update (\<lambda>_. x)))]"

record MarketDepth =
  md_Buy :: "DepthEntry list"
  md_Sell :: "DepthEntry list"

definition zero_MarketDepth :: MarketDepth where
  "zero_MarketDepth = \<lparr>md_Buy = [], md_Sell = []\<rparr>"

definition dec_MarketDepth :: "string \<Rightarrow> json \<Rightarrow> MarketDepth \<Rightarrow> MarketDepth \<times> bool" where
  "dec_MarketDepth = dec_by [
     (''buy'', set_slice (set_struct dec_DepthEntry id (\<lambda>x _. x)) zero_DepthEntry (\<lambda>x. md_Buy_update (\<lambda>_. x))),
     (''sell'', set_slice (set_struct dec_DepthEntry id (\<lambda>x _. x)) zero_DepthEntry (\<lambda>x. md_Sell_update (\<lambda>_. x)))]"

record OHLC =
  oh_Open :: float64
  oh_High :: float64
  oh_Low :: float64
  oh_Close :: float64

definition zero_OHLC :: OHLC where
  "zero_OHLC = \<lparr>oh_Open = 0, oh_High = 0, oh_Low = 0, oh_Close = 0\<rparr>"

definition dec_OHLC :: "string \<Rightarrow> json \<Rightarrow> OHLC \<Rightarrow> OHLC \<times> bool" where
  "dec_OHLC = dec_by [
     (''open'', set_float (\<lambda>x. oh_Open_update (\<lambda>_. x))),
     (''high'', set_float (\<lambda>x. oh_High_update (\<lambda>_. x))),
     (''low'', set_float (\<lambda>x. oh_Low_update (\<lambda>_. x))),
     (''close'', set_float (\<lambda>x. oh_Close_update (\<lambda>_. x)))]"

record Quote =
  qu_AveragePrice :: float64
  qu_BidQuantity :: int
  qu_BidPrice :: float64
  qu_DayChange :: float64
  qu_DayChangePerc :: float64
  qu_UpperCircuitLimit :: float64
  qu_LowerCircuitLimit :: float64
  qu_OHLC :: OHLC
  qu_Depth :: "MarketDepth option"
  qu_HighTradeRange :: float64
  qu_ImpliedVolatility :: float64
  qu_LastTradeQuantity :: int
  qu_LastTradeTime :: int
  qu_LowTradeRange :: float64
  qu_LastPrice :: float64
  qu_MarketCap :: float64
  qu_OfferPrice :: float64
  qu_OfferQuantity :: int
  qu_OIDayChange :: float64
  qu_OIDayChangePerc :: float64
  qu_OpenInterest :: float64
  qu_PrevOpenInterest :: float64
  qu_TotalBuyQuantity :: float64
  qu_TotalSellQuantity :: float64
  qu_Volume :: int
  qu_Week52High :: float64
  qu_Week52Low :: float64

definition zero_Quote :: Quote where
  "zero_Quote = \<lparr>qu_AveragePrice = 0, qu_BidQuantity = 0, qu_BidPrice = 0, qu_DayChange = 0,
     qu_DayChangePerc = 0, qu_UpperCircuitLimit = 0, qu_LowerCircuitLimit = 0, qu_OHLC = zero_OHLC,
     qu_Depth = None, qu_HighTradeRange = 0, qu_ImpliedVolatility = 0, qu_LastTradeQuantity = 0,
     qu_LastTradeTime = 0, qu_LowTradeRange = 0, qu_LastPrice = 0, qu_MarketCap = 0, qu_OfferPrice = 0,
     qu_OfferQuantity = 0, qu_OIDayChange = 0, qu_OIDayChangePerc = 0, qu_OpenInterest = 0,
     qu_PrevOpenInterest = 0, qu_TotalBuyQuantity = 0, qu_TotalSellQuantity = 0, qu_Volume = 0,
     qu_Week52High = 0, qu_Week52Low = 0\<rparr>"

definition dec_Quote :: "string \<Rightarrow> json \<Rightarrow> Quote \<Rightarrow> Quote \<times> bool" where
  "dec_Quote = dec_by [
     (''average_price'', set_float (\<lambda>x. qu_AveragePrice_update (\<lambda>_. x))),
     (''bid_quantity'', set_int (\<lambda>x. qu_BidQuantity_update (\<lambda>_. x))),
     (''bid_price'', set_float (\<lambda>x. qu_BidPrice_update (\<lambda>_. x))),
     (''day_change'', set_float (\<lambda>x. qu_DayChange_update (\<lambda>_. x))),
     (''day_change_perc'', set_float (\<lambda>x. qu_DayChangePerc_update (\<lambda>_. x))),
     (''upper_circuit_limit'', set_float (\<lambda>x. qu_UpperCircuitLimit_update (\<lambda>_. x))),
     (''lower_circuit_limit'', set_float (\<lambda>x. qu_LowerCircuitLimit_update (\<lambda>_. x))),
     (''ohlc'', set_struct dec_OHLC qu_OHLC (\<lambda>x. qu_OHLC_update (\<lambda>_. x))),
     (''depth'', set_ptr dec_MarketDepth zero_MarketDepth qu_Depth (\<lambda>x. qu_Depth_update (\<lambda>_. x))),
     (''high_trade_range'', set_float (\<lambda>x. qu_HighTradeRange_update (\<lambda>_. x))),
     (''implied_volatility'', set_float (\<lambda>x. qu_ImpliedVolatility_update (\<lambda>_. x))),
     (''last_trade_quantity'', set_int (\<lambda>x. qu_LastTradeQuantity_update (\<lambda>_. x))),
     (''last_trade_time'', set_int (\<lambda>x. qu_LastTradeTime_update (\<lambda>_. x))),
     (''low_trade_range'', set_float (\<lambda>x. qu_LowTradeRange_update (\<lambda>_. x))),
     (''last_price'', set_float (\<lambda>x. qu_LastPrice_update (\<lambda>_. x))),
     (''market_cap'', set_float (\<lambda>x. qu_MarketCap_update (\<lambda>_. x))),
     (''offer_price'', set_float (\<lambda>x. qu_OfferPrice_update (\<lambda>_. x))),
     (''offer_quantity'', set_int (\<lambda>x. qu_OfferQuantity_update (\<lambda>_. x))),
     (''oi_day_change'', set_float (\<lambda>x. qu_OIDayChange_update (\<lambda>_. x))),
     (''oi_day_change_percentage'', set_float (\<lambda>x. qu_OIDayChangePerc_update (\<lambda>_. x))),
     (''open_interest'', set_float (\<lambda>x. qu_OpenInterest_update (\<lambda>_. x))),
     (''previous_open_interest'', set_float (\<lambda>x. qu_PrevOpenInterest_update (\<lambda>_. x))),
     (''total_buy_quantity'', set_float (\<lambda>x. qu_TotalBuyQuantity_update (\<lambda>_. x))),
     (''total_sell_quantity'', set_float (\<lambda>x. qu_TotalSellQuantity_update (\<lambda>_. x))),
     (''volume'', set_int (\<lambda>x. qu_Volume_update (\<lambda>_. x))),
     (''week_52_high'', set_float (\<lambda>x. qu_Week52High_update (\<lambda>_. x))),
     (''week_52_low'', set_float (\<lambda>x. qu_Week52Low_update (\<lambda>_. x)))]"

section \<open>History and instruments\<close>

record HistoricalCandle =
  hc_Timestamp :: int
  hc_Open :: float64
  hc_High :: float64
  hc_Low :: float64
  hc_Close :: float64
  hc_Volume :: int

record Instrument =
  in_Exchange :: Exchange
  in_ExchangeToken :: string
  in_TradingSymbol :: string
  in_GrowwSymbol :: string
  in_Name :: string
  in_InstrumentType :: InstrumentType
  in_Segment :: Segment
  in_Series :: string
  in_ISIN :: string
  in_UnderlyingSymbol :: string
  in_UnderlyingExchangeToken :: string
  in_ExpiryDate :: string
  in_StrikePrice :: int
  in_LotSize :: int
  in_TickSize :: float64
  in_FreezeQuantity :: int
  in_IsReserved :: bool
  in_BuyAllowed :: bool
  in_SellAllowed :: bool

section \<open>The feed\<close>

record FeedMetadata =
  fmd_Exchange :: Exchange
  fmd_Segment :: Segment
  fmd_FeedType :: string
  fmd_FeedKey :: string

definition zero_FeedMetadata :: FeedMetadata where
  "zero_FeedMetadata = \<lparr>fmd_Exchange = '''', fmd_Segment = '''', fmd_FeedType = '''',
     fmd_FeedKey = ''''\<rparr>"

definition dec_FeedMetadata :: "string \<Rightarrow> json \<Rightarrow> FeedMetadata \<Rightarrow> FeedMetadata \<times> bool" where
  "dec_FeedMetadata = dec_by [
     (''exchange'', set_str (\<lambda>x. fmd_Exchange_update (\<lambda>_. x))),
     (''segment'', set_str (\<lambda>x. fmd_Segment_update (\<lambda>_. x))),
     (''feed_type'', set_str (\<lambda>x. fmd_FeedType_update (\<lambda>_. x))),
     (''feed_key'', set_str (\<lambda>x. fmd_FeedKey_update (\<lambda>_. x)))]"

record IndexData =
  ix_TsInMillis :: int
  ix_Value :: float64

definition zero_IndexData :: IndexData where
  "zero_IndexData = \<lparr>ix_TsInMillis = 0, ix_Value = 0\<rparr>"

definition dec_IndexData :: "string \<Rightarrow> json \<Rightarrow> IndexData \<Rightarrow> IndexData \<times> bool" where
  "dec_IndexData = dec_by [
     (''tsinmillis'', set_int (\<lambda>x. ix_TsInMillis_update (\<lambda>_. x))),
     (''value'', set_float (\<lambda>x. ix_Value_update (\<lambda>_. x)))]"

section \<open>Results that are maps, and the types of the order and position feeds\<close>

text \<open>A nil map is \<open>None\<close>. The updates are declared by the client and decoded by nobody.\<close>

type_synonym LTPResponse = "(string \<times> float64) list option"
type_synonym OHLCResponse = "(string \<times> OHLC) list option"

record OrderUpdate =
  oup_Quantity :: int
  oup_Price :: string
  oup_FilledQty :: int
  oup_AvgFillPrice :: string
  oup_GrowwOrderID :: string
  oup_ExchangeOrdID :: string
  oup_OrderStatus :: OrderStatus
  oup_Exchange :: Exchange
  oup_Segment :: Segment
  oup_Product :: Product
  oup_ContractID :: string

record ExchangePos =
  ep_CreditQty :: float64
  ep_CreditPrice :: float64
  ep_DebitQty :: float64
  ep_DebitPrice :: float64

record PositionUpdate =
  pup_SymbolISIN :: string
  pup_ExchangePosition :: "Exchange \<rightharpoonup> ExchangePos"

end
