(* ===== verification/GrowwApi.thy ===== *)
theory GrowwApi
  imports GrowwClient GrowwTypes Models
begin

text \<open>
  The operations of the broker's REST client: \<open>order.go\<close>, \<open>margin.go\<close>, \<open>live.go\<close> and \<open>historical.go\<close> of
  \<open>src/pkg/groww\<close>. Each builds a path or a body, sends it through \<open>do\<close> and decodes the reply.
\<close>

section \<open>Sending and decoding\<close>

type_synonym ('a, 's) api_result = "((error + 'a) \<times> Client \<times> 's) option"

definition api_call :: "'s groww_env \<Rightarrow> string \<Rightarrow> string \<Rightarrow> (error + json) option \<Rightarrow> rate_bucket \<Rightarrow>
    (payload \<Rightarrow> error + 'a) \<Rightarrow> 'a \<Rightarrow> Client \<Rightarrow> 's \<Rightarrow> ('a, 's) api_result" where
  "api_call env verb path body rb dec zero c s =
     (case groww_do env verb path body (Some rb) c s of
        None \<Rightarrow> None
      | Some (Inl e, c, s) \<Rightarrow> Some (Inl e, c, s)
      | Some (Inr resp, c, s) \<Rightarrow> Some (decodeResponse dec zero resp, c, s))"

section \<open>Orders\<close>

text \<open>The body of an order is a Go map: its members come in the order of their keys.\<close>

definition order_body :: "PlaceOrderRequest \<Rightarrow> field list" where
  "order_body req = [
     str_field ''exchange'' (por_Exchange req),
     str_field ''order_reference_id'' (por_OrderReferenceID req),
     str_field ''order_type'' (por_OrderType req),
     float_field ''price'' (por_Price req),
     str_field ''product'' ''MIS'',
     int_field ''quantity'' (por_Quantity req),
     str_field ''segment'' (por_Segment req),
     str_field ''trading_symbol'' (por_TradingSymbol req),
     str_field ''transaction_type'' (por_TransactionType req),
     float_field ''trigger_price'' (por_TriggerPrice req),
     str_field ''validity'' ''DAY'']"

definition PlaceOrder :: "'s groww_env \<Rightarrow> PlaceOrderRequest \<Rightarrow> Client \<Rightarrow> 's \<Rightarrow> (PlaceOrderResponse, 's) api_result" where
  "PlaceOrder env req = api_call env ''POST'' ''/order/create'' (Some (marshal (order_body req))) OrdersRL
     (unmarshal dec_PlaceOrderResponse zero_PlaceOrderResponse) zero_PlaceOrderResponse"

definition ModifyOrder :: "'s groww_env \<Rightarrow> ModifyOrderRequest \<Rightarrow> Client \<Rightarrow> 's \<Rightarrow> (ModifyOrderResponse, 's) api_result" where
  "ModifyOrder env req = api_call env ''POST'' ''/order/modify'' (Some (marshal (ModifyOrderRequest_fields req))) OrdersRL
     (unmarshal dec_ModifyOrderResponse zero_ModifyOrderResponse) zero_ModifyOrderResponse"

definition CancelOrder :: "'s groww_env \<Rightarrow> Segment \<Rightarrow> string \<Rightarrow> Client \<Rightarrow> 's \<Rightarrow> (CancelOrderResponse, 's) api_result" where
  "CancelOrder env seg growwOrderID =
     (let req = \<lparr>cor_Segment = seg, cor_GrowwOrderID = growwOrderID\<rparr>
      in api_call env ''POST'' ''/order/cancel'' (Some (marshal (CancelOrderRequest_fields req))) OrdersRL
           (unmarshal dec_CancelOrderResponse zero_CancelOrderResponse) zero_CancelOrderResponse)"

definition status_path :: "Segment \<Rightarrow> string \<Rightarrow> string" where
  "status_path seg growwOrderID = ''/order/status/'' @ PathEscape growwOrderID @ ''?segment='' @ seg"

definition GetOrderStatus :: "'s groww_env \<Rightarrow> Segment \<Rightarrow> string \<Rightarrow> Client \<Rightarrow> 's \<Rightarrow> (OrderStatusResponse, 's) api_result" where
  "GetOrderStatus env seg growwOrderID = api_call env ''GET'' (status_path seg growwOrderID) None NonTradingRL
     (unmarshal dec_OrderStatusResponse zero_OrderStatusResponse) zero_OrderStatusResponse"

definition status_ref_path :: "Segment \<Rightarrow> string \<Rightarrow> string" where
  "status_ref_path seg refID = ''/order/status/reference/'' @ PathEscape refID @ ''?segment='' @ seg"

definition GetOrderStatusByRef :: "'s groww_env \<Rightarrow> Segment \<Rightarrow> string \<Rightarrow> Client \<Rightarrow> 's \<Rightarrow> (OrderStatusResponse, 's) api_result" where
  "GetOrderStatusByRef env seg refID = api_call env ''GET'' (status_ref_path seg refID) None NonTradingRL
     (unmarshal dec_OrderStatusResponse zero_OrderStatusResponse) zero_OrderStatusResponse"

definition paged :: "Segment \<Rightarrow> int \<Rightarrow> int \<Rightarrow> string" where
  "paged seg page pageSize = ''?segment='' @ seg @ ''&page='' @ string_of_int page @ ''&page_size='' @ string_of_int pageSize"

text \<open>An envelope with one field that is a list of structs.\<close>

definition dec_list_of :: "string \<Rightarrow> (string \<Rightarrow> json \<Rightarrow> 'a \<Rightarrow> 'a \<times> bool) \<Rightarrow> 'a \<Rightarrow> string \<Rightarrow> json \<Rightarrow> 'a list \<Rightarrow> 'a list \<times> bool" where
  "dec_list_of key d zero = dec_by [(key, set_slice (set_struct d id (\<lambda>x _. x)) zero (\<lambda>xs _. xs))]"

definition GetOrderList :: "'s groww_env \<Rightarrow> Segment \<Rightarrow> int \<Rightarrow> int \<Rightarrow> Client \<Rightarrow> 's \<Rightarrow> (OrderListEntry list, 's) api_result" where
  "GetOrderList env seg page pageSize = api_call env ''GET'' (''/order/list'' @ paged seg page pageSize) None NonTradingRL
     (unmarshal (dec_list_of ''order_list'' dec_OrderDetail zero_OrderDetail) []) []"

definition GetOrderDetail :: "'s groww_env \<Rightarrow> Segment \<Rightarrow> string \<Rightarrow> Client \<Rightarrow> 's \<Rightarrow> (OrderDetail, 's) api_result" where
  "GetOrderDetail env seg growwOrderID =
     api_call env ''GET'' (''/order/detail/'' @ PathEscape growwOrderID @ ''?segment='' @ seg) None NonTradingRL
       (unmarshal dec_OrderDetail zero_OrderDetail) zero_OrderDetail"

definition GetOrderTrades :: "'s groww_env \<Rightarrow> Segment \<Rightarrow> string \<Rightarrow> int \<Rightarrow> int \<Rightarrow> Client \<Rightarrow> 's \<Rightarrow> (Trade list, 's) api_result" where
  "GetOrderTrades env seg growwOrderID page pageSize =
     api_call env ''GET'' (''/order/trades/'' @ PathEscape growwOrderID @ paged seg page pageSize) None NonTradingRL
       (unmarshal (dec_list_of ''trade_list'' dec_Trade zero_Trade) []) []"

definition PlaceOrderRequestFromTradeExecution :: "TradeExecution \<Rightarrow> PlaceOrderRequest" where
  "PlaceOrderRequestFromTradeExecution exec =
     \<lparr>por_TradingSymbol = te_Ticker exec, por_Quantity = te_Quantity exec, por_Price = te_Price exec, por_TriggerPrice = 0,
      por_Exchange = ExchangeNSE, por_Segment = SegmentCash, por_OrderType = OrderTypeLimit,
      por_TransactionType = (if te_Side exec = SideShort then TransactionTypeSell else TransactionTypeBuy),
      por_OrderReferenceID = te_ExecutionRef exec\<rparr>"

text \<open>The loop that keeps the first two hyphens; the count is the number of hyphens seen.\<close>

fun keep_hyphens :: "nat \<Rightarrow> string \<Rightarrow> string" where
  "keep_hyphens n [] = []"
| "keep_hyphens n (c # cs) =
     (if c = CHR ''-'' then if 2 < Suc n then keep_hyphens (Suc n) cs else c # keep_hyphens (Suc n) cs
      else c # keep_hyphens n cs)"

definition ParseOrderReferenceID :: "string \<Rightarrow> string" where
  "ParseOrderReferenceID ref0 =
     (let ref = (if 20 < length ref0 then take 20 ref0 else ref0);
          keep = keep_hyphens 0 ref
      in if length keep < 8 then keep @ replicate (8 - length keep) (CHR ''0'') else keep)"

definition OrderReferenceID :: "string \<Rightarrow> string" where "OrderReferenceID execRef = ParseOrderReferenceID execRef"

section \<open>Margins\<close>

definition GetUserMargin :: "'s groww_env \<Rightarrow> Client \<Rightarrow> 's \<Rightarrow> (MarginResponse, 's) api_result" where
  "GetUserMargin env = api_call env ''GET'' ''/margins/detail/user'' None NonTradingRL
     (unmarshal dec_MarginResponse zero_MarginResponse) zero_MarginResponse"

definition margin_body :: "MarginCalcRequest \<Rightarrow> field list" where
  "margin_body r = [
     str_field ''trading_symbol'' (mcq_TradingSymbol r),
     str_field ''transaction_type'' (mcq_TransactionType r),
     int_field ''quantity'' (mcq_Quantity r),
     float_field_omit ''price'' (mcq_Price r),
     str_field ''order_type'' (mcq_OrderType r),
     str_field ''product'' ''MIS'',
     str_field ''exchange'' (mcq_Exchange r)]"

text \<open>A slice is marshalled element by element; the first error ends it.\<close>

fun enc_elements :: "(error + json) list \<Rightarrow> error + json list" where
  "enc_elements [] = Inr []"
| "enc_elements (v # vs) =
     (case v of Inl e \<Rightarrow> Inl e | Inr j \<Rightarrow> (case enc_elements vs of Inl e \<Rightarrow> Inl e | Inr js \<Rightarrow> Inr (j # js)))"

definition CalculateMargin :: "'s groww_env \<Rightarrow> MarginCalcRequest list \<Rightarrow> Client \<Rightarrow> 's \<Rightarrow> (MarginCalcResponse, 's) api_result" where
  "CalculateMargin env orders = api_call env ''POST'' ''/margins/detail/orders''
     (Some (map_sum id JArr (enc_elements (map (marshal \<circ> margin_body) orders)))) NonTradingRL
     (unmarshal dec_MarginCalcResponse zero_MarginCalcResponse) zero_MarginCalcResponse"

section \<open>Live data\<close>

definition GetQuote :: "'s groww_env \<Rightarrow> Exchange \<Rightarrow> Segment \<Rightarrow> string \<Rightarrow> Client \<Rightarrow> 's \<Rightarrow> (Quote, 's) api_result" where
  "GetQuote env exchange seg symbol = api_call env ''GET''
     (''/live-data/quote?exchange='' @ exchange @ ''&segment='' @ seg @ ''&trading_symbol='' @ PathEscape symbol)
     None LiveDataRL (unmarshal dec_Quote zero_Quote) zero_Quote"

definition comma_joined :: "string list \<Rightarrow> string" where
  "comma_joined symbols = (case symbols of [] \<Rightarrow> '''' | s # ss \<Rightarrow> s @ concat (map (\<lambda>x. CHR '','' # x) ss))"

definition GetLTP :: "'s groww_env \<Rightarrow> Segment \<Rightarrow> string list \<Rightarrow> Client \<Rightarrow> 's \<Rightarrow> (LTPResponse, 's) api_result" where
  "GetLTP env seg symbols = api_call env ''GET''
     (''/live-data/ltp?segment='' @ seg @ ''&exchange_symbols='' @ QueryEscape (comma_joined symbols))
     None LiveDataRL (unmarshal_map (set_float (\<lambda>x _. x)) 0) None"

definition GetOHLC :: "'s groww_env \<Rightarrow> Segment \<Rightarrow> string list \<Rightarrow> Client \<Rightarrow> 's \<Rightarrow> (OHLCResponse, 's) api_result" where
  "GetOHLC env seg symbols = api_call env ''GET''
     (''/live-data/ohlc?segment='' @ seg @ ''&exchange_symbols='' @ QueryEscape (comma_joined symbols))
     None LiveDataRL (unmarshal_map (set_struct dec_OHLC id (\<lambda>x _. x)) zero_OHLC) None"

section \<open>Historical candles\<close>

text \<open>The rows are decoded into \<open>[]any\<close>: the values are kept as they are, but every number in them is
  converted to a float, which fails when it is too large.\<close>

fun any_bad :: "json \<Rightarrow> bool" where
  "any_bad (JInt i) \<longleftrightarrow> \<not> is_fin (rnd (of_int i))"
| "any_bad (JDec r) \<longleftrightarrow> \<not> is_fin (rnd r)"
| "any_bad (JArr js) \<longleftrightarrow> (\<exists>j \<in> set js. any_bad j)"
| "any_bad (JObj kvs) \<longleftrightarrow> (\<exists>kv \<in> set kvs. any_bad (snd kv))"
| "any_bad _ \<longleftrightarrow> False"

fun set_row :: "json \<Rightarrow> json list \<Rightarrow> json list \<times> bool" where
  "set_row (JArr js) st = (js, \<exists>j \<in> set js. any_bad j)"
| "set_row JNull st = ([], False)"
| "set_row _ st = (st, True)"

definition dec_candles :: "string \<Rightarrow> json \<Rightarrow> json list list \<Rightarrow> json list list \<times> bool" where
  "dec_candles = dec_by [(''candles'', set_slice set_row [] (\<lambda>xs _. xs))]"

text \<open>The value of type \<open>any\<close>: a number is a \<open>float64\<close> there, so the branches for integers are never taken.\<close>

fun toFloat64 :: "json \<Rightarrow> float64 \<times> bool" where
  "toFloat64 (JInt i) = (rnd (of_int i), True)"
| "toFloat64 (JDec r) = (rnd r, True)"
| "toFloat64 _ = (0, False)"

fun toInt64 :: "json \<Rightarrow> int \<times> bool" where
  "toInt64 (JInt i) = (f64_to_int (rnd (of_int i)), True)"
| "toInt64 (JDec r) = (f64_to_int (rnd r), True)"
| "toInt64 _ = (0, False)"

fun candles_of :: "json list list \<Rightarrow> HistoricalCandle list" where
  "candles_of [] = []"
| "candles_of (raw # rows) =
     (if length raw < 6 then candles_of rows
      else \<lparr>hc_Timestamp = fst (toInt64 (raw ! 0)), hc_Open = fst (toFloat64 (raw ! 1)), hc_High = fst (toFloat64 (raw ! 2)),
            hc_Low = fst (toFloat64 (raw ! 3)), hc_Close = fst (toFloat64 (raw ! 4)), hc_Volume = fst (toInt64 (raw ! 5))\<rparr>
           # candles_of rows)"

text \<open>The layout \<open>2006-01-02 15:04:05\<close> for a time in the location \<open>loc\<close>.\<close>

definition format_datetime :: "int \<Rightarrow> Time \<Rightarrow> string" where
  "format_datetime loc t = (let s = ns_of_day loc t div nsec in
     format_day (civil_day loc t) @ '' '' @ pad2 (s div 3600) @ '':'' @ pad2 (s div 60 mod 60) @ '':'' @ pad2 (s mod 60))"

definition GetHistoricalCandles :: "'s groww_env \<Rightarrow> Exchange \<Rightarrow> Segment \<Rightarrow> string \<Rightarrow> int \<Rightarrow> Time \<Rightarrow> Time \<Rightarrow> CandleInterval \<Rightarrow>
    Client \<Rightarrow> 's \<Rightarrow> (HistoricalCandle list, 's) api_result" where
  "GetHistoricalCandles env exchange seg symbol loc start end_time interval c s =
     map_option (\<lambda>(r, c, s). (map_sum id candles_of r, c, s))
       (api_call env ''GET''
         (''/historical/candle/range?exchange='' @ exchange @ ''&segment='' @ seg @ ''&trading_symbol='' @ PathEscape symbol @
          ''&start_time='' @ QueryEscape (format_datetime loc start) @
          ''&end_time='' @ QueryEscape (format_datetime loc end_time) @ ''&interval_in_minutes='' @ QueryEscape interval)
         None NonTradingRL (unmarshal dec_candles []) [] c s)"

section \<open>References the broker accepts\<close>

definition hyphens :: "string \<Rightarrow> nat" where
  "hyphens s = length (filter (\<lambda>c. c = CHR ''-'') s)"

lemma keep_hyphens_count: "hyphens (keep_hyphens n s) \<le> 2 - n"
proof (induction s arbitrary: n)
  case (Cons c s)
  then show ?case using Cons.IH [of "Suc n"] Cons.IH [of n] by (auto simp: hyphens_def)
qed (simp add: hyphens_def)

lemma keep_hyphens_id: "hyphens s \<le> 2 - n \<Longrightarrow> keep_hyphens n s = s"
  by (induction s arbitrary: n) (auto simp: hyphens_def)

lemma keep_hyphens_sub: "length (keep_hyphens n s) \<le> length s" "set (keep_hyphens n s) \<subseteq> set s"
  by (induction s arbitrary: n) (auto simp: le_SucI)

definition acceptable_ref :: "string \<Rightarrow> bool" where
  "acceptable_ref s \<longleftrightarrow> 8 \<le> length s \<and> length s \<le> 20 \<and> hyphens s \<le> 2"

text \<open>\<open>ParseOrderReferenceID\<close> makes any reference acceptable in length and hyphens, changes none that is so
  already, hence is idempotent, and brings in no character but the padding zero. But references that share
  their first twenty characters become one, and \<open>PlaceOrderRequestFromTradeExecution\<close> does not call it: the
  request carries the reference of the execution, acceptable or not.\<close>

theorem reference_rules:
  "acceptable_ref (ParseOrderReferenceID ref) \<and>
   set (ParseOrderReferenceID ref) \<subseteq> set ref \<union> {CHR ''0''} \<and>
   (acceptable_ref ref \<longrightarrow> ParseOrderReferenceID ref = ref) \<and>
   (20 \<le> length ref \<and> 20 \<le> length ref' \<and> take 20 ref = take 20 ref' \<longrightarrow> ParseOrderReferenceID ref = ParseOrderReferenceID ref') \<and>
   por_OrderReferenceID (PlaceOrderRequestFromTradeExecution exec) = te_ExecutionRef exec"
proof (intro conjI impI)
  let ?t = "if 20 < length ref then take 20 ref else ref"
  let ?k = "keep_hyphens 0 ?t"
  have k: "hyphens ?k \<le> 2" "length ?k \<le> 20" "set ?k \<subseteq> set ref"
    using keep_hyphens_count [of 0 ?t] keep_hyphens_sub [of 0 ?t] set_take_subset [of 20 ref] by (auto split: if_splits)
  have p: "ParseOrderReferenceID ref = (if length ?k < 8 then ?k @ replicate (8 - length ?k) (CHR ''0'') else ?k)"
    by (simp only: ParseOrderReferenceID_def Let_def)
  show "acceptable_ref (ParseOrderReferenceID ref)"
    unfolding p using k by (simp add: acceptable_ref_def hyphens_def)
  show "set (ParseOrderReferenceID ref) \<subseteq> set ref \<union> {CHR ''0''}"
    unfolding p using k by auto
  show "ParseOrderReferenceID ref = ref" if "acceptable_ref ref"
    using that by (simp add: acceptable_ref_def ParseOrderReferenceID_def keep_hyphens_id)
  show "ParseOrderReferenceID ref = ParseOrderReferenceID ref'"
    if "20 \<le> length ref \<and> 20 \<le> length ref' \<and> take 20 ref = take 20 ref'"
  proof -
    have "?t = take 20 ref" "(if 20 < length ref' then take 20 ref' else ref') = take 20 ref'" using that by auto
    then show ?thesis using that by (simp add: ParseOrderReferenceID_def)
  qed
qed (simp add: PlaceOrderRequestFromTradeExecution_def)

lemma reference_rules_witness:
  "ParseOrderReferenceID ''exec-12345678'' = ''exec-12345678'' \<and>
   ParseOrderReferenceID ''order-of-the-day-TCS-1'' = ParseOrderReferenceID ''order-of-the-day-TCS-2''"
proof
  show "ParseOrderReferenceID ''exec-12345678'' = ''exec-12345678''"
    using reference_rules [of "''exec-12345678''"] by (simp add: acceptable_ref_def hyphens_def)
  show "ParseOrderReferenceID ''order-of-the-day-TCS-1'' = ParseOrderReferenceID ''order-of-the-day-TCS-2''"
    using reference_rules [of "''order-of-the-day-TCS-1''" "''order-of-the-day-TCS-2''"] by simp
qed

section \<open>Paths\<close>

lemma cut_at_mark: "x \<notin> set a \<Longrightarrow> x \<notin> set b \<Longrightarrow> a @ x # c = b @ x # d \<Longrightarrow> a = b \<and> c = d"
  by (induction a arbitrary: b) (auto simp: Cons_eq_append_conv append_eq_Cons_conv)

text \<open>No order can be mistaken for another by its name: two status requests have the same path only if they
  are for the same order and segment, whatever characters the names hold, and a query by order id never
  has the path of a query by reference.\<close>

theorem status_paths_distinct:
  "(status_path seg oid = status_path seg' oid' \<longleftrightarrow> seg = seg' \<and> oid = oid') \<and>
   (status_ref_path seg oid = status_ref_path seg' oid' \<longleftrightarrow> seg = seg' \<and> oid = oid') \<and>
   status_path seg oid \<noteq> status_ref_path seg' rid"
proof (intro conjI)
  have cut: "PathEscape a @ ''?segment='' @ s = PathEscape b @ ''?segment='' @ s' \<longleftrightarrow> s = s' \<and> a = b" for a b s s'
    using cut_at_mark [of "CHR ''?''" "PathEscape a" "PathEscape b" "''segment='' @ s" "''segment='' @ s'"]
      PathEscape_safe PathEscape_inj by auto
  show "status_path seg oid = status_path seg' oid' \<longleftrightarrow> seg = seg' \<and> oid = oid'"
    "status_ref_path seg oid = status_ref_path seg' oid' \<longleftrightarrow> seg = seg' \<and> oid = oid'"
    using cut by (simp_all add: status_path_def status_ref_path_def)
  show "status_path seg oid \<noteq> status_ref_path seg' rid"
  proof
    assume "status_path seg oid = status_ref_path seg' rid"
    then have e: "PathEscape oid @ ''?segment='' @ seg = ''reference/'' @ PathEscape rid @ ''?segment='' @ seg'"
      by (simp add: status_path_def status_ref_path_def)
    then have "PathEscape oid = ''reference/'' @ PathEscape rid"
      using cut_at_mark [of "CHR ''?''" "PathEscape oid" "''reference/'' @ PathEscape rid" "''segment='' @ seg" "''segment='' @ seg'"]
        PathEscape_safe by simp
    then show False using PathEscape_safe(1) [of oid] by simp
  qed
qed

section \<open>An order is not placed twice\<close>

text \<open>Any environment can be made to keep a log of the requests it gets and what comes of them.\<close>

type_synonym wire_log = "(http_request \<times> http_outcome) list"

definition logging :: "'t groww_env \<Rightarrow> (wire_log \<times> 't) groww_env" where
  "logging env = \<lparr>ge_now = (\<lambda>(l, u). case ge_now env u of (t, u) \<Rightarrow> (t, l, u)), ge_sleep = (\<lambda>d (l, u). (l, ge_sleep env d u)),
     ge_http = (\<lambda>q (l, u). case ge_http env q u of (out, u) \<Rightarrow> (out, l @ [(q, out)], u)),
     ge_getenv = ge_getenv env, ge_sha256hex = ge_sha256hex env\<rparr>"

definition expired :: "http_outcome \<Rightarrow> bool" where
  "expired out = (case out of Reply r \<Rightarrow> rp_status r = 401 | _ \<Rightarrow> False)"

text \<open>The requests to a URL that were not turned away with 401, and what every request to it must look like.\<close>

definition answered :: "string \<Rightarrow> wire_log \<Rightarrow> wire_log" where
  "answered url = filter (\<lambda>(q, out). rq_url q = url \<and> \<not> expired out)"

definition sent_as :: "string \<Rightarrow> string \<Rightarrow> (error + json) option \<Rightarrow> http_request \<times> http_outcome \<Rightarrow> bool" where
  "sent_as url verb body qo \<longleftrightarrow> (rq_url (fst qo) = url \<longrightarrow> rq_method (fst qo) = verb \<and>
     (body = None \<and> rq_body (fst qo) = None \<or> (\<exists>j. body = Some (Inr j) \<and> rq_body (fst qo) = Some j)))"

definition token_url :: "'s groww_env \<Rightarrow> Client \<Rightarrow> string" where
  "token_url env c = envOrDefault env ''GROWW_TOKEN_URL'' (gc_baseURL c @ ''/token/api/access'')"

lemma wait_log:
  assumes "before_request (logging env) rb c (l, u) = (c1, s1)"
  shows "fst s1 = l \<and> gc_baseURL c1 = gc_baseURL c"
proof (cases rb)
  case (Some b)
  have p: "gc_baseURL (put_bucket b rl c) = gc_baseURL c" for rl by (cases b) simp_all
  show ?thesis using assms Some p
    by (auto simp: before_request_def bucket_Wait_def logging_def split: prod.splits option.splits)
qed (use assms in \<open>auto simp: before_request_def\<close>)

lemma refresh_log:
  assumes "refreshToken (logging env) c (l, u) = (r, c', s')"
  shows "\<exists>q out. fst s' = l @ [(q, out)] \<and> rq_url q = token_url env c \<and> gc_baseURL c' = gc_baseURL c"
  using assms
  by (auto simp: refreshToken_def refresh_request_def logging_def token_url_def envOrDefault_def SetToken_def Let_def
    split: prod.splits http_outcome.splits sum.splits if_splits)

lemma token_url_base: "gc_baseURL c' = gc_baseURL c \<Longrightarrow> token_url env c' = token_url env c"
  by (simp add: token_url_def)

text \<open>What one pass adds to the log: nothing; its request; or its request, turned away, and a refresh.\<close>

definition pass_log :: "string \<Rightarrow> string \<Rightarrow> string \<Rightarrow> (error + json) option \<Rightarrow> wire_log \<Rightarrow> bool" where
  "pass_log tok url verb body new \<longleftrightarrow> new = [] \<or>
     (\<exists>q out. rq_url q = url \<and> sent_as url verb body (q, out) \<and>
        (new = [(q, out)] \<or> (\<exists>q' out'. expired out \<and> rq_url q' = tok \<and> new = [(q, out), (q', out')])))"

lemma do_pass_log:
  assumes "tok = token_url env c" "url = gc_baseURL c @ path"
  shows "case do_pass (logging env) verb path body rb c (l, u) of
      Inl (res, c', s') \<Rightarrow> \<exists>new. fst s' = l @ new \<and> pass_log tok url verb body new \<and>
        (\<forall>r. res = Inr r \<and> rp_status r \<noteq> 401 \<longrightarrow> length (answered url new) = 1)
    | Inr (c', s') \<Rightarrow> gc_baseURL c' = gc_baseURL c \<and>
        (\<exists>q out q' out'. fst s' = l @ [(q, out), (q', out')] \<and> pass_log tok url verb body [(q, out), (q', out')] \<and>
           expired out \<and> rq_url q' = tok)"
proof -
  obtain c1 l1 u1 where b: "before_request (logging env) rb c (l, u) = (c1, (l1, u1))"
    by (cases "before_request (logging env) rb c (l, u)") auto
  have l1: "l1 = l" "gc_baseURL c1 = gc_baseURL c" using wait_log [OF b] by simp_all
  show ?thesis
  proof (cases "\<exists>e. body = Some (Inl e)")
    case True
    then show ?thesis using b by (auto simp: do_pass_def before_request_def l1 pass_log_def)
  next
    case False
    then obtain data where d: "(case body of None \<Rightarrow> Inr None | Some r \<Rightarrow> map_sum id Some r) = (Inr data :: error + json option)"
      "body = None \<and> data = None \<or> (\<exists>j. body = Some (Inr j) \<and> data = Some j)"
      by (cases body; (case_tac "the body")?) auto
    let ?q = "api_request c1 verb path data"
    have q: "rq_url ?q = url" "sent_as url verb body (?q, out)" for out
      using d(2) assms(2) l1 by (auto simp: api_request_def sent_as_def)
    obtain out u2 where h: "ge_http (logging env) ?q (l1, u1) = (out, (l @ [(?q, out)], u2))"
      using l1 by (cases "ge_http env ?q u1") (auto simp: logging_def)
    show ?thesis
    proof (cases "\<exists>r. out = Reply r \<and> rp_status r = 401 \<and> has_keys c1 \<and> rp_close r = None")
      case False
      then show ?thesis using b d(1) h q
        by (cases out) (auto simp: do_pass_def before_request_def has_keys_def pass_log_def answered_def expired_def
          split: option.splits)
    next
      case True
      then obtain r where r: "out = Reply r" "rp_status r = 401" "has_keys c1" "rp_close r = None" by blast
      obtain e c2 s3 where f: "refreshToken (logging env) c1 (l @ [(?q, out)], u2) = (e, c2, s3)"
        by (cases "refreshToken (logging env) c1 (l @ [(?q, out)], u2)") auto
      obtain q' out' where t: "fst s3 = (l @ [(?q, out)]) @ [(q', out')]" "rq_url q' = tok" "gc_baseURL c2 = gc_baseURL c"
        using refresh_log [OF f] assms(1) l1 token_url_base [of c1 c env] by auto
      have p: "pass_log tok url verb body [(?q, out), (q', out')]" "expired out"
        using q t r by (auto simp: pass_log_def expired_def)
      show ?thesis
      proof (cases e)
        case None
        then have "do_pass (logging env) verb path body rb c (l, u) = Inr (c2, s3)"
          using b d(1) h r f by (simp add: do_pass_def before_request_def has_keys_def)
        then show ?thesis using t p by auto
      next
        case (Some e')
        then have "do_pass (logging env) verb path body rb c (l, u) = Inl (Inl (Wrapf ''token refresh failed'' ErrAuthExpired), c2, s3)"
          using b d(1) h r f by (simp add: do_pass_def before_request_def has_keys_def)
        then show ?thesis using t p by auto
      qed
    qed
  qed
qed

lemma pass_log_facts:
  assumes "pass_log tok url verb body new" "tok \<noteq> url"
  shows "(\<forall>qo \<in> set new. sent_as url verb body qo) \<and> length (answered url new) \<le> 1"
  using assms by (auto simp: pass_log_def sent_as_def answered_def)

lemma do_passes_log:
  assumes "token_url env c \<noteq> gc_baseURL c @ path"
    and "do_passes n (logging env) verb path body rb c (l, u) = Inl (res, c', s')"
  shows "\<exists>new. fst s' = l @ new \<and> (\<forall>qo \<in> set new. sent_as (gc_baseURL c @ path) verb body qo) \<and>
    length (answered (gc_baseURL c @ path) new) \<le> 1 \<and>
    (\<forall>r. res = Inr r \<and> rp_status r \<noteq> 401 \<longrightarrow> length (answered (gc_baseURL c @ path) new) = 1)"
  using assms
proof (induction n arbitrary: c l u)
  case (Suc n)
  note lg = do_pass_log [OF refl refl, where env = env and c = c and path = path and verb = verb and body = body and rb = rb
      and l = l and u = u]
  show ?case
  proof (cases "do_pass (logging env) verb path body rb c (l, u)")
    case (Inl x)
    then have "x = (res, c', s')" using Suc.prems(2) by simp
    then show ?thesis using lg Inl pass_log_facts [OF _ Suc.prems(1)] by fastforce
  next
    case (Inr x)
    obtain c2 l2 u2 where x: "x = (c2, (l2, u2))" by (cases x) auto
    obtain q out q' out' where p: "gc_baseURL c2 = gc_baseURL c" "l2 = l @ [(q, out), (q', out')]"
      "pass_log (token_url env c) (gc_baseURL c @ path) verb body [(q, out), (q', out')]" "expired out" "rq_url q' = token_url env c"
      using lg Inr x by auto
    have a: "answered (gc_baseURL c @ path) ([(q, out), (q', out')] @ new) = answered (gc_baseURL c @ path) new" for new
      using p(4,5) Suc.prems(1) by (simp add: answered_def)
    have "token_url env c2 \<noteq> gc_baseURL c2 @ path" using Suc.prems(1) p(1) token_url_base [OF p(1), where env = env] by simp
    moreover have "do_passes n (logging env) verb path body rb c2 (l2, u2) = Inl (res, c', s')"
      using Suc.prems(2) Inr x by simp
    ultimately obtain new where new: "fst s' = l2 @ new" "\<forall>qo \<in> set new. sent_as (gc_baseURL c @ path) verb body qo"
      "length (answered (gc_baseURL c @ path) new) \<le> 1"
      "\<forall>r. res = Inr r \<and> rp_status r \<noteq> 401 \<longrightarrow> length (answered (gc_baseURL c @ path) new) = 1"
      using Suc.IH [of c2 l2 u2] p(1) by auto
    have "\<forall>qo \<in> set ([(q, out), (q', out')] @ new). sent_as (gc_baseURL c @ path) verb body qo"
      using pass_log_facts [OF p(3) Suc.prems(1)] new(2) by auto
    then show ?thesis using new p(2) a [of new] by (intro exI [of _ "[(q, out), (q', out')] @ new"]) auto
  qed
qed simp

text \<open>C8: An order is not placed twice. Whatever server, clock and keys, and however often the token has to be
  refreshed on the way: of all the requests \<open>PlaceOrder\<close> makes to the order endpoint at most one is not
  turned away with 401, exactly one if it returns an order, and each is a POST of the same body, an
  intraday order (MIS) for the day.\<close>

theorem PlaceOrder_at_most_once:
  assumes "PlaceOrder (logging env) req c ([], u) = Some (r, c', (wire, u'))"
    and "token_url env c \<noteq> gc_baseURL c @ ''/order/create''"
  shows "length (answered (gc_baseURL c @ ''/order/create'') wire) \<le> 1 \<and>
    (\<forall>order. r = Inr order \<longrightarrow> length (answered (gc_baseURL c @ ''/order/create'') wire) = 1) \<and>
    (\<forall>(q, out) \<in> set wire. rq_url q = gc_baseURL c @ ''/order/create'' \<longrightarrow> rq_method q = ''POST'' \<and>
       (\<exists>members. rq_body q = Some (JObj members) \<and> marshal (order_body req) = Inr (JObj members)))"
proof -
  let ?url = "gc_baseURL c @ ''/order/create''"
  let ?body = "Some (marshal (order_body req))"
  obtain res where g: "groww_do (logging env) ''POST'' ''/order/create'' ?body (Some OrdersRL) c ([], u) = Some (res, c', (wire, u'))"
    "\<forall>order. r = Inr order \<longrightarrow> (\<exists>resp. res = Inr resp \<and> rp_status resp \<noteq> 401)"
    using assms(1)
    by (auto simp: PlaceOrder_def api_call_def decodeResponse_def split: option.splits sum.splits if_splits prod.splits)
  from do_return_passes [OF g(1)] obtain n
    where "do_passes n (logging env) ''POST'' ''/order/create'' ?body (Some OrdersRL) c ([], u) = Inl (res, c', (wire, u'))" ..
  from do_passes_log [OF assms(2) this]
  have l: "\<forall>qo \<in> set wire. sent_as ?url ''POST'' ?body qo" "length (answered ?url wire) \<le> 1"
    "\<forall>r. res = Inr r \<and> rp_status r \<noteq> 401 \<longrightarrow> length (answered ?url wire) = 1" by auto
  moreover have "\<exists>members. j = JObj members" if "marshal (order_body req) = Inr j" for j
    using that by (auto simp: marshal_def map_sum_def split: sum.splits)
  ultimately show ?thesis using g(2) by (fastforce simp: sent_as_def)
qed

section \<open>Candles\<close>

lemma candles_of_filter: "candles_of rows = candles_of (filter (\<lambda>raw. 6 \<le> length raw) rows)"
  by (induction rows) auto

lemma toInt64_exact: "\<bar>i\<bar> \<le> 2 ^ 53 \<Longrightarrow> fst (toInt64 (JInt i)) = i"
  by (simp add: rnd_of_int rat_trunc_def in_int64_def abs_le_iff)

lemma toFloat64_not_number: "snd (toFloat64 j) = False \<Longrightarrow> fst (toFloat64 j) = 0"
  by (cases j) simp_all

definition candle_row :: "json list \<Rightarrow> HistoricalCandle" where
  "candle_row raw = \<lparr>hc_Timestamp = fst (toInt64 (raw ! 0)), hc_Open = fst (toFloat64 (raw ! 1)),
     hc_High = fst (toFloat64 (raw ! 2)), hc_Low = fst (toFloat64 (raw ! 3)), hc_Close = fst (toFloat64 (raw ! 4)),
     hc_Volume = fst (toInt64 (raw ! 5))\<rparr>"

lemma candles_of_map: "candles_of rows = map candle_row (filter (\<lambda>raw. 6 \<le> length raw) rows)"
  by (induction rows) (auto simp: candle_row_def)

lemma candle_row_take:
  assumes "take 6 raw = [JInt t, o', h, l, cl, JInt v]"
  shows "candle_row raw = \<lparr>hc_Timestamp = fst (toInt64 (JInt t)), hc_Open = fst (toFloat64 o'), hc_High = fst (toFloat64 h),
    hc_Low = fst (toFloat64 l), hc_Close = fst (toFloat64 cl), hc_Volume = fst (toInt64 (JInt v))\<rparr>"
proof -
  have "raw ! k = [JInt t, o', h, l, cl, JInt v] ! k" if "k < 6" for k
    using that unfolding assms [symmetric] by simp
  from this [of 0] this [of 1] this [of 2] this [of 3] this [of 4] this [of 5] show ?thesis
    by (simp add: candle_row_def del: toInt64.simps)
qed

text \<open>A candle for every row of at least six values, in order, and for no other; whole numbers of up to 53 bits
  come through exactly, and a value that is not a number reads as zero without a word.\<close>

theorem candles_rows:
  "length (candles_of rows) = length (filter (\<lambda>raw. 6 \<le> length raw) rows) \<and>
   (\<forall>i t o' h l cl v. i < length (candles_of rows) \<and> \<bar>t\<bar> \<le> 2 ^ 53 \<and> \<bar>v\<bar> \<le> 2 ^ 53 \<and>
      take 6 (filter (\<lambda>raw. 6 \<le> length raw) rows ! i) = [JInt t, o', h, l, cl, JInt v] \<longrightarrow>
      candles_of rows ! i = \<lparr>hc_Timestamp = t, hc_Open = fst (toFloat64 o'), hc_High = fst (toFloat64 h),
        hc_Low = fst (toFloat64 l), hc_Close = fst (toFloat64 cl), hc_Volume = v\<rparr>) \<and>
   (\<forall>j. snd (toFloat64 j) = False \<longrightarrow> fst (toFloat64 j) = 0)"
proof (intro conjI allI impI)
  show "length (candles_of rows) = length (filter (\<lambda>raw. 6 \<le> length raw) rows)" by (simp add: candles_of_map)
  fix i t o' h l cl v
  assume a: "i < length (candles_of rows) \<and> \<bar>t\<bar> \<le> 2 ^ 53 \<and> \<bar>v\<bar> \<le> 2 ^ 53 \<and>
    take 6 (filter (\<lambda>raw. 6 \<le> length raw) rows ! i) = [JInt t, o', h, l, cl, JInt v]"
  then have "candles_of rows ! i = candle_row (filter (\<lambda>raw. 6 \<le> length raw) rows ! i)" by (simp add: candles_of_map)
  with a show "candles_of rows ! i = \<lparr>hc_Timestamp = t, hc_Open = fst (toFloat64 o'), hc_High = fst (toFloat64 h),
      hc_Low = fst (toFloat64 l), hc_Close = fst (toFloat64 cl), hc_Volume = v\<rparr>"
    by (simp only: candle_row_take toInt64_exact)
qed (rule toFloat64_not_number)

section \<open>Examples\<close>

lemma candles_rows_witness:
  "candles_of [[JInt 1], [JInt 5, JInt 10, JInt 12, JInt 9, JNull, JInt 100]] ! 0 =
     \<lparr>hc_Timestamp = 5, hc_Open = Fin 10, hc_High = Fin 12, hc_Low = Fin 9, hc_Close = 0, hc_Volume = 100\<rparr>"
  using candles_rows [of "[[JInt 1], [JInt 5, JInt 10, JInt 12, JInt 9, JNull, JInt 100]]"] by simp

text \<open>A broker that takes every order.\<close>

definition taking_env :: "unit groww_env" where
  "taking_env = \<lparr>ge_now = (\<lambda>s. (0, s)), ge_sleep = (\<lambda>_ s. s),
     ge_http = (\<lambda>q s. (Reply (json_reply 200 (Some (JObj [(''status'', JStr ''SUCCESS''),
        (''payload'', JObj [(''groww_order_id'', JStr ''G1'')])]))), s)),
     ge_getenv = (\<lambda>_. ''''), ge_sha256hex = id\<rparr>"

definition sample_order :: PlaceOrderRequest where
  "sample_order = \<lparr>por_TradingSymbol = ''TCS'', por_Quantity = 10, por_Price = Fin 3500, por_TriggerPrice = 0,
     por_Exchange = ExchangeNSE, por_Segment = SegmentCash, por_OrderType = OrderTypeLimit,
     por_TransactionType = TransactionTypeBuy, por_OrderReferenceID = ''exec-12345678''\<rparr>"

lemma PlaceOrder_at_most_once_witness:
  "\<exists>r c' wire u'. PlaceOrder (logging taking_env) sample_order (fst (NewClient taking_env ''t'' ())) ([], ()) = Some (r, c', (wire, u')) \<and>
     length (answered ''https://api.groww.in/v1/order/create'' wire) \<le> 1"
proof -
  let ?c = "fst (NewClient taking_env ''t'' ())"
  have c: "gc_baseURL ?c = ''https://api.groww.in/v1''" "\<not> has_keys ?c"
    by (simp_all add: NewClient_def newClient_def taking_env_def envOrDefault_def DefaultBaseURL_def has_keys_def)
  from do_keyless [OF c(2), where env = "logging taking_env"]
  obtain out where o: "groww_do (logging taking_env) ''POST'' ''/order/create'' (Some (marshal (order_body sample_order))) (Some OrdersRL) ?c ([], ())
      = Some out" ..
  have "\<exists>r c' wire u'. PlaceOrder (logging taking_env) sample_order ?c ([], ()) = Some (r, c', (wire, u'))"
    using o by (cases out; cases "fst out") (auto simp: PlaceOrder_def api_call_def)
  then obtain r c' wire u' where p: "PlaceOrder (logging taking_env) sample_order ?c ([], ()) = Some (r, c', (wire, u'))" by blast
  have "token_url taking_env ?c \<noteq> gc_baseURL ?c @ ''/order/create''"
    by (simp add: token_url_def c(1) envOrDefault_def taking_env_def)
  from PlaceOrder_at_most_once [OF p this] show ?thesis using p unfolding c(1) by auto
qed

end
