(* ===== verification/Instruments.thy ===== *)
theory Instruments
  imports GrowwTypes GoHttp
begin

text \<open>
  The download and the reader of the broker's instrument file, \<open>src/pkg/groww/instrument.go\<close>. The lexing of the CSV text and
  \<open>strconv.ParseFloat\<close> are arguments; the check of \<open>encoding/csv\<close> that all records have as many fields as the
  first, and \<open>strconv.Atoi\<close>, are modelled.
\<close>

section \<open>The file\<close>

definition DefaultInstrumentURL :: string where
  "DefaultInstrumentURL = ''https://growwapi-assets.groww.in/instruments/instrument.csv''"

definition DownloadInstruments :: "transport \<Rightarrow> error + string" where
  "DownloadInstruments http =
     (case http \<lparr>rq_method = ''GET'', rq_url = DefaultInstrumentURL, rq_headers = [], rq_body = None\<rparr> of
        Unbuildable e \<Rightarrow> Inl (Wrapf ''groww instruments download'' e)
      | Undelivered e \<Rightarrow> Inl (Wrapf ''groww instruments download'' e)
      | Reply r \<Rightarrow>
          if rp_status r \<noteq> 200 then Inl (NewErr (''groww instruments: HTTP '' @ string_of_int (rp_status r)))
          else case rp_text r of
            None \<Rightarrow> Inl (Wrapf ''groww instruments read'' (NewErr ''unexpected EOF''))
          | Some data \<Rightarrow> Inr data)"

section \<open>Numbers in text\<close>

text \<open>\<open>atoi\<close> drops the error of \<open>strconv.Atoi\<close>: text that is no numeral reads as 0, one that is too large as the
  nearest \<open>int\<close>.\<close>

definition atoi :: "string \<Rightarrow> int" where
  "atoi s =
     (let (neg, ds) = (case s of [] \<Rightarrow> (False, []) | c # cs \<Rightarrow>
            if c = CHR ''-'' then (True, cs) else if c = CHR ''+'' then (False, cs) else (False, c # cs))
      in if ds = [] \<or> (\<exists>c \<in> set ds. \<not> is_digit c) then 0
         else if neg then max (- (2 ^ 63)) (- digits_value ds) else min (2 ^ 63 - 1) (digits_value ds))"

section \<open>Rows by column names\<close>

definition column_index :: "string list \<Rightarrow> (string \<rightharpoonup> nat)" where
  "column_index header = fold (\<lambda>(i, name) col. col(name \<mapsto> i)) (enumerate 0 header) Map.empty"

definition rowAt :: "string list \<Rightarrow> (string \<rightharpoonup> nat) \<Rightarrow> string \<Rightarrow> string" where
  "rowAt row col name = (case col name of None \<Rightarrow> '''' | Some idx \<Rightarrow> if length row \<le> idx then '''' else row ! idx)"

definition instrument_row :: "(string \<Rightarrow> float64) \<Rightarrow> (string \<rightharpoonup> nat) \<Rightarrow> string list \<Rightarrow> Instrument" where
  "instrument_row atof col row =
     \<lparr>in_Exchange = rowAt row col ''exchange'',
      in_ExchangeToken = rowAt row col ''exchange_token'',
      in_TradingSymbol = rowAt row col ''trading_symbol'',
      in_GrowwSymbol = rowAt row col ''groww_symbol'',
      in_Name = rowAt row col ''name'',
      in_InstrumentType = rowAt row col ''instrument_type'',
      in_Segment = rowAt row col ''segment'',
      in_Series = rowAt row col ''series'',
      in_ISIN = rowAt row col ''isin'',
      in_UnderlyingSymbol = rowAt row col ''underlying_symbol'',
      in_UnderlyingExchangeToken = rowAt row col ''underlying_exchange_token'',
      in_ExpiryDate = rowAt row col ''expiry_date'',
      in_StrikePrice = atoi (rowAt row col ''strike_price''),
      in_LotSize = atoi (rowAt row col ''lot_size''),
      in_TickSize = atof (rowAt row col ''tick_size''),
      in_FreezeQuantity = atoi (rowAt row col ''freeze_quantity''),
      in_IsReserved = (rowAt row col ''is_reserved'' = ''1''),
      in_BuyAllowed = (rowAt row col ''buy_allowed'' = ''1''),
      in_SellAllowed = (rowAt row col ''sell_allowed'' = ''1'')\<rparr>"

definition required_columns :: "string list" where
  "required_columns = [''exchange'', ''exchange_token'', ''trading_symbol'', ''instrument_type'', ''segment'']"

text \<open>The records of the file in order, each with the error its lexing gives.\<close>

fun read_instruments :: "(string \<Rightarrow> float64) \<Rightarrow> (string \<rightharpoonup> nat) \<Rightarrow> nat \<Rightarrow> (error + string list) list \<Rightarrow> error + Instrument list" where
  "read_instruments atof col n [] = Inr []"
| "read_instruments atof col n (Inl e # recs) = Inl (Wrapf ''groww instruments row'' e)"
| "read_instruments atof col n (Inr row # recs) =
     (if length row \<noteq> n then Inl (Wrapf ''groww instruments row'' (Sentinel ''wrong number of fields''))
      else case read_instruments atof col n recs of Inl e \<Rightarrow> Inl e | Inr is \<Rightarrow> Inr (instrument_row atof col row # is))"

definition ParseInstruments :: "(string \<Rightarrow> float64) \<Rightarrow> (error + string list) list \<Rightarrow> error + Instrument list" where
  "ParseInstruments atof recs =
     (case recs of
        [] \<Rightarrow> Inl (Wrapf ''groww instruments header'' (Sentinel ''EOF''))
      | Inl e # _ \<Rightarrow> Inl (Wrapf ''groww instruments header'' e)
      | Inr header # rows \<Rightarrow>
          let col = column_index header in
          case find (\<lambda>name. col name = None) required_columns of
            Some name \<Rightarrow> Inl (NewErr (''groww instruments: missing column '' @ quoted name))
          | None \<Rightarrow> read_instruments atof col (length header) rows)"

section \<open>The order of the columns does not matter\<close>

lemma column_index_fold:
  "distinct header \<Longrightarrow> fold (\<lambda>(i, name) col. col(name \<mapsto> i)) (enumerate k header) m name =
     (case map_of (zip header [k..<k + length header]) name of Some i \<Rightarrow> Some i | None \<Rightarrow> m name)"
proof (induction header arbitrary: k m)
  case (Cons x header)
  have "[k..<k + length (x # header)] = k # [Suc k..<Suc k + length header]" using upt_conv_Cons [of k "k + length (x # header)"] by simp
  moreover have "map_of (zip header [Suc k..<Suc k + length header]) x = None"
    using Cons.prems by (simp add: map_of_zip_is_None)
  ultimately show ?case using Cons.IH [of "Suc k" "m(x \<mapsto> k)"] Cons.prems by (auto split: option.splits)
qed simp

lemma column_index_zip:
  assumes "distinct header" shows "column_index header name = map_of (zip header [0..<length header]) name"
proof -
  have "column_index header name = (case map_of (zip header [0..<length header]) name of Some i \<Rightarrow> Some i | None \<Rightarrow> None)"
    unfolding column_index_def column_index_fold [OF assms] by (simp only: add_0)
  then show ?thesis by (cases "map_of (zip header [0..<length header]) name") (simp_all only: option.case)
qed

lemma column_index_None:
  assumes "distinct header" shows "column_index header name = None \<longleftrightarrow> name \<notin> set header"
  unfolding column_index_zip [OF assms] by (rule map_of_zip_is_None) simp

lemma rowAt_by_name:
  assumes "distinct header" "length row = length header"
  shows "rowAt row (column_index header) name = (case map_of (zip header row) name of Some v \<Rightarrow> v | None \<Rightarrow> '''')"
proof (cases "name \<in> set header")
  case False
  then have "map_of (zip header row) name = None" "column_index header name = None"
    using map_of_zip_is_None [OF assms(2) [symmetric]] column_index_None [OF assms(1)] by simp_all
  then show ?thesis by (simp only: rowAt_def option.case)
next
  case True
  then obtain i where i: "i < length header" "header ! i = name" by (auto simp: in_set_conv_nth)
  have z: "map_of (zip header xs) name = Some (xs ! i)" if "length xs = length header" for xs :: "'b list"
    using i assms(1) that by (intro map_of_is_SomeI) (auto simp: set_zip)
  have "column_index header name = Some i" using z [of "[0..<length header]"] i by (simp add: column_index_zip [OF assms(1)])
  then show ?thesis using z [OF assms(2)] i(1) assms(2) by (simp add: rowAt_def)
qed

definition same_record :: "string list \<Rightarrow> string list \<Rightarrow> string list \<Rightarrow> string list \<Rightarrow> bool" where
  "same_record h h' r r' \<longleftrightarrow> length r = length h \<and> length r' = length h' \<and> map_of (zip h r) = map_of (zip h' r')"

lemma read_instruments_same:
  assumes "distinct h" "distinct h'"
  shows "list_all2 (same_record h h') rows rows' \<Longrightarrow>
    read_instruments atof (column_index h) (length h) (map Inr rows) = read_instruments atof (column_index h') (length h') (map Inr rows')"
proof (induction rows rows' rule: list_all2_induct)
  case (Cons r rows r' rows')
  then have "rowAt r (column_index h) = rowAt r' (column_index h')"
    using rowAt_by_name [OF assms(1)] rowAt_by_name [OF assms(2)] by (auto simp: same_record_def)
  then have "instrument_row atof (column_index h) r = instrument_row atof (column_index h') r'"
    by (simp add: instrument_row_def)
  then show ?case using Cons by (simp add: same_record_def split: sum.split)
qed simp

lemma read_instruments_good:
  "\<forall>r \<in> set rows. length r = n \<Longrightarrow> read_instruments atof col n (map Inr rows) = Inr (map (instrument_row atof col) rows)"
  by (induction rows) simp_all

lemma read_instruments_records:
  "read_instruments atof col n recs = Inr is \<Longrightarrow> \<exists>rows. recs = map Inr rows \<and> (\<forall>r \<in> set rows. length r = n)"
proof (induction recs arbitrary: "is")
  case (Cons x recs)
  then obtain row js where x: "x = Inr row" "length row = n" "read_instruments atof col n recs = Inr js"
    by (cases x) (auto split: if_splits sum.splits)
  from Cons.IH [OF x(3)] obtain rows where "recs = map Inr rows" "\<forall>r \<in> set rows. length r = n" by blast
  then show ?case using x by (intro exI [of _ "row # rows"]) simp
qed simp

lemma read_instruments_ok:
  "read_instruments atof col n recs = Inr is \<longleftrightarrow>
     (\<exists>rows. recs = map Inr rows \<and> (\<forall>r \<in> set rows. length r = n) \<and> is = map (instrument_row atof col) rows)"
  using read_instruments_records [of atof col n recs "is"] read_instruments_good by (metis sum.inject(2))

text \<open>The file is read by the names of its columns. It is accepted exactly if it has a header with the five
  required columns and all its records are well formed and as long as the header; then there is one
  instrument per record. Two files with the same records under the same names give the same instruments,
  in whatever order their columns come.\<close>

theorem ParseInstruments_by_name:
  assumes "distinct h" "distinct h'" "set h = set h'" "list_all2 (same_record h h') rows rows'"
  shows "ParseInstruments atof (map Inr (h # rows)) = ParseInstruments atof (map Inr (h' # rows')) \<and>
    ((\<exists>is. ParseInstruments atof recs = Inr is \<and> length is = k) \<longleftrightarrow>
       (\<exists>hd body. recs = map Inr (hd # body) \<and> (\<forall>name \<in> set required_columns. column_index hd name \<noteq> None) \<and>
          (\<forall>r \<in> set body. length r = length hd) \<and> length body = k))"
proof
  have "column_index h name = None \<longleftrightarrow> column_index h' name = None" for name
    using column_index_None assms by auto
  then show "ParseInstruments atof (map Inr (h # rows)) = ParseInstruments atof (map Inr (h' # rows'))"
    using read_instruments_same [OF assms(1,2,4), of atof] by (auto simp: ParseInstruments_def Let_def split: option.split)
  show "(\<exists>is. ParseInstruments atof recs = Inr is \<and> length is = k) \<longleftrightarrow>
       (\<exists>hd body. recs = map Inr (hd # body) \<and> (\<forall>name \<in> set required_columns. column_index hd name \<noteq> None) \<and>
          (\<forall>r \<in> set body. length r = length hd) \<and> length body = k)"
  proof (cases recs)
    case Nil
    then show ?thesis by (simp add: ParseInstruments_def)
  next
    case (Cons x rest)
    show ?thesis
    proof (cases x)
      case (Inl e)
      then show ?thesis using Cons by (simp add: ParseInstruments_def)
    next
      case (Inr hd)
      have "ParseInstruments atof recs = Inr is \<longleftrightarrow> (\<forall>name \<in> set required_columns. column_index hd name \<noteq> None) \<and>
          (\<exists>body. rest = map Inr body \<and> (\<forall>r \<in> set body. length r = length hd) \<and> is = map (instrument_row atof (column_index hd)) body)"
        for "is"
        using Cons Inr read_instruments_ok [of atof "column_index hd" "length hd" rest "is"]
        by (auto simp: ParseInstruments_def Let_def find_None_iff find_Some_iff split: option.splits)
      then show ?thesis using Cons Inr by (auto simp: Cons_eq_map_conv)
    qed
  qed
qed

lemma ParseInstruments_by_name_witness:
  "ParseInstruments (\<lambda>_. 0) (map Inr [[''a'', ''b''], [''1'', ''2'']]) = ParseInstruments (\<lambda>_. 0) (map Inr [[''b'', ''a''], [''2'', ''1'']])"
proof -
  have "list_all2 (same_record [''a'', ''b''] [''b'', ''a'']) [[''1'', ''2'']] [[''2'', ''1'']]"
    by (auto simp: same_record_def fun_eq_iff)
  then show ?thesis by (intro ParseInstruments_by_name [THEN conjunct1]) auto
qed

end
