(* ===== verification/JetStream.thy ===== *)
theory JetStream
  imports Bus GoTime
begin

text \<open>
  The wrapper around JetStream: \<open>src/pkg/nats/connection.go\<close>, the streams of \<open>types.go\<close> and the subscriptions
  of \<open>pubsub.go\<close>. The client library is an argument \<open>jetlib\<close>: its calls, the error it uses for an unknown stream
  and its default address; what the server keeps is a state of any type. A consumer is known by the number the
  library hands out for it.
\<close>

section \<open>Streams\<close>

datatype StorageType = FileStorage | MemoryStorage

record StreamConfig =
  str_Name :: string
  str_Subjects :: "string list"
  str_MaxAge :: Duration
  str_Storage :: StorageType

definition StreamTrading :: StreamConfig where
  "StreamTrading = \<lparr>str_Name = ''trading'', str_Subjects = [''signal.>''], str_MaxAge = 24 * Hour, str_Storage = FileStorage\<rparr>"

definition StreamSentiment :: StreamConfig where
  "StreamSentiment =
     \<lparr>str_Name = ''sentiment'', str_Subjects = [''sentiment.>''], str_MaxAge = 7 * 24 * Hour, str_Storage = FileStorage\<rparr>"

section \<open>The library\<close>

text \<open>What a consumer is created with: the policy that only new messages are delivered, the policy of
  explicit acknowledgement, and a durable name.\<close>

record consumer_opts =
  co_deliverNew :: bool
  co_ackExplicit :: bool
  co_durable :: "string option"

record 's jetlib =
  jl_DefaultURL :: string
  jl_Connect :: "string \<Rightarrow> 's \<Rightarrow> (error + nat) \<times> 's"
  jl_JetStream :: "nat \<Rightarrow> 's \<Rightarrow> error option \<times> 's"
  jl_Close :: "nat \<Rightarrow> 's \<Rightarrow> 's"
  jl_ErrStreamNotFound :: error
  jl_StreamInfo :: "nat \<Rightarrow> string \<Rightarrow> 's \<Rightarrow> error option \<times> 's"
  jl_AddStream :: "nat \<Rightarrow> StreamConfig \<Rightarrow> 's \<Rightarrow> error option \<times> 's"
  jl_Subscribe :: "nat \<Rightarrow> string \<Rightarrow> consumer_opts \<Rightarrow> 's \<Rightarrow> (error + nat) \<times> 's"
  jl_QueueSubscribe :: "nat \<Rightarrow> string \<Rightarrow> string \<Rightarrow> consumer_opts \<Rightarrow> 's \<Rightarrow> (error + nat) \<times> 's"
  jl_PullSubscribe :: "nat \<Rightarrow> string \<Rightarrow> string \<Rightarrow> 's \<Rightarrow> (error + nat) \<times> 's"
  jl_Publish :: "nat \<Rightarrow> message \<Rightarrow> 's \<Rightarrow> error option \<times> 's"
  jl_PublishMsg :: "nat \<Rightarrow> message \<Rightarrow> 's \<Rightarrow> error option \<times> 's"

section \<open>The connection\<close>

record JetStream =
  js_conn :: nat
  js_durablePrefix :: string

definition nats_Connect :: "'s jetlib \<Rightarrow> (string \<Rightarrow> string) \<Rightarrow> 's \<Rightarrow> (error + nat) \<times> 's" where
  "nats_Connect lib getenv =
     jl_Connect lib (let url = getenv ''NATS_URL'' in if url = '''' then jl_DefaultURL lib else url)"

definition ConnectJetStream :: "'s jetlib \<Rightarrow> (string \<Rightarrow> string) \<Rightarrow> 's \<Rightarrow> (error + JetStream) \<times> 's" where
  "ConnectJetStream lib getenv s =
     (case nats_Connect lib getenv s of
        (Inl e, s) \<Rightarrow> (Inl (Wrapf ''nats'' e), s)
      | (Inr nc, s) \<Rightarrow>
          (case jl_JetStream lib nc s of
             (Some e, s) \<Rightarrow> (Inl (Wrapf ''jetstream'' e), jl_Close lib nc s)
           | (None, s) \<Rightarrow> (Inr \<lparr>js_conn = nc, js_durablePrefix = ''''\<rparr>, s)))"

definition SetDurablePrefix :: "string \<Rightarrow> JetStream \<Rightarrow> JetStream" where
  "SetDurablePrefix prefix j = j\<lparr>js_durablePrefix := prefix\<rparr>"

definition Conn :: "JetStream \<Rightarrow> nat" where "Conn j = js_conn j"

definition ErrEmptyStreamName :: error where "ErrEmptyStreamName = Sentinel ''stream name cannot be empty''"

definition EnsureStream :: "'s jetlib \<Rightarrow> StreamConfig \<Rightarrow> JetStream \<Rightarrow> 's \<Rightarrow> error option \<times> 's" where
  "EnsureStream lib cfg j s =
     (if str_Name cfg = '''' then (Some ErrEmptyStreamName, s)
      else case jl_StreamInfo lib (js_conn j) (str_Name cfg) s of
        (None, s) \<Rightarrow> (None, s)
      | (Some e, s) \<Rightarrow>
          if \<not> errors_is e (jl_ErrStreamNotFound lib) then (Some (Wrapf (''ensure stream '' @ quoted (str_Name cfg)) e), s)
          else (case jl_AddStream lib (js_conn j) cfg s of
            (Some e, s) \<Rightarrow> (Some (Wrapf (''ensure stream '' @ quoted (str_Name cfg)) e), s)
          | (None, s) \<Rightarrow> (None, s)))"

definition js_Close :: "'s jetlib \<Rightarrow> JetStream \<Rightarrow> 's \<Rightarrow> 's" where
  "js_Close lib j = jl_Close lib (js_conn j)"

section \<open>Messages\<close>

definition js_Publish :: "'s jetlib \<Rightarrow> string \<Rightarrow> json \<Rightarrow> JetStream \<Rightarrow> 's \<Rightarrow> error option \<times> 's" where
  "js_Publish lib subj data j s =
     (if subj = '''' then (Some ErrEmptySubject, s)
      else case jl_Publish lib (js_conn j) (subj, data) s of
        (Some e, s) \<Rightarrow> (Some (Wrapf (''publish '' @ quoted subj) e), s)
      | (None, s) \<Rightarrow> (None, s))"

definition PublishMsg :: "'s jetlib \<Rightarrow> message \<Rightarrow> JetStream \<Rightarrow> 's \<Rightarrow> error option \<times> 's" where
  "PublishMsg lib msg j s =
     (if fst msg = '''' then (Some ErrEmptySubject, s)
      else case jl_PublishMsg lib (js_conn j) msg s of
        (Some e, s) \<Rightarrow> (Some (Wrapf (''publish msg '' @ quoted (fst msg)) e), s)
      | (None, s) \<Rightarrow> (None, s))"

definition sub_opts :: "JetStream \<Rightarrow> string \<Rightarrow> consumer_opts" where
  "sub_opts j subj = \<lparr>co_deliverNew = True, co_ackExplicit = True,
     co_durable = (if js_durablePrefix j \<noteq> '''' then Some (durableName (js_durablePrefix j) subj) else None)\<rparr>"

definition Subscribe :: "'s jetlib \<Rightarrow> string \<Rightarrow> JetStream \<Rightarrow> 's \<Rightarrow> (error + nat) \<times> 's" where
  "Subscribe lib subj j s =
     (if subj = '''' then (Inl ErrEmptySubject, s)
      else case jl_Subscribe lib (js_conn j) subj (sub_opts j subj) s of
        (Inl e, s) \<Rightarrow> (Inl (Wrapf (''subscribe '' @ quoted subj) e), s)
      | (Inr sub, s) \<Rightarrow> (Inr sub, s))"

definition QueueSubscribe :: "'s jetlib \<Rightarrow> string \<Rightarrow> string \<Rightarrow> JetStream \<Rightarrow> 's \<Rightarrow> (error + nat) \<times> 's" where
  "QueueSubscribe lib subj queue j s =
     (if subj = '''' then (Inl ErrEmptySubject, s)
      else case jl_QueueSubscribe lib (js_conn j) subj queue (sub_opts j subj) s of
        (Inl e, s) \<Rightarrow> (Inl (Wrapf (''queue subscribe '' @ quoted subj @ ''/'' @ quoted queue) e), s)
      | (Inr sub, s) \<Rightarrow> (Inr sub, s))"

definition PullSubscribe :: "'s jetlib \<Rightarrow> string \<Rightarrow> string \<Rightarrow> JetStream \<Rightarrow> 's \<Rightarrow> (error + nat) \<times> 's" where
  "PullSubscribe lib subj durable j s =
     (if subj = '''' then (Inl ErrEmptySubject, s)
      else case jl_PullSubscribe lib (js_conn j) subj durable s of
        (Inl e, s) \<Rightarrow> (Inl (Wrapf (''pull subscribe '' @ quoted subj) e), s)
      | (Inr sub, s) \<Rightarrow> (Inr sub, s))"

section \<open>Ensuring a stream\<close>

text \<open>What the server documents: \<open>StreamInfo\<close> changes nothing, succeeds exactly for a stream that exists unless the
  request itself fails, and reports an unknown stream by its own error; \<open>AddStream\<close> touches one stream at most,
  creates a stream that did not exist or nothing, and if it succeeds the stream is as asked for.\<close>

definition stream_server :: "'s jetlib \<Rightarrow> ('s \<Rightarrow> string \<rightharpoonup> StreamConfig) \<Rightarrow> bool" where
  "stream_server lib streams \<longleftrightarrow>
     (\<forall>nc n s. streams (snd (jl_StreamInfo lib nc n s)) = streams s \<and>
        (fst (jl_StreamInfo lib nc n s) = None \<longrightarrow> streams s n \<noteq> None) \<and>
        (\<forall>e. fst (jl_StreamInfo lib nc n s) = Some e \<and> errors_is e (jl_ErrStreamNotFound lib) \<longrightarrow> streams s n = None)) \<and>
     (\<forall>nc cfg s. streams s (str_Name cfg) = None \<longrightarrow>
        streams (snd (jl_AddStream lib nc cfg s)) \<in> {streams s, (streams s)(str_Name cfg \<mapsto> cfg)} \<and>
        (fst (jl_AddStream lib nc cfg s) = None \<longrightarrow> streams (snd (jl_AddStream lib nc cfg s)) (str_Name cfg) = Some cfg))"

text \<open>Ensuring a stream is safe to repeat. It touches no stream but the one named, and that one only if it does not
  exist yet; then it becomes the one asked for, and a success means that it is there. A stream of that name with
  another configuration is left as it is, so a later change of the retention time never reaches a server
  that already has the stream.\<close>

theorem EnsureStream_idempotent:
  assumes "stream_server lib streams" "EnsureStream lib cfg j s = (r, s')"
  shows "(\<forall>n. n \<noteq> str_Name cfg \<or> streams s n \<noteq> None \<longrightarrow> streams s' n = streams s n) \<and>
    streams s' (str_Name cfg) \<in> {streams s (str_Name cfg), Some cfg} \<and>
    (r = None \<longrightarrow> str_Name cfg \<noteq> '''' \<and> streams s' (str_Name cfg) \<noteq> None)"
proof (cases "str_Name cfg = ''''")
  case True
  then show ?thesis using assms(2) by (auto simp: EnsureStream_def)
next
  case False
  obtain ri si where i: "jl_StreamInfo lib (js_conn j) (str_Name cfg) s = (ri, si)" by fastforce
  have si: "streams si = streams s" "ri = None \<Longrightarrow> streams s (str_Name cfg) \<noteq> None"
    "\<And>e. ri = Some e \<Longrightarrow> errors_is e (jl_ErrStreamNotFound lib) \<Longrightarrow> streams s (str_Name cfg) = None"
    using assms(1) i unfolding stream_server_def by (metis fst_conv snd_conv)+
  show ?thesis
  proof (cases "\<exists>e. ri = Some e \<and> errors_is e (jl_ErrStreamNotFound lib)")
    case True
    then obtain e where e: "ri = Some e" "errors_is e (jl_ErrStreamNotFound lib)" by blast
    obtain ra sa where a: "jl_AddStream lib (js_conn j) cfg si = (ra, sa)" by fastforce
    have n: "streams si (str_Name cfg) = None" using si(1,3) e by simp
    have "streams sa \<in> {streams si, (streams si)(str_Name cfg \<mapsto> cfg)}" "ra = None \<Longrightarrow> streams sa (str_Name cfg) = Some cfg"
      using assms(1) n a unfolding stream_server_def by (metis fst_conv snd_conv)+
    moreover have "s' = sa" "r = None \<Longrightarrow> ra = None"
      using assms(2) False i e a by (auto simp: EnsureStream_def split: option.splits)
    ultimately show ?thesis using si(1) n False by auto
  next
    case none: False
    then have "s' = si \<and> (r = None \<longrightarrow> ri = None)"
      using assms(2) False i by (cases ri) (auto simp: EnsureStream_def split: if_splits)
    then show ?thesis using si(1,2) False by auto
  qed
qed

text \<open>The example: a server that is a table of streams and always answers.\<close>

definition table_server :: "(string \<rightharpoonup> StreamConfig) jetlib" where
  "table_server = \<lparr>jl_DefaultURL = ''nats://127.0.0.1:4222'', jl_Connect = (\<lambda>_ s. (Inr 0, s)), jl_JetStream = (\<lambda>_ s. (None, s)),
     jl_Close = (\<lambda>_ s. s), jl_ErrStreamNotFound = Sentinel ''nats: stream not found'',
     jl_StreamInfo = (\<lambda>_ n s. (if s n = None then Some (Sentinel ''nats: stream not found'') else None, s)),
     jl_AddStream = (\<lambda>_ cfg s. (None, s(str_Name cfg \<mapsto> cfg))), jl_Subscribe = (\<lambda>_ _ _ s. (Inr 0, s)),
     jl_QueueSubscribe = (\<lambda>_ _ _ _ s. (Inr 0, s)), jl_PullSubscribe = (\<lambda>_ _ _ s. (Inr 0, s)),
     jl_Publish = (\<lambda>_ _ s. (None, s)), jl_PublishMsg = (\<lambda>_ _ s. (None, s))\<rparr>"

lemma EnsureStream_idempotent_witness:
  "\<exists>s'. EnsureStream table_server StreamTrading \<lparr>js_conn = 0, js_durablePrefix = ''''\<rparr> Map.empty = (None, s') \<and>
     s' ''trading'' = Some StreamTrading \<and> s' ''sentiment'' = None"
proof -
  have t: "stream_server table_server (\<lambda>s. s)" by (auto simp: stream_server_def table_server_def)
  obtain s' where e: "EnsureStream table_server StreamTrading \<lparr>js_conn = 0, js_durablePrefix = ''''\<rparr> Map.empty = (None, s')"
    by (simp add: EnsureStream_def table_server_def StreamTrading_def)
  have "s' ''trading'' \<in> {None, Some StreamTrading} \<and> s' ''trading'' \<noteq> None \<and> s' ''sentiment'' = None"
    using EnsureStream_idempotent [OF t e] by (simp add: StreamTrading_def)
  then show ?thesis using e by blast
qed

end
