(* ===== verification/Lifecycle.thy ===== *)
theory Lifecycle
  imports JetStream
begin

text \<open>
  How the agents start and stop: \<open>Run\<close> and \<open>Stop\<close> of the trader (\<open>src/analysts/trader/agent.go\<close>), the recorder
  (\<open>src/analysts/recorder/agent.go\<close>), the Risk Manager (\<open>src/analysts/riskmanager/agent.go\<close>), the Sentiment Analyst
  (\<open>src/analysts/sentiment/agent.go\<close>) and the scout (\<open>src/analysts/quantitative/agent.go\<close>). \<open>Run\<close>, \<open>Stop\<close> and the
  goroutines they start are interleaved, so each agent is a step relation on its handles and channels: a step is
  one statement that blocks, fails or has an effect on the others, and a program counter names the statement
  that comes next. Whether a call fails is left open. What the handlers do is in the theories of the agents.
\<close>

lemma reachable_invariant: "step\<^sup>*\<^sup>* start s \<Longrightarrow> P start \<Longrightarrow> (\<And>s t. step s t \<Longrightarrow> P s \<Longrightarrow> P t) \<Longrightarrow> P s"
  by (induction rule: rtranclp_induct) blast+

lemma two_steps: "step a b \<Longrightarrow> step b c \<Longrightarrow> step\<^sup>+\<^sup>+ a c"
  by (blast intro: tranclp.intros)

section \<open>The contract of an agent\<close>

text \<open>\<open>final\<close> is the end of a life: \<open>Run\<close> and \<open>Stop\<close> have returned. The contract is that until then some statement
  can be executed that brings the end nearer, and none moves it away.\<close>

locale agent_life =
  fixes step :: "'s \<Rightarrow> 's \<Rightarrow> bool"
    and start :: 's
    and final :: "'s \<Rightarrow> bool"
    and rank :: "'s \<Rightarrow> nat"
  assumes progress: "step\<^sup>*\<^sup>* start s \<Longrightarrow> \<not> final s \<Longrightarrow> \<exists>t. step\<^sup>+\<^sup>+ s t \<and> rank t < rank s"
    and never_rises: "step s t \<Longrightarrow> rank t \<le> rank s"
begin

lemma can_finish: "step\<^sup>*\<^sup>* start s \<Longrightarrow> \<exists>t. step\<^sup>*\<^sup>* s t \<and> final t"
proof (induction "rank s" arbitrary: s rule: less_induct)
  case less
  show ?case
  proof (cases "final s")
    case False
    then obtain t where t: "step\<^sup>+\<^sup>+ s t" "rank t < rank s" using progress less.prems by blast
    then have st: "step\<^sup>*\<^sup>* s t" by (simp add: tranclp_into_rtranclp)
    then have "step\<^sup>*\<^sup>* start t" using less.prems by simp
    then obtain u where "step\<^sup>*\<^sup>* t u" "final u" using less.hyps t(2) by blast
    then show ?thesis using st by (meson rtranclp_trans)
  qed blast
qed

end

text \<open>An agent with a ticker may turn for ever. \<open>idle\<close> are the steps of its turns; all others bring the end nearer, so
  from some moment on an endless run does nothing but turn.\<close>

locale idling_life = agent_life +
  fixes idle :: "'s \<Rightarrow> 's \<Rightarrow> bool"
  assumes works: "step s t \<Longrightarrow> \<not> idle s t \<Longrightarrow> rank t < rank s"
begin

lemma endless_idles:
  assumes run: "\<forall>n. step (f n) (f (Suc n))"
  shows "\<exists>N. \<forall>n \<ge> N. idle (f n) (f (Suc n))"
proof -
  obtain N where N: "\<forall>n. rank (f N) \<le> rank (f n)" using ex_has_least_nat [of "\<lambda>_. True" 0 "\<lambda>n. rank (f n)"] by auto
  have low: "rank (f n) = rank (f N)" if "N \<le> n" for n
    using that
  proof (induction n rule: dec_induct)
    case (step n)
    then have "rank (f (Suc n)) \<le> rank (f N)" using run never_rises by metis
    then show ?case using N le_antisym by blast
  qed simp
  have "idle (f n) (f (Suc n))" if "N \<le> n" for n
  proof (rule ccontr)
    assume "\<not> idle (f n) (f (Suc n))"
    then have "rank (f (Suc n)) < rank (f n)" using run works by blast
    then show False using low [of n] low [of "Suc n"] that by simp
  qed
  then show ?thesis by blast
qed

end

text \<open>An agent without a loop of its own never idles: it comes to its end however its statements are scheduled.\<close>

locale terminating_life = agent_life +
  assumes falls: "step s t \<Longrightarrow> rank t < rank s"

sublocale terminating_life \<subseteq> idling_life step start final rank "\<lambda>_ _. False"
  by unfold_locales (rule falls)

context terminating_life
begin

lemma no_endless_run: "\<not> (\<forall>n. step (f n) (f (Suc n)))"
  using endless_idles by blast

lemma ends_final: "step\<^sup>*\<^sup>* start s \<Longrightarrow> \<nexists>t. step s t \<Longrightarrow> final s"
  using progress by (blast dest: tranclpD)

end

text \<open>A run that does not neglect the statements \<open>due\<close>: if they can be executed again and again, then one of them
  is executed again and again. The scheduler runs every goroutine, and a \<open>select\<close> picks at random among the
  channels that are ready.\<close>

definition endless :: "('s \<Rightarrow> 's \<Rightarrow> bool) \<Rightarrow> (nat \<Rightarrow> 's) \<Rightarrow> bool" where
  "endless step f \<longleftrightarrow> (\<forall>n. step (f n) (f (Suc n)))"

definition fair_to :: "('s \<Rightarrow> 's \<Rightarrow> bool) \<Rightarrow> (nat \<Rightarrow> 's) \<Rightarrow> bool" where
  "fair_to due f \<longleftrightarrow> (\<forall>n. \<exists>m \<ge> n. \<exists>t. due (f m) t) \<longrightarrow> (\<forall>n. \<exists>m \<ge> n. due (f m) (f (Suc m)))"

lemma endless_reachable: "step\<^sup>*\<^sup>* start (f 0) \<Longrightarrow> endless step f \<Longrightarrow> step\<^sup>*\<^sup>* start (f n)"
  by (induction n) (auto simp: endless_def intro: rtranclp.rtrancl_into_rtrancl)

section \<open>The trader\<close>

datatype trader_pc = TNew | TEnsure | TSubscribe | TPrice | TRefresh | TWait | TUnsub | TUnsubPrice | TReturned
datatype loop_pc = LOff | LSelect | LRefresh
datatype stop_pc = SNot | SWait | SConn | SDb | SReturned

record TraderLife =
  tl_run :: trader_pc
  tl_stop :: stop_pc
  tl_stopChan :: bool
  tl_done :: bool
  tl_sub :: bool
  tl_priceSub :: bool
  tl_loop :: loop_pc
  tl_conn :: bool
  tl_db :: bool

text \<open>The agent of \<open>NewAgent\<close>: connected, with its database and its exit monitor, its channels open.\<close>

definition new_trader :: TraderLife where
  "new_trader = \<lparr>tl_run = TNew, tl_stop = SNot, tl_stopChan = False, tl_done = False, tl_sub = False, tl_priceSub = False,
     tl_loop = LOff, tl_conn = True, tl_db = True\<rparr>"

text \<open>An early return of \<open>Run\<close> executes its deferred \<open>close(g.done)\<close>. An \<open>Unsubscribe\<close> may fail, which is only logged. The
  refresh loop waits in its \<open>select\<close>: a tick makes it read the positions anew, also when the stop channel is closed
  already and even when the database is, which only makes the read fail; \<open>Stop\<close> does not wait for it.\<close>

inductive trader_step :: "TraderLife \<Rightarrow> TraderLife \<Rightarrow> bool" where
  run: "tl_run s = TNew \<Longrightarrow> trader_step s (s\<lparr>tl_run := TEnsure\<rparr>)"
| ensure: "tl_run s = TEnsure \<Longrightarrow> trader_step s (s\<lparr>tl_run := TSubscribe\<rparr>)"
| ensure_fails: "tl_run s = TEnsure \<Longrightarrow> trader_step s (s\<lparr>tl_run := TReturned, tl_done := True\<rparr>)"
| subscribe: "tl_run s = TSubscribe \<Longrightarrow> trader_step s (s\<lparr>tl_run := TPrice, tl_sub := True\<rparr>)"
| subscribe_fails: "tl_run s = TSubscribe \<Longrightarrow> trader_step s (s\<lparr>tl_run := TReturned, tl_done := True\<rparr>)"
| price: "tl_run s = TPrice \<Longrightarrow> trader_step s (s\<lparr>tl_run := TRefresh, tl_priceSub := True\<rparr>)"
| price_fails: "tl_run s = TPrice \<Longrightarrow> trader_step s (s\<lparr>tl_run := TReturned, tl_done := True\<rparr>)"
| refresh: "tl_run s = TRefresh \<Longrightarrow> trader_step s (s\<lparr>tl_run := TWait, tl_loop := LSelect\<rparr>)"
| woken: "tl_run s = TWait \<Longrightarrow> tl_stopChan s \<Longrightarrow> trader_step s (s\<lparr>tl_run := TUnsub\<rparr>)"
| unsub: "tl_run s = TUnsub \<Longrightarrow> b \<longrightarrow> tl_sub s \<Longrightarrow> trader_step s (s\<lparr>tl_run := TUnsubPrice, tl_sub := b\<rparr>)"
| unsub_price: "tl_run s = TUnsubPrice \<Longrightarrow> b \<longrightarrow> tl_priceSub s \<Longrightarrow>
    trader_step s (s\<lparr>tl_run := TReturned, tl_done := True, tl_priceSub := b\<rparr>)"
| loop_ends: "tl_loop s = LSelect \<Longrightarrow> tl_stopChan s \<Longrightarrow> trader_step s (s\<lparr>tl_loop := LOff\<rparr>)"
| loop_ticks: "tl_loop s = LSelect \<Longrightarrow> trader_step s (s\<lparr>tl_loop := LRefresh\<rparr>)"
| loop_refreshed: "tl_loop s = LRefresh \<Longrightarrow> trader_step s (s\<lparr>tl_loop := LSelect\<rparr>)"
| stop: "tl_stop s = SNot \<Longrightarrow> trader_step s (s\<lparr>tl_stop := SWait, tl_stopChan := True\<rparr>)"
| stop_waited: "tl_stop s = SWait \<Longrightarrow> tl_done s \<Longrightarrow> trader_step s (s\<lparr>tl_stop := SConn\<rparr>)"
| stop_conn: "tl_stop s = SConn \<Longrightarrow> trader_step s (s\<lparr>tl_stop := SDb, tl_conn := False\<rparr>)"
| stop_db: "tl_stop s = SDb \<Longrightarrow> trader_step s (s\<lparr>tl_stop := SReturned, tl_db := False\<rparr>)"

text \<open>Orders, and prices for the exit monitor, are delivered while the subscription stands and the connection is up.\<close>

definition takes_orders :: "TraderLife \<Rightarrow> bool" where "takes_orders s \<longleftrightarrow> tl_sub s \<and> tl_conn s"
definition watches_prices :: "TraderLife \<Rightarrow> bool" where "watches_prices s \<longleftrightarrow> tl_priceSub s \<and> tl_conn s"

fun trader_left :: "trader_pc \<Rightarrow> nat" where
  "trader_left TNew = 8"
| "trader_left TEnsure = 7"
| "trader_left TSubscribe = 6"
| "trader_left TPrice = 5"
| "trader_left TRefresh = 4"
| "trader_left TWait = 3"
| "trader_left TUnsub = 2"
| "trader_left TUnsubPrice = 1"
| "trader_left TReturned = 0"

fun stop_left :: "stop_pc \<Rightarrow> nat" where
  "stop_left SNot = 4"
| "stop_left SWait = 3"
| "stop_left SConn = 2"
| "stop_left SDb = 1"
| "stop_left SReturned = 0"

definition trader_rank :: "TraderLife \<Rightarrow> nat" where
  "trader_rank s = 2 * trader_left (tl_run s) + stop_left (tl_stop s) + (if tl_loop s = LOff then 0 else 1)"

definition trader_final :: "TraderLife \<Rightarrow> bool" where
  "trader_final s \<longleftrightarrow> tl_run s = TReturned \<and> tl_stop s = SReturned \<and> tl_loop s = LOff"

text \<open>What holds at every moment of the agent's life.\<close>

definition trader_inv :: "TraderLife \<Rightarrow> bool" where
  "trader_inv s \<longleftrightarrow> (tl_done s \<longleftrightarrow> tl_run s = TReturned) \<and> (tl_stopChan s \<longleftrightarrow> tl_stop s \<noteq> SNot) \<and>
     (tl_stop s \<in> {SConn, SDb, SReturned} \<longrightarrow> tl_done s) \<and>
     (tl_conn s \<longleftrightarrow> tl_stop s \<notin> {SDb, SReturned}) \<and> (tl_db s \<longleftrightarrow> tl_stop s \<noteq> SReturned) \<and>
     (tl_run s \<in> {TNew, TEnsure, TSubscribe} \<longrightarrow> \<not> tl_sub s) \<and>
     (tl_run s \<in> {TNew, TEnsure, TSubscribe, TPrice} \<longrightarrow> \<not> tl_priceSub s) \<and>
     (tl_run s \<in> {TNew, TEnsure, TSubscribe, TPrice, TRefresh} \<longrightarrow> tl_loop s = LOff) \<and>
     (tl_run s \<in> {TPrice, TRefresh, TWait, TUnsub} \<longrightarrow> tl_sub s) \<and>
     (tl_run s \<in> {TRefresh, TWait, TUnsub, TUnsubPrice} \<longrightarrow> tl_priceSub s)"

lemma trader_inv_step: "trader_step s t \<Longrightarrow> trader_inv s \<Longrightarrow> trader_inv t"
  by (induction rule: trader_step.induct) (clarsimp simp: trader_inv_def)+

lemma trader_reachable: "trader_step\<^sup>*\<^sup>* new_trader s \<Longrightarrow> trader_inv s"
  by (erule reachable_invariant) (simp add: trader_inv_def new_trader_def, rule trader_inv_step)

text \<open>The turns of the refresh loop, and the statements that are due: all others but the call of \<open>Stop\<close>, which is up to the
  program.\<close>

definition refresh_turn :: "TraderLife \<Rightarrow> TraderLife \<Rightarrow> bool" where
  "refresh_turn s t \<longleftrightarrow> tl_loop s \<noteq> LOff \<and> tl_loop t \<noteq> LOff \<and> tl_loop s \<noteq> tl_loop t"

definition trader_due :: "TraderLife \<Rightarrow> TraderLife \<Rightarrow> bool" where
  "trader_due s t \<longleftrightarrow> trader_step s t \<and> \<not> refresh_turn s t \<and> \<not> (tl_stop s = SNot \<and> tl_stop t \<noteq> SNot)"

lemma trader_works: "trader_step s t \<Longrightarrow> \<not> refresh_turn s t \<Longrightarrow> trader_rank t < trader_rank s"
  by (induction rule: trader_step.induct) (auto simp: trader_rank_def refresh_turn_def)

lemma trader_never_rises: "trader_step s t \<Longrightarrow> trader_rank t \<le> trader_rank s"
  by (induction rule: trader_step.induct) (simp_all add: trader_rank_def)

lemma trader_moves:
  assumes "trader_inv s" "\<not> trader_final s"
  shows "\<exists>t. trader_step\<^sup>+\<^sup>+ s t \<and> trader_rank t < trader_rank s"
proof (cases "tl_stop s = SNot")
  case True
  then show ?thesis using trader_step.stop [of s] by (intro exI) (auto simp: trader_rank_def)
next
  case False
  then have c: "tl_stopChan s" using assms(1) by (simp add: trader_inv_def)
  have one: "\<exists>t. trader_step\<^sup>+\<^sup>+ s t \<and> trader_rank t < trader_rank s" if "trader_step s t" "trader_rank t < trader_rank s" for t
    using that by blast
  show ?thesis
  proof (cases "tl_run s")
    case TReturned
    then have d: "tl_done s" using assms(1) by (simp add: trader_inv_def)
    show ?thesis
    proof (cases "tl_stop s")
      case SReturned
      then have l: "tl_loop s \<noteq> LOff" using assms(2) TReturned by (simp add: trader_final_def)
      show ?thesis
      proof (cases "tl_loop s")
        case LSelect
        then show ?thesis by (intro one [OF trader_step.loop_ends [OF LSelect c]]) (simp add: trader_rank_def)
      next
        case LRefresh
        let ?t = "s\<lparr>tl_loop := LSelect\<rparr>"
        have "trader_step s ?t" "trader_step ?t (?t\<lparr>tl_loop := LOff\<rparr>)"
          using trader_step.loop_refreshed [OF LRefresh] trader_step.loop_ends [of ?t] c by simp_all
        then have "trader_step\<^sup>+\<^sup>+ s (?t\<lparr>tl_loop := LOff\<rparr>)" by (rule two_steps)
        moreover have "trader_rank (?t\<lparr>tl_loop := LOff\<rparr>) < trader_rank s" using LRefresh by (simp add: trader_rank_def)
        ultimately show ?thesis by blast
      qed (use l in simp)
    next
      case SWait
      then show ?thesis by (intro one [OF trader_step.stop_waited [OF SWait d]]) (simp add: trader_rank_def)
    next
      case SConn
      then show ?thesis by (intro one [OF trader_step.stop_conn]) (simp_all add: trader_rank_def)
    next
      case SDb
      then show ?thesis by (intro one [OF trader_step.stop_db]) (simp_all add: trader_rank_def)
    qed (use False in simp)
  next
    case TNew
    then show ?thesis by (intro one [OF trader_step.run]) (simp_all add: trader_rank_def)
  next
    case TEnsure
    then show ?thesis by (intro one [OF trader_step.ensure]) (simp_all add: trader_rank_def)
  next
    case TSubscribe
    then show ?thesis by (intro one [OF trader_step.subscribe]) (simp_all add: trader_rank_def)
  next
    case TPrice
    then show ?thesis by (intro one [OF trader_step.price]) (simp_all add: trader_rank_def)
  next
    case TRefresh
    then show ?thesis by (intro one [OF trader_step.refresh]) (simp_all add: trader_rank_def)
  next
    case TWait
    then show ?thesis by (intro one [OF trader_step.woken [OF TWait c]]) (simp add: trader_rank_def)
  next
    case TUnsub
    then show ?thesis by (intro one [OF trader_step.unsub [of s False]]) (simp_all add: trader_rank_def)
  next
    case TUnsubPrice
    then show ?thesis by (intro one [OF trader_step.unsub_price [of s False]]) (simp_all add: trader_rank_def)
  qed
qed

lemma trader_at_end: "trader_final s \<Longrightarrow> \<not> trader_step s t"
  by (auto simp: trader_final_def elim: trader_step.cases)

interpretation trader: idling_life trader_step new_trader trader_final trader_rank refresh_turn
  by unfold_locales (blast intro: trader_moves trader_reachable trader_never_rises trader_works)+

lemma stop_stays: "trader_step s t \<Longrightarrow> tl_stop s \<noteq> SNot \<Longrightarrow> tl_stop t \<noteq> SNot"
  by (induction rule: trader_step.induct) auto

text \<open>Once \<open>Stop\<close> has been called, a loop that turns has its way out before it in every second state.\<close>

lemma turning_loop_can_end:
  assumes "trader_inv s" "trader_inv t" "trader_step s t" "refresh_turn s t" "tl_stop s \<noteq> SNot"
  shows "(\<exists>u. trader_due s u) \<or> (\<exists>u. trader_due t u)"
proof -
  have out: "\<exists>u. trader_due x u" if "trader_inv x" "tl_stop x \<noteq> SNot" "tl_loop x = LSelect" for x
  proof -
    have "tl_stopChan x" using that(1,2) by (simp add: trader_inv_def)
    then have "trader_due x (x\<lparr>tl_loop := LOff\<rparr>)"
      using that(2,3) trader_step.loop_ends [of x] by (simp add: trader_due_def refresh_turn_def)
    then show ?thesis by blast
  qed
  have "tl_loop s = LSelect \<or> tl_loop t = LSelect"
    using assms(4) unfolding refresh_turn_def by (cases "tl_loop s"; cases "tl_loop t") simp_all
  then show ?thesis using out [OF assms(1,5)] out [OF assms(2) stop_stays [OF assms(3,5)]] by blast
qed

lemma fair_run_unstopped:
  assumes r: "trader_step\<^sup>*\<^sup>* new_trader (f 0)" and e: "endless trader_step f" and fair: "fair_to trader_due f"
  shows "tl_stop (f n) = SNot"
proof (rule ccontr)
  assume st: "tl_stop (f n) \<noteq> SNot"
  have step: "trader_step (f m) (f (Suc m))" for m using e by (simp add: endless_def)
  have inv: "trader_inv (f m)" for m by (rule trader_reachable [OF endless_reachable [OF r e]])
  obtain N where N: "\<forall>m \<ge> N. refresh_turn (f m) (f (Suc m))" using trader.endless_idles [of f] step by blast
  have stopped: "tl_stop (f m) \<noteq> SNot" if "n \<le> m" for m
    using that by (induction m rule: dec_induct) (use st stop_stays [OF step] in blast)+
  have "\<exists>m \<ge> k. \<exists>t. trader_due (f m) t" for k
  proof -
    let ?m = "max k (max n N)"
    have "refresh_turn (f ?m) (f (Suc ?m))" "tl_stop (f ?m) \<noteq> SNot" using N stopped by simp_all
    then have "(\<exists>t. trader_due (f ?m) t) \<or> (\<exists>t. trader_due (f (Suc ?m)) t)"
      using turning_loop_can_end [OF inv inv step] by blast
    moreover have "k \<le> ?m" "k \<le> Suc ?m" by simp_all
    ultimately show ?thesis by blast
  qed
  then obtain m where "N \<le> m" "trader_due (f m) (f (Suc m))" using fair unfolding fair_to_def by blast
  then show False using N by (simp add: trader_due_def)
qed

text \<open>C19: Stopping the trader is clean and comes to its end. While \<open>Run\<close> waits, the orders and the prices both reach
  their handlers; the connection outlives \<open>Run\<close>; when \<open>Stop\<close> has returned, \<open>Run\<close> has too, no order and no price
  reaches a handler any more and the database is closed. However the statements of \<open>Run\<close>, \<open>Stop\<close> and the refresh
  loop are interleaved and whatever calls fail, the agent is stuck only in the end where all three have returned, and can
  always still reach it. It runs for ever only if \<open>Stop\<close> is never called or a statement is neglected:
  the ticker can win the \<open>select\<close> of the refresh loop again and again, but not always.\<close>

theorem trader_stops:
  assumes "trader_step\<^sup>*\<^sup>* new_trader s"
  shows "(tl_run s = TWait \<longrightarrow> takes_orders s \<and> watches_prices s) \<and> (\<not> tl_conn s \<longrightarrow> tl_run s = TReturned) \<and>
    (tl_stop s = SReturned \<longrightarrow> tl_run s = TReturned \<and> \<not> takes_orders s \<and> \<not> watches_prices s \<and> \<not> tl_db s) \<and>
    ((\<nexists>t. trader_step s t) \<longleftrightarrow> trader_final s) \<and> (\<exists>t. trader_step\<^sup>*\<^sup>* s t \<and> trader_final t) \<and>
    (\<forall>f. f 0 = s \<and> endless trader_step f \<and> fair_to trader_due f \<longrightarrow> (\<forall>n. tl_stop (f n) = SNot))"
proof -
  have i: "tl_done s \<longleftrightarrow> tl_run s = TReturned" "tl_stop s \<in> {SConn, SDb, SReturned} \<longrightarrow> tl_done s"
    "tl_conn s \<longleftrightarrow> tl_stop s \<notin> {SDb, SReturned}" "tl_db s \<longleftrightarrow> tl_stop s \<noteq> SReturned"
    "tl_run s \<in> {TPrice, TRefresh, TWait, TUnsub} \<longrightarrow> tl_sub s" "tl_run s \<in> {TRefresh, TWait, TUnsub, TUnsubPrice} \<longrightarrow> tl_priceSub s"
    using trader_reachable [OF assms] unfolding trader_inv_def by - (elim conjE, assumption)+
  have "\<not> tl_conn s \<longrightarrow> tl_run s = TReturned" using i(1-3) by simp
  moreover have "tl_run s = TWait \<longrightarrow> takes_orders s \<and> watches_prices s"
  proof
    assume w: "tl_run s = TWait"
    then have "\<not> tl_done s" using i(1) by simp
    then have "tl_conn s" using i(2,3) by simp
    then show "takes_orders s \<and> watches_prices s" using w i(5,6) by (simp add: takes_orders_def watches_prices_def)
  qed
  moreover have "tl_stop s = SReturned \<longrightarrow> tl_run s = TReturned \<and> \<not> takes_orders s \<and> \<not> watches_prices s \<and> \<not> tl_db s"
    using i by (simp add: takes_orders_def watches_prices_def)
  moreover have "(\<nexists>t. trader_step s t) \<longleftrightarrow> trader_final s"
    using trader.progress [OF assms] trader_at_end by (blast dest: tranclpD)
  moreover have "\<exists>t. trader_step\<^sup>*\<^sup>* s t \<and> trader_final t" by (rule trader.can_finish [OF assms])
  moreover have "\<forall>f. f 0 = s \<and> endless trader_step f \<and> fair_to trader_due f \<longrightarrow> (\<forall>n. tl_stop (f n) = SNot)"
    using fair_run_unstopped assms by blast
  ultimately show ?thesis by blast
qed

text \<open>The statements of a run, one after another.\<close>

lemmas run_steps = rtranclp.rtrancl_refl converse_rtranclp_into_rtranclp

text \<open>An unguarded trader. The comment on \<open>Run\<close> says that the subscription is torn down when it returns. When the
  subscription to the prices fails, it returns with the orders still subscribed: they are executed, but
  nobody watches the stops of the positions they open, until the agent is stopped.\<close>

theorem trader_unguarded:
  "\<exists>s. trader_step\<^sup>*\<^sup>* new_trader s \<and> tl_run s = TReturned \<and> takes_orders s \<and> \<not> watches_prices s \<and> tl_loop s = LOff \<and>
     (\<forall>t. trader_step s t \<longrightarrow> tl_stop s = SNot \<and> tl_stop t = SWait)"
proof -
  let ?s1 = "new_trader\<lparr>tl_run := TEnsure\<rparr>" and ?s2 = "new_trader\<lparr>tl_run := TSubscribe\<rparr>"
  let ?s3 = "new_trader\<lparr>tl_run := TPrice, tl_sub := True\<rparr>"
  let ?s4 = "new_trader\<lparr>tl_run := TReturned, tl_sub := True, tl_done := True\<rparr>"
  have "trader_step new_trader ?s1" "trader_step ?s1 ?s2" "trader_step ?s2 ?s3" "trader_step ?s3 ?s4"
    using trader_step.run [of new_trader] trader_step.ensure [of ?s1] trader_step.subscribe [of ?s2] trader_step.price_fails [of ?s3]
    by (simp_all add: new_trader_def)
  then have "trader_step\<^sup>*\<^sup>* new_trader ?s4" by (meson run_steps)
  moreover have "tl_stop ?s4 = SNot \<and> tl_stop t = SWait" if "trader_step ?s4 t" for t
    using that by cases (simp_all add: new_trader_def)
  ultimately show ?thesis
    by (intro exI [of _ ?s4]) (simp add: takes_orders_def watches_prices_def new_trader_def)
qed

text \<open>The hypotheses can be met: the agent that waits for \<open>Stop\<close> turns its refresh loop for ever, and neglects nothing.\<close>

definition waiting :: "loop_pc \<Rightarrow> TraderLife" where
  "waiting l = new_trader\<lparr>tl_run := TWait, tl_sub := True, tl_priceSub := True, tl_loop := l\<rparr>"

lemma waiting_reachable: "trader_step\<^sup>*\<^sup>* new_trader (waiting LSelect)"
proof -
  let ?s1 = "new_trader\<lparr>tl_run := TEnsure\<rparr>" and ?s2 = "new_trader\<lparr>tl_run := TSubscribe\<rparr>"
  let ?s3 = "new_trader\<lparr>tl_run := TPrice, tl_sub := True\<rparr>" and ?s4 = "new_trader\<lparr>tl_run := TRefresh, tl_sub := True, tl_priceSub := True\<rparr>"
  have "trader_step new_trader ?s1" "trader_step ?s1 ?s2" "trader_step ?s2 ?s3" "trader_step ?s3 ?s4" "trader_step ?s4 (waiting LSelect)"
    using trader_step.run [of new_trader] trader_step.ensure [of ?s1] trader_step.subscribe [of ?s2] trader_step.price [of ?s3]
      trader_step.refresh [of ?s4]
    by (simp_all add: new_trader_def waiting_def)
  then show ?thesis by (meson run_steps)
qed

lemma trader_stops_witness:
  "\<exists>f. f 0 = waiting LSelect \<and> endless trader_step f \<and> fair_to trader_due f \<and> (\<forall>n. tl_stop (f n) = SNot) \<and>
     (\<exists>t. trader_step\<^sup>*\<^sup>* (f 0) t \<and> trader_final t)"
proof -
  define f where "f = (\<lambda>n :: nat. waiting (if even n then LSelect else LRefresh))"
  have "trader_step (f n) (f (Suc n))" for n
    using trader_step.loop_ticks [of "waiting LSelect"] trader_step.loop_refreshed [of "waiting LRefresh"]
    by (simp add: f_def waiting_def)
  then have e: "endless trader_step f" by (simp add: endless_def)
  have "\<not> trader_due (f n) t" for n t
  proof
    assume d: "trader_due (f n) t"
    then have "trader_step (f n) t" by (simp add: trader_due_def)
    then show False using d by cases (auto simp: f_def waiting_def new_trader_def trader_due_def refresh_turn_def split: if_splits)
  qed
  then have fair: "fair_to trader_due f" by (simp add: fair_to_def)
  have z: "f 0 = waiting LSelect" by (simp add: f_def)
  have "\<forall>n. tl_stop (f n) = SNot" "\<exists>t. trader_step\<^sup>*\<^sup>* (f 0) t \<and> trader_final t"
    using trader_stops [OF waiting_reachable] z e fair by auto
  then show ?thesis using z e fair by blast
qed

lemma trader_unguarded_witness: "\<exists>s. trader_step\<^sup>*\<^sup>* new_trader s \<and> takes_orders s \<and> \<not> watches_prices s"
  using trader_unguarded by blast

section \<open>The recorder\<close>

datatype recorder_pc = RNew | REnsure | RSubscribe | RWait | RUnsub | RStoreClose | RReturned

record RecorderLife =
  rl_run :: recorder_pc
  rl_stop :: stop_pc
  rl_stopChan :: bool
  rl_stopped :: bool
  rl_sub :: bool
  rl_store :: bool
  rl_conn :: bool

definition new_recorder :: RecorderLife where
  "new_recorder = \<lparr>rl_run = RNew, rl_stop = SNot, rl_stopChan = False, rl_stopped = False, rl_sub = False, rl_store = True,
     rl_conn = True\<rparr>"

text \<open>\<open>Stop\<close> waits for \<open>Run\<close> and does nothing else. A failed \<open>Close\<close> of the store drops its handle all the same.\<close>

inductive recorder_step :: "RecorderLife \<Rightarrow> RecorderLife \<Rightarrow> bool" where
  run: "rl_run s = RNew \<Longrightarrow> recorder_step s (s\<lparr>rl_run := REnsure\<rparr>)"
| ensure: "rl_run s = REnsure \<Longrightarrow> recorder_step s (s\<lparr>rl_run := RSubscribe\<rparr>)"
| ensure_fails: "rl_run s = REnsure \<Longrightarrow> recorder_step s (s\<lparr>rl_run := RReturned, rl_stopped := True\<rparr>)"
| subscribe: "rl_run s = RSubscribe \<Longrightarrow> recorder_step s (s\<lparr>rl_run := RWait, rl_sub := True\<rparr>)"
| subscribe_fails: "rl_run s = RSubscribe \<Longrightarrow> recorder_step s (s\<lparr>rl_run := RReturned, rl_stopped := True\<rparr>)"
| woken: "rl_run s = RWait \<Longrightarrow> rl_stopChan s \<Longrightarrow> recorder_step s (s\<lparr>rl_run := RUnsub\<rparr>)"
| unsub: "rl_run s = RUnsub \<Longrightarrow> b \<longrightarrow> rl_sub s \<Longrightarrow> recorder_step s (s\<lparr>rl_run := RStoreClose, rl_sub := b\<rparr>)"
| store_close: "rl_run s = RStoreClose \<Longrightarrow> recorder_step s (s\<lparr>rl_run := RReturned, rl_store := False, rl_stopped := True\<rparr>)"
| stop: "rl_stop s = SNot \<Longrightarrow> recorder_step s (s\<lparr>rl_stop := SWait, rl_stopChan := True\<rparr>)"
| stop_waited: "rl_stop s = SWait \<Longrightarrow> rl_stopped s \<Longrightarrow> recorder_step s (s\<lparr>rl_stop := SReturned\<rparr>)"

fun recorder_left :: "recorder_pc \<Rightarrow> nat" where
  "recorder_left RNew = 6"
| "recorder_left REnsure = 5"
| "recorder_left RSubscribe = 4"
| "recorder_left RWait = 3"
| "recorder_left RUnsub = 2"
| "recorder_left RStoreClose = 1"
| "recorder_left RReturned = 0"

definition recorder_rank :: "RecorderLife \<Rightarrow> nat" where
  "recorder_rank s = recorder_left (rl_run s) + stop_left (rl_stop s)"

definition recorder_final :: "RecorderLife \<Rightarrow> bool" where
  "recorder_final s \<longleftrightarrow> rl_run s = RReturned \<and> rl_stop s = SReturned"

definition recorder_inv :: "RecorderLife \<Rightarrow> bool" where
  "recorder_inv s \<longleftrightarrow> (rl_stopped s \<longleftrightarrow> rl_run s = RReturned) \<and> (rl_stopChan s \<longleftrightarrow> rl_stop s \<noteq> SNot) \<and>
     rl_stop s \<in> {SNot, SWait, SReturned} \<and> (rl_stop s = SReturned \<longrightarrow> rl_stopped s) \<and> rl_conn s \<and>
     (rl_store s \<longrightarrow> rl_run s = RReturned \<longrightarrow> \<not> rl_sub s) \<and> (rl_run s \<in> {RNew, REnsure, RSubscribe} \<longrightarrow> \<not> rl_sub s) \<and>
     (rl_run s \<noteq> RReturned \<longrightarrow> rl_store s)"

lemma recorder_inv_step: "recorder_step s t \<Longrightarrow> recorder_inv s \<Longrightarrow> recorder_inv t"
  by (induction rule: recorder_step.induct) (clarsimp simp: recorder_inv_def)+

lemma recorder_reachable: "recorder_step\<^sup>*\<^sup>* new_recorder s \<Longrightarrow> recorder_inv s"
  by (erule reachable_invariant) (simp add: recorder_inv_def new_recorder_def, rule recorder_inv_step)

lemma recorder_falls: "recorder_step s t \<Longrightarrow> recorder_rank t < recorder_rank s"
  by (induction rule: recorder_step.induct) (simp_all add: recorder_rank_def)

lemma recorder_moves:
  assumes "recorder_inv s" "\<not> recorder_final s"
  shows "\<exists>t. recorder_step s t"
proof (cases "rl_stop s = SNot")
  case True
  then show ?thesis using recorder_step.stop by blast
next
  case False
  then have c: "rl_stopChan s" using assms(1) by (simp add: recorder_inv_def)
  show ?thesis
  proof (cases "rl_run s")
    case RReturned
    then have "rl_stopped s" "rl_stop s = SWait" using assms False by (auto simp: recorder_inv_def recorder_final_def)
    then show ?thesis using recorder_step.stop_waited by blast
  qed (use c recorder_step.run recorder_step.ensure recorder_step.subscribe recorder_step.woken
      recorder_step.unsub [of s False] recorder_step.store_close in blast)+
qed

interpretation recorder: terminating_life recorder_step new_recorder recorder_final recorder_rank
proof
  show "\<exists>t. recorder_step\<^sup>+\<^sup>+ s t \<and> recorder_rank t < recorder_rank s"
    if "recorder_step\<^sup>*\<^sup>* new_recorder s" "\<not> recorder_final s" for s
    using recorder_moves [OF recorder_reachable [OF that(1)] that(2)] recorder_falls by blast
  show "recorder_rank t \<le> recorder_rank s" if "recorder_step s t" for s t using recorder_falls [OF that] by simp
  show "recorder_rank t < recorder_rank s" if "recorder_step s t" for s t using that by (rule recorder_falls)
qed

text \<open>What the recorder leaves open. It always comes to its end, and then its ticks no longer arrive unless the
  \<open>Unsubscribe\<close> failed; but nothing ever closes its connection, and when its set-up fails the store stays
  open too.\<close>

theorem recorder_leaves_open:
  "(recorder_step\<^sup>*\<^sup>* new_recorder s \<longrightarrow> rl_conn s \<and> ((\<nexists>t. recorder_step s t) \<longrightarrow> recorder_final s)) \<and>
   (\<exists>s. recorder_step\<^sup>*\<^sup>* new_recorder s \<and> recorder_final s \<and> rl_store s)"
proof (intro conjI impI)
  assume r: "recorder_step\<^sup>*\<^sup>* new_recorder s"
  then show "rl_conn s" using recorder_reachable [of s] by (simp add: recorder_inv_def)
  show "recorder_final s" if "\<nexists>t. recorder_step s t" by (rule recorder.ends_final [OF r that])
next
  let ?a = "new_recorder\<lparr>rl_run := REnsure\<rparr>" and ?b = "new_recorder\<lparr>rl_run := RReturned, rl_stopped := True\<rparr>"
  let ?c = "?b\<lparr>rl_stop := SWait, rl_stopChan := True\<rparr>" and ?d = "?b\<lparr>rl_stop := SReturned, rl_stopChan := True\<rparr>"
  have "recorder_step new_recorder ?a" "recorder_step ?a ?b" "recorder_step ?b ?c" "recorder_step ?c ?d"
    using recorder_step.run [of new_recorder] recorder_step.ensure_fails [of ?a] recorder_step.stop [of ?b]
      recorder_step.stop_waited [of ?c] by (simp_all add: new_recorder_def)
  then have "recorder_step\<^sup>*\<^sup>* new_recorder ?d" by (meson run_steps)
  then show "\<exists>s. recorder_step\<^sup>*\<^sup>* new_recorder s \<and> recorder_final s \<and> rl_store s"
    by (intro exI [of _ ?d]) (simp add: recorder_final_def new_recorder_def)
qed

section \<open>The Risk Manager\<close>

datatype risk_pc = MNew | MEnsure | MSubscribe | MPrice | MLoop | MTurn | MUnsub | MReturned

record RiskLife =
  ml_run :: risk_pc
  ml_stop :: stop_pc
  ml_stopChan :: bool
  ml_sub :: bool
  ml_priceSub :: bool
  ml_conn :: bool

definition new_risk :: RiskLife where
  "new_risk = \<lparr>ml_run = MNew, ml_stop = SNot, ml_stopChan = False, ml_sub = False, ml_priceSub = False, ml_conn = True\<rparr>"

text \<open>\<open>MTurn\<close> is the turn of the loop: the square-off and the recount. Calls on a closed connection fail; the select
  takes either branch when both are ready. A failed subscription to the prices is only logged.\<close>

inductive risk_step :: "RiskLife \<Rightarrow> RiskLife \<Rightarrow> bool" where
  run: "ml_run s = MNew \<Longrightarrow> risk_step s (s\<lparr>ml_run := MEnsure\<rparr>)"
| ensure: "ml_run s = MEnsure \<Longrightarrow> ml_conn s \<Longrightarrow> risk_step s (s\<lparr>ml_run := MSubscribe\<rparr>)"
| ensure_fails: "ml_run s = MEnsure \<Longrightarrow> risk_step s (s\<lparr>ml_run := MReturned\<rparr>)"
| subscribe: "ml_run s = MSubscribe \<Longrightarrow> ml_conn s \<Longrightarrow> risk_step s (s\<lparr>ml_run := MPrice, ml_sub := True\<rparr>)"
| subscribe_fails: "ml_run s = MSubscribe \<Longrightarrow> risk_step s (s\<lparr>ml_run := MReturned\<rparr>)"
| price: "ml_run s = MPrice \<Longrightarrow> ml_conn s \<Longrightarrow> risk_step s (s\<lparr>ml_run := MLoop, ml_priceSub := True\<rparr>)"
| price_fails: "ml_run s = MPrice \<Longrightarrow> risk_step s (s\<lparr>ml_run := MLoop\<rparr>)"
| turn: "ml_run s = MLoop \<Longrightarrow> risk_step s (s\<lparr>ml_run := MTurn\<rparr>)"
| turned: "ml_run s = MTurn \<Longrightarrow> risk_step s (s\<lparr>ml_run := MLoop\<rparr>)"
| woken: "ml_run s = MLoop \<Longrightarrow> ml_stopChan s \<Longrightarrow> risk_step s (s\<lparr>ml_run := MUnsub\<rparr>)"
| unsub: "ml_run s = MUnsub \<Longrightarrow> b \<longrightarrow> ml_sub s \<Longrightarrow> risk_step s (s\<lparr>ml_run := MReturned, ml_sub := b\<rparr>)"
| stop: "ml_stop s = SNot \<Longrightarrow> risk_step s (s\<lparr>ml_stop := SConn, ml_stopChan := True\<rparr>)"
| stop_conn: "ml_stop s = SConn \<Longrightarrow> risk_step s (s\<lparr>ml_stop := SReturned, ml_conn := False\<rparr>)"

fun risk_left :: "risk_pc \<Rightarrow> nat" where
  "risk_left MNew = 5"
| "risk_left MEnsure = 4"
| "risk_left MSubscribe = 3"
| "risk_left MPrice = 2"
| "risk_left MLoop = 2"
| "risk_left MTurn = 2"
| "risk_left MUnsub = 1"
| "risk_left MReturned = 0"

definition risk_rank :: "RiskLife \<Rightarrow> nat" where
  "risk_rank s = risk_left (ml_run s) + stop_left (ml_stop s)"

definition risk_final :: "RiskLife \<Rightarrow> bool" where
  "risk_final s \<longleftrightarrow> ml_run s = MReturned \<and> ml_stop s = SReturned"

definition risk_inv :: "RiskLife \<Rightarrow> bool" where
  "risk_inv s \<longleftrightarrow> (ml_stopChan s \<longleftrightarrow> ml_stop s \<noteq> SNot) \<and> ml_stop s \<in> {SNot, SConn, SReturned} \<and>
     (ml_conn s \<longleftrightarrow> ml_stop s \<noteq> SReturned)"

lemma risk_inv_step: "risk_step s t \<Longrightarrow> risk_inv s \<Longrightarrow> risk_inv t"
  by (induction rule: risk_step.induct) (clarsimp simp: risk_inv_def)+

lemma risk_reachable: "risk_step\<^sup>*\<^sup>* new_risk s \<Longrightarrow> risk_inv s"
  by (erule reachable_invariant) (simp add: risk_inv_def new_risk_def, rule risk_inv_step)

text \<open>Out of the loop: its next statement and, once the channel is closed, the one after it.\<close>

lemma risk_leaves_loop:
  assumes "ml_stopChan s" "ml_run s \<in> {MPrice, MLoop, MTurn}"
  shows "risk_step\<^sup>+\<^sup>+ s (s\<lparr>ml_run := MUnsub\<rparr>)"
proof -
  have w: "risk_step (s\<lparr>ml_run := MLoop\<rparr>) (s\<lparr>ml_run := MUnsub\<rparr>)"
    using risk_step.woken [of "s\<lparr>ml_run := MLoop\<rparr>"] assms(1) by simp
  consider "ml_run s = MLoop" | "ml_run s = MPrice" | "ml_run s = MTurn" using assms(2) by blast
  then show ?thesis
  proof cases
    case 1
    then have "s\<lparr>ml_run := MLoop\<rparr> = s" by simp
    from w [unfolded this] show ?thesis by (rule tranclp.r_into_trancl)
  next
    case 2
    show ?thesis by (rule two_steps [of risk_step, OF risk_step.price_fails [OF 2] w])
  next
    case 3
    show ?thesis by (rule two_steps [of risk_step, OF risk_step.turned [OF 3] w])
  qed
qed

lemma risk_moves:
  assumes "risk_inv s" "\<not> risk_final s"
  shows "\<exists>t. risk_step\<^sup>+\<^sup>+ s t \<and> risk_rank t < risk_rank s"
proof -
  consider "ml_stop s = SNot" | "ml_stop s = SConn" | "ml_stop s = SReturned" "ml_stopChan s" "ml_run s \<noteq> MReturned"
    using assms by (auto simp: risk_inv_def risk_final_def)
  then show ?thesis
  proof cases
    case 1
    then show ?thesis using risk_step.stop [of s]
      by (intro exI [of _ "s\<lparr>ml_stop := SConn, ml_stopChan := True\<rparr>"]) (auto simp: risk_rank_def)
  next
    case 2
    then show ?thesis using risk_step.stop_conn [of s]
      by (intro exI [of _ "s\<lparr>ml_stop := SReturned, ml_conn := False\<rparr>"]) (auto simp: risk_rank_def)
  next
    case 3
    have nearer: "\<exists>t. risk_step\<^sup>+\<^sup>+ s t \<and> risk_rank t < risk_rank s"
      if "risk_step\<^sup>+\<^sup>+ s (s\<lparr>ml_run := p\<rparr>)" "risk_left p < risk_left (ml_run s)" for p
      using that by (intro exI [of _ "s\<lparr>ml_run := p\<rparr>"]) (simp add: risk_rank_def)
    consider "ml_run s \<in> {MPrice, MLoop, MTurn}" | "ml_run s = MNew" | "ml_run s \<in> {MEnsure, MSubscribe}" | "ml_run s = MUnsub"
      using 3(3) by (cases "ml_run s") auto
    then show ?thesis
    proof cases
      case 1
      then show ?thesis using nearer [OF risk_leaves_loop [OF 3(2) 1]] by auto
    next
      case 2
      then show ?thesis using nearer [of MEnsure] risk_step.run [of s] by auto
    next
      case m: 3
      then show ?thesis using nearer [of MReturned, OF tranclp.r_into_trancl] risk_step.ensure_fails [of s] risk_step.subscribe_fails [of s] by auto
    next
      case 4
      then show ?thesis using risk_step.unsub [of s False]
        by (intro exI [of _ "s\<lparr>ml_run := MReturned, ml_sub := False\<rparr>"]) (auto simp: risk_rank_def)
    qed
  qed
qed

lemma risk_never_rises: "risk_step s t \<Longrightarrow> risk_rank t \<le> risk_rank s"
  by (induction rule: risk_step.induct) (simp_all add: risk_rank_def)

interpretation risk: agent_life risk_step new_risk risk_final risk_rank
  by unfold_locales (blast intro: risk_moves risk_reachable risk_never_rises)+

text \<open>Stopping the Risk Manager does not wait for it. Whatever has happened, it can still come to its end; but
  \<open>Stop\<close> may have returned, with the connection closed, while the loop is in the middle of a square-off, whose
  closing orders then fail to be sent; and every later turn too, since the loop may take another.\<close>

theorem risk_stop_races:
  "(risk_step\<^sup>*\<^sup>* new_risk s \<longrightarrow> (\<exists>t. risk_step\<^sup>*\<^sup>* s t \<and> risk_final t)) \<and>
   (risk_step\<^sup>*\<^sup>* new_risk s \<and> ml_stop s = SReturned \<longrightarrow> \<not> ml_conn s) \<and>
   (\<exists>s t. risk_step\<^sup>*\<^sup>* new_risk s \<and> ml_stop s = SReturned \<and> ml_run s = MTurn \<and> risk_step s t \<and> risk_step t s)"
proof (intro conjI impI)
  show "\<exists>t. risk_step\<^sup>*\<^sup>* s t \<and> risk_final t" if "risk_step\<^sup>*\<^sup>* new_risk s" by (rule risk.can_finish [OF that])
  show "\<not> ml_conn s" if "risk_step\<^sup>*\<^sup>* new_risk s \<and> ml_stop s = SReturned"
    using that risk_reachable [of s] by (simp add: risk_inv_def)
  let ?a = "new_risk\<lparr>ml_run := MEnsure\<rparr>" and ?b = "new_risk\<lparr>ml_run := MSubscribe\<rparr>"
  let ?c = "new_risk\<lparr>ml_run := MPrice, ml_sub := True\<rparr>" and ?d = "new_risk\<lparr>ml_run := MLoop, ml_sub := True, ml_priceSub := True\<rparr>"
  let ?e = "?d\<lparr>ml_run := MTurn\<rparr>" and ?f = "?d\<lparr>ml_run := MTurn, ml_stop := SConn, ml_stopChan := True\<rparr>"
  let ?g = "?f\<lparr>ml_stop := SReturned, ml_conn := False\<rparr>" and ?h = "?f\<lparr>ml_run := MLoop, ml_stop := SReturned, ml_conn := False\<rparr>"
  have "risk_step new_risk ?a" "risk_step ?a ?b" "risk_step ?b ?c" "risk_step ?c ?d" "risk_step ?d ?e" "risk_step ?e ?f"
    "risk_step ?f ?g" "risk_step ?g ?h" "risk_step ?h ?g"
    using risk_step.run [of new_risk] risk_step.ensure [of ?a] risk_step.subscribe [of ?b] risk_step.price [of ?c] risk_step.turn [of ?d]
      risk_step.stop [of ?e] risk_step.stop_conn [of ?f] risk_step.turned [of ?g] risk_step.turn [of ?h]
    by (simp_all add: new_risk_def)
  moreover from this have "risk_step\<^sup>*\<^sup>* new_risk ?g" by (meson run_steps)
  ultimately show "\<exists>s t. risk_step\<^sup>*\<^sup>* new_risk s \<and> ml_stop s = SReturned \<and> ml_run s = MTurn \<and> risk_step s t \<and> risk_step t s"
    by (intro exI [of _ ?g] exI [of _ ?h]) simp
qed

section \<open>The Sentiment Analyst\<close>

datatype sentiment_pc = ANew | AEnsure | ALoop | ACycle | AReturned

record SentimentLife =
  al_run :: sentiment_pc
  al_stop :: stop_pc
  al_stopChan :: bool
  al_conn :: bool
  al_db :: bool

definition new_sentiment :: SentimentLife where
  "new_sentiment = \<lparr>al_run = ANew, al_stop = SNot, al_stopChan = False, al_conn = True, al_db = True\<rparr>"

text \<open>\<open>ACycle\<close> is a cycle over the universe; it does not look at the channel until it is through.\<close>

inductive sentiment_step :: "SentimentLife \<Rightarrow> SentimentLife \<Rightarrow> bool" where
  run: "al_run s = ANew \<Longrightarrow> sentiment_step s (s\<lparr>al_run := AEnsure\<rparr>)"
| ensure: "al_run s = AEnsure \<Longrightarrow> al_conn s \<Longrightarrow> sentiment_step s (s\<lparr>al_run := ALoop\<rparr>)"
| ensure_fails: "al_run s = AEnsure \<Longrightarrow> sentiment_step s (s\<lparr>al_run := AReturned\<rparr>)"
| cycle: "al_run s = ALoop \<Longrightarrow> sentiment_step s (s\<lparr>al_run := ACycle\<rparr>)"
| cycled: "al_run s = ACycle \<Longrightarrow> sentiment_step s (s\<lparr>al_run := ALoop\<rparr>)"
| woken: "al_run s = ALoop \<Longrightarrow> al_stopChan s \<Longrightarrow> sentiment_step s (s\<lparr>al_run := AReturned\<rparr>)"
| stop: "al_stop s = SNot \<Longrightarrow> sentiment_step s (s\<lparr>al_stop := SConn, al_stopChan := True\<rparr>)"
| stop_conn: "al_stop s = SConn \<Longrightarrow> sentiment_step s (s\<lparr>al_stop := SDb, al_conn := False\<rparr>)"
| stop_db: "al_stop s = SDb \<Longrightarrow> sentiment_step s (s\<lparr>al_stop := SReturned, al_db := False\<rparr>)"

definition sentiment_inv :: "SentimentLife \<Rightarrow> bool" where
  "sentiment_inv s \<longleftrightarrow> (al_stopChan s \<longleftrightarrow> al_stop s \<noteq> SNot) \<and> al_stop s \<in> {SNot, SConn, SDb, SReturned} \<and>
     (al_conn s \<longleftrightarrow> al_stop s \<in> {SNot, SConn}) \<and> (al_db s \<longleftrightarrow> al_stop s \<noteq> SReturned)"

lemma sentiment_inv_step: "sentiment_step s t \<Longrightarrow> sentiment_inv s \<Longrightarrow> sentiment_inv t"
  by (induction rule: sentiment_step.induct) (clarsimp simp: sentiment_inv_def)+

lemma sentiment_reachable: "sentiment_step\<^sup>*\<^sup>* new_sentiment s \<Longrightarrow> sentiment_inv s"
  by (erule reachable_invariant) (simp add: sentiment_inv_def new_sentiment_def, rule sentiment_inv_step)

fun sentiment_left :: "sentiment_pc \<Rightarrow> nat" where
  "sentiment_left ANew = 3"
| "sentiment_left AEnsure = 2"
| "sentiment_left ALoop = 1"
| "sentiment_left ACycle = 1"
| "sentiment_left AReturned = 0"

definition sentiment_rank :: "SentimentLife \<Rightarrow> nat" where
  "sentiment_rank s = sentiment_left (al_run s) + stop_left (al_stop s)"

definition sentiment_final :: "SentimentLife \<Rightarrow> bool" where
  "sentiment_final s \<longleftrightarrow> al_run s = AReturned \<and> al_stop s = SReturned"

lemma sentiment_never_rises: "sentiment_step s t \<Longrightarrow> sentiment_rank t \<le> sentiment_rank s"
  by (induction rule: sentiment_step.induct) (simp_all add: sentiment_rank_def)

lemma sentiment_falls: "sentiment_step\<^sup>+\<^sup>+ s t \<Longrightarrow>
    sentiment_left (al_run t) + stop_left (al_stop t) < sentiment_left (al_run s) + stop_left (al_stop s) \<Longrightarrow>
    \<exists>t. sentiment_step\<^sup>+\<^sup>+ s t \<and> sentiment_rank t < sentiment_rank s"
  unfolding sentiment_rank_def by blast

lemma sentiment_moves:
  assumes "sentiment_inv s" "\<not> sentiment_final s"
  shows "\<exists>t. sentiment_step\<^sup>+\<^sup>+ s t \<and> sentiment_rank t < sentiment_rank s"
proof -
  note step1 = sentiment_falls [OF tranclp.r_into_trancl]
  consider "al_stop s = SNot" | "al_stop s = SConn" | "al_stop s = SDb" | "al_stop s = SReturned" "al_stopChan s"
    using assms(1) by (auto simp: sentiment_inv_def)
  then show ?thesis
  proof cases
    case 1
    show ?thesis by (rule step1 [OF sentiment_step.stop [OF 1]]) (simp add: 1)
  next
    case 2
    show ?thesis by (rule step1 [OF sentiment_step.stop_conn [OF 2]]) (simp add: 2)
  next
    case 3
    show ?thesis by (rule step1 [OF sentiment_step.stop_db [OF 3]]) (simp add: 3)
  next
    case 4
    show ?thesis
    proof (cases "al_run s")
      case ANew
      show ?thesis by (rule step1 [OF sentiment_step.run [OF ANew]]) (simp add: ANew)
    next
      case AEnsure
      show ?thesis by (rule step1 [OF sentiment_step.ensure_fails [OF AEnsure]]) (simp add: AEnsure)
    next
      case ALoop
      show ?thesis by (rule step1 [OF sentiment_step.woken [OF ALoop 4(2)]]) (simp add: ALoop)
    next
      case ACycle
      have "sentiment_step (s\<lparr>al_run := ALoop\<rparr>) (s\<lparr>al_run := AReturned\<rparr>)"
        using sentiment_step.woken [of "s\<lparr>al_run := ALoop\<rparr>"] 4(2) by simp
      from two_steps [of sentiment_step, OF sentiment_step.cycled [OF ACycle] this]
      show ?thesis by (rule sentiment_falls) (simp add: ACycle)
    next
      case AReturned
      then show ?thesis using assms(2) 4(1) by (simp add: sentiment_final_def)
    qed
  qed
qed

interpretation sentiment: agent_life sentiment_step new_sentiment sentiment_final sentiment_rank
  by unfold_locales (blast intro: sentiment_moves sentiment_reachable sentiment_never_rises)+

text \<open>Stopping the Sentiment Analyst closes its database under a running cycle: \<open>Stop\<close> closes the connection and then the
  database, and may have returned while a cycle goes on, whose remaining scores are then lost. The agent can
  still come to its end.\<close>

theorem sentiment_stop_races:
  "(sentiment_step\<^sup>*\<^sup>* new_sentiment s \<longrightarrow> (\<exists>t. sentiment_step\<^sup>*\<^sup>* s t \<and> sentiment_final t) \<and> (\<not> al_db s \<longrightarrow> \<not> al_conn s)) \<and>
   (\<exists>s. sentiment_step\<^sup>*\<^sup>* new_sentiment s \<and> al_stop s = SReturned \<and> al_run s = ACycle \<and> \<not> al_db s \<and> \<not> al_conn s)"
proof (intro conjI impI)
  assume r: "sentiment_step\<^sup>*\<^sup>* new_sentiment s"
  show "\<exists>t. sentiment_step\<^sup>*\<^sup>* s t \<and> sentiment_final t" by (rule sentiment.can_finish [OF r])
  show "\<not> al_conn s" if "\<not> al_db s" using sentiment_reachable [OF r] that by (simp add: sentiment_inv_def)
next
  let ?a = "new_sentiment\<lparr>al_run := AEnsure\<rparr>" and ?b = "new_sentiment\<lparr>al_run := ALoop\<rparr>" and ?c = "new_sentiment\<lparr>al_run := ACycle\<rparr>"
  let ?d = "?c\<lparr>al_stop := SConn, al_stopChan := True\<rparr>" and ?e = "?c\<lparr>al_stop := SDb, al_stopChan := True, al_conn := False\<rparr>"
  let ?f = "?c\<lparr>al_stop := SReturned, al_stopChan := True, al_conn := False, al_db := False\<rparr>"
  have "sentiment_step new_sentiment ?a" "sentiment_step ?a ?b" "sentiment_step ?b ?c" "sentiment_step ?c ?d" "sentiment_step ?d ?e"
    "sentiment_step ?e ?f"
    using sentiment_step.run [of new_sentiment] sentiment_step.ensure [of ?a] sentiment_step.cycle [of ?b] sentiment_step.stop [of ?c]
      sentiment_step.stop_conn [of ?d] sentiment_step.stop_db [of ?e] by (simp_all add: new_sentiment_def)
  then have "sentiment_step\<^sup>*\<^sup>* new_sentiment ?f" by (meson run_steps)
  then show "\<exists>s. sentiment_step\<^sup>*\<^sup>* new_sentiment s \<and> al_stop s = SReturned \<and> al_run s = ACycle \<and> \<not> al_db s \<and> \<not> al_conn s"
    by (intro exI [of _ ?f]) simp
qed

section \<open>The scout\<close>

text \<open>The scout runs its detector, its feed connector and, while the feed is not up, a goroutine that tries to start it;
  once it is up, another one consumes it and reconnects.\<close>

datatype scout_pc = QNew | QEnsure | QWait | QReturned
datatype feed_pc = FNone | FCheck | FStart | FReturned
datatype consumer_pc = CNone | CConsume | CReconnect | CReturned
datatype scout_stop_pc = QSNot | QSDetector | QSFeed | QSSocket | QSConn | QSReturned

record ScoutLife =
  ql_run :: scout_pc
  ql_feed :: feed_pc
  ql_consumer :: consumer_pc
  ql_stop :: scout_stop_pc
  ql_stopChan :: bool
  ql_detectorStop :: bool
  ql_feedStop :: bool
  ql_detector :: bool
  ql_socket :: bool
  ql_conn :: bool

definition new_scout :: ScoutLife where
  "new_scout = \<lparr>ql_run = QNew, ql_feed = FNone, ql_consumer = CNone, ql_stop = QSNot, ql_stopChan = False, ql_detectorStop = False,
     ql_feedStop = False, ql_detector = False, ql_socket = False, ql_conn = True\<rparr>"

text \<open>\<open>market_open\<close> is the answer to the check of the goroutine that starts the feed; while the market is closed it waits,
  which leaves it where it is. \<open>socket_breaks\<close> is a step of the network.\<close>

inductive scout_step :: "ScoutLife \<Rightarrow> ScoutLife \<Rightarrow> bool" where
  run: "ql_run s = QNew \<Longrightarrow> scout_step s (s\<lparr>ql_run := QEnsure\<rparr>)"
| ensure: "ql_run s = QEnsure \<Longrightarrow> ql_conn s \<Longrightarrow> scout_step s (s\<lparr>ql_run := QWait, ql_feed := FCheck, ql_detector := True\<rparr>)"
| ensure_fails: "ql_run s = QEnsure \<Longrightarrow> scout_step s (s\<lparr>ql_run := QReturned\<rparr>)"
| woken: "ql_run s = QWait \<Longrightarrow> ql_stopChan s \<Longrightarrow> scout_step s (s\<lparr>ql_run := QReturned\<rparr>)"
| market_open: "ql_feed s = FCheck \<Longrightarrow> scout_step s (s\<lparr>ql_feed := FStart\<rparr>)"
| market_closed: "ql_feed s = FCheck \<Longrightarrow> ql_stopChan s \<Longrightarrow> scout_step s (s\<lparr>ql_feed := FReturned\<rparr>)"
| started: "ql_feed s = FStart \<Longrightarrow> scout_step s (s\<lparr>ql_feed := FReturned, ql_socket := True, ql_consumer := CConsume\<rparr>)"
| start_fails: "ql_feed s = FStart \<Longrightarrow> scout_step s (s\<lparr>ql_feed := FCheck\<rparr>)"
| start_fails_stopped: "ql_feed s = FStart \<Longrightarrow> ql_stopChan s \<Longrightarrow> scout_step s (s\<lparr>ql_feed := FReturned\<rparr>)"
| socket_breaks: "ql_socket s \<Longrightarrow> scout_step s (s\<lparr>ql_socket := False\<rparr>)"
| consume_ends: "ql_consumer s = CConsume \<Longrightarrow> \<not> ql_socket s \<Longrightarrow>
    scout_step s (s\<lparr>ql_consumer := (if ql_feedStop s then CReturned else CReconnect)\<rparr>)"
| reconnected: "ql_consumer s = CReconnect \<Longrightarrow> scout_step s (s\<lparr>ql_consumer := CConsume, ql_socket := True\<rparr>)"
| reconnect_stopped: "ql_consumer s = CReconnect \<Longrightarrow> ql_feedStop s \<Longrightarrow> scout_step s (s\<lparr>ql_consumer := CReturned\<rparr>)"
| detector_ends: "ql_detector s \<Longrightarrow> ql_detectorStop s \<Longrightarrow> scout_step s (s\<lparr>ql_detector := False\<rparr>)"
| stop: "ql_stop s = QSNot \<Longrightarrow> scout_step s (s\<lparr>ql_stop := QSDetector, ql_stopChan := True\<rparr>)"
| stop_detector: "ql_stop s = QSDetector \<Longrightarrow> scout_step s (s\<lparr>ql_stop := QSFeed, ql_detectorStop := True\<rparr>)"
| stop_feed: "ql_stop s = QSFeed \<Longrightarrow> scout_step s (s\<lparr>ql_stop := QSSocket, ql_feedStop := True\<rparr>)"
| stop_socket: "ql_stop s = QSSocket \<Longrightarrow> scout_step s (s\<lparr>ql_stop := QSConn, ql_socket := False\<rparr>)"
| stop_conn: "ql_stop s = QSConn \<Longrightarrow> scout_step s (s\<lparr>ql_stop := QSReturned, ql_conn := False\<rparr>)"

inductive_cases scout_stepE: "scout_step s t"

text \<open>The socket cannot come back once nobody is about to open it.\<close>

definition scout_quiet :: "ScoutLife \<Rightarrow> bool" where
  "scout_quiet s \<longleftrightarrow> ql_run s \<in> {QWait, QReturned} \<and> ql_feed s = FReturned \<and> ql_consumer s \<in> {CNone, CReturned}"

lemma scout_quiet_step: "scout_step s t \<Longrightarrow> scout_quiet s \<and> \<not> ql_socket s \<Longrightarrow> scout_quiet t \<and> \<not> ql_socket t"
  by (erule scout_step.cases) (simp_all add: scout_quiet_def)

definition scout_inv :: "ScoutLife \<Rightarrow> bool" where
  "scout_inv s \<longleftrightarrow> (ql_stopChan s \<longleftrightarrow> ql_stop s \<noteq> QSNot) \<and>
     (ql_detectorStop s \<longleftrightarrow> ql_stop s \<notin> {QSNot, QSDetector}) \<and>
     (ql_feedStop s \<longleftrightarrow> ql_stop s \<in> {QSSocket, QSConn, QSReturned}) \<and> (ql_conn s \<longleftrightarrow> ql_stop s \<noteq> QSReturned) \<and>
     (ql_run s \<in> {QNew, QEnsure} \<longrightarrow> ql_feed s = FNone) \<and>
     (ql_feed s \<noteq> FReturned \<longrightarrow> ql_consumer s = CNone \<and> \<not> ql_socket s)"

lemma scout_inv_step: "scout_step s t \<Longrightarrow> scout_inv s \<Longrightarrow> scout_inv t"
  by (erule scout_step.cases) (clarsimp simp: scout_inv_def)+

lemma scout_reachable: "scout_step\<^sup>*\<^sup>* new_scout s \<Longrightarrow> scout_inv s"
  by (erule reachable_invariant) (simp add: scout_inv_def new_scout_def, rule scout_inv_step)

text \<open>An orphaned socket. \<open>Stop\<close> closes the socket there is, and does not wait for the goroutine that may be about to open
  one. Everything of the agent may then have returned but the consumer of a socket that was opened after it,
  which waits for the next message; only the network can end it. Once nobody is left to open the socket
  and it is closed, it stays closed.\<close>

theorem scout_orphans_socket:
  "(\<exists>s. scout_step\<^sup>*\<^sup>* new_scout s \<and> ql_run s = QReturned \<and> ql_stop s = QSReturned \<and> ql_feed s = FReturned \<and> \<not> ql_detector s \<and>
      ql_socket s \<and> ql_consumer s = CConsume \<and> (\<forall>t. scout_step s t \<longrightarrow> t = s\<lparr>ql_socket := False\<rparr>)) \<and>
   (scout_quiet s \<and> \<not> ql_socket s \<and> scout_step\<^sup>*\<^sup>* s t \<longrightarrow> \<not> ql_socket t) \<and>
   (scout_step\<^sup>*\<^sup>* new_scout s \<and> ql_stop s = QSReturned \<longrightarrow> \<not> ql_conn s \<and> ql_stopChan s \<and> ql_detectorStop s \<and> ql_feedStop s)"
proof (intro conjI impI)
  let ?a = "new_scout\<lparr>ql_run := QEnsure\<rparr>" and ?b = "new_scout\<lparr>ql_run := QWait, ql_feed := FCheck, ql_detector := True\<rparr>"
  let ?c = "?b\<lparr>ql_feed := FStart\<rparr>" and ?d = "?b\<lparr>ql_feed := FStart, ql_stop := QSDetector, ql_stopChan := True\<rparr>"
  let ?e = "?d\<lparr>ql_stop := QSFeed, ql_detectorStop := True\<rparr>" and ?f = "?d\<lparr>ql_stop := QSSocket, ql_detectorStop := True, ql_feedStop := True\<rparr>"
  let ?g = "?f\<lparr>ql_stop := QSConn\<rparr>" and ?h = "?f\<lparr>ql_stop := QSReturned, ql_conn := False\<rparr>"
  let ?i = "?h\<lparr>ql_run := QReturned\<rparr>" and ?j = "?h\<lparr>ql_run := QReturned, ql_detector := False\<rparr>"
  let ?k = "?j\<lparr>ql_feed := FReturned, ql_socket := True, ql_consumer := CConsume\<rparr>"
  have "scout_step new_scout ?a" "scout_step ?a ?b" "scout_step ?b ?c" "scout_step ?c ?d" "scout_step ?d ?e" "scout_step ?e ?f"
    using scout_step.run [of new_scout] scout_step.ensure [of ?a] scout_step.market_open [of ?b] scout_step.stop [of ?c]
      scout_step.stop_detector [of ?d] scout_step.stop_feed [of ?e] by (simp_all add: new_scout_def)
  moreover have "scout_step ?f ?g" "scout_step ?g ?h" "scout_step ?h ?i" "scout_step ?i ?j" "scout_step ?j ?k"
    using scout_step.stop_socket [of ?f] scout_step.stop_conn [of ?g] scout_step.woken [of ?h] scout_step.detector_ends [of ?i]
      scout_step.started [of ?j] by (simp_all add: new_scout_def)
  ultimately have "scout_step\<^sup>*\<^sup>* new_scout ?f" "scout_step\<^sup>*\<^sup>* ?f ?k" by (meson run_steps)+
  then have "scout_step\<^sup>*\<^sup>* new_scout ?k" by (rule rtranclp_trans)
  moreover have "\<forall>t. scout_step ?k t \<longrightarrow> t = ?k\<lparr>ql_socket := False\<rparr>"
    by (intro allI impI) (erule scout_stepE, simp_all add: new_scout_def)
  ultimately show "\<exists>s. scout_step\<^sup>*\<^sup>* new_scout s \<and> ql_run s = QReturned \<and> ql_stop s = QSReturned \<and> ql_feed s = FReturned \<and>
      \<not> ql_detector s \<and> ql_socket s \<and> ql_consumer s = CConsume \<and> (\<forall>t. scout_step s t \<longrightarrow> t = s\<lparr>ql_socket := False\<rparr>)"
    by (intro exI [of _ ?k] conjI) simp_all
next
  assume q: "scout_quiet s \<and> \<not> ql_socket s \<and> scout_step\<^sup>*\<^sup>* s t"
  have "scout_quiet t \<and> \<not> ql_socket t"
    by (rule reachable_invariant [of scout_step s t]) (use q scout_quiet_step in blast)+
  then show "\<not> ql_socket t" by blast
next
  assume r: "scout_step\<^sup>*\<^sup>* new_scout s \<and> ql_stop s = QSReturned"
  then have "scout_inv s" by (blast intro: scout_reachable)
  then show "\<not> ql_conn s" "ql_stopChan s" "ql_detectorStop s" "ql_feedStop s"
    using r by (simp_all add: scout_inv_def)
qed

section \<open>Examples\<close>

lemma recorder_leaves_open_witness: "rl_conn new_recorder"
  using recorder_leaves_open [of new_recorder] by blast

lemma risk_stop_races_witness: "\<exists>t. risk_step\<^sup>*\<^sup>* new_risk t \<and> risk_final t"
  using risk_stop_races [of new_risk] by blast

lemma sentiment_stop_races_witness: "\<exists>t. sentiment_step\<^sup>*\<^sup>* new_sentiment t \<and> sentiment_final t"
  using sentiment_stop_races [of new_sentiment] by blast

lemma scout_orphans_socket_witness: "\<not> ql_socket (new_scout\<lparr>ql_run := QReturned, ql_feed := FReturned\<rparr>)"
  using scout_orphans_socket [of "new_scout\<lparr>ql_run := QReturned, ql_feed := FReturned\<rparr>" "new_scout\<lparr>ql_run := QReturned, ql_feed := FReturned\<rparr>"]
  by (simp add: scout_quiet_def new_scout_def)

end
