(* ===== verification/Scheduler.thy ===== *)
theory Scheduler
  imports Lifecycle Scraper
begin

text \<open>
  The scheduler of \<open>src/analysts/sentiment/scraper.go\<close>, which paces the cycles of the Sentiment Analyst: \<open>Start\<close>, \<open>Stop\<close> and
  the goroutine \<open>run\<close>, interleaved statement by statement with each other and with the receiver of its ticks.
\<close>

section \<open>States and steps\<close>

text \<open>\<open>SchSend t\<close> is the goroutine at the inner select, with a tick to hand over. \<open>StLoad\<close> is \<open>Stop\<close> between closing \<open>stopCh\<close>
  and reading \<open>started\<close>, \<open>StWait\<close> waiting for \<open>doneCh\<close>. \<open>sd_ch\<close> is the channel with room for one tick;
  \<open>sd_log\<close> keeps what was ever put into it.\<close>

datatype sched_run = SchNone | SchSelect | SchSend Time | SchReturned
datatype sched_stop = StNot | StLoad | StWait | StReturned

record SchedulerState =
  sd_run :: sched_run
  sd_stop :: sched_stop
  sd_started :: bool
  sd_stopCh :: bool
  sd_doneCh :: bool
  sd_ch :: "Time option"
  sd_log :: "Time list"

definition new_scheduler :: SchedulerState where
  "new_scheduler = \<lparr>sd_run = SchNone, sd_stop = StNot, sd_started = False, sd_stopCh = False, sd_doneCh = False, sd_ch = None, sd_log = []\<rparr>"

text \<open>The selects take any branch that is ready. \<open>Start\<close> is called once; a second call of \<open>Stop\<close> does nothing but wait for
  the first.\<close>

inductive sched_step :: "SchedulerState \<Rightarrow> SchedulerState \<Rightarrow> bool" where
  start: "\<not> sd_started s \<Longrightarrow> sched_step s (s\<lparr>sd_started := True\<rparr>)"
| launch: "sd_started s \<Longrightarrow> sd_run s = SchNone \<Longrightarrow> sched_step s (s\<lparr>sd_run := SchSelect\<rparr>)"
| tick: "sd_run s = SchSelect \<Longrightarrow> sched_step s (s\<lparr>sd_run := SchSend t\<rparr>)"
| send: "sd_run s = SchSend t \<Longrightarrow> sd_ch s = None \<Longrightarrow> sched_step s (s\<lparr>sd_run := SchSelect, sd_ch := Some t, sd_log := sd_log s @ [t]\<rparr>)"
| stopped_sending: "sd_run s = SchSend t \<Longrightarrow> sd_stopCh s \<Longrightarrow> sched_step s (s\<lparr>sd_run := SchReturned, sd_doneCh := True\<rparr>)"
| stopped: "sd_run s = SchSelect \<Longrightarrow> sd_stopCh s \<Longrightarrow> sched_step s (s\<lparr>sd_run := SchReturned, sd_doneCh := True\<rparr>)"
| receive: "sd_ch s = Some t \<Longrightarrow> sched_step s (s\<lparr>sd_ch := None\<rparr>)"
| stop: "sd_stop s = StNot \<Longrightarrow> sched_step s (s\<lparr>sd_stop := StLoad, sd_stopCh := True\<rparr>)"
| stop_load: "sd_stop s = StLoad \<Longrightarrow> sched_step s (s\<lparr>sd_stop := (if sd_started s then StWait else StReturned)\<rparr>)"
| stop_waited: "sd_stop s = StWait \<Longrightarrow> sd_doneCh s \<Longrightarrow> sched_step s (s\<lparr>sd_stop := StReturned\<rparr>)"

section \<open>Stopping\<close>

definition sched_inv :: "SchedulerState \<Rightarrow> bool" where
  "sched_inv s \<longleftrightarrow> (sd_stopCh s \<longleftrightarrow> sd_stop s \<noteq> StNot) \<and> (sd_doneCh s \<longleftrightarrow> sd_run s = SchReturned) \<and>
     (sd_run s \<noteq> SchNone \<longrightarrow> sd_started s) \<and> (sd_stop s = StWait \<longrightarrow> sd_started s) \<and>
     (\<forall>t. sd_ch s = Some t \<longrightarrow> sd_log s \<noteq> [] \<and> last (sd_log s) = t)"

lemma sched_inv_step: "sched_step s t \<Longrightarrow> sched_inv s \<Longrightarrow> sched_inv t"
  by (erule sched_step.cases) (clarsimp simp: sched_inv_def)+

lemma sched_reachable: "sched_step\<^sup>*\<^sup>* new_scheduler s \<Longrightarrow> sched_inv s"
  by (erule reachable_invariant) (simp add: sched_inv_def new_scheduler_def, rule sched_inv_step)

lemma sched_waits:
  "sched_step s t \<Longrightarrow> sd_stop s = StWait \<or> sd_stop s = StReturned \<and> sd_doneCh s \<Longrightarrow> sd_stop t = StWait \<or> sd_stop t = StReturned \<and> sd_doneCh t"
  by (erule sched_step.cases) (elim disjE; simp)+

lemma sched_ended_step:
  assumes "sched_step s t" "sched_inv s" "sd_run s = SchReturned"
  shows "sched_inv t" "sd_run t = SchReturned" "sd_log t = sd_log s"
proof -
  show "sched_inv t" using assms sched_inv_step by blast
  have "sd_started s" using assms(2,3) by (simp add: sched_inv_def)
  with assms(1,3) show "sd_run t = SchReturned" "sd_log t = sd_log s" by (cases rule: sched_step.cases; simp)+
qed

lemma sched_ended:
  assumes "sched_step\<^sup>*\<^sup>* s t" "sched_inv s" "sd_run s = SchReturned"
  shows "sd_log t = sd_log s \<and> sd_run t = SchReturned"
proof -
  have "sched_inv t \<and> sd_run t = SchReturned \<and> sd_log t = sd_log s"
    using assms(1)
  proof (rule reachable_invariant)
    fix a b assume "sched_step a b" "sched_inv a \<and> sd_run a = SchReturned \<and> sd_log a = sd_log s"
    then show "sched_inv b \<and> sd_run b = SchReturned \<and> sd_log b = sd_log s" using sched_ended_step [of a b] by metis
  qed (use assms(2,3) in simp)
  then show ?thesis by blast
qed

text \<open>The goroutine can always come to its end once \<open>stopCh\<close> is closed, whether or not somebody receives.\<close>

lemma sched_can_end:
  assumes "sched_inv s" "sd_stop s = StWait"
  shows "\<exists>t. sched_step\<^sup>*\<^sup>* s t \<and> sd_stop t = StWait \<and> sd_doneCh t"
proof -
  have st: "sd_stopCh s" "sd_started s" and d: "sd_doneCh s \<longleftrightarrow> sd_run s = SchReturned" using assms by (auto simp: sched_inv_def)
  show ?thesis
  proof (cases "sd_run s")
    case SchNone
    let ?t = "s\<lparr>sd_run := SchSelect\<rparr>"
    have "sched_step s ?t" by (rule sched_step.launch [OF st(2) SchNone])
    moreover have "sched_step ?t (?t\<lparr>sd_run := SchReturned, sd_doneCh := True\<rparr>)" by (rule sched_step.stopped) (use st in simp_all)
    ultimately have "sched_step\<^sup>*\<^sup>* s (?t\<lparr>sd_run := SchReturned, sd_doneCh := True\<rparr>)" by (blast dest: two_steps tranclp_into_rtranclp)
    then show ?thesis using assms(2) by (intro exI [of _ "?t\<lparr>sd_run := SchReturned, sd_doneCh := True\<rparr>"]) simp
  next
    case SchSelect
    then have "sched_step s (s\<lparr>sd_run := SchReturned, sd_doneCh := True\<rparr>)" using st by (intro sched_step.stopped)
    then have "sched_step\<^sup>*\<^sup>* s (s\<lparr>sd_run := SchReturned, sd_doneCh := True\<rparr>)" by (rule r_into_rtranclp)
    then show ?thesis using assms(2) by (intro exI [of _ "s\<lparr>sd_run := SchReturned, sd_doneCh := True\<rparr>"]) simp
  next
    case (SchSend t)
    then have "sched_step s (s\<lparr>sd_run := SchReturned, sd_doneCh := True\<rparr>)" using st by (intro sched_step.stopped_sending)
    then have "sched_step\<^sup>*\<^sup>* s (s\<lparr>sd_run := SchReturned, sd_doneCh := True\<rparr>)" by (rule r_into_rtranclp)
    then show ?thesis using assms(2) by (intro exI [of _ "s\<lparr>sd_run := SchReturned, sd_doneCh := True\<rparr>"]) simp
  next
    case SchReturned
    then show ?thesis using d assms(2) by blast
  qed
qed

lemma sched_can_stop:
  assumes "sched_inv s" "sd_stop s \<noteq> StNot"
  shows "\<exists>t. sched_step\<^sup>*\<^sup>* s t \<and> sd_stop t = StReturned"
proof -
  have wait: "\<exists>t. sched_step\<^sup>*\<^sup>* s t \<and> sd_stop t = StReturned" if i: "sched_inv s" and w: "sd_stop s = StWait" for s
  proof -
    obtain t where "sched_step\<^sup>*\<^sup>* s t" "sd_stop t = StWait" "sd_doneCh t" using sched_can_end [OF i w] by blast
    moreover from this have "sched_step t (t\<lparr>sd_stop := StReturned\<rparr>)" by (intro sched_step.stop_waited)
    ultimately have "sched_step\<^sup>*\<^sup>* s (t\<lparr>sd_stop := StReturned\<rparr>)" by simp
    then show ?thesis by (intro exI [of _ "t\<lparr>sd_stop := StReturned\<rparr>"]) simp
  qed
  show ?thesis
  proof (cases "sd_stop s")
    case StLoad
    let ?t = "s\<lparr>sd_stop := (if sd_started s then StWait else StReturned)\<rparr>"
    have st: "sched_step s ?t" by (rule sched_step.stop_load [OF StLoad])
    then have "sched_inv ?t" using assms(1) sched_inv_step by blast
    then have "\<exists>u. sched_step\<^sup>*\<^sup>* ?t u \<and> sd_stop u = StReturned"
    proof (cases "sd_started s")
      case False
      then show ?thesis by (intro exI [of _ ?t]) simp
    qed (use wait in simp)
    then show ?thesis using st by (meson converse_rtranclp_into_rtranclp)
  qed (use assms wait in auto)
qed

text \<open>Stopping the scheduler. A \<open>Stop\<close> that has been called can return, whether or not anybody receives the ticks. When it
  has returned and found the scheduler started, the goroutine has ended and no tick is ever put into the
  channel again; one tick may still lie there. But a \<open>Stop\<close> before \<open>Start\<close> leaves nothing behind that keeps a later
  \<open>Start\<close> from launching the goroutine, and since a select takes any ready branch it may then hand out ticks.\<close>

theorem scheduler_stops:
  "(sched_step\<^sup>*\<^sup>* new_scheduler s \<and> sd_stop s \<noteq> StNot \<longrightarrow> (\<exists>t. sched_step\<^sup>*\<^sup>* s t \<and> sd_stop t = StReturned)) \<and>
   (sched_step\<^sup>*\<^sup>* new_scheduler s \<and> sd_stop s = StWait \<and> sched_step\<^sup>*\<^sup>* s t \<and> sd_stop t = StReturned \<and> sched_step\<^sup>*\<^sup>* t u \<longrightarrow>
      sd_run t = SchReturned \<and> sd_log u = sd_log t \<and> (\<forall>x. sd_ch t = Some x \<longrightarrow> x = last (sd_log t))) \<and>
   (\<exists>a b. sched_step\<^sup>*\<^sup>* new_scheduler a \<and> sd_stop a = StReturned \<and> sched_step\<^sup>*\<^sup>* a b \<and> sd_log a = [] \<and> sd_log b \<noteq> [])"
proof (intro conjI impI)
  show "\<exists>t. sched_step\<^sup>*\<^sup>* s t \<and> sd_stop t = StReturned" if "sched_step\<^sup>*\<^sup>* new_scheduler s \<and> sd_stop s \<noteq> StNot"
    using that sched_reachable sched_can_stop by blast
next
  assume h: "sched_step\<^sup>*\<^sup>* new_scheduler s \<and> sd_stop s = StWait \<and> sched_step\<^sup>*\<^sup>* s t \<and> sd_stop t = StReturned \<and> sched_step\<^sup>*\<^sup>* t u"
  have inv: "sched_inv s" "sched_inv t" using h sched_reachable by (auto intro: rtranclp_trans)
  have "sched_inv t \<and> (sd_stop t = StWait \<or> sd_stop t = StReturned \<and> sd_doneCh t)"
  proof (rule reachable_invariant [of sched_step s t])
    fix a b assume "sched_step a b" "sched_inv a \<and> (sd_stop a = StWait \<or> sd_stop a = StReturned \<and> sd_doneCh a)"
    then show "sched_inv b \<and> (sd_stop b = StWait \<or> sd_stop b = StReturned \<and> sd_doneCh b)"
      using sched_inv_step [of a b] sched_waits [of a b] by blast
  qed (use h inv in auto)
  then have "sd_doneCh t" using h by auto
  then show r: "sd_run t = SchReturned" using inv(2) by (simp add: sched_inv_def)
  show "sd_log u = sd_log t" using sched_ended [of t u] h inv(2) r by blast
  show "\<forall>x. sd_ch t = Some x \<longrightarrow> x = last (sd_log t)" using inv(2) by (simp add: sched_inv_def)
next
  let ?a = "new_scheduler\<lparr>sd_stop := StLoad, sd_stopCh := True\<rparr>" and ?b = "new_scheduler\<lparr>sd_stop := StReturned, sd_stopCh := True\<rparr>"
  let ?c = "?b\<lparr>sd_started := True\<rparr>"
  let ?d = "?c\<lparr>sd_run := SchSelect\<rparr>" and ?e = "?c\<lparr>sd_run := SchSend 0\<rparr>"
  let ?f = "?c\<lparr>sd_run := SchSelect, sd_ch := Some 0, sd_log := [0]\<rparr>"
  have "sched_step new_scheduler ?a" "sched_step ?a ?b" "sched_step ?b ?c" "sched_step ?c ?d" "sched_step ?d ?e" "sched_step ?e ?f"
    using sched_step.stop [of new_scheduler] sched_step.stop_load [of ?a] sched_step.start [of ?b] sched_step.launch [of ?c]
      sched_step.tick [of ?d 0] sched_step.send [of ?e 0] by (simp_all add: new_scheduler_def)
  then have "sched_step\<^sup>*\<^sup>* new_scheduler ?b" "sched_step\<^sup>*\<^sup>* ?b ?f" by (meson rtranclp.intros)+
  then show "\<exists>a b. sched_step\<^sup>*\<^sup>* new_scheduler a \<and> sd_stop a = StReturned \<and> sched_step\<^sup>*\<^sup>* a b \<and> sd_log a = [] \<and> sd_log b \<noteq> []"
    by (intro exI [of _ ?b] exI [of _ ?f]) (simp add: new_scheduler_def)
qed

lemma scheduler_stops_witness: "\<exists>t. sched_step\<^sup>*\<^sup>* (new_scheduler\<lparr>sd_stop := StLoad, sd_stopCh := True\<rparr>) t \<and> sd_stop t = StReturned"
proof -
  have "sched_step\<^sup>*\<^sup>* new_scheduler (new_scheduler\<lparr>sd_stop := StLoad, sd_stopCh := True\<rparr>)"
    by (rule r_into_rtranclp) (rule sched_step.stop, simp add: new_scheduler_def)
  then show ?thesis using scheduler_stops [of "new_scheduler\<lparr>sd_stop := StLoad, sd_stopCh := True\<rparr>"] by simp
qed

end
