(* ===== verification/Report.thy ===== *)
theory Report
  imports StatMath Database "HOL-Library.Multiset"
begin

text \<open>
  The performance report: the aggregation of closed positions (\<open>ComputeSummary\<close>) and the query that reads
  them (\<open>ClosedPositions\<close>) of \<open>src/pkg/database/report.go\<close>, and the ranking of the breakdowns of
  \<open>src/tools/report/main.go\<close>; the tool itself is in \<open>ReportTool\<close>. The summary is shown not to depend on the order in which the rows come, its
  figures are bounded, and on integer-valued profits its drawdown is the exact one.
\<close>

section \<open>The summary\<close>

record Summary =
  sm_ClosedTrades :: int
  sm_TotalPnL :: float64
  sm_Wins :: int
  sm_Losses :: int
  sm_WinRate :: float64
  sm_AvgWin :: float64
  sm_AvgLoss :: float64
  sm_MaxDrawdown :: float64
  sm_ByTicker :: "string \<rightharpoonup> float64"
  sm_ByDay :: "string \<rightharpoonup> float64"
  sm_ByExitReason :: "string \<rightharpoonup> float64"

definition empty_summary :: Summary where
  "empty_summary = \<lparr>sm_ClosedTrades = 0, sm_TotalPnL = 0, sm_Wins = 0, sm_Losses = 0, sm_WinRate = 0, sm_AvgWin = 0,
     sm_AvgLoss = 0, sm_MaxDrawdown = 0, sm_ByTicker = Map.empty, sm_ByDay = Map.empty, sm_ByExitReason = Map.empty\<rparr>"

text \<open>\<open>m[k] += x\<close>: a missing key reads as zero.\<close>

definition add_at :: "string \<Rightarrow> float64 \<Rightarrow> (string \<rightharpoonup> float64) \<Rightarrow> (string \<rightharpoonup> float64)" where
  "add_at k x m = m(k \<mapsto> (case m k of None \<Rightarrow> 0 | Some y \<Rightarrow> y) + x)"

text \<open>The state of the loop: the summary so far and the locals \<open>winSum\<close>, \<open>lossSum\<close>, \<open>equity\<close>, \<open>peak\<close>.\<close>

record tally =
  tl_sum :: Summary
  tl_winSum :: float64
  tl_lossSum :: float64
  tl_equity :: float64
  tl_peak :: float64

definition start_tally :: tally where
  "start_tally = \<lparr>tl_sum = empty_summary, tl_winSum = 0, tl_lossSum = 0, tl_equity = 0, tl_peak = 0\<rparr>"

text \<open>The body of the loop. The times carry the location \<open>loc\<close> that the database driver gives them.\<close>

definition summary_step :: "int \<Rightarrow> Position \<Rightarrow> tally \<Rightarrow> tally" where
  "summary_step loc pos t =
     (if pos_Status pos \<noteq> PositionClosed then t
      else
        let s = tl_sum t; pnl = pos_PnL pos;
            s1 = s\<lparr>sm_ClosedTrades := sm_ClosedTrades s + 1, sm_TotalPnL := sm_TotalPnL s + pnl,
                   sm_ByTicker := add_at (pos_Ticker pos) pnl (sm_ByTicker s),
                   sm_ByDay := add_at (format_day (civil_day loc (pos_ClosedAt pos))) pnl (sm_ByDay s),
                   sm_ByExitReason := add_at (pos_ExitReason pos) pnl (sm_ByExitReason s)\<rparr>;
            t2 = (if 0 < pnl then t\<lparr>tl_sum := s1\<lparr>sm_Wins := sm_Wins s1 + 1\<rparr>, tl_winSum := tl_winSum t + pnl\<rparr>
                  else if pnl < 0 then t\<lparr>tl_sum := s1\<lparr>sm_Losses := sm_Losses s1 + 1\<rparr>, tl_lossSum := tl_lossSum t + pnl\<rparr>
                  else t\<lparr>tl_sum := s1\<rparr>);
            equity = tl_equity t + pnl;
            peak = (if tl_peak t < equity then equity else tl_peak t);
            dd = peak - equity;
            s3 = (if sm_MaxDrawdown (tl_sum t2) < dd then (tl_sum t2)\<lparr>sm_MaxDrawdown := dd\<rparr> else tl_sum t2)
        in t2\<lparr>tl_sum := s3, tl_equity := equity, tl_peak := peak\<rparr>)"

text \<open>\<open>sort.SliceStable\<close> by the time of closing is a stable sort on that key.\<close>

definition ComputeSummary :: "int \<Rightarrow> Position list \<Rightarrow> Summary" where
  "ComputeSummary loc positions =
     (let t = fold (summary_step loc) (sort_key pos_ClosedAt positions) start_tally;
          s = tl_sum t;
          s1 = (if 0 < sm_Wins s + sm_Losses s
                then s\<lparr>sm_WinRate := f64_of_int (sm_Wins s) / f64_of_int (sm_Wins s + sm_Losses s)\<rparr> else s);
          s2 = (if 0 < sm_Wins s1 then s1\<lparr>sm_AvgWin := tl_winSum t / f64_of_int (sm_Wins s1)\<rparr> else s1)
      in if 0 < sm_Losses s2 then s2\<lparr>sm_AvgLoss := tl_lossSum t / f64_of_int (sm_Losses s2)\<rparr> else s2)"

section \<open>The order of the rows does not matter\<close>

lemma fold_summary_closed:
  "fold (summary_step loc) ps t = fold (summary_step loc) (filter (\<lambda>p. pos_Status p = PositionClosed) ps) t"
  by (induction ps arbitrary: t) (simp_all add: summary_step_def)

text \<open>Sorting by a key that tells the elements apart forgets their order.\<close>

lemma sort_key_unique:
  assumes m: "mset ps = mset qs" and f: "inj_on f (set ps)"
  shows "sort_key f ps = sort_key f qs"
proof (rule properties_for_sort_key)
  have s: "set (sort_key f qs) = set ps" using m by (metis set_mset_mset set_sort)
  show "mset (sort_key f qs) = mset ps" using m by simp
  show "sorted (map f (sort_key f qs))" by simp
  fix k assume k: "k \<in> set (sort_key f qs)"
  have one: "filter (\<lambda>x. f k = f x) xs = filter (\<lambda>x. x = k) xs" if "set xs = set ps" for xs
    using f k s that by (intro filter_cong) (auto dest: inj_onD)
  have "filter (\<lambda>x. x = k) xs = replicate (count (mset xs) k) k" for xs
    by (induction xs) auto
  then show "filter (\<lambda>x. f k = f x) (sort_key f qs) = filter (\<lambda>x. f k = f x) ps"
    using one [OF s] one [of ps] m by simp
qed

text \<open>The order of the rows does not matter: two lists with the same closed positions give the
  same summary, to the last bit, as long as no two of them were closed at the same instant.\<close>

theorem ComputeSummary_any_order:
  assumes "mset (filter (\<lambda>p. pos_Status p = PositionClosed) ps) = mset (filter (\<lambda>p. pos_Status p = PositionClosed) qs)"
    and "inj_on pos_ClosedAt {p \<in> set ps. pos_Status p = PositionClosed}"
  shows "ComputeSummary loc ps = ComputeSummary loc qs"
proof -
  have "sort_key pos_ClosedAt (filter (\<lambda>p. pos_Status p = PositionClosed) ps)
      = sort_key pos_ClosedAt (filter (\<lambda>p. pos_Status p = PositionClosed) qs)"
    using assms by (intro sort_key_unique) simp_all
  then have "filter (\<lambda>p. pos_Status p = PositionClosed) (sort_key pos_ClosedAt ps)
      = filter (\<lambda>p. pos_Status p = PositionClosed) (sort_key pos_ClosedAt qs)"
    by (simp add: filter_sort)
  then have "fold (summary_step loc) (sort_key pos_ClosedAt ps) start_tally
      = fold (summary_step loc) (sort_key pos_ClosedAt qs) start_tally"
    using fold_summary_closed [of loc "sort_key pos_ClosedAt ps"] fold_summary_closed [of loc "sort_key pos_ClosedAt qs"]
    by simp
  then show ?thesis by (simp add: ComputeSummary_def)
qed

section \<open>Bounds of the figures\<close>

definition closed_only :: "Position list \<Rightarrow> Position list" where
  "closed_only ps = filter (\<lambda>p. pos_Status p = PositionClosed) ps"

lemma f64_add_nonpos: "x \<le> 0 \<Longrightarrow> y \<le> 0 \<Longrightarrow> x + y \<le> (0 :: float64)"
proof (cases x; cases y)
  fix a b
  assume h: "x \<le> 0" "y \<le> 0" "x = Fin a" "y = Fin b"
  then have "rnd (a + b) \<le> rnd 0" by (intro rnd_mono) simp
  with h show "x + y \<le> 0" by (simp add: zero_float64_def)
qed (auto simp: less_eq_float64_def zero_float64_def)

lemma f64_less_imp_le: "(x :: float64) < y \<Longrightarrow> x \<le> y"
  by (simp add: less_eq_float64_def)

lemma summary_step_counts:
  "sm_ClosedTrades (tl_sum (fold (summary_step loc) ps t)) = sm_ClosedTrades (tl_sum t) + int (length (closed_only ps))"
  "sm_Wins (tl_sum (fold (summary_step loc) ps t)) =
     sm_Wins (tl_sum t) + int (length (filter (\<lambda>p. 0 < pos_PnL p) (closed_only ps)))"
  "sm_Losses (tl_sum (fold (summary_step loc) ps t)) =
     sm_Losses (tl_sum t) + int (length (filter (\<lambda>p. pos_PnL p < 0) (closed_only ps)))"
  by (induction ps arbitrary: t) (auto simp: summary_step_def closed_only_def Let_def dest: f64_less_not_sym)

definition tally_ok :: "tally \<Rightarrow> bool" where
  "tally_ok t \<longleftrightarrow> 0 \<le> tl_winSum t \<and> tl_lossSum t \<le> 0 \<and> 0 \<le> sm_MaxDrawdown (tl_sum t) \<and>
     sm_WinRate (tl_sum t) = 0 \<and> sm_AvgWin (tl_sum t) = 0 \<and> sm_AvgLoss (tl_sum t) = 0"

lemma summary_step_ok: "tally_ok t \<Longrightarrow> tally_ok (summary_step loc p t)"
  using f64_le_less_trans [of 0 "sm_MaxDrawdown (tl_sum t)"]
  by (auto simp: tally_ok_def summary_step_def Let_def intro: f64_add_nonneg f64_add_nonpos f64_less_imp_le)

lemma fold_summary_ok: "tally_ok t \<Longrightarrow> tally_ok (fold (summary_step loc) ps t)"
  by (induction ps arbitrary: t) (auto intro: summary_step_ok)

lemma start_tally_ok: "tally_ok start_tally"
  by (simp add: tally_ok_def start_tally_def empty_summary_def zero_float64_def)

lemma divide_count_sign:
  assumes "0 < n" "n \<le> 2 ^ 53"
  shows "0 \<le> x \<Longrightarrow> 0 \<le> x / f64_of_int n" and "x \<le> 0 \<Longrightarrow> x / f64_of_int n \<le> 0"
proof -
  have n: "f64_of_int n = Fin (of_int n)" using assms by (intro f64_of_int_exact) simp
  show "0 \<le> x / f64_of_int n" if "0 \<le> x"
    using that assms(1) rnd_mono [of 0 "valof x / of_int n"]
    by (cases x) (auto simp: n zero_float64_def less_eq_float64_def inf_of_def)
  show "x / f64_of_int n \<le> 0" if "x \<le> 0"
    using that assms(1) rnd_mono [of "valof x / of_int n" 0]
    by (cases x) (auto simp: n zero_float64_def less_eq_float64_def inf_of_def divide_le_0_iff)
qed

lemma ratio_bounds:
  assumes "0 \<le> a" "0 \<le> b" "0 < a + b" "a + b \<le> 2 ^ 53"
  shows "0 \<le> f64_of_int a / f64_of_int (a + b) \<and> f64_of_int a / f64_of_int (a + b) \<le> 1"
proof -
  have "(of_int a :: rat) / of_int (a + b) \<le> 1" using assms by simp
  then have "rnd (of_int a / of_int (a + b)) \<le> rnd 1" by (rule rnd_mono)
  moreover have "0 \<le> f64_of_int a / f64_of_int (a + b)"
    using assms f64_of_int_exact [of a] by (intro divide_count_sign(1)) simp_all
  ultimately show ?thesis
    using assms f64_of_int_exact [of a] f64_of_int_exact [of "a + b"] by (simp add: one_float64_def)
qed

lemma wins_and_losses:
  "length (filter (\<lambda>p. 0 < pos_PnL p) ps) + length (filter (\<lambda>p. pos_PnL p < 0) ps) \<le> length ps"
  by (induction ps) (auto dest: f64_less_not_sym)

text \<open>The figures of the summary are what their names say, whatever the stored profits are, not-a-number
  and infinities included: the trades counted are the closed ones, wins and losses those with a
  positive and a negative profit, the win rate lies between 0 and 1, the drawdown and the average win
  are not negative and the average loss is not positive.\<close>

theorem ComputeSummary_bounds:
  assumes "length ps \<le> 2 ^ 53"
  shows "sm_ClosedTrades (ComputeSummary loc ps) = int (length (closed_only ps)) \<and>
    sm_Wins (ComputeSummary loc ps) = int (length (filter (\<lambda>p. 0 < pos_PnL p) (closed_only ps))) \<and>
    sm_Losses (ComputeSummary loc ps) = int (length (filter (\<lambda>p. pos_PnL p < 0) (closed_only ps))) \<and>
    0 \<le> sm_WinRate (ComputeSummary loc ps) \<and> sm_WinRate (ComputeSummary loc ps) \<le> 1 \<and>
    0 \<le> sm_MaxDrawdown (ComputeSummary loc ps) \<and> 0 \<le> sm_AvgWin (ComputeSummary loc ps) \<and>
    sm_AvgLoss (ComputeSummary loc ps) \<le> 0"
proof -
  define t where "t = fold (summary_step loc) (sort_key pos_ClosedAt ps) start_tally"
  define w l where "w = sm_Wins (tl_sum t)" and "l = sm_Losses (tl_sum t)"
  let ?cs = "closed_only (sort_key pos_ClosedAt ps)"
  have cs: "length (filter P ?cs) = length (filter P (closed_only ps))" for P
    by (simp add: closed_only_def filter_sort)
  have c: "sm_ClosedTrades (tl_sum t) = int (length (closed_only ps))"
    "w = int (length (filter (\<lambda>p. 0 < pos_PnL p) (closed_only ps)))"
    "l = int (length (filter (\<lambda>p. pos_PnL p < 0) (closed_only ps)))"
    using summary_step_counts [of loc "sort_key pos_ClosedAt ps" start_tally] cs [of "\<lambda>_. True"] cs
    by (simp_all add: t_def w_def l_def start_tally_def empty_summary_def)
  have "length (closed_only ps) \<le> 2 ^ 53" using assms by (simp add: closed_only_def) (meson length_filter_le order_trans)
  then have n: "0 \<le> w" "0 \<le> l" "w + l \<le> 2 ^ 53" using wins_and_losses [of "closed_only ps"] by (simp_all add: c)
  have ok: "tally_ok t" unfolding t_def by (rule fold_summary_ok [OF start_tally_ok])
  have sum: "ComputeSummary loc ps = (tl_sum t)
     \<lparr>sm_WinRate := (if 0 < w + l then f64_of_int w / f64_of_int (w + l) else 0),
      sm_AvgWin := (if 0 < w then tl_winSum t / f64_of_int w else 0),
      sm_AvgLoss := (if 0 < l then tl_lossSum t / f64_of_int l else 0)\<rparr>"
    using ok by (simp add: ComputeSummary_def t_def [symmetric] w_def l_def Let_def tally_ok_def)
  have "0 \<le> (if 0 < w + l then f64_of_int w / f64_of_int (w + l) else 0)"
    "(if 0 < w + l then f64_of_int w / f64_of_int (w + l) else 0) \<le> 1"
    using ratio_bounds [OF n(1,2) _ n(3)] by (simp_all add: zero_float64_def one_float64_def)
  moreover have "0 \<le> (if 0 < w then tl_winSum t / f64_of_int w else 0)"
    "(if 0 < l then tl_lossSum t / f64_of_int l else 0) \<le> 0"
    using n ok divide_count_sign(1) [of w "tl_winSum t"] divide_count_sign(2) [of l "tl_lossSum t"]
    by (simp_all add: tally_ok_def zero_float64_def)
  ultimately show ?thesis using ok c unfolding sum by (simp add: tally_ok_def w_def l_def)
qed

section \<open>The drawdown of integer-valued profits\<close>

text \<open>The equity curve: the sum of the first \<open>i\<close> profits in order of closing, from zero.\<close>

definition curve :: "(Position \<Rightarrow> int) \<Rightarrow> Position list \<Rightarrow> nat \<Rightarrow> int" where
  "curve pn ps i = (\<Sum>p\<leftarrow>take i ps. pn p)"

lemma curve_simps: "curve pn ps 0 = 0" "length ps \<le> i \<Longrightarrow> curve pn ps i = (\<Sum>p\<leftarrow>ps. pn p)"
  "i \<le> length ps \<Longrightarrow> curve pn (ps @ qs) i = curve pn ps i"
  by (simp_all add: curve_def)

lemma abs_sum_take_le: "\<bar>\<Sum>p\<leftarrow>take i (drop j ps). (pn p :: int)\<bar> \<le> (\<Sum>p\<leftarrow>ps. \<bar>pn p\<bar>)"
proof -
  have "(\<Sum>p\<leftarrow>ps. \<bar>pn p\<bar>) = (\<Sum>p\<leftarrow>take j ps. \<bar>pn p\<bar>) + (\<Sum>p\<leftarrow>take i (drop j ps). \<bar>pn p\<bar>) + (\<Sum>p\<leftarrow>drop i (drop j ps). \<bar>pn p\<bar>)"
    by (metis (no_types) add.assoc append_take_drop_id map_append sum_list_append)
  moreover have "0 \<le> (\<Sum>p\<leftarrow>qs. \<bar>pn p\<bar>)" for qs by (rule sum_list_nonneg) auto
  from this [of "take j ps"] this [of "drop i (drop j ps)"]
  have "0 \<le> (\<Sum>p\<leftarrow>take j ps. \<bar>pn p\<bar>)" "0 \<le> (\<Sum>p\<leftarrow>drop i (drop j ps). \<bar>pn p\<bar>)" .
  moreover have "\<bar>\<Sum>p\<leftarrow>qs. pn p\<bar> \<le> (\<Sum>p\<leftarrow>qs. \<bar>pn p\<bar>)" for qs by (induction qs) auto
  from this [of "take i (drop j ps)"]
  have "\<bar>\<Sum>p\<leftarrow>take i (drop j ps). pn p\<bar> \<le> (\<Sum>p\<leftarrow>take i (drop j ps). \<bar>pn p\<bar>)" .
  ultimately show ?thesis by linarith
qed

lemma curve_diff_le: "j \<le> i \<Longrightarrow> \<bar>curve pn ps j - curve pn ps i\<bar> \<le> (\<Sum>p\<leftarrow>ps. \<bar>pn p\<bar>)"
proof -
  assume "j \<le> i"
  then have "take i ps = take j ps @ take (i - j) (drop j ps)" by (metis le_add_diff_inverse take_add)
  then have "curve pn ps j - curve pn ps i = - (\<Sum>p\<leftarrow>take (i - j) (drop j ps). pn p)" by (simp add: curve_def)
  then show ?thesis using abs_sum_take_le [of pn "i - j" j ps] by simp
qed

text \<open>What the loop has computed after the positions \<open>ps\<close>: the curve's last point, its peak, and its
  largest fall.\<close>

definition tracks_curve :: "(Position \<Rightarrow> int) \<Rightarrow> Position list \<Rightarrow> tally \<Rightarrow> bool" where
  "tracks_curve pn ps t \<longleftrightarrow>
     tl_equity t = Fin (of_int (curve pn ps (length ps))) \<and> sm_TotalPnL (tl_sum t) = tl_equity t \<and>
     (\<exists>j \<le> length ps. tl_peak t = Fin (of_int (curve pn ps j)) \<and> (\<forall>k \<le> length ps. curve pn ps k \<le> curve pn ps j)) \<and>
     (\<exists>i j. i \<le> j \<and> j \<le> length ps \<and> sm_MaxDrawdown (tl_sum t) = Fin (of_int (curve pn ps i - curve pn ps j)) \<and>
        (\<forall>k m. k \<le> m \<and> m \<le> length ps \<longrightarrow> curve pn ps k - curve pn ps m \<le> curve pn ps i - curve pn ps j))"

lemma summary_step_curve:
  assumes t: "tracks_curve pn ps t" and p: "pos_Status p = PositionClosed" "pos_PnL p = f64_of_int (pn p)"
    and b: "(\<Sum>p\<leftarrow>ps @ [p]. \<bar>pn p\<bar>) \<le> 2 ^ 53"
  shows "tracks_curve pn (ps @ [p]) (summary_step loc p t)"
proof -
  let ?n = "length ps" and ?qs = "ps @ [p]"
  let ?c = "curve pn ?qs"
  define t' where "t' = summary_step loc p t"
  have old: "curve pn ps k = ?c k" if "k \<le> ?n" for k using that by (simp add: curve_simps)
  have new: "?c (Suc ?n) = ?c ?n + pn p" by (simp add: curve_def)
  have bound: "\<bar>?c j - ?c i\<bar> \<le> 2 ^ 53" if "j \<le> i" for i j using curve_diff_le [OF that, of pn ?qs] b by linarith
  have bound0: "\<bar>?c i\<bar> \<le> 2 ^ 53" for i using bound [of 0 i] by (simp add: curve_simps)
  have "\<bar>pn p\<bar> \<le> 2 ^ 53" using bound [of ?n "Suc ?n"] new by simp
  then have pnl: "pos_PnL p = Fin (of_int (pn p))" using p(2) f64_of_int_exact by simp
  have eq: "tl_equity t + pos_PnL p = Fin (of_int (?c (Suc ?n)))"
    using t pnl f64_int_add [of "?c ?n" "pn p"] bound0 [of "Suc ?n"] new old by (simp add: tracks_curve_def)
  obtain j where j: "j \<le> ?n" "tl_peak t = Fin (of_int (?c j))" "\<forall>k \<le> ?n. ?c k \<le> ?c j"
    using t old by (auto simp: tracks_curve_def)
  define j' where "j' = (if ?c j < ?c (Suc ?n) then Suc ?n else j)"
  have j': "j' \<le> Suc ?n" "\<forall>k \<le> Suc ?n. ?c k \<le> ?c j'"
    using j by (auto simp: j'_def le_Suc_eq)
  obtain i m where d: "i \<le> m" "m \<le> ?n" "sm_MaxDrawdown (tl_sum t) = Fin (of_int (?c i - ?c m))"
      "\<forall>k l. k \<le> l \<and> l \<le> ?n \<longrightarrow> ?c k - ?c l \<le> ?c i - ?c m"
    using t old by (auto simp: tracks_curve_def)
  let ?dd = "?c j' - ?c (Suc ?n)"
  have dd: "Fin (of_int (?c j')) - Fin (of_int (?c (Suc ?n))) = Fin (of_int ?dd)"
    by (rule f64_int_diff [OF bound [OF j'(1)]])
  have f: "tl_equity t' = Fin (of_int (?c (Suc ?n)))" "tl_peak t' = Fin (of_int (?c j'))"
      "sm_TotalPnL (tl_sum t') = sm_TotalPnL (tl_sum t) + pos_PnL p"
      "sm_MaxDrawdown (tl_sum t') = (if ?c i - ?c m < ?dd then Fin (of_int ?dd) else Fin (of_int (?c i - ?c m)))"
    using p(1) eq j(2) d(3) dd by (auto simp: t'_def summary_step_def Let_def j'_def simp del: of_int_diff)
  have "\<exists>i' m'. i' \<le> m' \<and> m' \<le> Suc ?n \<and> sm_MaxDrawdown (tl_sum t') = Fin (of_int (?c i' - ?c m')) \<and>
        (\<forall>k l. k \<le> l \<and> l \<le> Suc ?n \<longrightarrow> ?c k - ?c l \<le> ?c i' - ?c m')"
  proof (cases "?c i - ?c m < ?dd")
    case True
    have "?c k - ?c l \<le> ?dd" if "k \<le> l" "l \<le> Suc ?n" for k l
    proof (cases "l = Suc ?n")
      case False
      then have "?c k - ?c l \<le> ?c i - ?c m" using d(4) that by simp
      then show ?thesis using True by linarith
    qed (use j'(2) that in auto)
    moreover have "sm_MaxDrawdown (tl_sum t') = Fin (of_int ?dd)" using f(4) True by simp
    ultimately show ?thesis using j'(1) by blast
  next
    case False
    have "?c k - ?c l \<le> ?c i - ?c m" if "k \<le> l" "l \<le> Suc ?n" for k l
    proof (cases "l = Suc ?n")
      case True
      then have "?c k - ?c l \<le> ?dd" using j'(2) that by simp
      then show ?thesis using False by linarith
    qed (use d(4) that in simp)
    moreover have "sm_MaxDrawdown (tl_sum t') = Fin (of_int (?c i - ?c m))" using f(4) False by simp
    ultimately show ?thesis using d(1,2) le_SucI by blast
  qed
  moreover have "\<exists>k \<le> Suc ?n. tl_peak t' = Fin (of_int (?c k)) \<and> (\<forall>l \<le> Suc ?n. ?c l \<le> ?c k)"
    using j' f(2) by blast
  moreover have "sm_TotalPnL (tl_sum t') = tl_equity t'" using t eq f(1,3) by (simp add: tracks_curve_def)
  ultimately show ?thesis using f(1) by (simp add: tracks_curve_def t'_def)
qed

lemma fold_summary_curve:
  assumes "\<forall>p \<in> set ps. pos_Status p = PositionClosed \<and> pos_PnL p = f64_of_int (pn p)" "(\<Sum>p\<leftarrow>ps. \<bar>pn p\<bar>) \<le> 2 ^ 53"
  shows "tracks_curve pn ps (fold (summary_step loc) ps start_tally)"
  using assms
proof (induction ps rule: rev_induct)
  case Nil
  then show ?case by (simp add: tracks_curve_def start_tally_def empty_summary_def curve_simps zero_float64_def)
next
  case (snoc p ps)
  have "(\<Sum>p\<leftarrow>ps. \<bar>pn p\<bar>) \<le> 2 ^ 53" using snoc.prems(2) by simp
  then show ?case using summary_step_curve [of pn ps _ p] snoc by simp
qed

lemma add_at_get: "add_at k x m k' = (if k' = k then Some ((case m k of None \<Rightarrow> 0 | Some y \<Rightarrow> y) + x) else m k')"
  by (simp add: add_at_def)

lemma fold_summary_ticker:
  assumes "\<forall>p \<in> set ps. pos_Status p = PositionClosed \<and> pos_PnL p = f64_of_int (pn p)" "(\<Sum>p\<leftarrow>ps. \<bar>pn p\<bar>) \<le> 2 ^ 53"
  shows "sm_ByTicker (tl_sum (fold (summary_step loc) ps start_tally)) k =
    (if \<exists>p \<in> set ps. pos_Ticker p = k then Some (Fin (of_int (\<Sum>p\<leftarrow>filter (\<lambda>p. pos_Ticker p = k) ps. pn p))) else None)"
  using assms
proof (induction ps rule: rev_induct)
  case Nil
  then show ?case by (simp add: start_tally_def empty_summary_def)
next
  case (snoc p ps)
  let ?s = "\<lambda>qs. \<Sum>p\<leftarrow>filter (\<lambda>p. pos_Ticker p = k) qs. pn p"
  have le: "\<bar>?s qs\<bar> \<le> (\<Sum>p\<leftarrow>qs. \<bar>pn p\<bar>)" for qs by (induction qs) auto
  have b: "(\<Sum>p\<leftarrow>ps. \<bar>pn p\<bar>) + \<bar>pn p\<bar> \<le> 2 ^ 53" "(\<Sum>p\<leftarrow>ps. \<bar>pn p\<bar>) \<le> 2 ^ 53" using snoc.prems(2) by simp_all
  have nn: "0 \<le> (\<Sum>p\<leftarrow>ps. \<bar>pn p\<bar>)" by (rule sum_list_nonneg) auto
  have pnl: "pos_PnL p = Fin (of_int (pn p))" "pos_Status p = PositionClosed"
    using snoc.prems(1) b nn f64_of_int_exact [of "pn p"] by simp_all
  have tick: "sm_ByTicker (tl_sum (summary_step loc p t)) = add_at (pos_Ticker p) (pos_PnL p) (sm_ByTicker (tl_sum t))" for t
    using pnl(2) by (simp add: summary_step_def Let_def)
  have "Fin (of_int (?s ps)) + Fin (of_int (pn p)) = Fin (of_int (?s ps + pn p))"
    using le [of ps] b by (intro f64_int_add) linarith
  moreover have "0 + Fin (of_int (pn p)) = Fin (of_int (pn p))"
    using f64_int_add [of 0 "pn p"] b nn by (simp add: zero_float64_def)
  moreover have "?s ps = 0" if "\<not> (\<exists>p \<in> set ps. pos_Ticker p = k)" using that by (simp add: filter_empty_conv)
  moreover have "sm_ByTicker (tl_sum (fold (summary_step loc) ps start_tally)) k =
    (if \<exists>p \<in> set ps. pos_Ticker p = k then Some (Fin (of_int (?s ps))) else None)"
    using snoc.IH snoc.prems(1) b(2) by simp
  ultimately show ?case using pnl(1)
    by (cases "pos_Ticker p = k"; cases "\<exists>p \<in> set ps. pos_Ticker p = k")
      (simp_all add: tick add_at_get del: plus_float64.simps of_int_add)
qed

text \<open>C31: On profits that are whole numbers the report is exact: the total is the sum of the profits, the share of
  a ticker the sum of its own, and the drawdown is the largest fall of the equity curve, in the order of
  closing and starting from zero, between a point and a later one.\<close>

theorem ComputeSummary_exact:
  assumes "\<forall>p \<in> set ps. pos_Status p = PositionClosed \<and> pos_PnL p = f64_of_int (pn p)" "(\<Sum>p\<leftarrow>ps. \<bar>pn p\<bar>) \<le> 2 ^ 53"
  shows "sm_TotalPnL (ComputeSummary loc ps) = Fin (of_int (\<Sum>p\<leftarrow>ps. pn p)) \<and>
    (\<forall>p \<in> set ps. sm_ByTicker (ComputeSummary loc ps) (pos_Ticker p) =
       Some (Fin (of_int (\<Sum>q\<leftarrow>filter (\<lambda>q. pos_Ticker q = pos_Ticker p) ps. pn q)))) \<and>
    (\<exists>i j. i \<le> j \<and> j \<le> length ps \<and>
       sm_MaxDrawdown (ComputeSummary loc ps) =
         Fin (of_int (curve pn (sort_key pos_ClosedAt ps) i - curve pn (sort_key pos_ClosedAt ps) j)) \<and>
       (\<forall>k m. k \<le> m \<and> m \<le> length ps \<longrightarrow>
         curve pn (sort_key pos_ClosedAt ps) k - curve pn (sort_key pos_ClosedAt ps) m
         \<le> curve pn (sort_key pos_ClosedAt ps) i - curve pn (sort_key pos_ClosedAt ps) j))"
proof -
  let ?qs = "sort_key pos_ClosedAt ps"
  have sum: "(\<Sum>p\<leftarrow>filter P ?qs. f p) = (\<Sum>p\<leftarrow>filter P ps. f p)" for P and f :: "Position \<Rightarrow> int"
    by (metis mset_filter mset_map mset_sort sum_mset_sum_list)
  have q: "\<forall>p \<in> set ?qs. pos_Status p = PositionClosed \<and> pos_PnL p = f64_of_int (pn p)" using assms(1) by simp
  have b: "(\<Sum>p\<leftarrow>?qs. \<bar>pn p\<bar>) \<le> 2 ^ 53" using assms(2) sum [of "\<lambda>p. \<bar>pn p\<bar>" "\<lambda>_. True"] by simp
  define t where "t = fold (summary_step loc) ?qs start_tally"
  have same: "sm_TotalPnL (ComputeSummary loc ps) = sm_TotalPnL (tl_sum t)"
    "sm_ByTicker (ComputeSummary loc ps) = sm_ByTicker (tl_sum t)"
    "sm_MaxDrawdown (ComputeSummary loc ps) = sm_MaxDrawdown (tl_sum t)"
    by (simp_all add: ComputeSummary_def t_def Let_def)
  have c: "tracks_curve pn ?qs t" unfolding t_def by (rule fold_summary_curve [OF q b])
  have "sm_ByTicker (tl_sum t) (pos_Ticker p) =
       Some (Fin (of_int (\<Sum>q\<leftarrow>filter (\<lambda>q. pos_Ticker q = pos_Ticker p) ps. pn q)))" if "p \<in> set ps" for p
    unfolding t_def fold_summary_ticker [OF q b] using that sum [of pn "\<lambda>q. pos_Ticker q = pos_Ticker p"] by auto
  moreover have "sm_TotalPnL (tl_sum t) = Fin (of_int (\<Sum>p\<leftarrow>ps. pn p))"
    using c sum [of pn "\<lambda>_. True"] by (simp add: tracks_curve_def curve_simps)
  ultimately show ?thesis using c unfolding same tracks_curve_def by simp
qed

section \<open>Reading the closed positions\<close>

text \<open>The query falls back on a column \<open>created_at\<close>. What a row holds there is an argument: \<open>None\<close> when the
  table has no such column. Rows of equal time come in the order of the table.\<close>

type_synonym created_column = "(position_row \<Rightarrow> Time) option"

definition closed_time :: "(position_row \<Rightarrow> Time) \<Rightarrow> position_row \<Rightarrow> Time" where
  "closed_time created r = (case pr_closed_at r of Some t \<Rightarrow> t | None \<Rightarrow> created r)"

definition scan_closed :: "(position_row \<Rightarrow> Time) \<Rightarrow> position_row \<Rightarrow> Position" where
  "scan_closed created r = \<lparr>pos_ID = pr_id r, pos_Ticker = pr_ticker r, pos_Side = pr_side r, pos_Quantity = pr_quantity r,
     pos_EntryPrice = pr_entry_price r, pos_StopLoss = pr_stop_loss r, pos_TakeProfit = pr_take_profit r,
     pos_Sector = pr_sector r, pos_Status = pr_status r, pos_ExecutionRef = pr_execution_ref r,
     pos_ExitPrice = (case pr_exit_price r of Some x \<Rightarrow> x | None \<Rightarrow> 0),
     pos_PnL = (case pr_pnl r of Some x \<Rightarrow> x | None \<Rightarrow> 0),
     pos_ExitReason = (case pr_exit_reason r of Some x \<Rightarrow> x | None \<Rightarrow> ''''),
     pos_ClosedAt = closed_time created r\<rparr>"

definition closed_positions_stmt :: "created_column \<Rightarrow> Time \<Rightarrow> Time \<Rightarrow> World \<Rightarrow> (error + Position list) \<times> World" where
  "closed_positions_stmt col frm til w =
     (case col of
        None \<Rightarrow> (Inl (pq_error ''column created_at does not exist''), w)
      | Some created \<Rightarrow>
          (Inr (map (scan_closed created) (sort_key (closed_time created)
             (filter (\<lambda>r. pr_status r = ''CLOSED'' \<and> frm \<le> closed_time created r \<and> closed_time created r < til)
                (w_positions w)))), w))"

definition ClosedPositions :: "created_column \<Rightarrow> Time \<Rightarrow> Time \<Rightarrow> World \<Rightarrow> (error + Position list) \<times> World" where
  "ClosedPositions col frm til w =
     (case db_call (closed_positions_stmt col frm til) w of (r, w') \<Rightarrow> (wrap_error ''query closed positions'' r, w'))"

text \<open>The migrations create no column \<open>created_at\<close>.\<close>

definition migrated_created_at :: created_column where "migrated_created_at = None"

text \<open>The report can never be produced from the schema of the repository: whatever the tables hold and
  whatever the window, \<open>ClosedPositions\<close> returns an error. On a table with the column it asks for, and
  without faults, it returns every closed position of the half-open window, oldest first, and nothing else;
  a position closed at the upper end of the window is left out.\<close>

theorem ClosedPositions_broken:
  "(\<exists>e. fst (ClosedPositions migrated_created_at frm til w) = Inl e) \<and>
   (\<exists>ps. ClosedPositions (Some created) frm til (w\<lparr>w_db_faults := []\<rparr>) = (Inr ps, w\<lparr>w_db_faults := []\<rparr>) \<and>
      sorted (map pos_ClosedAt ps) \<and>
      set ps = scan_closed created ` {r \<in> set (w_positions w). pr_status r = ''CLOSED'' \<and>
        frm \<le> closed_time created r \<and> closed_time created r < til})"
proof
  show "\<exists>e. fst (ClosedPositions migrated_created_at frm til w) = Inl e"
    by (cases "next_fault (w_db_faults w)")
      (simp_all add: ClosedPositions_def migrated_created_at_def closed_positions_stmt_def db_call_def wrap_error_def)
  have "pos_ClosedAt \<circ> scan_closed created = closed_time created" by (rule ext) (simp add: scan_closed_def)
  then show "\<exists>ps. ClosedPositions (Some created) frm til (w\<lparr>w_db_faults := []\<rparr>) = (Inr ps, w\<lparr>w_db_faults := []\<rparr>) \<and>
      sorted (map pos_ClosedAt ps) \<and>
      set ps = scan_closed created ` {r \<in> set (w_positions w). pr_status r = ''CLOSED'' \<and>
        frm \<le> closed_time created r \<and> closed_time created r < til}"
    by (simp add: ClosedPositions_def closed_positions_stmt_def db_call_def wrap_error_def)
qed

section \<open>Ranking a breakdown\<close>

record breakdownLine =
  bl_key :: string
  bl_pnl :: float64

definition bd_abs :: "float64 \<Rightarrow> float64" where
  "bd_abs f = (if f < 0 then - f else f)"

text \<open>The inner loop: \<open>j\<close> counts down while the line above is smaller.\<close>

fun rank_down :: "nat \<Rightarrow> breakdownLine list \<Rightarrow> breakdownLine list" where
  "rank_down 0 ls = ls"
| "rank_down (Suc j) ls =
     (if bd_abs (bl_pnl (ls ! j)) < bd_abs (bl_pnl (ls ! Suc j))
      then rank_down j (ls[j := ls ! Suc j, Suc j := ls ! j]) else ls)"

text \<open>Go visits the entries of a map in any order; the entries are given in the order of the visit.\<close>

definition rankedBreakdown :: "(string \<times> float64) list \<Rightarrow> breakdownLine list" where
  "rankedBreakdown entries =
     fold rank_down [1..<length entries] (map (\<lambda>(k, v). \<lparr>bl_key = k, bl_pnl = v\<rparr>) entries)"

definition magnitude :: "breakdownLine \<Rightarrow> float64" where
  "magnitude l = bd_abs (bl_pnl l)"

text \<open>The inner loop inserts the line at \<open>j\<close> into the lines before it, searching from their end.\<close>

fun insert_back :: "breakdownLine \<Rightarrow> breakdownLine list \<Rightarrow> breakdownLine list" where
  "insert_back x [] = [x]"
| "insert_back x (y # ys) = (if magnitude y < magnitude x then y # insert_back x ys else x # y # ys)"

lemma rank_down_inserts:
  "rank_down (length xs) (xs @ x # ys) = rev (insert_back x (rev xs)) @ ys"
proof (induction xs arbitrary: ys rule: rev_induct)
  case (snoc y xs)
  show ?case
    using snoc.IH [of "y # ys"] by (simp add: magnitude_def nth_append list_update_append)
qed simp

lemma insert_back_mset [simp]: "mset (insert_back x ys) = add_mset x (mset ys)"
  by (induction ys) auto

abbreviation ascending :: "breakdownLine list \<Rightarrow> bool" where
  "ascending ls \<equiv> sorted_wrt (\<lambda>a b. magnitude a \<le> magnitude b) ls"

lemma insert_back_sorted:
  assumes "ascending ys" "\<forall>l \<in> set (x # ys). magnitude l \<noteq> NaN"
  shows "ascending (insert_back x ys)"
  using assms
proof (induction ys)
  case (Cons y ys)
  have set: "set (insert_back x ys) = insert x (set ys)" by (metis insert_back_mset set_mset_add_mset_insert set_mset_mset)
  show ?case
  proof (cases "magnitude y < magnitude x")
    case True
    then show ?thesis using Cons set by (auto simp: f64_less_imp_le)
  next
    case False
    then have "magnitude x \<le> magnitude y" using Cons.prems(2) f64_not_less by simp
    then show ?thesis using Cons.prems False by (auto intro: f64_le_trans)
  qed
qed simp

lemma rank_fold:
  assumes "\<forall>l \<in> set ls. magnitude l \<noteq> NaN" "1 \<le> i" "i \<le> length ls"
  shows "\<exists>P. fold rank_down [1..<i] ls = rev P @ drop i ls \<and> length P = i \<and> ascending P \<and> mset P = mset (take i ls)"
  using assms(2,3)
proof (induction i rule: dec_induct)
  case base
  then show ?case by (cases ls) (auto intro!: exI [of _ "[hd ls]"])
next
  case (step i)
  then obtain P where P: "fold rank_down [1..<i] ls = rev P @ drop i ls" "length P = i" "ascending P" "mset P = mset (take i ls)"
    by auto
  have i: "i < length ls" "1 \<le> i" using step by simp_all
  let ?x = "ls ! i"
  have d: "drop i ls = ?x # drop (Suc i) ls" using i by (simp add: Cons_nth_drop_Suc)
  have "fold rank_down [1..<Suc i] ls = rank_down (length (rev P)) (rev P @ ?x # drop (Suc i) ls)"
    using P(1,2) i d by simp
  also have "\<dots> = rev (insert_back ?x P) @ drop (Suc i) ls" unfolding rank_down_inserts by simp
  finally have f: "fold rank_down [1..<Suc i] ls = rev (insert_back ?x P) @ drop (Suc i) ls" .
  have "set P \<subseteq> set ls" using P(4) by (metis set_mset_mset set_take_subset)
  then have "ascending (insert_back ?x P)" using P(3) assms(1) i by (intro insert_back_sorted) auto
  moreover have "mset (insert_back ?x P) = mset (take (Suc i) ls)" using P(4) i by (simp add: take_Suc_conv_app_nth)
  moreover have "length (insert_back ?x P) = Suc i" using P(2) by (metis insert_back_mset size_add_mset size_mset)
  ultimately show ?case using f by blast
qed

lemma bd_abs_NaN: "bd_abs x \<noteq> NaN \<longleftrightarrow> x \<noteq> NaN"
  by (cases x) (simp_all add: bd_abs_def zero_float64_def)

text \<open>The ranking of a breakdown keeps every line, with its figure, and puts the larger magnitudes first,
  in whatever order the map was visited and unless a figure is not a number.\<close>

theorem rankedBreakdown_sorted:
  assumes "\<forall>(k, v) \<in> set entries. v \<noteq> NaN"
  shows "mset (map (\<lambda>l. (bl_key l, bl_pnl l)) (rankedBreakdown entries)) = mset entries \<and>
    sorted_wrt (\<lambda>a b. bd_abs (bl_pnl b) \<le> bd_abs (bl_pnl a)) (rankedBreakdown entries)"
proof (cases "entries = []")
  case False
  let ?ls = "map (\<lambda>(k, v). \<lparr>bl_key = k, bl_pnl = v\<rparr>) entries"
  have "\<forall>l \<in> set ?ls. magnitude l \<noteq> NaN" using assms by (auto simp: magnitude_def bd_abs_NaN)
  moreover have "1 \<le> length ?ls" using False by (cases entries) simp_all
  ultimately obtain P where P: "rankedBreakdown entries = rev P" "ascending P" "mset P = mset ?ls"
    using rank_fold [of ?ls "length ?ls"] by (auto simp: rankedBreakdown_def)
  have "mset (map (\<lambda>l. (bl_key l, bl_pnl l)) (rev P)) = image_mset (\<lambda>l. (bl_key l, bl_pnl l)) (mset ?ls)"
    by (simp only: mset_map [of _ "rev P"] mset_rev P(3))
  also have "\<dots> = mset entries" by (simp add: multiset.map_comp case_prod_unfold comp_def)
  finally show ?thesis using P(1,2) by (simp add: magnitude_def sorted_wrt_rev)
qed (simp add: rankedBreakdown_def)

section \<open>Examples\<close>

definition closed_position :: "string \<Rightarrow> Time \<Rightarrow> rat \<Rightarrow> Position" where
  "closed_position t c x = \<lparr>pos_ID = 1, pos_Ticker = t, pos_Side = SideLong, pos_Quantity = 1, pos_EntryPrice = Fin 100,
     pos_StopLoss = 0, pos_TakeProfit = 0, pos_Sector = ''IT'', pos_Status = PositionClosed, pos_ExecutionRef = '''',
     pos_ExitPrice = 0, pos_PnL = Fin x, pos_ExitReason = ReasonSquareOff, pos_ClosedAt = c\<rparr>"

lemma ComputeSummary_any_order_witness:
  "ComputeSummary 0 [closed_position ''TCS'' 1 5, closed_position ''INFY'' 2 (-3)] =
   ComputeSummary 0 [closed_position ''INFY'' 2 (-3), closed_position ''TCS'' 1 5]"
  by (rule ComputeSummary_any_order) (auto simp: closed_position_def inj_on_def)

lemma ComputeSummary_bounds_witness: "sm_Losses (ComputeSummary 0 [closed_position ''INFY'' 2 (-3)]) = 1"
  using ComputeSummary_bounds [of "[closed_position ''INFY'' 2 (-3)]" 0]
  by (simp add: closed_position_def closed_only_def)

lemma ComputeSummary_exact_witness:
  "sm_TotalPnL (ComputeSummary 0 [closed_position ''TCS'' 1 5, closed_position ''INFY'' 2 (-3)]) = Fin 2"
  using ComputeSummary_exact [of "[closed_position ''TCS'' 1 5, closed_position ''INFY'' 2 (-3)]"
      "\<lambda>p. if pos_Ticker p = ''TCS'' then 5 else -3" 0]
  by (simp add: closed_position_def f64_of_int_def)

lemma rankedBreakdown_sorted_witness:
  "mset (map (\<lambda>l. (bl_key l, bl_pnl l)) (rankedBreakdown [(''TCS'', Fin 1), (''INFY'', Fin (-3))])) =
   mset [(''TCS'', Fin 1), (''INFY'', Fin (-3))]"
  using rankedBreakdown_sorted [of "[(''TCS'', Fin 1), (''INFY'', Fin (-3))]"] by simp

end
