(* ===== verification/Programs.thy ===== *)
theory Programs
  imports JetStream Archive Database "HOL-Library.List_Lexorder" "HOL-Library.Char_ord"
begin

text \<open>
  The programs: \<open>src/main/main.go\<close>, which prepares the database and starts and stops the agents, and
  \<open>src/tools/replay/main.go\<close>; with what they prepare: \<open>src/pkg/utils/env.go\<close>, \<open>src/pkg/database/db.go\<close> and
  \<open>migrate.go\<close>. The constructors and the methods of the agents, the database driver, the embedded files and the
  library that reads a \<open>.env\<close> file are arguments.
\<close>

section \<open>The environment\<close>

text \<open>A directory is the list of its components from the root, whose parent is itself.\<close>

fun find_env :: "nat \<Rightarrow> string list \<Rightarrow> (string list \<Rightarrow> bool) \<Rightarrow> string list option" where
  "find_env 0 dir exists = None"
| "find_env (Suc n) dir exists =
     (let path = dir @ [''.env'']
      in if exists path then Some path
         else if dir = [] then None
         else find_env n (butlast dir) exists)"

definition LoadEnv :: "error + string list \<Rightarrow> (string list \<Rightarrow> bool) \<Rightarrow> (string list \<Rightarrow> 's \<Rightarrow> error option \<times> 's) \<Rightarrow> 's \<Rightarrow> 's" where
  "LoadEnv getwd exists load s =
     (case getwd of
        Inl _ \<Rightarrow> s
      | Inr dir \<Rightarrow> (case find_env 5 dir exists of None \<Rightarrow> s | Some path \<Rightarrow> snd (load path s)))"

lemma find_env_nearest:
  "find_env n dir exists = Some path \<longleftrightarrow>
     (\<exists>k < n. k \<le> length dir \<and> path = take (length dir - k) dir @ [''.env''] \<and> exists path \<and>
        (\<forall>j < k. \<not> exists (take (length dir - j) dir @ [''.env''])))"
proof (induction n arbitrary: dir)
  case (Suc n)
  show ?case
  proof (cases "exists (dir @ [''.env'']) \<or> dir = []")
    case True
    then show ?thesis by (auto simp: Let_def less_Suc_eq_0_disj)
  next
    case False
    have t: "take (length (butlast dir) - k) (butlast dir) = take (length dir - Suc k) dir" for k
      by (simp add: butlast_conv_take take_take min_def)
    have "(\<exists>k < Suc n. P k) \<longleftrightarrow> P 0 \<or> (\<exists>k < n. P (Suc k))" for P by (auto simp: less_Suc_eq_0_disj)
    moreover have "(\<forall>j < Suc k. P j) \<longleftrightarrow> P 0 \<and> (\<forall>j < k. P (Suc j))" for P k by (auto simp: less_Suc_eq_0_disj)
    moreover have "Suc k \<le> length dir \<longleftrightarrow> k \<le> length (butlast dir)" for k using False by (cases dir) auto
    ultimately show ?thesis using False Suc.IH [of "butlast dir"] unfolding t by (auto simp: Let_def)
  qed
qed simp

text \<open>Of the working directory and its four nearest ancestors the nearest that has a \<open>.env\<close> is the one that is loaded,
  and no other file is.\<close>

theorem LoadEnv_nearest:
  "LoadEnv (Inr dir) exists (\<lambda>path loaded. (None, loaded @ [path])) loaded =
     (if \<exists>k < 5. k \<le> length dir \<and> exists (take (length dir - k) dir @ [''.env''])
      then loaded @ [take (length dir - (LEAST k. exists (take (length dir - k) dir @ [''.env'']))) dir @ [''.env'']]
      else loaded)"
proof (cases "find_env 5 dir exists")
  case None
  have "\<not> (\<exists>k < 5. k \<le> length dir \<and> exists (take (length dir - k) dir @ [''.env'']))"
  proof
    let ?P = "\<lambda>k. k < 5 \<and> k \<le> length dir \<and> exists (take (length dir - k) dir @ [''.env''])"
    assume "\<exists>k < 5. k \<le> length dir \<and> exists (take (length dir - k) dir @ [''.env''])"
    then obtain m where m: "?P m" "\<And>j. j < m \<Longrightarrow> \<not> ?P j" using exists_least_iff [of ?P] by blast
    then have "\<forall>j < m. \<not> exists (take (length dir - j) dir @ [''.env''])" by (meson less_trans less_imp_le le_trans)
    with m(1) have "find_env 5 dir exists = Some (take (length dir - m) dir @ [''.env''])"
      unfolding find_env_nearest by (intro exI [of _ m]) simp
    then show False using None by simp
  qed
  then show ?thesis by (simp add: LoadEnv_def None)
next
  case (Some path)
  then obtain k where k: "k < 5" "k \<le> length dir" "path = take (length dir - k) dir @ [''.env'']" "exists path"
    "\<forall>j < k. \<not> exists (take (length dir - j) dir @ [''.env''])"
    using find_env_nearest [of 5 dir exists path] by blast
  then have "(LEAST k. exists (take (length dir - k) dir @ [''.env''])) = k"
    by (intro Least_equality) (auto simp: not_less [symmetric])
  then show ?thesis using k by (auto simp: LoadEnv_def Some)
qed

section \<open>The database\<close>

definition db_envOrDefault :: "(string \<Rightarrow> string) \<Rightarrow> string \<Rightarrow> string \<Rightarrow> string" where
  "db_envOrDefault getenv key fallback = (let v = getenv key in if v \<noteq> '''' then v else fallback)"

definition db_dsn :: "(string \<Rightarrow> string) \<Rightarrow> string" where
  "db_dsn getenv =
     (let host = db_envOrDefault getenv ''PG_HOST'' ''localhost'';
          port = db_envOrDefault getenv ''PG_PORT'' ''5432'';
          user = db_envOrDefault getenv ''PG_USER'' ''navier'';
          password = getenv ''PG_PASSWORD'';
          dbname = db_envOrDefault getenv ''PG_DATABASE'' ''navier_stocks'';
          sslmode = db_envOrDefault getenv ''PG_SSLMODE'' ''disable''
      in ''host='' @ host @ '' port='' @ port @ '' user='' @ user @ '' password='' @ password @ '' dbname='' @ dbname @
         '' sslmode='' @ sslmode)"

definition db_Connect :: "(string \<Rightarrow> string \<Rightarrow> error + 'd) \<Rightarrow> (string \<Rightarrow> string) \<Rightarrow> error + 'd" where
  "db_Connect sql_Open getenv = sql_Open ''postgres'' (db_dsn getenv)"

section \<open>The migrations\<close>

definition HasSuffix :: "string \<Rightarrow> string \<Rightarrow> bool" where
  "HasSuffix s suffix \<longleftrightarrow> length suffix \<le> length s \<and> drop (length s - length suffix) s = suffix"

record dir_entry =
  de_Name :: string
  de_IsDir :: bool

definition migration_files :: "dir_entry list \<Rightarrow> string list" where
  "migration_files entries = sort (map de_Name (filter (\<lambda>e. \<not> de_IsDir e \<and> HasSuffix (de_Name e) ''.up.sql'') entries))"

fun run_migrations :: "(string \<Rightarrow> error + string) \<Rightarrow> (string \<Rightarrow> 's \<Rightarrow> error option \<times> 's) \<Rightarrow> string list \<Rightarrow> 's \<Rightarrow> error option \<times> 's" where
  "run_migrations ReadFile Exec [] s = (None, s)"
| "run_migrations ReadFile Exec (name # files) s =
     (case ReadFile (''migrations/'' @ name) of
        Inl e \<Rightarrow> (Some (Wrapf (''read migration '' @ name) e), s)
      | Inr data \<Rightarrow>
          (case Exec data s of
             (Some e, s) \<Rightarrow> (Some (Wrapf (''apply migration '' @ name) e), s)
           | (None, s) \<Rightarrow> run_migrations ReadFile Exec files s))"

definition Migrate :: "error + dir_entry list \<Rightarrow> (string \<Rightarrow> error + string) \<Rightarrow> (string \<Rightarrow> 's \<Rightarrow> error option \<times> 's) \<Rightarrow> 's \<Rightarrow> error option \<times> 's" where
  "Migrate ReadDir ReadFile Exec s =
     (case ReadDir of
        Inl e \<Rightarrow> (Some (Wrapf ''read migrations dir'' e), s)
      | Inr entries \<Rightarrow> run_migrations ReadFile Exec (migration_files entries) s)"

text \<open>A driver that logs the scripts it is given and fails on some.\<close>

definition logged :: "(string \<Rightarrow> error option) \<Rightarrow> string \<Rightarrow> string list \<Rightarrow> error option \<times> string list" where
  "logged outcome script applied = (outcome script, applied @ [script])"

text \<open>The scripts up to the first that fails, that one included.\<close>

definition up_to_failure :: "(string \<Rightarrow> error option) \<Rightarrow> string list \<Rightarrow> string list" where
  "up_to_failure outcome scripts =
     takeWhile (\<lambda>x. outcome x = None) scripts @ take 1 (dropWhile (\<lambda>x. outcome x = None) scripts)"

lemma run_migrations_logged:
  assumes "\<And>name. ReadFile (''migrations/'' @ name) = Inr (script name)"
  shows "snd (run_migrations ReadFile (logged outcome) files applied) = applied @ up_to_failure outcome (map script files) \<and>
    (fst (run_migrations ReadFile (logged outcome) files applied) = None \<longleftrightarrow> (\<forall>name \<in> set files. outcome (script name) = None))"
proof (induction files arbitrary: applied)
  case (Cons name files)
  have step: "run_migrations ReadFile (logged outcome) (name # files) applied = (case outcome (script name) of
      Some e \<Rightarrow> (Some (Wrapf (''apply migration '' @ name) e), applied @ [script name])
    | None \<Rightarrow> run_migrations ReadFile (logged outcome) files (applied @ [script name]))"
    by (simp only: run_migrations.simps assms sum.case logged_def prod.case)
  show ?case unfolding step using Cons.IH [of "applied @ [script name]"]
    by (cases "outcome (script name)") (simp_all add: up_to_failure_def)
qed (simp add: up_to_failure_def)

lemma migration_files_mset: "mset entries' = mset entries \<Longrightarrow> migration_files entries' = migration_files entries"
  unfolding migration_files_def by (rule properties_for_sort) (simp_all add: mset_filter)

text \<open>The migrations run in the order of their names, each at most once, whatever the order of the directory; the
  first that fails is the last that runs, and the program starts only if none fails. Nothing remembers
  them: a second boot on the same database applies them all again.\<close>

theorem Migrate_in_order:
  assumes "mset entries' = mset entries" "distinct (map de_Name entries)"
    and "\<And>name. ReadFile (''migrations/'' @ name) = Inr (script name)"
  shows "Migrate (Inr entries') ReadFile (logged outcome) applied = Migrate (Inr entries) ReadFile (logged outcome) applied \<and>
    sorted (migration_files entries) \<and> distinct (migration_files entries) \<and>
    snd (Migrate (Inr entries) ReadFile (logged outcome) applied) = applied @ up_to_failure outcome (map script (migration_files entries)) \<and>
    (fst (Migrate (Inr entries) ReadFile (logged outcome) applied) = None \<longrightarrow>
       snd (Migrate (Inr entries) ReadFile (logged outcome) (snd (Migrate (Inr entries) ReadFile (logged outcome) applied))) =
       applied @ map script (migration_files entries @ migration_files entries))"
proof (intro conjI impI)
  let ?f = "migration_files entries"
  note r = run_migrations_logged [where ReadFile = ReadFile and script = script and files = ?f, OF assms(3)]
  have m: "Migrate (Inr entries) ReadFile (logged outcome) l = run_migrations ReadFile (logged outcome) ?f l" for l
    by (simp add: Migrate_def)
  show "Migrate (Inr entries') ReadFile (logged outcome) applied = Migrate (Inr entries) ReadFile (logged outcome) applied"
    using migration_files_mset [OF assms(1)] by (simp add: Migrate_def)
  show "sorted ?f" by (simp add: migration_files_def)
  show "distinct ?f" using assms(2) by (simp add: migration_files_def distinct_map_filter)
  show "snd (Migrate (Inr entries) ReadFile (logged outcome) applied) = applied @ up_to_failure outcome (map script ?f)"
    unfolding m by (rule conjunct1 [OF r])
  assume "fst (Migrate (Inr entries) ReadFile (logged outcome) applied) = None"
  then have "\<forall>name \<in> set ?f. outcome (script name) = None" unfolding m using r by blast
  then have "up_to_failure outcome (map script ?f) = map script ?f" by (simp add: up_to_failure_def takeWhile_eq_all_conv [THEN iffD2] dropWhile_eq_Nil_conv [THEN iffD2])
  then show "snd (Migrate (Inr entries) ReadFile (logged outcome) (snd (Migrate (Inr entries) ReadFile (logged outcome) applied))) =
      applied @ map script (?f @ ?f)"
    unfolding m using r [where outcome = outcome] by simp
qed

section \<open>Starting and stopping the agents\<close>

text \<open>A constructor is a call that may fail. \<open>start_agents\<close> is the loop of \<open>main\<close>: it gives the agents whose goroutine
  has been started, and the name of the one whose constructor failed, if one did.\<close>

type_synonym ('a, 's) agentDef = "string \<times> ('s \<Rightarrow> (error + 'a) \<times> 's)"

fun start_agents :: "('a, 's) agentDef list \<Rightarrow> 's \<Rightarrow> (string \<times> 'a) list \<times> string option \<times> 's" where
  "start_agents [] s = ([], None, s)"
| "start_agents ((name, new) # defs) s =
     (case new s of
        (Inl e, s) \<Rightarrow> ([], Some name, s)
      | (Inr a, s) \<Rightarrow> (case start_agents defs s of (running, failed, s) \<Rightarrow> ((name, a) # running, failed, s)))"

definition agent_table :: "('s \<Rightarrow> (error + 'a) \<times> 's) \<Rightarrow> ('s \<Rightarrow> (error + 'a) \<times> 's) \<Rightarrow> ('s \<Rightarrow> (error + 'a) \<times> 's) \<Rightarrow>
    ('s \<Rightarrow> (error + 'a) \<times> 's) \<Rightarrow> ('s \<Rightarrow> (error + 'a) \<times> 's) \<Rightarrow> ('a, 's) agentDef list" where
  "agent_table quantitative riskmanager trader sentiment recorder =
     [(''QuantitativeScout'', quantitative), (''RiskManager'', riskmanager), (''TraderGateway'', trader),
      (''SentimentAnalyst'', sentiment), (''MarketRecorder'', recorder)]"

text \<open>\<open>log.Fatalf\<close> ends the process at once: what is running then is not stopped.\<close>

datatype 'a boot = Fatal string "(string \<times> 'a) list" | Up "(string \<times> 'a) list"

definition boot :: "error + 'd \<Rightarrow> ('d \<Rightarrow> 's \<Rightarrow> error option \<times> 's) \<Rightarrow> ('d \<Rightarrow> 's \<Rightarrow> error option \<times> 's) \<Rightarrow> ('a, 's) agentDef list \<Rightarrow> 's \<Rightarrow>
    'a boot \<times> 's" where
  "boot dbconn ping migrate agents s =
     (case dbconn of
        Inl e \<Rightarrow> (Fatal ''Database connect'' [], s)
      | Inr db \<Rightarrow>
          (case ping db s of
             (Some e, s) \<Rightarrow> (Fatal ''Database ping'' [], s)
           | (None, s) \<Rightarrow>
               (case migrate db s of
                  (Some e, s) \<Rightarrow> (Fatal ''Migration'' [], s)
                | (None, s) \<Rightarrow>
                    (case start_agents agents s of
                       (running, Some name, s) \<Rightarrow> (Fatal name running, s)
                     | (running, None, s) \<Rightarrow> (Up running, s)))))"

text \<open>The shutdown: \<open>stop\<close> gives \<open>None\<close> for a \<open>Stop\<close> that does not return. The names are those of the agents whose \<open>Stop\<close>
  has returned.\<close>

fun stop_agents :: "('a \<Rightarrow> 's \<Rightarrow> 's option) \<Rightarrow> (string \<times> 'a) list \<Rightarrow> 's \<Rightarrow> string list \<times> 's" where
  "stop_agents stop [] s = ([], s)"
| "stop_agents stop ((name, a) # running) s =
     (case stop a s of
        None \<Rightarrow> ([], s)
      | Some s \<Rightarrow> (case stop_agents stop running s of (stopped, s) \<Rightarrow> (name # stopped, s)))"

lemma start_agents_prefix:
  "start_agents defs s = (running, failed, s') \<Longrightarrow>
     \<exists>k. k = length running \<and> map fst running = map fst (take k defs) \<and>
       (case failed of None \<Rightarrow> k = length defs | Some name \<Rightarrow> k < length defs \<and> name = fst (defs ! k))"
proof (induction defs arbitrary: s running)
  case (Cons d defs)
  obtain name new where d: "d = (name, new)" by (cases d)
  obtain r s1 where n: "new s = (r, s1)" by (cases "new s")
  show ?case
  proof (cases r)
    case (Inl e)
    then show ?thesis using Cons.prems d n by auto
  next
    case (Inr a)
    obtain running1 where "start_agents defs s1 = (running1, failed, s')" "running = (name, a) # running1"
      using Cons.prems d n Inr by (auto split: prod.splits)
    then show ?thesis using Cons.IH [of s1 running1] d by (auto split: option.splits)
  qed
qed simp

text \<open>The states of a shutdown: agent after agent, as long as each \<open>Stop\<close> returns.\<close>

fun stopped_by :: "('a \<Rightarrow> 's \<Rightarrow> 's option) \<Rightarrow> (string \<times> 'a) list \<Rightarrow> 's \<Rightarrow> 's option" where
  "stopped_by stop [] s = Some s"
| "stopped_by stop ((_, a) # running) s = Option.bind (stop a s) (stopped_by stop running)"

lemma stop_agents_all_before:
  "\<exists>k s1. stop_agents stop running s = (map fst (take k running), s1) \<and> k \<le> length running \<and>
     stopped_by stop (take k running) s = Some s1 \<and> (k < length running \<longrightarrow> stop (snd (running ! k)) s1 = None)"
proof (induction running arbitrary: s)
  case (Cons x running)
  obtain name a where x: "x = (name, a)" by (cases x)
  show ?case
  proof (cases "stop a s")
    case None
    then show ?thesis using x by (intro exI [of _ 0] exI [of _ s]) simp
  next
    case (Some s1)
    obtain k s2 where "stop_agents stop running s1 = (map fst (take k running), s2)" "k \<le> length running"
      "stopped_by stop (take k running) s1 = Some s2" "k < length running \<longrightarrow> stop (snd (running ! k)) s2 = None"
      using Cons.IH by blast
    then show ?thesis using x Some by (intro exI [of _ "Suc k"] exI [of _ s2]) simp
  qed
qed simp

text \<open>C21: The program starts all agents or ends with some of them running. When it is up, all agents of
  the table run, in its order. When a constructor fails the process ends, and exactly the agents
  before it are already running, although the comment promises to abort before any goroutine is launched;
  when the recorder's fails, the other four are, the trader and its exit monitor among them. A shutdown stops the running
  agents one after another in the order of their start; if it does not stop them all, it waits for ever for the first whose
  \<open>Stop\<close> does not return, and those after it are never asked to.\<close>

theorem boot_all_or_cut_off:
  assumes "boot dbconn ping migrate agents s = (b, s')"
  shows "(\<forall>running. b = Up running \<longrightarrow> map fst running = map fst agents \<and>
      (\<exists>k s1. stop_agents stop running s' = (map fst (take k running), s1) \<and> k \<le> length running \<and>
        stopped_by stop (take k running) s' = Some s1 \<and> (k < length running \<longrightarrow> stop (snd (running ! k)) s1 = None))) \<and>
    (\<forall>name running. b = Fatal name running \<and> running \<noteq> [] \<longrightarrow>
       (\<exists>k < length agents. 0 < k \<and> name = fst (agents ! k) \<and> map fst running = map fst (take k agents))) \<and>
    (dbconn = Inr db \<and> fst (ping db s) = None \<and> fst (migrate db (snd (ping db s))) = None \<and>
       (\<forall>new \<in> {quantitative, riskmanager, trader, sentiment}. \<forall>s. \<exists>a s1. new s = (Inr a, s1)) \<and>
       (\<forall>s. \<exists>e s1. recorder s = (Inl e, s1)) \<and> agents = agent_table quantitative riskmanager trader sentiment recorder \<longrightarrow>
       (\<exists>running. b = Fatal ''MarketRecorder'' running \<and>
          map fst running = [''QuantitativeScout'', ''RiskManager'', ''TraderGateway'', ''SentimentAnalyst'']))"
proof (intro conjI impI allI)
  show "map fst running = map fst agents" if "b = Up running" for running
    using assms that by (auto simp: boot_def split: sum.splits prod.splits option.splits dest!: start_agents_prefix)
  show "\<exists>k s1. stop_agents stop running s' = (map fst (take k running), s1) \<and> k \<le> length running \<and>
      stopped_by stop (take k running) s' = Some s1 \<and> (k < length running \<longrightarrow> stop (snd (running ! k)) s1 = None)" for running
    by (rule stop_agents_all_before)
  show "\<exists>k < length agents. 0 < k \<and> name = fst (agents ! k) \<and> map fst running = map fst (take k agents)"
    if "b = Fatal name running \<and> running \<noteq> []" for name running
    using assms that by (auto simp: boot_def split: sum.splits prod.splits option.splits dest!: start_agents_prefix)
  assume h: "dbconn = Inr db \<and> fst (ping db s) = None \<and> fst (migrate db (snd (ping db s))) = None \<and>
       (\<forall>new \<in> {quantitative, riskmanager, trader, sentiment}. \<forall>s. \<exists>a s1. new s = (Inr a, s1)) \<and>
       (\<forall>s. \<exists>e s1. recorder s = (Inl e, s1)) \<and> agents = agent_table quantitative riskmanager trader sentiment recorder"
  let ?s = "snd (migrate db (snd (ping db s)))"
  from h obtain a1 s1 a2 s2 a3 s3 a4 s4 e s5 where
    "quantitative ?s = (Inr a1, s1)" "riskmanager s1 = (Inr a2, s2)" "trader s2 = (Inr a3, s3)" "sentiment s3 = (Inr a4, s4)"
    "recorder s4 = (Inl e, s5)" by (metis insertCI)
  then have "start_agents agents ?s = ([(''QuantitativeScout'', a1), (''RiskManager'', a2), (''TraderGateway'', a3),
      (''SentimentAnalyst'', a4)], Some ''MarketRecorder'', s5)"
    using h by (simp add: agent_table_def)
  then show "\<exists>running. b = Fatal ''MarketRecorder'' running \<and>
      map fst running = [''QuantitativeScout'', ''RiskManager'', ''TraderGateway'', ''SentimentAnalyst'']"
    using assms h by (auto simp: boot_def split: prod.splits)
qed

section \<open>The replay tool\<close>

text \<open>Its flags are arguments. \<open>ended\<close> tells whether the context has ended by the time the engine returns. A fatal
  error ends the process with the connection open; otherwise it is closed by the deferred call.\<close>

datatype replay_exit = ReplayFatal string | ReplayEmpty | ReplayDone int nat bool

definition replay_main :: "'s jetlib \<Rightarrow> (string \<Rightarrow> string) \<Rightarrow> string \<Rightarrow> string \<Rightarrow> float64 \<Rightarrow> Disk \<Rightarrow> (Step \<Rightarrow> bool) \<Rightarrow> bool \<Rightarrow> 's \<Rightarrow>
    replay_exit \<times> 's" where
  "replay_main lib getenv date dir speed disk cancelled ended s =
     (case ConnectJetStream lib getenv s of
        (Inl e, s) \<Rightarrow> (ReplayFatal ''nats'', s)
      | (Inr js, s) \<Rightarrow>
          (case EnsureStream lib StreamTrading js s of
             (Some e, s) \<Rightarrow> (ReplayFatal ''ensure stream'', s)
           | (None, s) \<Rightarrow>
               (case LoadTicks (archive_path dir date) disk of
                  Inl e \<Rightarrow> (ReplayFatal ''load'', s)
                | Inr ticks \<Rightarrow>
                    if length ticks = 0 then (ReplayEmpty, js_Close lib js s)
                    else
                      let steps = Plan ticks speed in
                      case Run_replay (\<lambda>subj data. js_Publish lib subj data js) cancelled steps s of
                        ((published, e), s) \<Rightarrow>
                          if e \<noteq> None \<and> \<not> ended then (ReplayFatal ''run'', s)
                          else (ReplayDone published (length steps) ended, js_Close lib js s))))"

lemma run_from_all:
  assumes "\<forall>m s. \<exists>s'. jl_Publish lib (js_conn js) m s = (None, s') \<and> log_of s' = log_of s @ [m]"
    and "\<forall>t \<in> set (map st_Tick steps). \<exists>j. marshal_tick t = Inr j"
  shows "\<exists>s'. run_from (\<lambda>subj data. js_Publish lib subj data js) (\<lambda>_. False) steps n s = ((n + int (length steps), None), s') \<and>
    log_of s' = log_of s @ map (price_message \<circ> st_Tick) steps"
  using assms(2)
proof (induction steps arbitrary: n s)
  case (Cons step steps)
  then obtain j where j: "marshal_tick (st_Tick step) = Inr j" by auto
  then have m: "price_message (st_Tick step) = (PriceSubject (pt_Ticker (st_Tick step)), j)" by (simp add: price_message_def)
  obtain s1 where p: "jl_Publish lib (js_conn js) (price_message (st_Tick step)) s = (None, s1)"
    "log_of s1 = log_of s @ [price_message (st_Tick step)]" using assms(1) by blast
  then have "js_Publish lib (PriceSubject (pt_Ticker (st_Tick step))) j js s = (None, s1)" by (simp add: js_Publish_def m)
  then show ?case using Cons.IH [of "n + 1" s1] Cons.prems j p(2) by (auto simp: add.commute add.left_commute)
qed simp

text \<open>C11: A recorded day is replayed. Start from a disk without files and record any ticks on any days, each with a line
  short enough for the reader, while opens, closes and writes may fail, but no write stops half-way; then the
  replay of a day that has an acknowledged tick, on a server that takes every message, publishes exactly the
  acknowledged ticks of that day, each once on the subject of its ticker, in the order of their timestamps, and
  reports them all. (After a write that stopped half-way an acknowledged tick can be lost: \<open>append_after_short_write\<close>.)\<close>

theorem recorded_day_replayed:
  assumes "\<forall>(c, t) \<in> set ops. recordable text_len t" "no_short d" "dk_files d = Map.empty"
    and "record_all text_len ops \<lparr>ta_dir = dir, ta_file = None, ta_day = '''', ta_loc = loc\<rparr> d = (acked, a, disk)"
    and "day \<in> fst ` set acked"
    and "ConnectJetStream lib getenv s0 = (Inr js, s1)" "EnsureStream lib StreamTrading js s1 = (None, s2)"
    and "\<forall>m s. \<exists>s'. jl_Publish lib (js_conn js) m s = (None, s') \<and> log_of s' = log_of s @ [m]"
    and "\<forall>s. log_of (jl_Close lib (js_conn js) s) = log_of s"
  shows "\<exists>s'. replay_main lib getenv day dir speed disk (\<lambda>_. False) False s0 =
      (ReplayDone (int (length (of_day day acked))) (length (of_day day acked)) False, s') \<and>
    log_of s' = log_of s2 @ map price_message (sort_key pt_TsInMillis (of_day day acked))"
proof -
  let ?ticks = "sort_key pt_TsInMillis (of_day day acked)"
  have l: "LoadTicks (archive_path dir day) disk = Inr ?ticks" by (rule recorded_day_loads [OF assms(1-5)])
  have "of_day day acked \<noteq> []" using assms(5) by (auto simp: of_day_def filter_empty_conv)
  then have n: "length ?ticks \<noteq> 0" by simp
  have st: "map st_Tick (Plan ?ticks speed) = ?ticks" by (simp add: Plan_def plan_from_ticks)
  then have len: "length (Plan ?ticks speed) = length ?ticks" by (metis length_map)
  have "\<forall>t \<in> set (map st_Tick (Plan ?ticks speed)). \<exists>j. marshal_tick t = Inr j"
    unfolding st using record_all_acked [OF assms(4)] by (fastforce simp: of_day_def)
  from run_from_all [OF assms(8) this, of 0 s2] obtain s3 where
    r: "Run_replay (\<lambda>subj data. js_Publish lib subj data js) (\<lambda>_. False) (Plan ?ticks speed) s2 = ((int (length ?ticks), None), s3)"
    "log_of s3 = log_of s2 @ map price_message ?ticks"
    unfolding Run_replay_def map_map [symmetric] st len by auto
  then show ?thesis using assms(6,7,9) l n len by (simp add: replay_main_def Let_def js_Close_def)
qed

section \<open>Examples\<close>

text \<open>A server that has every stream and keeps what is published.\<close>

definition logging_server :: "message list jetlib" where
  "logging_server = \<lparr>jl_DefaultURL = ''nats://127.0.0.1:4222'', jl_Connect = (\<lambda>_ s. (Inr 0, s)), jl_JetStream = (\<lambda>_ s. (None, s)),
     jl_Close = (\<lambda>_ s. s), jl_ErrStreamNotFound = Sentinel ''nats: stream not found'', jl_StreamInfo = (\<lambda>_ _ s. (None, s)),
     jl_AddStream = (\<lambda>_ _ s. (None, s)), jl_Subscribe = (\<lambda>_ _ _ s. (Inr 0, s)), jl_QueueSubscribe = (\<lambda>_ _ _ _ s. (Inr 0, s)),
     jl_PullSubscribe = (\<lambda>_ _ _ s. (Inr 0, s)), jl_Publish = (\<lambda>_ m s. (None, s @ [m])), jl_PublishMsg = (\<lambda>_ m s. (None, s @ [m]))\<rparr>"

lemma recorded_day_replayed_witness:
  "\<exists>disk s'. replay_main logging_server (\<lambda>_. '''') ''1970-01-01'' ''ticks'' 1 disk (\<lambda>_. False) False [] = (ReplayDone 1 1 False, s') \<and>
     s' = [(''signal.price.TCS'', sample_json)]"
proof -
  obtain a disk where r: "record_all (\<lambda>_. 50) [(0, sample_tick)] new_archive blank_disk = ([(''1970-01-01'', sample_tick)], a, disk)"
    by (simp add: sample_append epoch_day)
  have ops: "\<forall>(c, t) \<in> set [(0 :: Time, sample_tick)]. recordable (\<lambda>_. 50) t" using sample_recordable by simp
  have d: "no_short blank_disk" "dk_files blank_disk = Map.empty" by (simp_all add: no_short_def blank_disk_def)
  have c: "ConnectJetStream logging_server (\<lambda>_. '''') [] = (Inr \<lparr>js_conn = 0, js_durablePrefix = ''''\<rparr>, [])"
    by (simp add: ConnectJetStream_def nats_Connect_def logging_server_def)
  have e: "EnsureStream logging_server StreamTrading \<lparr>js_conn = 0, js_durablePrefix = ''''\<rparr> [] = (None, [])"
    by (simp add: EnsureStream_def StreamTrading_def logging_server_def)
  have p: "\<forall>m s. \<exists>s'. jl_Publish logging_server (js_conn \<lparr>js_conn = 0, js_durablePrefix = ''''\<rparr>) m s = (None, s') \<and> s' = s @ [m]"
    "\<forall>s. jl_Close logging_server (js_conn \<lparr>js_conn = 0, js_durablePrefix = ''''\<rparr>) s = s"
    by (simp_all add: logging_server_def)
  from recorded_day_replayed [where log_of = "\<lambda>s. s" and speed = 1 and day = "''1970-01-01''", OF ops d r [unfolded new_archive_def] _ c e p]
  obtain s' where "replay_main logging_server (\<lambda>_. '''') ''1970-01-01'' ''ticks'' 1 disk (\<lambda>_. False) False [] = (ReplayDone 1 1 False, s')"
    "s' = [price_message sample_tick]" by (auto simp: of_day_def)
  then show ?thesis using sample_marshal by (auto simp: price_message_def sample_tick_def subject_defs)
qed

lemma Migrate_in_order_witness:
  "snd (Migrate (Inr [\<lparr>de_Name = ''2.up.sql'', de_IsDir = False\<rparr>, \<lparr>de_Name = ''1.up.sql'', de_IsDir = False\<rparr>])
     (\<lambda>name. Inr name) (logged (\<lambda>_. None)) []) = [''migrations/1.up.sql'', ''migrations/2.up.sql'']"
proof -
  let ?e = "[\<lparr>de_Name = ''2.up.sql'', de_IsDir = False\<rparr>, \<lparr>de_Name = ''1.up.sql'', de_IsDir = False\<rparr>]"
  have f: "migration_files ?e = [''1.up.sql'', ''2.up.sql'']"
    by (simp add: migration_files_def HasSuffix_def)
  from Migrate_in_order [of ?e ?e "\<lambda>name. Inr name" "\<lambda>name. ''migrations/'' @ name" "\<lambda>_. None" "[]"]
  show ?thesis by (simp add: f up_to_failure_def)
qed

text \<open>Five agents that start, of which the third never stops: the other two after it are not asked.\<close>

lemma boot_all_or_cut_off_witness:
  "\<exists>running s'. boot (Inr ()) (\<lambda>_ s. (None, s)) (\<lambda>_ s. (None, s))
     (agent_table (\<lambda>s. (Inr (0 :: nat), s)) (\<lambda>s. (Inr 1, s)) (\<lambda>s. (Inr 2, s)) (\<lambda>s. (Inr 3, s)) (\<lambda>s. (Inr 4, s))) () = (Up running, s') \<and>
     length running = 5 \<and>
     (\<exists>k s1. stop_agents (\<lambda>a s. if a = 2 then None else Some s) running s' = (map fst (take k running), s1) \<and> k \<le> 5)"
proof -
  let ?t = "agent_table (\<lambda>s. (Inr (0 :: nat), s :: unit)) (\<lambda>s. (Inr 1, s)) (\<lambda>s. (Inr 2, s)) (\<lambda>s. (Inr 3, s)) (\<lambda>s. (Inr 4, s))"
  obtain running s' where b: "boot (Inr ()) (\<lambda>_ s. (None, s)) (\<lambda>_ s. (None, s)) ?t () = (Up running, s')"
    by (simp add: boot_def agent_table_def)
  note c = boot_all_or_cut_off [OF b, where stop = "\<lambda>a s. if a = 2 then None else Some s", THEN conjunct1, rule_format, OF refl]
  have "length (map fst running) = length (map fst ?t)" by (simp only: conjunct1 [OF c])
  then have n: "length running = 5" by (simp add: agent_table_def)
  from conjunct2 [OF c] obtain k s1 where
    "stop_agents (\<lambda>a s. if a = 2 then None else Some s) running s' = (map fst (take k running), s1)" "k \<le> length running"
    by (elim exE conjE)
  then show ?thesis using b n by auto
qed

end
