(* ===== verification/ReportTool.thy ===== *)
theory ReportTool
  imports Report Programs Gates
begin

text \<open>
  The report tool \<open>src/tools/report/main.go\<close>: the window given by its flags, the query, the summary and its two outputs.
  The flags, the time zones of the process and of the database driver (zones whose offset does not change), and the order in which Go visits a
  map are arguments. The layout of the table, which is \<open>tabwriter\<close>'s, is left out: a row is its label and its figures.
\<close>

section \<open>The window\<close>

definition leap_year :: "int \<Rightarrow> bool" where
  "leap_year y \<longleftrightarrow> y mod 4 = 0 \<and> (y mod 100 \<noteq> 0 \<or> y mod 400 = 0)"

definition days_in_month :: "int \<Rightarrow> int \<Rightarrow> int" where
  "days_in_month y m = (if m = 2 then (if leap_year y then 29 else 28) else if m \<in> {4, 6, 9, 11} then 30 else 31)"

text \<open>The day of a date, counted like \<open>ymd_of_day\<close> counts.\<close>

definition day_of_ymd :: "int \<Rightarrow> int \<Rightarrow> int \<Rightarrow> int" where
  "day_of_ymd y m d =
     (let y = (if m \<le> 2 then y - 1 else y); era = y div 400; yoe = y mod 400;
          mp = (if 2 < m then m - 3 else m + 9); doy = (153 * mp + 2) div 5 + d - 1
      in era * 146097 + yoe * 365 + yoe div 4 - yoe div 100 + doy - 719468)"

text \<open>What \<open>main\<close> uses of Go's library: \<open>time.ParseInLocation\<close> with the layout \<open>2006-01-02\<close>.\<close>

definition parse_day :: "string \<Rightarrow> error + int" where
  "parse_day s =
     (let y = take 4 s; m = take 2 (drop 5 s); d = drop 8 s
      in if length s \<noteq> 10 \<or> s ! 4 \<noteq> CHR ''-'' \<or> s ! 7 \<noteq> CHR ''-'' \<or> \<not> list_all is_digit (y @ m @ d)
         then Inl (NewErr ''parsing time'')
         else let y = digits_value y; m = digits_value m; d = digits_value d
              in if m < 1 \<or> 12 < m then Inl (NewErr ''parsing time: month out of range'')
                 else if d < 1 \<or> days_in_month y m < d then Inl (NewErr ''parsing time: day out of range'')
                 else Inr (day_of_ymd y m d))"

lemma parse_day_examples:
  "parse_day ''1970-01-01'' = Inr 0" "parse_day ''2000-02-29'' = Inr 11016"
  "\<exists>e. parse_day ''1900-02-29'' = Inl e" "\<exists>e. parse_day ''2026-8-1'' = Inl e"
  by (code_simp, code_simp, (rule exI, code_simp)+)

text \<open>Midnight in a zone \<open>off\<close> seconds ahead.\<close>

definition midnight :: "int \<Rightarrow> int \<Rightarrow> Time" where
  "midnight off day = day * day_ns - off * nsec"

definition next_day :: "Time \<Rightarrow> Time" where "next_day t = t + day_ns"

lemma window_days: "midnight off a \<le> t \<and> t < next_day (midnight off b) \<longleftrightarrow> a \<le> civil_day off t \<and> civil_day off t \<le> b"
proof -
  have w: "midnight off a \<le> t \<longleftrightarrow> a * day_ns \<le> t + off * nsec" "t < next_day (midnight off b) \<longleftrightarrow> t + off * nsec < (b + 1) * day_ns"
    by (auto simp: midnight_def next_day_def algebra_simps)
  have lt: "x < c * day_ns \<longleftrightarrow> x div day_ns < c" for x c
  proof -
    have x: "x = x div day_ns * day_ns + x mod day_ns" "0 \<le> x mod day_ns" "x mod day_ns < day_ns" by simp_all
    show ?thesis
    proof
      assume "x < c * day_ns"
      then have "x div day_ns * day_ns < c * day_ns" using x by linarith
      then show "x div day_ns < c" by (rule mult_right_less_imp_less) (simp add: less_imp_le)
    next
      assume "x div day_ns < c"
      then have "(x div day_ns + 1) * day_ns \<le> c * day_ns" by (intro mult_right_mono) (simp_all add: less_imp_le)
      then have "x div day_ns * day_ns + day_ns \<le> c * day_ns" by (simp only: distrib_right mult_1_left)
      then show "x < c * day_ns" using x by linarith
    qed
  qed
  have "a * day_ns \<le> x \<longleftrightarrow> a \<le> x div day_ns" "x < (b + 1) * day_ns \<longleftrightarrow> x div day_ns \<le> b" for x
    using lt [of x a] lt [of x "b + 1"] by linarith+
  with w show ?thesis by (simp add: civil_day_def)
qed

section \<open>The outputs\<close>

text \<open>Go writes the entries of a map in the order of their keys.\<close>

fun enc_entries :: "(string \<times> float64) list \<Rightarrow> error + (string \<times> json) list" where
  "enc_entries [] = Inr []"
| "enc_entries ((k, x) # es) =
     (case enc_float x of
        Inl e \<Rightarrow> Inl e
      | Inr j \<Rightarrow> (case enc_entries es of Inl e \<Rightarrow> Inl e | Inr kvs \<Rightarrow> Inr ((k, j) # kvs)))"

definition map_field :: "string \<Rightarrow> (string \<times> float64) list \<Rightarrow> field" where
  "map_field k es = (k, False, map_sum id JObj (enc_entries (sort_key fst es)))"

definition summary_fields :: "((string \<rightharpoonup> float64) \<Rightarrow> (string \<times> float64) list) \<Rightarrow> Summary \<Rightarrow> field list" where
  "summary_fields visit s = [
     int_field ''closed_trades'' (sm_ClosedTrades s), float_field ''total_pnl'' (sm_TotalPnL s),
     int_field ''wins'' (sm_Wins s), int_field ''losses'' (sm_Losses s), float_field ''win_rate'' (sm_WinRate s),
     float_field ''avg_win'' (sm_AvgWin s), float_field ''avg_loss'' (sm_AvgLoss s), float_field ''max_drawdown'' (sm_MaxDrawdown s),
     map_field ''by_ticker'' (visit (sm_ByTicker s)), map_field ''by_day'' (visit (sm_ByDay s)),
     map_field ''by_exit_reason'' (visit (sm_ByExitReason s))]"

text \<open>A figure is printed as an integer, with two decimals, or as a percentage with one.\<close>

datatype figure = Count int | Amount float64 | Percent float64

type_synonym report_row = "string \<times> figure list"

definition breakdown_rows :: "(string \<times> float64) list \<Rightarrow> report_row list" where
  "breakdown_rows entries = map (\<lambda>l. (bl_key l, [Amount (bl_pnl l)])) (rankedBreakdown entries)"

definition printTable :: "((string \<rightharpoonup> float64) \<Rightarrow> (string \<times> float64) list) \<Rightarrow> Summary \<Rightarrow> report_row list" where
  "printTable visit s =
     [(''Closed trades:'', [Count (sm_ClosedTrades s)]), (''Total P&L:'', [Amount (sm_TotalPnL s)]),
      (''Wins / Losses:'', [Count (sm_Wins s), Count (sm_Losses s)]), (''Win rate:'', [Percent (sm_WinRate s * f64_of_int 100)]),
      (''Avg win / Avg loss:'', [Amount (sm_AvgWin s), Amount (sm_AvgLoss s)]), (''Max drawdown:'', [Amount (sm_MaxDrawdown s)])] @
     (''By day:'', []) # breakdown_rows (visit (sm_ByDay s)) @
     (''By ticker:'', []) # breakdown_rows (visit (sm_ByTicker s)) @
     (''By exit reason:'', []) # breakdown_rows (visit (sm_ByExitReason s))"

section \<open>The tool\<close>

datatype report_exit = ReportFatal string | ReportJson json | ReportTable "report_row list"

definition report_main :: "int \<Rightarrow> int \<Rightarrow> ((string \<rightharpoonup> float64) \<Rightarrow> (string \<times> float64) list) \<Rightarrow>
    (string \<Rightarrow> string \<Rightarrow> error + 'd) \<Rightarrow> (string \<Rightarrow> string) \<Rightarrow> created_column \<Rightarrow> string \<Rightarrow> string \<Rightarrow> bool \<Rightarrow> World \<Rightarrow> report_exit \<times> World" where
  "report_main zone driver_zone visit sql_Open getenv col fromStr toStr asJSON w =
     (case parse_day fromStr of
        Inl _ \<Rightarrow> (ReportFatal ''invalid -from'', w)
      | Inr a \<Rightarrow>
          (case parse_day toStr of
             Inl _ \<Rightarrow> (ReportFatal ''invalid -to'', w)
           | Inr b \<Rightarrow>
               (case db_Connect sql_Open getenv of
                  Inl _ \<Rightarrow> (ReportFatal ''connect'', w)
                | Inr _ \<Rightarrow>
                    (case ClosedPositions col (midnight zone a) (next_day (midnight zone b)) w of
                       (Inl _, w) \<Rightarrow> (ReportFatal ''load closed positions'', w)
                     | (Inr positions, w) \<Rightarrow>
                         let summary = ComputeSummary driver_zone positions
                         in if asJSON
                            then (case marshal (summary_fields visit summary) of
                                    Inl _ \<Rightarrow> (ReportFatal ''encode summary'', w)
                                  | Inr j \<Rightarrow> (ReportJson j, w))
                            else (ReportTable (printTable visit summary), w)))))"

definition closed_between :: "int \<Rightarrow> (position_row \<Rightarrow> Time) \<Rightarrow> int \<Rightarrow> int \<Rightarrow> position_row list \<Rightarrow> Position list" where
  "closed_between zone created a b rows =
     map (scan_closed created) (sort_key (closed_time created)
       (filter (\<lambda>r. pr_status r = ''CLOSED'' \<and> a \<le> civil_day zone (closed_time created r) \<and> civil_day zone (closed_time created r) \<le> b) rows))"

lemma ClosedPositions_days:
  "ClosedPositions (Some created) (midnight zone a) (next_day (midnight zone b)) (w\<lparr>w_db_faults := []\<rparr>) =
     (Inr (closed_between zone created a b (w_positions w)), w\<lparr>w_db_faults := []\<rparr>)"
  using window_days [of zone a _ b]
  by (simp add: ClosedPositions_def closed_positions_stmt_def db_call_def wrap_error_def closed_between_def conj_assoc)

text \<open>C33: What the report tool reports. Over the schema of the repository it never reports: with valid dates and a
  connection it ends with a failed query, whatever the tables hold. Over a table with the column that its query
  asks for, and without faults, the table it prints is the summary of the positions closed on the days from the
  first to the last date, both included, in the zone of the process.\<close>

theorem report_tool:
  assumes "parse_day fromStr = Inr a" "parse_day toStr = Inr b" "db_Connect sql_Open getenv = Inr db"
  shows "fst (report_main zone driver_zone visit sql_Open getenv migrated_created_at fromStr toStr asJSON w) =
      ReportFatal ''load closed positions'' \<and>
    report_main zone driver_zone visit sql_Open getenv (Some created) fromStr toStr False (w\<lparr>w_db_faults := []\<rparr>) =
      (ReportTable (printTable visit (ComputeSummary driver_zone (closed_between zone created a b (w_positions w)))), w\<lparr>w_db_faults := []\<rparr>)"
proof
  obtain e w' where "ClosedPositions migrated_created_at (midnight zone a) (next_day (midnight zone b)) w = (Inl e, w')"
    by (cases "next_fault (w_db_faults w)")
      (simp_all add: ClosedPositions_def migrated_created_at_def closed_positions_stmt_def db_call_def wrap_error_def)
  then show "fst (report_main zone driver_zone visit sql_Open getenv migrated_created_at fromStr toStr asJSON w) =
      ReportFatal ''load closed positions''"
    using assms by (simp add: report_main_def)
  show "report_main zone driver_zone visit sql_Open getenv (Some created) fromStr toStr False (w\<lparr>w_db_faults := []\<rparr>) =
      (ReportTable (printTable visit (ComputeSummary driver_zone (closed_between zone created a b (w_positions w)))), w\<lparr>w_db_faults := []\<rparr>)"
    using assms by (simp add: report_main_def ClosedPositions_days)
qed

lemma report_tool_witness:
  "fst (report_main 19800 0 (\<lambda>_. []) (\<lambda>_ _. Inr ()) (\<lambda>_. '''') migrated_created_at ''1970-01-01'' ''2000-02-29'' True empty_world) =
     ReportFatal ''load closed positions''"
  using report_tool [OF parse_day_examples(1,2), of "\<lambda>_ _. Inr ()" "\<lambda>_. ''''" "()"] by (simp add: db_Connect_def)

end
