(* ===== verification/Calendar.thy ===== *)
theory Calendar
  imports ReportTool
begin

text \<open>
  The calendar dates the programs print and read: the day of a date and the date of a day are inverse, and what
  \<open>Format\<close> writes with the layout \<open>2006-01-02\<close> is read back by \<open>ParseInLocation\<close>. So the default
  flags of the report tool are always dates, and its default window is the last 31 days.
\<close>

section \<open>Digits\<close>

lemma length_digits_small: "n < 10 \<Longrightarrow> length (digits_of_nat n) = 1"
  by (subst digits_of_nat.simps) simp

lemma length_digits_step: "10 \<le> n \<Longrightarrow> length (digits_of_nat n) = Suc (length (digits_of_nat (n div 10)))"
  by (subst digits_of_nat.simps) (simp add: Let_def)

lemma length_digits_exact:
  "0 \<le> i \<Longrightarrow> i < 10 \<Longrightarrow> length (string_of_int i) = 1"
  "10 \<le> i \<Longrightarrow> i < 100 \<Longrightarrow> length (string_of_int i) = 2"
  "100 \<le> i \<Longrightarrow> i < 1000 \<Longrightarrow> length (string_of_int i) = 3"
  "1000 \<le> i \<Longrightarrow> i < 10000 \<Longrightarrow> length (string_of_int i) = 4"
  by (simp_all add: string_of_int_def length_digits_small length_digits_step)

lemma digits_value_zero: "digits_value (CHR ''0'' # s) = digits_value s"
  by (simp add: digits_value_def)

lemma zero_digit [simp]: "is_digit (CHR ''0'')"
  by (simp add: is_digit_def)

lemma pad2_read: "0 \<le> i \<Longrightarrow> i < 100 \<Longrightarrow> length (pad2 i) = 2 \<and> digits_value (pad2 i) = i \<and> list_all is_digit (pad2 i)"
  using string_of_int_value [of i] length_digits_exact(1,2) [of i] by (auto simp: pad2_def digits_value_zero)

lemma pad4_read: "0 \<le> i \<Longrightarrow> i < 10000 \<Longrightarrow> length (pad4 i) = 4 \<and> digits_value (pad4 i) = i \<and> list_all is_digit (pad4 i)"
  using string_of_int_value [of i] length_digits_exact [of i] by (auto simp: pad4_def digits_value_zero)

section \<open>The 400-year era\<close>

text \<open>The first day of year \<open>y\<close> of an era, counted from its first of March; the era has 146097 days.\<close>

definition year_start :: "int \<Rightarrow> int" where
  "year_start y = 365 * y + y div 4 - y div 100 + (if y = 400 then 1 else 0)"

definition year_of_era :: "int \<Rightarrow> int" where
  "year_of_era doe = (doe - doe div 1460 + doe div 36524 - doe div 146096) div 365"

text \<open>The last month of a year, February, has its 29th day, number 365 of the year, only when the year is a leap year.\<close>

lemma years_checked:
  "list_all (\<lambda>y. year_of_era (year_start y) = y \<and> year_of_era (year_start (y + 1) - 1) = y \<and>
     year_start (y + 1) - year_start y = (if leap_year (y + 1) then 366 else 365)) [0..399]"
  by code_simp

lemma months_checked:
  "list_all (\<lambda>doy. let mp = (5 * doy + 2) div 153; dd = doy - (153 * mp + 2) div 5 + 1; mm = (if mp < 10 then mp + 3 else mp - 9)
     in 1 \<le> mm \<and> mm \<le> 12 \<and> 1 \<le> dd \<and> dd \<le> days_in_month (if doy = 365 then 0 else 1) mm \<and>
        (if 2 < mm then mm - 3 else mm + 9) = mp) [0..365]"
  by code_simp

lemma int_div_succ: "0 < a \<Longrightarrow> (d + 1) div a = d div a + (if a dvd d + 1 then 1 else 0)" for a d :: int
proof -
  assume a: "0 < a"
  define q r where "q = d div a" and "r = d mod a"
  have d: "d = a * q + r" "0 \<le> r" "r < a" using a by (simp_all add: q_def r_def)
  show ?thesis
  proof (cases "r + 1 = a")
    case True
    then have "d + 1 = a * (q + 1)" using d(1) by (simp add: algebra_simps)
    then show ?thesis using a by (simp add: q_def)
  next
    case False
    then have r: "0 < r + 1" "r + 1 < a" using d by simp_all
    have e: "d + 1 = (r + 1) + a * q" using d(1) by simp
    have m: "(d + 1) mod a = r + 1" unfolding e using r by simp
    have "(d + 1) div a = q" unfolding e using r by simp
    moreover have "\<not> a dvd d + 1" using m r(1) by (simp add: dvd_eq_mod_eq_0)
    ultimately show ?thesis by (simp add: q_def)
  qed
qed

lemma year_of_era_step: "year_of_era d \<le> year_of_era (d + 1)"
proof -
  have "(36524::int) dvd 146096" by simp
  then have "(146096::int) dvd d + 1 \<Longrightarrow> 36524 dvd d + 1" by (rule dvd_trans)
  then show ?thesis unfolding year_of_era_def by (intro zdiv_mono1) (auto simp: int_div_succ)
qed

lemma year_of_era_mono: "a \<le> b \<Longrightarrow> year_of_era a \<le> year_of_era b"
proof (induction rule: int_ge_induct)
  case (step i)
  then show ?case using year_of_era_step [of i] by linarith
qed simp

lemma year_found: "0 \<le> doe \<Longrightarrow> doe < year_start (int n) \<Longrightarrow> \<exists>k < n. year_start (int k) \<le> doe \<and> doe < year_start (int k + 1)"
proof (induction n)
  case 0
  then show ?case by (simp add: year_start_def)
next
  case (Suc n)
  show ?case
  proof (cases "doe < year_start (int n)")
    case True
    then show ?thesis using Suc.IH Suc.prems(1) less_SucI by blast
  next
    case False
    then show ?thesis using Suc.prems by (intro exI [of _ n]) (simp add: add.commute)
  qed
qed

lemma year_of_era_bounds:
  assumes "0 \<le> doe" "doe < 146097"
  shows "0 \<le> year_of_era doe \<and> year_of_era doe < 400 \<and> year_start (year_of_era doe) \<le> doe \<and>
    doe - year_start (year_of_era doe) \<le> (if leap_year (year_of_era doe + 1) then 365 else 364)"
proof -
  have "doe < year_start (int 400)" using assms(2) by (simp add: year_start_def)
  then obtain k where k: "k < 400" "year_start (int k) \<le> doe" "doe < year_start (int k + 1)"
    using year_found [OF assms(1), of 400] by blast
  then have "int k \<in> set [0..399]" by simp
  then have c: "year_of_era (year_start (int k)) = int k" "year_of_era (year_start (int k + 1) - 1) = int k"
    "year_start (int k + 1) - year_start (int k) = (if leap_year (int k + 1) then 366 else 365)"
    using years_checked unfolding list_all_iff by blast+
  have "year_of_era doe = int k"
    using year_of_era_mono [OF k(2)] year_of_era_mono [of doe "year_start (int k + 1) - 1"] k(3) c(1,2) by linarith
  then show ?thesis using k c(3) by (simp split: if_splits)
qed

lemma leap_year_era: "leap_year (y + e * 400) = leap_year y"
proof -
  have "(y + e * 400) mod 400 = y mod 400" by simp
  moreover have "z mod 4 = z mod 400 mod 4" "z mod 100 = z mod 400 mod 100" for z :: int by (simp_all add: mod_mod_cancel)
  ultimately show ?thesis unfolding leap_year_def by metis
qed

lemma days_in_month_leap: "\<not> leap_year z \<Longrightarrow> days_in_month z m \<le> days_in_month y m" "leap_year z \<Longrightarrow> leap_year y \<Longrightarrow> days_in_month z m = days_in_month y m"
  by (auto simp: days_in_month_def)

text \<open>The day of the date of a day is that day, and the date is one of the calendar.\<close>

lemma ymd_inverse:
  assumes "ymd_of_day d = (y, m, dd)"
  shows "day_of_ymd y m dd = d \<and> 1 \<le> m \<and> m \<le> 12 \<and> 1 \<le> dd \<and> dd \<le> days_in_month y m"
proof -
  define z where "z = d + 719468"
  define era where "era = z div 146097"
  define doe where "doe = z mod 146097"
  define yoe where "yoe = year_of_era doe"
  define doy where "doy = doe - (365 * yoe + yoe div 4 - yoe div 100)"
  define mp where "mp = (5 * doy + 2) div 153"
  define mm where "mm = (if mp < 10 then mp + 3 else mp - 9)"
  have r: "y = yoe + era * 400 + (if m \<le> 2 then 1 else 0)" "m = mm" "dd = doy - (153 * mp + 2) div 5 + 1"
    using assms unfolding ymd_of_day_def Let_def year_of_era_def [symmetric] z_def [symmetric] era_def [symmetric]
      doe_def [symmetric] yoe_def [symmetric] doy_def [symmetric] mp_def [symmetric] mm_def [symmetric] by auto
  have doe: "0 \<le> doe" "doe < 146097" by (simp_all add: doe_def)
  have yoe: "0 \<le> yoe" "yoe < 400" "0 \<le> doy" "doy \<le> (if leap_year (yoe + 1) then 365 else 364)"
    using year_of_era_bounds [OF doe] by (auto simp: yoe_def [symmetric] doy_def year_start_def split: if_splits)
  then have "doy \<in> set [0..365]" by (simp split: if_splits)
  note ck = bspec [OF months_checked [unfolded list_all_iff Let_def] this, folded mp_def, folded mm_def r(3)]
  then have c: "1 \<le> mm" "mm \<le> 12" "1 \<le> dd" "dd \<le> days_in_month (if doy = 365 then 0 else 1) mm"
    "(if 2 < mm then mm - 3 else mm + 9) = mp"
    by blast+
  have "dd \<le> days_in_month y m"
  proof (cases "doy = 365")
    case True
    then have l: "leap_year (yoe + 1)" using yoe(4) by (simp split: if_splits)
    have "mp = 11" using True by (simp add: mp_def)
    then have "y = (yoe + 1) + era * 400" using r(1,2) by (simp add: mm_def)
    then have "leap_year y" using l leap_year_era [of "yoe + 1" era] by simp
    moreover have "leap_year 0" by (simp add: leap_year_def)
    ultimately show ?thesis using c(4) True r(2) days_in_month_leap(2) [of 0 y mm] by simp
  next
    case False
    have "\<not> leap_year 1" by (simp add: leap_year_def)
    then show ?thesis using c(4) False r(2) days_in_month_leap(1) [of 1 mm y] by simp
  qed
  moreover have "day_of_ymd y m dd = d"
  proof -
    have y: "(if m \<le> 2 then y - 1 else y) = yoe + era * 400" using r(1) by simp
    have c5: "(if 2 < m then m - 3 else m + 9) = mp" unfolding r(2) by (rule c(5))
    have e: "(yoe + era * 400) div 400 = era" "(yoe + era * 400) mod 400 = yoe" using yoe(1,2) by simp_all
    have "day_of_ymd y m dd = era * 146097 + yoe * 365 + yoe div 4 - yoe div 100 + ((153 * mp + 2) div 5 + dd - 1) - 719468"
      unfolding day_of_ymd_def Let_def y e c5 by simp
    also have "\<dots> = era * 146097 + doe - 719468" unfolding r(3) doy_def by simp
    also have "\<dots> = d" using div_mult_mod_eq [of z 146097] unfolding era_def doe_def z_def by linarith
    finally show ?thesis .
  qed
  ultimately show ?thesis using c(1-3) r(2) by simp
qed

section \<open>Printing and reading dates\<close>

lemma format_day_read:
  assumes "ymd_of_day d = (y, m, dd)" "0 \<le> y" "y < 10000" shows "parse_day (format_day d) = Inr d"
proof -
  note i = ymd_inverse [OF assms(1)]
  have b: "0 \<le> m" "m < 100" "0 \<le> dd" "dd < 100" using i by (auto simp: days_in_month_def split: if_splits)
  note p = pad4_read [OF assms(2,3)] and q = pad2_read [OF b(1,2)] and r = pad2_read [OF b(3,4)]
  have f: "format_day d = pad4 y @ ''-'' @ pad2 m @ ''-'' @ pad2 dd" using assms(1) by (simp add: format_day_def)
  have t: "take 4 (format_day d) = pad4 y" "take 2 (drop 5 (format_day d)) = pad2 m" "drop 8 (format_day d) = pad2 dd"
    "length (format_day d) = 10" "format_day d ! 4 = CHR ''-''" "format_day d ! 7 = CHR ''-''"
    unfolding f using p q r by (simp_all add: nth_append)
  show ?thesis unfolding parse_day_def Let_def t using p q r i by simp
qed

section \<open>The default window of the report\<close>

text \<open>The default values of the flags: the day thirty days before, and today.\<close>

definition default_flags :: "int \<Rightarrow> Time \<Rightarrow> string \<times> string" where
  "default_flags zone now = (format_day (civil_day zone now - 30), format_day (civil_day zone now))"

lemma ymd_year:
  "ymd_of_day d = (y, m, dd) \<Longrightarrow> y = year_of_era ((d + 719468) mod 146097) + (d + 719468) div 146097 * 400 + (if m \<le> 2 then 1 else 0)"
  by (simp only: ymd_of_day_def year_of_era_def Let_def prod.inject) (elim conjE, simp only:)

lemma recent_year:
  assumes "0 \<le> d" "d < 2700000" shows "\<exists>y m dd. ymd_of_day d = (y, m, dd) \<and> 0 \<le> y \<and> y < 10000"
proof -
  obtain y m dd where e: "ymd_of_day d = (y, m, dd)" by (cases "ymd_of_day d") auto
  define era where "era = (d + 719468) div 146097"
  define yoe where "yoe = year_of_era ((d + 719468) mod 146097)"
  have y: "y = yoe + era * 400 + (if m \<le> 2 then 1 else 0)" using ymd_year [OF e] by (simp only: yoe_def era_def)
  have "0 \<le> yoe" "yoe < 400" using year_of_era_bounds [of "(d + 719468) mod 146097"] by (simp_all add: yoe_def)
  moreover have "0 \<le> era" "era < 24" using assms by (simp_all add: era_def div_less_iff_less_mult)
  ultimately have "0 \<le> y" "y < 10000" using y by (auto split: if_splits)
  with e show ?thesis by blast
qed

text \<open>Without flags the report tool never stumbles over its own dates. On any day from the last of January 1970 for the next seven
  thousand years it reports the positions closed today and on the thirty days before.\<close>

theorem default_report:
  assumes "30 \<le> civil_day zone now" "civil_day zone now < 2700000" "db_Connect sql_Open getenv = Inr db"
    and "default_flags zone now = (fromStr, toStr)"
  shows "report_main zone driver_zone visit sql_Open getenv (Some created) fromStr toStr False (w\<lparr>w_db_faults := []\<rparr>) =
    (ReportTable (printTable visit (ComputeSummary driver_zone
      (closed_between zone created (civil_day zone now - 30) (civil_day zone now) (w_positions w)))), w\<lparr>w_db_faults := []\<rparr>)"
proof -
  have r: "parse_day (format_day d) = Inr d" if "0 \<le> d" "d < 2700000" for d
    using recent_year [OF that] format_day_read by blast
  have "parse_day fromStr = Inr (civil_day zone now - 30)" "parse_day toStr = Inr (civil_day zone now)"
    using assms(1,2,4) r [of "civil_day zone now - 30"] r [of "civil_day zone now"] by (auto simp: default_flags_def)
  then show ?thesis using assms(3) by (simp add: report_main_def ClosedPositions_days)
qed

lemma default_report_witness:
  "\<exists>t. report_main 0 0 (\<lambda>_. []) (\<lambda>_ _. Inr ()) (\<lambda>_. '''') (Some pr_opened_at) ''1970-01-01'' ''1970-01-31'' False
     (empty_world\<lparr>w_db_faults := []\<rparr>) = (ReportTable t, empty_world\<lparr>w_db_faults := []\<rparr>)"
proof -
  have "civil_day 0 (30 * day_ns) = 30" by (simp add: civil_day_def day_ns_def nsec_def)
  moreover have "format_day 30 = ''1970-01-31''" by code_simp
  moreover have "db_Connect (\<lambda>_ _. Inr ()) (\<lambda>_. '''') = Inr ()" by (simp add: db_Connect_def)
  ultimately show ?thesis
    using default_report [of 0 "30 * day_ns" "\<lambda>_ _. Inr ()" "\<lambda>_. ''''" "()" "''1970-01-01''" "''1970-01-31''" 0 "\<lambda>_. []" pr_opened_at empty_world]
    by (simp add: default_flags_def format_day_epoch)
qed

end
