(* ===== verification/Indicators.thy ===== *)
theory Indicators
  imports StatMath
begin

text \<open>
  The indicators of \<open>src/analysts/quantitative/indicators\<close>: volume-weighted average price
  (\<open>vwap.go\<close>), Bollinger Bands (\<open>bollinger.go\<close>) and the volume breakout (\<open>volume.go\<close>). The
  lemmas order the bands, characterise the breakout on volume histories, and relate the running
  average of a session to the one computed at once.
\<close>

section \<open>VWAP\<close>

record VWAPResult =
  vw_VWAP :: float64
  vw_TotalVolume :: float64
  vw_PriceVolume :: float64
  vw_Valid :: bool

definition invalid_vwap :: VWAPResult where
  "invalid_vwap = \<lparr>vw_VWAP = 0, vw_TotalVolume = 0, vw_PriceVolume = 0, vw_Valid = False\<rparr>"

definition VWAP :: "float64 list \<Rightarrow> int list \<Rightarrow> VWAPResult" where
  "VWAP prices volumes =
     (if length prices = 0 \<or> length volumes = 0 \<or> length prices \<noteq> length volumes then invalid_vwap
      else let (pvSum, volSum) =
             foldl (\<lambda>(pvSum, volSum) i.
                 let v = f64_of_int (volumes ! i) in (pvSum + prices ! i * v, volSum + v))
               (0, 0) [0..<length prices]
           in if feq volSum 0 then invalid_vwap
              else \<lparr>vw_VWAP = pvSum / volSum, vw_TotalVolume = volSum, vw_PriceVolume = pvSum, vw_Valid = True\<rparr>)"

text \<open>The type \<open>Candle\<close> of this package is a copy of that of package \<open>quantitative\<close>.\<close>

record Candle =
  c_Open :: float64
  c_High :: float64
  c_Low :: float64
  c_Close :: float64
  c_Volume :: int

definition VWAPFromCandles :: "Candle list \<Rightarrow> VWAPResult" where
  "VWAPFromCandles candles =
     (if length candles = 0 then invalid_vwap
      else VWAP (map c_Close candles) (map c_Volume candles))"

definition VWAPFromCandlesTypical :: "Candle list \<Rightarrow> VWAPResult" where
  "VWAPFromCandlesTypical candles =
     (if length candles = 0 then invalid_vwap
      else VWAP (map (\<lambda>c. (c_High c + c_Low c + c_Close c) / flt 3) candles) (map c_Volume candles))"

record CumulativeVWAP =
  cv_pvSum :: float64
  cv_vSum :: float64

definition NewCumulativeVWAP :: CumulativeVWAP where
  "NewCumulativeVWAP = \<lparr>cv_pvSum = 0, cv_vSum = 0\<rparr>"

definition CumulativeVWAP_Value :: "CumulativeVWAP \<Rightarrow> float64" where
  "CumulativeVWAP_Value cv = (if feq (cv_vSum cv) 0 then 0 else cv_pvSum cv / cv_vSum cv)"

definition CumulativeVWAP_Add :: "CumulativeVWAP \<Rightarrow> float64 \<Rightarrow> int \<Rightarrow> float64 \<times> CumulativeVWAP" where
  "CumulativeVWAP_Add cv price volume =
     (let v = f64_of_int volume;
          cv' = cv\<lparr>cv_pvSum := cv_pvSum cv + price * v, cv_vSum := cv_vSum cv + v\<rparr>
      in (if feq (cv_vSum cv') 0 then 0 else cv_pvSum cv' / cv_vSum cv', cv'))"

definition CumulativeVWAP_Observations :: "CumulativeVWAP \<Rightarrow> float64 \<times> float64" where
  "CumulativeVWAP_Observations cv = (cv_pvSum cv, cv_vSum cv)"

definition VWAPBand :: "float64 \<Rightarrow> float64 \<Rightarrow> float64 \<times> float64" where
  "VWAPBand price vwap =
     (if feq vwap 0 then (0, 0) else (price - vwap, (price / vwap - 1) * flt 100))"

section \<open>Bollinger Bands\<close>

record Bands =
  b_Upper :: float64
  b_Middle :: float64
  b_Lower :: float64

definition bands_of :: "float64 list \<Rightarrow> float64 \<Rightarrow> Bands" where
  "bands_of window multiplier =
     (let middle = Mean window; sd = StdDev window
      in \<lparr>b_Upper = middle + multiplier * sd, b_Middle = middle, b_Lower = middle - multiplier * sd\<rparr>)"

definition BollingerBands :: "float64 list \<Rightarrow> int \<Rightarrow> float64 \<Rightarrow> Bands \<times> bool" where
  "BollingerBands prices period multiplier =
     (if period < 2 \<or> int (length prices) < period
      then (\<lparr>b_Upper = 0, b_Middle = 0, b_Lower = 0\<rparr>, False)
      else (bands_of (drop (length prices - nat period) prices) multiplier, True))"

text \<open>The slice \<open>prices[i : i+period]\<close>.\<close>

definition BollingerBandsSeries :: "float64 list \<Rightarrow> int \<Rightarrow> float64 \<Rightarrow> Bands list" where
  "BollingerBandsSeries prices period multiplier =
     (if period < 2 \<or> int (length prices) < period then []
      else map (\<lambda>i. bands_of (take (nat period) (drop i prices)) multiplier)
             [0..<Suc (length prices - nat period)])"

definition BandWidth :: "Bands \<Rightarrow> float64" where
  "BandWidth b =
     (if feq (b_Middle b) 0 then 0 else (b_Upper b - b_Lower b) / b_Middle b * flt 100)"

definition PercentB :: "float64 \<Rightarrow> Bands \<Rightarrow> float64" where
  "PercentB price b =
     (let denom = b_Upper b - b_Lower b
      in if feq denom 0 then 0 else (price - b_Lower b) / denom)"

section \<open>Volume breakout\<close>

record VolumeResult =
  vr_IsBreakout :: bool
  vr_CurrentVolume :: int
  vr_VolumeSMA :: float64
  vr_Ratio :: float64
  vr_Window :: int

definition DefaultVolumeWindow :: int where "DefaultVolumeWindow = 10"
definition DefaultVolumeThreshold :: float64 where "DefaultVolumeThreshold = flt 2"
definition DefaultBollingerPeriod :: int where "DefaultBollingerPeriod = 20"
definition DefaultBollingerMultiplier :: float64 where "DefaultBollingerMultiplier = flt 2"

definition VolumeBreakout :: "int list \<Rightarrow> int \<Rightarrow> float64 \<Rightarrow> VolumeResult" where
  "VolumeBreakout volumes window threshold =
     (if length volumes < 2 \<or> window < 1 \<or> threshold \<le> 0
      then \<lparr>vr_IsBreakout = False, vr_CurrentVolume = 0, vr_VolumeSMA = 0, vr_Ratio = 0, vr_Window = window\<rparr>
      else
        let current = volumes ! (length volumes - 1);
            lookback = (if int (length volumes - 1) > window then nat window else length volumes - 1);
            baseline = map (\<lambda>i. f64_of_int (volumes ! (length volumes - 1 - lookback + i))) [0..<lookback];
            sma = Mean baseline
        in if feq sma 0
           then \<lparr>vr_IsBreakout = False, vr_CurrentVolume = current, vr_VolumeSMA = 0, vr_Ratio = 0, vr_Window = window\<rparr>
           else let ratio = f64_of_int current / sma
                in \<lparr>vr_IsBreakout = threshold \<le> ratio, vr_CurrentVolume = current, vr_VolumeSMA = sma,
                    vr_Ratio = ratio, vr_Window = window\<rparr>)"

section \<open>The session's running average\<close>

lemma VWAP_fold:
  "n \<le> length prices \<Longrightarrow> length prices = length volumes \<Longrightarrow>
   foldl (\<lambda>(pvSum, volSum) i. let v = f64_of_int (volumes ! i) in (pvSum + prices ! i * v, volSum + v)) (0, 0) [0..<n] =
   CumulativeVWAP_Observations (foldl (\<lambda>cv (p, v). snd (CumulativeVWAP_Add cv p v)) NewCumulativeVWAP (take n (zip prices volumes)))"
proof (induction n)
  case (Suc n)
  then show ?case
    by (simp add: take_Suc_conv_app_nth CumulativeVWAP_Observations_def CumulativeVWAP_Add_def Let_def)
qed (simp add: CumulativeVWAP_Observations_def NewCumulativeVWAP_def)

text \<open>Feeding a session's observations one by one to the running average ends with the value
  that \<open>VWAP\<close> computes over the whole session, whenever that one is valid.\<close>

theorem CumulativeVWAP_session:
  assumes "vw_Valid (VWAP prices volumes)"
  shows "CumulativeVWAP_Value (foldl (\<lambda>cv (p, v). snd (CumulativeVWAP_Add cv p v)) NewCumulativeVWAP
           (zip prices volumes)) = vw_VWAP (VWAP prices volumes)"
proof -
  have len: "length prices = length volumes" "prices \<noteq> []"
    using assms by (auto simp: VWAP_def invalid_vwap_def split: if_splits)
  let ?cv = "foldl (\<lambda>cv (p, v). snd (CumulativeVWAP_Add cv p v)) NewCumulativeVWAP (zip prices volumes)"
  have "foldl (\<lambda>(pvSum, volSum) i. let v = f64_of_int (volumes ! i) in (pvSum + prices ! i * v, volSum + v))
      (0, 0) [0..<length prices] = (cv_pvSum ?cv, cv_vSum ?cv)"
    using VWAP_fold [of "length prices" prices volumes] len by (simp add: CumulativeVWAP_Observations_def)
  with len assms show ?thesis
    by (auto simp: VWAP_def invalid_vwap_def CumulativeVWAP_Value_def split: if_splits)
qed

section \<open>The bands are ordered\<close>

lemma bands_of_ordered:
  assumes p: "\<And>p. p \<in> set window \<Longrightarrow> fbound (pw e) p" and n: "length window \<le> 2 ^ 53"
    and e: "-400 \<le> e" "e \<le> 400" and m: "0 \<le> multiplier" "fbound (pw 100) multiplier"
  shows "is_fin (b_Upper (bands_of window multiplier)) \<and> is_fin (b_Lower (bands_of window multiplier)) \<and>
    b_Lower (bands_of window multiplier) \<le> b_Middle (bands_of window multiplier) \<and>
    b_Middle (bands_of window multiplier) \<le> b_Upper (bands_of window multiplier)"
proof -
  let ?mid = "Mean window" and ?w = "multiplier * StdDev window"
  have e': "-500 \<le> e" "e \<le> 480" "-1022 \<le> e" "e \<le> 970" using e by auto
  have mid: "fbound (pw (e + 102)) ?mid"
    by (rule fbound_mono [OF Mean_fbound [OF p n e'(3,4)]]) auto
  have var: "0 \<le> Variance window" by (rule Variance_nonneg [OF p n e'(1,2)])
  have "fbound (pw (2 * e + 2)) (Variance window)" by (rule Variance_fbound [OF p n e'(1,2)])
  then have vb: "fbound (pw (2 * (e + 1))) (Variance window)" by (simp add: distrib_left)
  have sd0: "0 \<le> StdDev window" unfolding StdDev_def by (rule f64_sqrt_nonneg [OF var])
  have "fbound (pw (e + 1 + 1)) (StdDev window)" unfolding StdDev_def
    by (rule f64_sqrt_fbound [OF var vb]) (use e in auto)
  then have sd: "fbound (pw (e + 2)) (StdDev window)" by (simp add: add.assoc)
  have pw1: "pw 100 * pw (e + 2) = pw (e + 102)"
    by (simp add: pw_add [symmetric] add.commute del: pw_numeral)
  have f1: "is_f64 (Fin (pw (e + 102)))" and f2: "is_f64 (Fin (pw (e + 103)))"
    using e by (auto intro: pw_f64 simp del: is_f64.simps)
  have w: "fbound (pw (e + 102)) ?w"
    using fbound_mult [OF m(2) sd] f1 unfolding pw1 by blast
  have pw2: "pw (e + 102) + pw (e + 102) = pw (e + 103)" using pw_plus_one [of "e + 102"] by (simp add: add.commute)
  have ub: "fbound (pw (e + 103)) (?mid + ?w)" and lb: "fbound (pw (e + 103)) (?mid - ?w)"
    using fbound_add [OF mid w] fbound_diff [OF mid w] f2 unfolding pw2 by blast+
  have "?w \<noteq> NaN" using w fbound_not_NaN by blast
  then have "0 \<le> ?w" by (rule f64_mult_nonneg [OF m(1) sd0])
  moreover have "is_f64 ?mid" by (simp add: Mean_def)
  ultimately have "?mid \<le> ?mid + ?w" and "?mid - ?w \<le> ?mid"
    using mid ub lb fbound_not_NaN by (auto intro: f64_add_nonneg_ge f64_minus_nonneg_le)
  with ub lb show ?thesis using fbound_not_NaN by (simp add: bands_of_def Let_def)
qed

text \<open>From finite prices below 2^400 and a multiplier between 0 and 2^100, \<open>BollingerBands\<close>
  succeeds exactly when the period is at least 2 and there are enough prices, and then the three
  bands are finite numbers with lower \<open>\<le>\<close> middle \<open>\<le>\<close> upper, in spite of rounding.\<close>

theorem BollingerBands_ordered:
  assumes "\<And>p. p \<in> set prices \<Longrightarrow> fbound (pw 400) p" "length prices \<le> 2 ^ 53"
    and "0 \<le> multiplier" "fbound (pw 100) multiplier"
    and "BollingerBands prices period multiplier = (b, ok)"
  shows "(ok \<longleftrightarrow> 2 \<le> period \<and> period \<le> int (length prices)) \<and>
    (ok \<longrightarrow> is_fin (b_Upper b) \<and> is_fin (b_Lower b) \<and> b_Lower b \<le> b_Middle b \<and> b_Middle b \<le> b_Upper b)"
proof (cases "2 \<le> period \<and> period \<le> int (length prices)")
  case True
  have "fbound (pw 400) p" if "p \<in> set (drop (length prices - nat period) prices)" for p
    using assms(1) in_set_dropD [OF that] .
  then show ?thesis
    using bands_of_ordered [of "drop (length prices - nat period) prices" 400 multiplier] True assms
    by (auto simp: BollingerBands_def)
qed (use assms(5) in \<open>auto simp: BollingerBands_def\<close>)

lemma BollingerBands_ordered_witness:
  "b_Lower (fst (BollingerBands [Fin 100, Fin 102, Fin 104] 2 (flt 2))) \<le>
   b_Middle (fst (BollingerBands [Fin 100, Fin 102, Fin 104] 2 (flt 2)))"
proof -
  have "flt 2 = Fin 2" using f64_of_int_exact [of 2] by (simp add: flt_def f64_of_int_def)
  moreover have "fbound (pw 400) p" if "p \<in> set [Fin 100, Fin 102, Fin 104]" for p
    using that by auto
  ultimately show ?thesis
    using BollingerBands_ordered [of "[Fin 100, Fin 102, Fin 104]" "flt 2" 2
        "fst (BollingerBands [Fin 100, Fin 102, Fin 104] 2 (flt 2))"
        "snd (BollingerBands [Fin 100, Fin 102, Fin 104] 2 (flt 2))"] by simp
qed

text \<open>The entries of \<open>BollingerBandsSeries\<close> are what \<open>BollingerBands\<close> returns on the prefixes
  of the prices that end with each window.\<close>

theorem BollingerBandsSeries_prefixes:
  "BollingerBandsSeries prices period multiplier =
     (if snd (BollingerBands prices period multiplier)
      then map (\<lambda>n. fst (BollingerBands (take n prices) period multiplier)) [nat period..<Suc (length prices)]
      else [])"
proof (cases "2 \<le> period \<and> period \<le> int (length prices)")
  case True
  let ?p = "nat period" and ?n = "length prices"
  have "fst (BollingerBands (take (i + ?p) prices) period multiplier) = bands_of (take ?p (drop i prices)) multiplier"
    if "i \<le> ?n - ?p" for i
  proof -
    have "int (min ?n (i + ?p)) \<ge> period" "min ?n (i + ?p) = i + ?p" using True that by linarith+
    then show ?thesis using True by (simp add: BollingerBands_def drop_take not_less)
  qed
  then have "BollingerBandsSeries prices period multiplier =
      map (\<lambda>i. fst (BollingerBands (take (i + ?p) prices) period multiplier)) [0..<Suc (?n - ?p)]"
    using True by (auto simp: BollingerBandsSeries_def simp del: upt_Suc)
  also have "\<dots> = map (\<lambda>n. fst (BollingerBands (take n prices) period multiplier)) (map (\<lambda>i. i + ?p) [0..<Suc (?n - ?p)])"
    by (simp add: comp_def del: upt_Suc)
  also have "map (\<lambda>i. i + ?p) [0..<Suc (?n - ?p)] = [?p..<Suc ?n]"
    using True by (subst map_add_upt) (simp add: Suc_diff_le nat_le_iff)
  finally show ?thesis using True by (simp add: BollingerBands_def del: upt_Suc)
qed (auto simp: BollingerBands_def BollingerBandsSeries_def)

section \<open>When a volume breaks out\<close>

text \<open>A quotient of integers, rounded twice, keeps its place relative to 2.\<close>

lemma double_ratio_exact:
  fixes S k c :: int
  assumes S: "0 < S" "S \<le> 2 ^ 50" and k: "0 < k" "k \<le> 2 ^ 50" and c: "0 \<le> c" "c \<le> 2 ^ 50"
  shows "2 \<le> fl (of_int c / fl (of_int S / of_int k)) \<longleftrightarrow> 2 * S \<le> k * c"
proof -
  let ?S = "of_int S :: rat" and ?k = "of_int k :: rat" and ?c = "of_int c :: rat"
  define m where "m = fl (?S / ?k)"
  have S1: "1 \<le> ?S" "?S \<le> 2 ^ 50" and k1: "1 \<le> ?k" "?k \<le> 2 ^ 50"
    using S k by simp_all
  have "pw (-1022) \<le> pw (-50)" by simp
  also have "\<dots> = 1 / 2 ^ 50" by (simp add: pw_minus_numeral)
  also have "\<dots> \<le> ?S / ?k" using S1 k1 by (simp add: divide_simps)
  finally have lo: "pw (-1022) \<le> ?S / ?k" .
  have m1: "?S / ?k * (1 - 1 / 2 ^ 53) \<le> m" and m2: "m \<le> ?S / ?k * (1 + 1 / 2 ^ 53)"
    using rounding_bounds [OF lo] by (simp_all add: m_def)
  have "0 < ?S / ?k * (1 - 1 / 2 ^ 53)" using S1 k1 by simp
  then have m0: "0 < m" using m1 by linarith
  consider (above) "2 * S + 1 \<le> k * c" | (exact) "k * c = 2 * S" | (below) "k * c \<le> 2 * S - 1" by linarith
  then show ?thesis
  proof cases
    case above
    then have "of_int (2 * S + 1) \<le> (of_int (k * c) :: rat)" by (simp only: of_int_le_iff)
    then have kc: "2 * ?S + 1 \<le> ?k * ?c" by simp
    have "2 * (?S * (1 + 1 / 2 ^ 53)) \<le> 2 * ?S + 1" using S1 by (simp add: algebra_simps)
    with kc have "2 * (?S * (1 + 1 / 2 ^ 53)) \<le> ?k * ?c" by linarith
    then have "2 * (?S / ?k * (1 + 1 / 2 ^ 53)) \<le> ?c" using k1 by (simp add: field_simps)
    with m2 have "2 * m \<le> ?c" by linarith
    then have "2 \<le> ?c / m" using m0 by (simp add: le_divide_eq)
    then have "fl 2 \<le> fl (?c / m)" by (rule fl_mono)
    then show ?thesis using above fl_of_int [of 2] by (simp add: m_def)
  next
    case exact
    then have "of_int (k * c) = (of_int (2 * S) :: rat)" by (simp only:)
    then have q: "?S / ?k = of_int c * pw (-1)" using k1 by (simp add: field_simps pw_minus)
    then have "m = of_int c * pw (-1)" unfolding m_def q using c by (intro fl_rep) auto
    then have "?c / m = 2" using m0 by (simp add: pw_minus field_simps)
    then show ?thesis using exact fl_of_int [of 2] by (simp add: m_def)
  next
    case below
    then have "of_int (k * c) \<le> (of_int (2 * S - 1) :: rat)" by (simp only: of_int_le_iff)
    then have kc: "?k * ?c \<le> 2 * ?S - 1" by simp
    define h :: rat where "h = of_int (2 ^ 53 - 1) * pw (-52)"
    have h: "h = 2 - 1 / 2 ^ 52" "fl h = h" "h < 2"
      unfolding h_def by (simp_all add: pw_minus_numeral) (use fl_rep [of "2 ^ 53 - 1" "-52"] in \<open>simp add: pw_minus_numeral\<close>)
    have "2 * ?S - 1 \<le> h * (?S * (1 - 1 / 2 ^ 53))" unfolding h(1) using S1 by (simp add: algebra_simps)
    with kc have "?k * ?c \<le> h * (?S * (1 - 1 / 2 ^ 53))" by linarith
    then have "?c \<le> h * (?S / ?k * (1 - 1 / 2 ^ 53))" using k1 by (simp add: field_simps)
    also have "\<dots> \<le> h * m" using m1 h by (intro mult_left_mono) auto
    finally have "?c / m \<le> h" using m0 by (simp add: divide_le_eq)
    then have "fl (?c / m) \<le> h" using fl_mono [of "?c / m" h] h(2) by simp
    then show ?thesis using below h(3) by (simp add: m_def)
  qed
qed

text \<open>The volumes a breakout is measured against: the last \<open>window\<close> ones before the current.\<close>

definition preceding :: "int list \<Rightarrow> int \<Rightarrow> int list" where
  "preceding volumes window = drop (length volumes - 1 - nat window) (butlast volumes)"

lemma VolumeBreakout_preceding:
  assumes "2 \<le> length volumes" "1 \<le> window" "\<not> threshold \<le> 0"
  shows "VolumeBreakout volumes window threshold =
     (let sma = Mean (map f64_of_int (preceding volumes window)) in
      if feq sma 0
      then \<lparr>vr_IsBreakout = False, vr_CurrentVolume = last volumes, vr_VolumeSMA = 0, vr_Ratio = 0, vr_Window = window\<rparr>
      else let ratio = f64_of_int (last volumes) / sma
           in \<lparr>vr_IsBreakout = threshold \<le> ratio, vr_CurrentVolume = last volumes, vr_VolumeSMA = sma,
               vr_Ratio = ratio, vr_Window = window\<rparr>)"
proof -
  define n where "n = length volumes - 1"
  define k where "k = (if int n > window then nat window else n)"
  have "volumes \<noteq> []" using assms by auto
  then have current: "volumes ! n = last volumes" by (simp add: n_def last_conv_nth)
  have len: "n < length volumes" using assms by (simp add: n_def)
  have nk: "n - k = n - nat window" "k \<le> n" using assms by (auto simp: k_def)
  have "map (\<lambda>i. f64_of_int (volumes ! (n - k + i))) [0..<k] = map f64_of_int (drop (n - k) (take n volumes))"
    using len nk(2) by (intro nth_equalityI) auto
  also have "drop (n - k) (take n volumes) = preceding volumes window"
    unfolding preceding_def butlast_conv_take n_def [symmetric] nk(1) ..
  finally have base: "map (\<lambda>i. f64_of_int (volumes ! (n - k + i))) [0..<k] =
    map f64_of_int (preceding volumes window)" .
  show ?thesis
    unfolding VolumeBreakout_def n_def [symmetric] Let_def k_def [symmetric] base current
    using assms by simp
qed

text \<open>C38: The breakout test at the default threshold is exact: although the baseline average and
  the ratio are both rounded, on non-negative volumes with a sum below 2^50 it fires precisely
  when the baseline is not all zero and the current volume is at least twice its mean, computed
  without rounding. The baseline are the last \<open>window\<close> volumes before the current one, or all of them
  where there are fewer. The comment above the function (\<open>volume.go:36\<close>) promises that nothing fires
  with fewer than \<open>window\<close> + 1 volumes; the code only asks for two, and does fire
  (\<open>short_history_fires\<close>). Its one caller, \<open>evaluate\<close>, asks for \<open>window\<close> + 1 volumes itself.\<close>

theorem VolumeBreakout_exact:
  assumes "2 \<le> length volumes" "1 \<le> window" "\<forall>v\<in>set volumes. 0 \<le> v"
    and "sum_list volumes \<le> 2 ^ 50" "length volumes \<le> 2 ^ 50"
  shows "vr_IsBreakout (VolumeBreakout volumes window DefaultVolumeThreshold) \<longleftrightarrow>
     0 < sum_list (preceding volumes window) \<and>
     2 * sum_list (preceding volumes window) \<le> int (length (preceding volumes window)) * last volumes"
proof -
  let ?b = "preceding volumes window"
  define S where "S = sum_list ?b"
  define k where "k = int (length ?b)"
  define c where "c = last volumes"
  have vne: "volumes \<noteq> []" using assms(1) by auto
  have "length ?b \<le> length volumes" "length ?b \<noteq> 0" using assms(1,2) by (auto simp: preceding_def)
  then have k: "0 < k" "k \<le> 2 ^ 50" using assms(5) by (auto simp: k_def)
  have bs: "set ?b \<subseteq> set volumes" by (auto simp: preceding_def dest!: in_set_dropD in_set_butlastD)
  have split: "volumes = take (length volumes - 1 - nat window) (butlast volumes) @ ?b @ [c]"
    using vne by (simp add: preceding_def c_def flip: append_assoc)
  have "0 \<le> sum_list (take (length volumes - 1 - nat window) (butlast volumes))"
    using assms(3) by (intro sum_list_nonneg) (auto dest!: in_set_takeD in_set_butlastD)
  moreover have "sum_list volumes = sum_list (take (length volumes - 1 - nat window) (butlast volumes)) + (S + c)"
    by (subst split) (simp add: S_def)
  moreover have S0: "0 \<le> S" and c0: "0 \<le> c"
    using assms(3) bs vne by (auto simp: S_def c_def intro!: sum_list_nonneg)
  ultimately have S: "S \<le> 2 ^ 50" and c: "c \<le> 2 ^ 50" using assms(4) by linarith+
  have "map abs ?b = ?b" using assms(3) bs by (intro map_idI) auto
  then have "Sum (map f64_of_int ?b) = Fin (of_int S)" using S Sum_ints [of ?b] by (simp add: S_def)
  moreover have fk: "f64_of_int k = Fin (of_int k)" and fc: "f64_of_int c = Fin (of_int c)"
    using k c c0 by (auto intro!: f64_of_int_exact)
  ultimately have mean: "Mean (map f64_of_int ?b) = rnd (of_int S / of_int k)"
    using k by (auto simp: Mean_def k_def)
  have thr: "DefaultVolumeThreshold = Fin 2"
    using f64_of_int_exact [of 2] by (simp add: DefaultVolumeThreshold_def flt_def f64_of_int_def)
  have vb: "vr_IsBreakout (VolumeBreakout volumes window DefaultVolumeThreshold) \<longleftrightarrow>
      \<not> feq (rnd (of_int S / of_int k)) 0 \<and> Fin 2 \<le> Fin (of_int c) / rnd (of_int S / of_int k)"
    using assms(1,2) by (subst VolumeBreakout_preceding) (auto simp: thr mean Let_def fc [unfolded c_def] c_def)
  show ?thesis
  proof (cases "S = 0")
    case True
    then show ?thesis using vb rnd_id [of 0] by (simp add: S_def zero_float64_Fin)
  next
    case False
    have p50: "is_f64 (Fin (2 ^ 50))" "is_f64 (Fin (2 ^ 100))"
      using pw_f64 [of 50] pw_f64 [of 100] by (simp_all del: is_f64.simps)
    have q: "1 / 2 ^ 50 \<le> (of_int S / of_int k :: rat)" "of_int S / of_int k \<le> (2 ^ 50 :: rat)"
      using False S0 S k by (simp_all add: divide_simps)
    then have m: "rnd (of_int S / of_int k) = Fin (fl (of_int S / of_int k))"
      using p50 by (intro rnd_bounded [of _ "2 ^ 50"]) auto
    have "fl (1 / 2 ^ 50) \<le> fl (of_int S / of_int k)" by (rule fl_mono [OF q(1)])
    moreover have "fl (1 / 2 ^ 50) = 1 / 2 ^ 50" using fl_rep [of 1 "-50"] by (simp add: pw_minus_numeral)
    ultimately have m0: "1 / 2 ^ 50 \<le> fl (of_int S / of_int k)" by simp
    then have m00: "0 < fl (of_int S / of_int k)" by (rule less_le_trans [rotated]) simp
    have "of_int c / fl (of_int S / of_int k) \<le> 2 ^ 50 / (1 / 2 ^ 50)"
      using m0 c by (intro frac_le) auto
    moreover have "0 \<le> of_int c / fl (of_int S / of_int k)" using c0 m00 by simp
    ultimately have "rnd (of_int c / fl (of_int S / of_int k)) = Fin (fl (of_int c / fl (of_int S / of_int k)))"
      using p50 by (intro rnd_bounded [of _ "2 ^ 100"]) auto
    then have "Fin 2 \<le> Fin (of_int c) / rnd (of_int S / of_int k) \<longleftrightarrow> 2 * S \<le> k * c"
      using double_ratio_exact [of S k c] False S0 S k c c0 m00 by (simp add: m)
    then show ?thesis using vb m m00 False S0 by (auto simp: S_def k_def c_def zero_float64_Fin)
  qed
qed

lemma VolumeBreakout_exact_witness: "vr_IsBreakout (VolumeBreakout [100, 200, 300, 400] 3 DefaultVolumeThreshold)"
  using VolumeBreakout_exact [of "[100, 200, 300, 400]" 3] by (auto simp: preceding_def)

text \<open>Two volumes are enough for a breakout at the default window of ten.\<close>

lemma short_history_fires: "vr_IsBreakout (VolumeBreakout [10, 30] 10 DefaultVolumeThreshold)"
  using f64_of_int_exact [of 2]
  by (simp add: VolumeBreakout_def Mean_def StatMath.Sum_def zero_float64_Fin DefaultVolumeThreshold_def flt_def f64_of_int_def)

lemma breakout_needs_two:
  assumes "length (filter (\<lambda>v. v \<noteq> 0) volumes) \<le> 1"
  shows "\<not> vr_IsBreakout (VolumeBreakout volumes window threshold)"
proof (cases "2 \<le> length volumes \<and> 1 \<le> window \<and> \<not> threshold \<le> 0")
  case True
  let ?sma = "Mean (map f64_of_int (preceding volumes window))"
  have "volumes = butlast volumes @ [last volumes]" using True by (cases volumes) auto
  then have "filter (\<lambda>v. v \<noteq> 0) volumes = filter (\<lambda>v. v \<noteq> 0) (butlast volumes) @ filter (\<lambda>v. v \<noteq> 0) [last volumes]"
    by (metis filter_append)
  then have "filter (\<lambda>v. v \<noteq> 0) (butlast volumes) = [] \<or> last volumes = 0"
    using assms by (auto split: if_splits)
  then show ?thesis
  proof
    assume "filter (\<lambda>v. v \<noteq> 0) (butlast volumes) = []"
    then have z: "set (preceding volumes window) \<subseteq> {0}"
      by (auto simp: preceding_def filter_empty_conv dest!: in_set_dropD)
    then have "preceding volumes window = replicate (length (preceding volumes window)) 0"
      by (intro replicate_eqI) auto
    then obtain n where "preceding volumes window = replicate n 0" by blast
    then have "Sum (map f64_of_int (preceding volumes window)) = 0"
      using Sum_ints [of "preceding volumes window"] by (simp add: zero_float64_Fin sum_list_replicate)
    moreover have "0 / x = 0" if "0 < x" for x :: float64
      using that by (cases x) (auto simp: zero_float64_Fin rnd_Fin)
    ultimately have "?sma = 0" using f64_of_int_less_0 by (simp add: Mean_def)
    then show ?thesis using True by (simp add: VolumeBreakout_preceding)
  next
    assume "last volumes = 0"
    moreover have "\<not> threshold \<le> 0 / ?sma" if "?sma \<noteq> 0"
      using that True by (cases ?sma; cases threshold) (auto simp: zero_float64_Fin rnd_Fin less_eq_float64_def)
    moreover have "f64_of_int 0 = 0" using f64_of_int_exact [of 0] by (simp add: zero_float64_Fin)
    ultimately show ?thesis using True by (auto simp: VolumeBreakout_preceding Let_def)
  qed
qed (auto simp: VolumeBreakout_def not_le)


text \<open>Without volume on at least two ticks of its window the breakout test never fires,
  whatever the threshold, a NaN included.\<close>

theorem VolumeBreakout_needs_two_volumes:
  assumes "length (filter (\<lambda>v. v \<noteq> 0) volumes) \<le> 1"
  shows "\<not> vr_IsBreakout (VolumeBreakout volumes window threshold)"
  using assms by (rule breakout_needs_two)

lemma VolumeBreakout_needs_two_volumes_witness:
  "\<not> vr_IsBreakout (VolumeBreakout [0, 0, 0, 5000] 3 DefaultVolumeThreshold)"
  by (rule VolumeBreakout_needs_two_volumes) simp

lemma CumulativeVWAP_session_witness:
  "CumulativeVWAP_Value (foldl (\<lambda>cv (p, v). snd (CumulativeVWAP_Add cv p v)) NewCumulativeVWAP
     (zip [Fin 100, Fin 104] [1, 3])) = vw_VWAP (VWAP [Fin 100, Fin 104] [1, 3])"
  by (rule CumulativeVWAP_session) (simp add: VWAP_def zero_float64_Fin)

end
