(* ===== verification/TickStore.thy ===== *)
theory TickStore
  imports Indicators GoTime "HOL-Library.AList"
begin

text \<open>
  The tick storage of \<open>src/analysts/quantitative/tickstore.go\<close>: the fixed-size ring buffer
  \<open>TickStore\<close>, its aggregation into candles, and the bounded table \<open>TickerStore\<close> of one ring per
  symbol. The locale \<open>tick_history\<close> states what a client relies on, a bounded history of the last
  ticks; the ring buffer is interpreted as one. The mutexes of the sources make every operation
  atomic, so each is one function of the state here.
\<close>

section \<open>The ring buffer\<close>

record Tick =
  tk_Price :: float64
  tk_Volume :: int
  tk_Timestamp :: Time

definition empty_Tick :: Tick where
  "empty_Tick = \<lparr>tk_Price = 0, tk_Volume = 0, tk_Timestamp = - 62135596800 * nsec\<rparr>"

text \<open>The counters of the sources are never negative; \<open>nat\<close> keeps that.\<close>

record TickStore =
  rb_buf :: "Tick list"
  rb_size :: nat
  rb_write :: nat
  rb_full :: bool

definition NewTickStore :: "int \<Rightarrow> TickStore" where
  "NewTickStore n =
     (let n = (if n < 1 then 1 else n)
      in \<lparr>rb_buf = replicate (nat n) empty_Tick, rb_size = nat n, rb_write = 0, rb_full = False\<rparr>)"

definition Append :: "Tick \<Rightarrow> TickStore \<Rightarrow> TickStore" where
  "Append t ts =
     (let ts1 = ts\<lparr>rb_buf := (rb_buf ts)[rb_write ts := t], rb_write := rb_write ts + 1\<rparr>
      in if rb_write ts1 = rb_size ts1 then ts1\<lparr>rb_write := 0, rb_full := True\<rparr> else ts1)"

definition count :: "TickStore \<Rightarrow> nat" where
  "count ts = (if rb_full ts then rb_size ts else rb_write ts)"

definition Len :: "TickStore \<Rightarrow> nat" where
  "Len ts = (if rb_full ts then rb_size ts else rb_write ts)"

definition Cap :: "TickStore \<Rightarrow> nat" where
  "Cap ts = rb_size ts"

text \<open>The method \<open>at\<close> of the sources.\<close>

definition at_index :: "TickStore \<Rightarrow> nat \<Rightarrow> Tick" where
  "at_index ts i =
     (if rb_full ts then rb_buf ts ! ((rb_write ts + i) mod rb_size ts) else rb_buf ts ! i)"

definition RecentPrices :: "TickStore \<Rightarrow> int \<Rightarrow> float64 list" where
  "RecentPrices ts n =
     (if n \<le> 0 then []
      else let cnt = count ts; n = (if int cnt < n then cnt else nat n)
           in map (\<lambda>i. tk_Price (at_index ts (cnt - n + i))) [0..<n])"

definition RecentVolumes :: "TickStore \<Rightarrow> int \<Rightarrow> int list" where
  "RecentVolumes ts n =
     (if n \<le> 0 then []
      else let cnt = count ts; n = (if int cnt < n then cnt else nat n)
           in map (\<lambda>i. tk_Volume (at_index ts (cnt - n + i))) [0..<n])"

definition UpdateLatestVolume :: "int \<Rightarrow> TickStore \<Rightarrow> TickStore" where
  "UpdateLatestVolume vol ts =
     (if count ts = 0 then ts
      else let idx = (if rb_write ts = 0 then rb_size ts - 1 else rb_write ts - 1)
           in ts\<lparr>rb_buf := (rb_buf ts)[idx := (rb_buf ts ! idx)\<lparr>tk_Volume := vol\<rparr>]\<rparr>)"

section \<open>Candles\<close>

text \<open>The fields of \<open>quantitative.Candle\<close> are those of the indicators' \<open>Candle\<close>, which the record of
  that name models for both packages. \<open>acc\<close> is the bucket under construction.\<close>

record acc =
  acc_candle :: Candle
  acc_id :: int

definition candle_step :: "Duration \<Rightarrow> acc list \<Rightarrow> Tick \<Rightarrow> acc list" where
  "candle_step dur buckets t =
     (let bid = go_div (tk_Timestamp t) dur in
      if buckets = [] \<or> acc_id (last buckets) \<noteq> bid
      then buckets @ [\<lparr>acc_candle = \<lparr>c_Open = tk_Price t, c_High = tk_Price t, c_Low = tk_Price t,
                         c_Close = tk_Price t, c_Volume = tk_Volume t\<rparr>, acc_id = bid\<rparr>]
      else
        let cur = acc_candle (last buckets);
            cur = (if c_High cur < tk_Price t then cur\<lparr>c_High := tk_Price t\<rparr> else cur);
            cur = (if tk_Price t < c_Low cur then cur\<lparr>c_Low := tk_Price t\<rparr> else cur);
            cur = cur\<lparr>c_Close := tk_Price t, c_Volume := wrap64 (c_Volume cur + tk_Volume t)\<rparr>
        in butlast buckets @ [(last buckets)\<lparr>acc_candle := cur\<rparr>])"

text \<open>A zero duration panics as soon as there is a tick: \<open>None\<close>.\<close>

definition Candles :: "TickStore \<Rightarrow> Duration \<Rightarrow> Candle list option" where
  "Candles ts dur =
     (if count ts = 0 then Some []
      else if dur = 0 then None
      else Some (map acc_candle
             (foldl (candle_step dur) [] (map (at_index ts) [0..<count ts]))))"

section \<open>The table of rings\<close>

definition DefaultMaxTickers :: int where "DefaultMaxTickers = 25"

text \<open>The map of the sources is an association list with distinct keys. The pointer that \<open>Store\<close> and
  \<open>Get\<close> return stays an entry of the table: what is done through it is \<open>update_store\<close>.\<close>

record TickerStore =
  tst_stores :: "(string \<times> TickStore) list"
  tst_max :: int
  tst_bufCap :: int

definition NewTickerStore :: "int \<Rightarrow> int \<Rightarrow> TickerStore" where
  "NewTickerStore mx bufCap =
     \<lparr>tst_stores = [], tst_max = (if mx < 1 then DefaultMaxTickers else mx),
      tst_bufCap = (if bufCap < 1 then 256 else bufCap)\<rparr>"

definition Store :: "string \<Rightarrow> TickerStore \<Rightarrow> TickStore option \<times> TickerStore" where
  "Store symbol ts =
     (case map_of (tst_stores ts) symbol of
        Some s \<Rightarrow> (Some s, ts)
      | None \<Rightarrow>
          if tst_max ts \<le> int (length (tst_stores ts)) then (None, ts)
          else let s = NewTickStore (tst_bufCap ts)
               in (Some s, ts\<lparr>tst_stores := AList.update symbol s (tst_stores ts)\<rparr>))"

definition Get :: "string \<Rightarrow> TickerStore \<Rightarrow> TickStore option" where
  "Get symbol ts = map_of (tst_stores ts) symbol"

definition update_store :: "string \<Rightarrow> (TickStore \<Rightarrow> TickStore) \<Rightarrow> TickerStore \<Rightarrow> TickerStore" where
  "update_store symbol f ts =
     (case map_of (tst_stores ts) symbol of
        None \<Rightarrow> ts
      | Some s \<Rightarrow> ts\<lparr>tst_stores := AList.update symbol (f s) (tst_stores ts)\<rparr>)"

definition tracked_symbols :: "TickerStore \<Rightarrow> string list" where
  "tracked_symbols ts = map fst (tst_stores ts)"

definition TickerStore_Len :: "TickerStore \<Rightarrow> nat" where
  "TickerStore_Len ts = length (tst_stores ts)"

definition TickerStore_Cap :: "TickerStore \<Rightarrow> int" where
  "TickerStore_Cap ts = tst_max ts"

section \<open>A bounded history\<close>

text \<open>The last \<open>n\<close> elements of a list.\<close>

definition suffix_of :: "nat \<Rightarrow> 'a list \<Rightarrow> 'a list" where
  "suffix_of n xs = drop (length xs - n) xs"

lemma length_suffix_of [simp]: "length (suffix_of n xs) = min n (length xs)"
  by (simp add: suffix_of_def)

lemma suffix_of_all [simp]: "length xs \<le> n \<Longrightarrow> suffix_of n xs = xs"
  by (simp add: suffix_of_def)

lemma suffix_of_snoc: "0 < n \<Longrightarrow> suffix_of n (xs @ [x]) = suffix_of (n - 1) xs @ [x]"
  by (simp add: suffix_of_def)

lemma suffix_of_append: "suffix_of n (suffix_of n xs @ ys) = suffix_of n (xs @ ys)"
proof (cases "length xs \<le> n")
  case False
  define k where "k = length xs - n"
  have k: "length xs + length ys - n = length ys + k" "k \<le> length xs" using False by (auto simp: k_def)
  have "suffix_of n (xs @ ys) = drop (length ys) (drop k (xs @ ys))"
    by (simp only: suffix_of_def length_append k drop_drop)
  also have "drop k (xs @ ys) = suffix_of n xs @ ys" using k by (simp add: suffix_of_def k_def)
  also have "drop (length ys) (suffix_of n xs @ ys) = suffix_of n (suffix_of n xs @ ys)"
    using False by (simp add: suffix_of_def)
  finally show ?thesis by simp
qed simp

locale tick_history =
  fixes invar :: "'s \<Rightarrow> bool"
    and contents :: "'s \<Rightarrow> 't list"
    and capacity :: "'s \<Rightarrow> nat"
    and append :: "'t \<Rightarrow> 's \<Rightarrow> 's"
    and relabel :: "('t \<Rightarrow> 't) \<Rightarrow> 's \<Rightarrow> 's"
  assumes capacity_pos: "invar s \<Longrightarrow> 0 < capacity s"
    and bounded: "invar s \<Longrightarrow> length (contents s) \<le> capacity s"
    and append_invar: "invar s \<Longrightarrow> invar (append t s)"
    and append_capacity: "invar s \<Longrightarrow> capacity (append t s) = capacity s"
    and append_contents: "invar s \<Longrightarrow> contents (append t s) = suffix_of (capacity s) (contents s @ [t])"
    and relabel_invar: "invar s \<Longrightarrow> invar (relabel f s)"
    and relabel_capacity: "invar s \<Longrightarrow> capacity (relabel f s) = capacity s"
    and relabel_contents: "invar s \<Longrightarrow> contents (relabel f s) =
      (if contents s = [] then [] else butlast (contents s) @ [f (last (contents s))])"
begin

text \<open>A run of appends keeps the last ticks that were ever offered.\<close>

lemma append_all:
  "invar s \<Longrightarrow> invar (foldl (\<lambda>s t. append t s) s ts) \<and>
     capacity (foldl (\<lambda>s t. append t s) s ts) = capacity s \<and>
     contents (foldl (\<lambda>s t. append t s) s ts) = suffix_of (capacity s) (contents s @ ts)"
proof (induction ts arbitrary: s)
  case Nil
  then show ?case using bounded by simp
next
  case (Cons t ts)
  have "invar (append t s)" using Cons.prems by (rule append_invar)
  from Cons.IH [OF this] show ?case
    using append_capacity [OF Cons.prems] append_contents [OF Cons.prems]
    by (simp add: suffix_of_append)
qed

text \<open>Relabelling the latest tick changes neither the length nor any earlier tick.\<close>

lemma relabel_keeps_rest:
  "invar s \<Longrightarrow> length (contents (relabel f s)) = length (contents s) \<and>
     butlast (contents (relabel f s)) = butlast (contents s)"
  using relabel_contents by (simp add: butlast_append)

lemma append_latest: "invar s \<Longrightarrow> contents (append t s) \<noteq> [] \<and> last (contents (append t s)) = t"
  using append_contents capacity_pos by (simp add: suffix_of_snoc)

end

section \<open>The ring buffer is a bounded history\<close>

definition ring_ok :: "TickStore \<Rightarrow> bool" where
  "ring_ok s \<longleftrightarrow> 0 < rb_size s \<and> length (rb_buf s) = rb_size s \<and> rb_write s < rb_size s"

definition ring_contents :: "TickStore \<Rightarrow> Tick list" where
  "ring_contents s = map (at_index s) [0..<count s]"

definition relabel_latest :: "(Tick \<Rightarrow> Tick) \<Rightarrow> TickStore \<Rightarrow> TickStore" where
  "relabel_latest f s =
     (if count s = 0 then s
      else let i = (if rb_write s = 0 then rb_size s - 1 else rb_write s - 1)
           in s\<lparr>rb_buf := (rb_buf s)[i := f (rb_buf s ! i)]\<rparr>)"

lemma UpdateLatestVolume_relabel: "UpdateLatestVolume v = relabel_latest (\<lambda>t. t\<lparr>tk_Volume := v\<rparr>)"
  by (simp add: fun_eq_iff UpdateLatestVolume_def relabel_latest_def)

lemma ring_contents_eq:
  assumes "ring_ok s"
  shows "ring_contents s =
     (if rb_full s then drop (rb_write s) (rb_buf s) @ take (rb_write s) (rb_buf s)
      else take (rb_write s) (rb_buf s))"
proof (cases "rb_full s")
  case True
  have "ring_contents s = drop (rb_write s) (rb_buf s) @ take (rb_write s) (rb_buf s)"
  proof (rule nth_equalityI)
    show len: "length (ring_contents s) = length (drop (rb_write s) (rb_buf s) @ take (rb_write s) (rb_buf s))"
      using assms True by (auto simp: ring_contents_def count_def ring_ok_def)
    fix i assume "i < length (ring_contents s)"
    then have i: "i < rb_size s" using True by (simp add: ring_contents_def count_def)
    have "(rb_write s + i) mod rb_size s = (if i < rb_size s - rb_write s then rb_write s + i else i - (rb_size s - rb_write s))"
      using i assms by (auto simp: ring_ok_def mod_if)
    then show "ring_contents s ! i = (drop (rb_write s) (rb_buf s) @ take (rb_write s) (rb_buf s)) ! i"
      using i assms True by (auto simp: ring_contents_def count_def ring_ok_def at_index_def nth_append)
  qed
  with True show ?thesis by simp
next
  case False
  then show ?thesis using assms
    by (auto simp: ring_contents_def count_def ring_ok_def at_index_def intro!: nth_equalityI)
qed

lemma length_ring_contents [simp]: "length (ring_contents s) = count s"
  by (simp add: ring_contents_def)

lemma ring_append:
  assumes ok: "ring_ok s"
  shows "ring_ok (Append t s) \<and> rb_size (Append t s) = rb_size s \<and>
    ring_contents (Append t s) = suffix_of (rb_size s) (ring_contents s @ [t])"
proof -
  let ?w = "rb_write s" and ?b = "rb_buf s"
  have ok': "ring_ok (Append t s)" and sz: "rb_size (Append t s) = rb_size s"
    using ok by (auto simp: Append_def ring_ok_def Let_def)
  have "ring_contents (Append t s) = suffix_of (rb_size s) (ring_contents s @ [t])"
  proof (cases "rb_full s")
    case True
    have w: "?w < length ?b" "length ?b = rb_size s" "0 < rb_size s" using ok by (auto simp: ring_ok_def)
    then have "ring_contents s = ?b ! ?w # drop (Suc ?w) ?b @ take ?w ?b"
      using ring_contents_eq [OF ok] True by (simp add: Cons_nth_drop_Suc flip: append_Cons)
    then have "suffix_of (rb_size s) (ring_contents s @ [t]) = drop (Suc ?w) ?b @ take ?w ?b @ [t]"
      using w by (simp add: suffix_of_def)
    moreover have "ring_contents (Append t s) = drop (Suc ?w) ?b @ take ?w ?b @ [t]"
      unfolding ring_contents_eq [OF ok'] using True w
      by (auto simp: Append_def Let_def take_Suc_conv_app_nth list_update_append upd_conv_take_nth_drop)
    ultimately show ?thesis by simp
  next
    case False
    have w: "?w < length ?b" "length ?b = rb_size s" using ok by (auto simp: ring_ok_def)
    then have "suffix_of (rb_size s) (ring_contents s @ [t]) = take ?w ?b @ [t]"
      using ring_contents_eq [OF ok] False by simp
    moreover have "ring_contents (Append t s) = take ?w ?b @ [t]"
      unfolding ring_contents_eq [OF ok'] using False w
      by (auto simp: Append_def Let_def take_Suc_conv_app_nth upd_conv_take_nth_drop)
    ultimately show ?thesis by simp
  qed
  with ok' sz show ?thesis by simp
qed

lemma ring_relabel:
  assumes ok: "ring_ok s"
  shows "ring_ok (relabel_latest f s) \<and> rb_size (relabel_latest f s) = rb_size s \<and>
    ring_contents (relabel_latest f s) =
      (if ring_contents s = [] then [] else butlast (ring_contents s) @ [f (last (ring_contents s))])"
proof (cases "count s = 0")
  case True
  then have "ring_contents s = []" by (simp add: ring_contents_def)
  with True ok show ?thesis by (simp add: relabel_latest_def)
next
  case False
  let ?w = "rb_write s" and ?b = "rb_buf s"
  have ok': "ring_ok (relabel_latest f s)"
    using ok by (auto simp: relabel_latest_def ring_ok_def Let_def)
  have b: "length ?b = rb_size s" "?w < rb_size s" using ok by (auto simp: ring_ok_def)
  have ne: "ring_contents s \<noteq> []" using False by (simp flip: length_0_conv)
  have "ring_contents (relabel_latest f s) = butlast (ring_contents s) @ [f (last (ring_contents s))]"
  proof (cases "?w = 0")
    case True
    then have full: "rb_full s" using False by (simp add: count_def split: if_splits)
    obtain xs x where xs: "?b = xs @ [x]" using b by (cases ?b rule: rev_cases) auto
    then have "rb_size s - 1 = length xs" using b by simp
    then show ?thesis unfolding ring_contents_eq [OF ok'] ring_contents_eq [OF ok]
      using True full False xs by (simp add: relabel_latest_def count_def)
  next
    case w0: False
    then obtain v where v: "?w = Suc v" by (cases ?w) auto
    then have "take ?w ?b = take v ?b @ [?b ! v]" using b by (simp add: take_Suc_conv_app_nth)
    moreover have "take ?w (?b[v := y]) = take v ?b @ [y]" for y
      using b v by (simp add: take_Suc_conv_app_nth)
    moreover have "drop ?w (?b[v := y]) = drop ?w ?b" for y using v by simp
    ultimately show ?thesis unfolding ring_contents_eq [OF ok'] ring_contents_eq [OF ok]
      using False v by (auto simp: relabel_latest_def count_def butlast_append)
  qed
  with ok' ne show ?thesis by (simp add: relabel_latest_def Let_def)
qed

interpretation ring: tick_history ring_ok ring_contents Cap Append relabel_latest
proof (unfold_locales, goal_cases)
  case (1 s)
  then show ?case by (simp add: Cap_def ring_ok_def)
next
  case (2 s)
  then show ?case by (auto simp: Cap_def count_def ring_ok_def)
qed (simp_all add: Cap_def ring_append ring_relabel)

section \<open>What readers see\<close>

datatype ring_op = OpAppend Tick | OpVolume int

fun ring_step :: "TickStore \<Rightarrow> ring_op \<Rightarrow> TickStore" where
  "ring_step s (OpAppend t) = Append t s"
| "ring_step s (OpVolume v) = UpdateLatestVolume v s"

text \<open>The specification: a list of at most \<open>n\<close> ticks, oldest first.\<close>

fun spec_step :: "nat \<Rightarrow> Tick list \<Rightarrow> ring_op \<Rightarrow> Tick list" where
  "spec_step n xs (OpAppend t) = suffix_of n (xs @ [t])"
| "spec_step n xs (OpVolume v) = (if xs = [] then [] else butlast xs @ [(last xs)\<lparr>tk_Volume := v\<rparr>])"

lemma ring_steps:
  "ring_ok s \<Longrightarrow> ring_ok (foldl ring_step s ops) \<and> Cap (foldl ring_step s ops) = Cap s \<and>
     ring_contents (foldl ring_step s ops) = foldl (spec_step (Cap s)) (ring_contents s) ops"
proof (induction ops arbitrary: s)
  case (Cons op ops)
  have "ring_ok (ring_step s op)" "Cap (ring_step s op) = Cap s"
    "ring_contents (ring_step s op) = spec_step (Cap s) (ring_contents s) op"
    using Cons.prems ring.append_invar ring.append_capacity ring.append_contents
      ring.relabel_invar ring.relabel_capacity ring.relabel_contents
    by (cases op; simp add: UpdateLatestVolume_relabel)+
  with Cons.IH [of "ring_step s op"] show ?case by simp
qed simp

lemma NewTickStore_ok:
  "ring_ok (NewTickStore n) \<and> ring_contents (NewTickStore n) = [] \<and> Cap (NewTickStore n) = nat (max n 1)"
  by (auto simp: NewTickStore_def ring_ok_def ring_contents_def count_def Cap_def Let_def max_def)

lemma RecentPrices_contents: "RecentPrices s m = map tk_Price (suffix_of (nat m) (ring_contents s))"
  by (auto simp: RecentPrices_def suffix_of_def ring_contents_def Let_def drop_map comp_def
      intro!: nth_equalityI)

lemma RecentVolumes_contents: "RecentVolumes s m = map tk_Volume (suffix_of (nat m) (ring_contents s))"
  by (auto simp: RecentVolumes_def suffix_of_def ring_contents_def Let_def drop_map comp_def
      intro!: nth_equalityI)

text \<open>C24: Refinement of the ring buffer. After any sequence of appends and volume updates on a new
  ring, every query answers as on the plain list of the last ticks: \<open>RecentPrices\<close> and
  \<open>RecentVolumes\<close> give its last \<open>m\<close> entries in chronological order, \<open>Len\<close> its length, and \<open>Cap\<close>
  never changes.\<close>

theorem ring_refines_list:
  fixes n m :: int and ops :: "ring_op list"
  defines "s \<equiv> foldl ring_step (NewTickStore n) ops"
    and "xs \<equiv> foldl (spec_step (nat (max n 1))) [] ops"
  shows "RecentPrices s m = map tk_Price (suffix_of (nat m) xs) \<and>
    RecentVolumes s m = map tk_Volume (suffix_of (nat m) xs) \<and>
    Len s = length xs \<and> length xs \<le> Cap s \<and> Cap s = nat (max n 1)"
proof -
  have ok: "ring_ok s" and c: "ring_contents s = xs" and cap: "Cap s = nat (max n 1)"
    using ring_steps [of "NewTickStore n" ops] NewTickStore_ok [of n] by (auto simp: s_def xs_def)
  have "Len s = length xs" using c length_ring_contents [of s] by (simp add: Len_def count_def)
  with ring.bounded [OF ok] c cap show ?thesis by (simp add: RecentPrices_contents RecentVolumes_contents)
qed

section \<open>What candles summarise\<close>

definition candle_of :: "Duration \<Rightarrow> Tick list \<Rightarrow> int \<Rightarrow> Candle \<Rightarrow> bool" where
  "candle_of dur r bid c \<longleftrightarrow>
     r \<noteq> [] \<and> (\<forall>t\<in>set r. go_div (tk_Timestamp t) dur = bid) \<and>
     c_Open c = tk_Price (hd r) \<and> c_Close c = tk_Price (last r) \<and>
     c_Volume c = wrap64 (\<Sum>t\<leftarrow>r. tk_Volume t) \<and>
     (\<forall>t\<in>set r. c_Low c \<le> tk_Price t \<and> tk_Price t \<le> c_High c) \<and>
     c_Low c \<in> tk_Price ` set r \<and> c_High c \<in> tk_Price ` set r"

definition tick_ok :: "Tick \<Rightarrow> bool" where
  "tick_ok t \<longleftrightarrow> tk_Price t \<noteq> NaN \<and> in_int64 (tk_Volume t)"

lemma candle_of_new:
  "tick_ok t \<Longrightarrow> candle_of dur [t] (go_div (tk_Timestamp t) dur)
     \<lparr>c_Open = tk_Price t, c_High = tk_Price t, c_Low = tk_Price t, c_Close = tk_Price t, c_Volume = tk_Volume t\<rparr>"
  by (simp add: candle_of_def tick_ok_def wrap64_id f64_le_refl)

definition candle_join :: "Tick \<Rightarrow> Candle \<Rightarrow> Candle" where
  "candle_join t cur =
     (let cur = (if c_High cur < tk_Price t then cur\<lparr>c_High := tk_Price t\<rparr> else cur);
          cur = (if tk_Price t < c_Low cur then cur\<lparr>c_Low := tk_Price t\<rparr> else cur)
      in cur\<lparr>c_Close := tk_Price t, c_Volume := wrap64 (c_Volume cur + tk_Volume t)\<rparr>)"

lemma candle_of_join:
  assumes r: "candle_of dur r (go_div (tk_Timestamp t) dur) c" and t: "tick_ok t"
    and nan: "\<forall>u\<in>set r. tk_Price u \<noteq> NaN"
  shows "candle_of dur (r @ [t]) (go_div (tk_Timestamp t) dur) (candle_join t c)"
proof -
  have hi: "c_High c \<noteq> NaN" and lo: "c_Low c \<noteq> NaN" using r nan by (auto simp: candle_of_def)
  have bounds: "c_Low c \<le> tk_Price u" "tk_Price u \<le> c_High c" if "u \<in> set r" for u
    using r that by (auto simp: candle_of_def)
  have le: "x < y \<Longrightarrow> x \<le> y" for x y :: float64 by (simp add: less_eq_float64_def)
  have p: "tk_Price t \<noteq> NaN" using t by (simp add: tick_ok_def)
  let ?c = "candle_join t c"
  have low: "c_Low ?c = (if tk_Price t < c_Low c then tk_Price t else c_Low c)"
    and high: "c_High ?c = (if c_High c < tk_Price t then tk_Price t else c_High c)"
    by (simp_all add: candle_join_def Let_def)
  have "c_Low ?c \<le> tk_Price t" "tk_Price t \<le> c_High ?c"
    using f64_not_less [OF p lo] f64_not_less [OF hi p] p by (auto simp: low high f64_le_refl)
  moreover have "c_Low ?c \<le> tk_Price u" "tk_Price u \<le> c_High ?c" if "u \<in> set r" for u
  proof -
    show "c_Low ?c \<le> tk_Price u" unfolding low
      using bounds(1) [OF that] le [OF f64_less_le_trans [OF _ bounds(1) [OF that]]] by simp
    show "tk_Price u \<le> c_High ?c" unfolding high
      using bounds(2) [OF that] le [OF f64_le_less_trans [OF bounds(2) [OF that]]] by simp
  qed
  moreover have "c_Volume ?c = wrap64 ((\<Sum>u\<leftarrow>r. tk_Volume u) + tk_Volume t)"
    using r by (simp add: candle_join_def Let_def candle_of_def wrap64_add_left)
  moreover have "c_Low ?c \<in> tk_Price ` set (r @ [t])" "c_High ?c \<in> tk_Price ` set (r @ [t])"
    using r by (auto simp: low high candle_of_def)
  moreover have "c_Open ?c = c_Open c" "c_Close ?c = tk_Price t"
    by (simp_all add: candle_join_def Let_def)
  ultimately show ?thesis using r unfolding candle_of_def by simp
qed

lemma candle_step_join:
  "candle_step dur buckets t =
     (if buckets = [] \<or> acc_id (last buckets) \<noteq> go_div (tk_Timestamp t) dur
      then buckets @ [\<lparr>acc_candle = \<lparr>c_Open = tk_Price t, c_High = tk_Price t, c_Low = tk_Price t,
                         c_Close = tk_Price t, c_Volume = tk_Volume t\<rparr>, acc_id = go_div (tk_Timestamp t) dur\<rparr>]
      else butlast buckets @ [(last buckets)\<lparr>acc_candle := candle_join t (acc_candle (last buckets))\<rparr>])"
  by (simp add: candle_step_def candle_join_def Let_def)

definition buckets_of :: "Duration \<Rightarrow> Tick list \<Rightarrow> acc list \<Rightarrow> bool" where
  "buckets_of dur xs bs \<longleftrightarrow> (\<exists>runs. concat runs = xs \<and>
     list_all2 (\<lambda>r b. candle_of dur r (acc_id b) (acc_candle b)) runs bs \<and> distinct_adj (map acc_id bs))"

lemma buckets_of_step:
  assumes b: "buckets_of dur xs bs" and t: "\<forall>u\<in>set (xs @ [t]). tick_ok u"
  shows "buckets_of dur (xs @ [t]) (candle_step dur bs t)"
proof -
  let ?id = "go_div (tk_Timestamp t) dur"
  from b obtain runs where runs: "concat runs = xs"
      and all: "list_all2 (\<lambda>r b. candle_of dur r (acc_id b) (acc_candle b)) runs bs"
      and adj: "distinct_adj (map acc_id bs)"
    by (auto simp: buckets_of_def)
  show ?thesis
  proof (cases "bs = [] \<or> acc_id (last bs) \<noteq> ?id")
    case True
    then have "distinct_adj (map acc_id (candle_step dur bs t))"
      using adj by (auto simp: candle_step_join distinct_adj_append_iff last_map)
    moreover have "list_all2 (\<lambda>r b. candle_of dur r (acc_id b) (acc_candle b)) (runs @ [[t]]) (candle_step dur bs t)"
      using True all t candle_of_new [of t dur] by (simp add: candle_step_join list_all2_appendI)
    ultimately show ?thesis using runs unfolding buckets_of_def by (intro exI [of _ "runs @ [[t]]"]) auto
  next
    case False
    then obtain bs' b where bs: "bs = bs' @ [b]" by (cases bs rule: rev_cases) auto
    with all obtain rs r where rs: "runs = rs @ [r]"
        and all': "list_all2 (\<lambda>r b. candle_of dur r (acc_id b) (acc_candle b)) rs bs'"
        and r: "candle_of dur r (acc_id b) (acc_candle b)"
      by (auto simp: list_all2_append2 list_all2_Cons2)
    from False bs have id: "acc_id b = ?id" by simp
    have "\<forall>u\<in>set r. tk_Price u \<noteq> NaN" using t runs rs by (auto simp: tick_ok_def)
    then have "candle_of dur (r @ [t]) ?id (candle_join t (acc_candle b))"
      using candle_of_join [of dur r t] r t id by simp
    then have "list_all2 (\<lambda>r b. candle_of dur r (acc_id b) (acc_candle b)) (rs @ [r @ [t]]) (candle_step dur bs t)"
      using False bs all' id by (simp add: candle_step_join list_all2_appendI)
    moreover have "distinct_adj (map acc_id (candle_step dur bs t))"
      using adj False bs by (simp add: candle_step_join)
    ultimately show ?thesis using runs rs unfolding buckets_of_def
      by (intro exI [of _ "rs @ [r @ [t]]"]) auto
  qed
qed

lemma buckets_of_fold: "\<forall>u\<in>set xs. tick_ok u \<Longrightarrow> buckets_of dur xs (foldl (candle_step dur) [] xs)"
proof (induction xs rule: rev_induct)
  case (snoc t xs)
  then show ?case using buckets_of_step [of dur xs "foldl (candle_step dur) [] xs" t] by simp
qed (simp add: buckets_of_def)

text \<open>C16: The candles of a ring partition its ticks. For any non-zero duration and ticks with numeric
  prices, the stored ticks split in order into consecutive runs of one time bucket, neighbouring
  runs in different buckets, and the \<open>i\<close>-th candle has the open and close of the \<open>i\<close>-th run, its
  exact lowest and highest price, and its total volume modulo 2^64: no tick is lost or counted
  twice. The order is that of arrival: the comment on \<open>Candles\<close> promises chronological order, but a late tick
  opens the bucket of its time anew (\<open>late_tick_splits\<close>). \<open>tk_Timestamp\<close> is what \<open>UnixNano\<close> returns.\<close>

theorem Candles_partition:
  assumes "dur \<noteq> 0" "\<forall>t\<in>set (ring_contents s). tick_ok t"
  shows "\<exists>runs ids cs. Candles s dur = Some cs \<and> concat runs = ring_contents s \<and>
    length ids = length cs \<and> distinct_adj ids \<and>
    list_all2 (\<lambda>r (bid, c). candle_of dur r bid c) runs (zip ids cs)"
proof -
  let ?bs = "foldl (candle_step dur) [] (ring_contents s)"
  obtain runs where runs: "concat runs = ring_contents s" "distinct_adj (map acc_id ?bs)"
      "list_all2 (\<lambda>r b. candle_of dur r (acc_id b) (acc_candle b)) runs ?bs"
    using buckets_of_fold [OF assms(2), of dur] by (auto simp: buckets_of_def)
  have "zip (map acc_id ?bs) (map acc_candle ?bs) = map (\<lambda>b. (acc_id b, acc_candle b)) ?bs"
    by (simp add: zip_map_map zip_same_conv_map)
  then have "list_all2 (\<lambda>r (bid, c). candle_of dur r bid c) runs (zip (map acc_id ?bs) (map acc_candle ?bs))"
    using runs(3) by (simp add: list_all2_map2)
  moreover have "Candles s dur = Some (map acc_candle ?bs)"
    using assms(1) by (auto simp: Candles_def ring_contents_def)
  ultimately show ?thesis using runs by (intro exI [of _ runs] exI [of _ "map acc_id ?bs"] exI) auto
qed

definition one_tick_ring :: TickStore where
  "one_tick_ring = Append \<lparr>tk_Price = Fin 100, tk_Volume = 5, tk_Timestamp = 120\<rparr> (NewTickStore 2)"

lemma one_tick_ring_contents: "ring_contents one_tick_ring = [\<lparr>tk_Price = Fin 100, tk_Volume = 5, tk_Timestamp = 120\<rparr>]"
  using ring.append_contents NewTickStore_ok [of 2] by (simp add: one_tick_ring_def)

text \<open>Two ticks of one minute with one of the minute before between them.\<close>

definition late_tick_ring :: TickStore where
  "late_tick_ring = Append \<lparr>tk_Price = Fin 102, tk_Volume = 7, tk_Timestamp = 125\<rparr>
     (Append \<lparr>tk_Price = Fin 101, tk_Volume = 6, tk_Timestamp = 60\<rparr>
       (Append \<lparr>tk_Price = Fin 100, tk_Volume = 5, tk_Timestamp = 120\<rparr> (NewTickStore 4)))"

lemma late_tick_ring_contents:
  "ring_contents late_tick_ring = [\<lparr>tk_Price = Fin 100, tk_Volume = 5, tk_Timestamp = 120\<rparr>,
     \<lparr>tk_Price = Fin 101, tk_Volume = 6, tk_Timestamp = 60\<rparr>, \<lparr>tk_Price = Fin 102, tk_Volume = 7, tk_Timestamp = 125\<rparr>]"
  using NewTickStore_ok [of 4] ring.append_invar ring.append_capacity ring.append_contents
  by (simp add: late_tick_ring_def)

lemma late_tick_splits: "map_option (map c_Close) (Candles late_tick_ring 60) = Some [Fin 100, Fin 101, Fin 102]"
proof -
  have "count late_tick_ring = 3" using late_tick_ring_contents length_ring_contents [of late_tick_ring] by simp
  then show ?thesis using late_tick_ring_contents
    unfolding Candles_def ring_contents_def [symmetric] by (simp add: candle_step_def go_div_def)
qed

lemma Candles_partition_witness:
  "\<exists>runs ids cs. Candles late_tick_ring 60 = Some cs \<and> concat runs = ring_contents late_tick_ring \<and>
    length ids = length cs \<and> distinct_adj ids \<and>
    list_all2 (\<lambda>r (bid, c). candle_of 60 r bid c) runs (zip ids cs)"
  by (rule Candles_partition) (simp_all add: late_tick_ring_contents tick_ok_def in_int64_def)

section \<open>The table stays bounded\<close>

definition table_ok :: "TickerStore \<Rightarrow> bool" where
  "table_ok ts \<longleftrightarrow> distinct (tracked_symbols ts) \<and> int (TickerStore_Len ts) \<le> tst_max ts \<and>
     1 \<le> tst_max ts \<and> 1 \<le> tst_bufCap ts \<and>
     (\<forall>(tkr, s)\<in>set (tst_stores ts). ring_ok s \<and> int (Cap s) = tst_bufCap ts)"

lemma set_AList_update: "set (AList.update k v al) \<subseteq> insert (k, v) (set al)"
  by (induction al) auto

lemma length_AList_update: "length (AList.update k v al) = (if k \<in> fst ` set al then length al else Suc (length al))"
  by (induction al) auto

lemma table_ok_new: "table_ok (NewTickerStore mx cap)"
  by (auto simp: table_ok_def NewTickerStore_def tracked_symbols_def TickerStore_Len_def DefaultMaxTickers_def)

lemma table_ok_update:
  assumes ts: "table_ok ts" and s: "ring_ok s" "int (Cap s) = tst_bufCap ts"
    and n: "tkr \<in> set (tracked_symbols ts) \<or> int (TickerStore_Len ts) < tst_max ts"
  shows "table_ok (ts\<lparr>tst_stores := AList.update tkr s (tst_stores ts)\<rparr>)"
  using assms set_AList_update [of tkr s "tst_stores ts"] distinct_update [of "tst_stores ts" tkr s]
  by (auto simp: table_ok_def tracked_symbols_def TickerStore_Len_def length_AList_update)

lemma table_ok_Store:
  assumes "table_ok ts" shows "table_ok (snd (Store tkr ts))"
  using assms NewTickStore_ok [of "tst_bufCap ts"]
  by (auto simp: Store_def Let_def TickerStore_Len_def table_ok_def [of ts] split: option.split intro!: table_ok_update)

lemma table_ok_update_store:
  assumes ts: "table_ok ts" and f: "\<And>s. ring_ok s \<Longrightarrow> ring_ok (f s) \<and> Cap (f s) = Cap s"
  shows "table_ok (update_store tkr f ts)"
proof (cases "map_of (tst_stores ts) tkr")
  case (Some s)
  then have m: "(tkr, s) \<in> set (tst_stores ts)" by (rule map_of_SomeD)
  then have "ring_ok s" "int (Cap s) = tst_bufCap ts" using ts by (auto simp: table_ok_def)
  moreover have "tkr \<in> set (tracked_symbols ts)" using m by (force simp: tracked_symbols_def)
  ultimately show ?thesis using ts f [of s] Some by (simp add: update_store_def table_ok_update)
qed (simp add: update_store_def ts)

text \<open>The table of rings. A new table is well formed; on a well-formed one \<open>Store\<close> returns the ring
  of a tracked symbol without changing anything, tracks a new symbol with an empty ring while there is
  room, and returns nil exactly when an untracked symbol meets a full table; the number of tracked
  symbols never exceeds the maximum, and no other symbol's ring is touched.\<close>

theorem TickerStore_bounded:
  assumes ts: "table_ok ts"
  shows "table_ok (NewTickerStore mx cap) \<and> table_ok (snd (Store tkr ts)) \<and>
    table_ok (update_store tkr (Append t) ts) \<and> table_ok (update_store tkr (UpdateLatestVolume v) ts) \<and>
    (fst (Store tkr ts) = None \<longleftrightarrow> tkr \<notin> set (tracked_symbols ts) \<and> int (TickerStore_Len ts) = TickerStore_Cap ts) \<and>
    (fst (Store tkr ts) \<noteq> None \<longrightarrow> Get tkr (snd (Store tkr ts)) = fst (Store tkr ts)) \<and>
    (tkr \<in> set (tracked_symbols ts) \<longrightarrow> snd (Store tkr ts) = ts) \<and>
    (\<forall>other. other \<noteq> tkr \<longrightarrow> Get other (snd (Store tkr ts)) = Get other ts)"
proof -
  have a: "table_ok (update_store tkr (Append t) ts)"
    using ring.append_invar ring.append_capacity by (intro table_ok_update_store [OF ts]) auto
  have v: "table_ok (update_store tkr (UpdateLatestVolume v) ts)"
    using ring.relabel_invar ring.relabel_capacity
    by (intro table_ok_update_store [OF ts]) (auto simp: UpdateLatestVolume_relabel)
  have tracked: "tkr \<in> set (tracked_symbols ts) \<longleftrightarrow> map_of (tst_stores ts) tkr \<noteq> None"
    by (auto simp: tracked_symbols_def map_of_eq_None_iff)
  have "int (TickerStore_Len ts) \<le> tst_max ts" using ts by (simp add: table_ok_def)
  then have "fst (Store tkr ts) = None \<longleftrightarrow> tkr \<notin> set (tracked_symbols ts) \<and> int (TickerStore_Len ts) = TickerStore_Cap ts"
    by (auto simp: Store_def tracked TickerStore_Len_def TickerStore_Cap_def Let_def split: option.split)
  moreover have "Get other (snd (Store tkr ts)) = (if other = tkr \<and> fst (Store tkr ts) \<noteq> None
      then fst (Store tkr ts) else Get other ts)" for other
    by (auto simp: Store_def Get_def Let_def update_conv split: option.split)
  moreover have "tkr \<in> set (tracked_symbols ts) \<longrightarrow> snd (Store tkr ts) = ts"
    unfolding tracked by (auto simp: Store_def)
  ultimately show ?thesis using a v table_ok_new table_ok_Store [OF ts] by simp
qed

lemma TickerStore_bounded_witness:
  "table_ok (NewTickerStore 2 16) \<and> table_ok (snd (Store ''TCS'' (NewTickerStore 2 16)))"
  using TickerStore_bounded [OF table_ok_new [of 2 16], of 2 16 "''TCS''"] by blast

end
