(* ===== verification/Breakout.thy ===== *)
theory Breakout
  imports TickStore Universe Models Bus
begin

text \<open>
  The breakout detector of \<open>src/analysts/quantitative/breakout.go\<close>: the evaluation of one symbol,
  the sweep over the universe and the publication of trade intents. The clock and the outcome of
  each publish are inputs.
\<close>

record BreakoutConfig =
  bc_BollingerPeriod :: int
  bc_BollingerMultiplier :: float64
  bc_VolumeWindow :: int
  bc_VolumeThreshold :: float64
  bc_EvalInterval :: Duration
  bc_CandleDuration :: Duration

definition DefaultEvalInterval :: Duration where "DefaultEvalInterval = 60 * Second"

definition DefaultBreakoutConfig :: BreakoutConfig where
  "DefaultBreakoutConfig =
     \<lparr>bc_BollingerPeriod = 20, bc_BollingerMultiplier = flt 2, bc_VolumeWindow = 10,
      bc_VolumeThreshold = flt 2, bc_EvalInterval = DefaultEvalInterval, bc_CandleDuration = Minute\<rparr>"

text \<open>\<open>toIndicatorCandles\<close> copies the candles field by field into the indicators' own type.\<close>

definition toIndicatorCandles :: "Candle list \<Rightarrow> Candle list" where
  "toIndicatorCandles src =
     map (\<lambda>c. \<lparr>c_Open = c_Open c, c_High = c_High c, c_Low = c_Low c, c_Close = c_Close c, c_Volume = c_Volume c\<rparr>) src"

text \<open>\<open>evaluate\<close> takes the ring's lock three times, and the feed may append in between: \<open>s1\<close>, \<open>s2\<close> and
  \<open>s3\<close> are the ring at the three moments. The outer \<open>None\<close> is the panic on a zero candle duration,
  the inner one the nil intent.\<close>

definition evaluate :: "BreakoutConfig \<Rightarrow> Time \<Rightarrow> string \<Rightarrow> TickStore \<Rightarrow> TickStore \<Rightarrow> TickStore \<Rightarrow> TradeIntent option option" where
  "evaluate cfg now symbol s1 s2 s3 =
     (case Candles s1 (bc_CandleDuration cfg) of
        None \<Rightarrow> None
      | Some candles \<Rightarrow> Some (
          if length candles < 2 then None
          else
            let lst = last candles;
                vwapRes = VWAPFromCandles (toIndicatorCandles candles)
            in if \<not> vw_Valid vwapRes then None
            else
              let recentPrices = RecentPrices s2 (bc_BollingerPeriod cfg)
              in if int (length recentPrices) < bc_BollingerPeriod cfg then None
              else case BollingerBands recentPrices (bc_BollingerPeriod cfg) (bc_BollingerMultiplier cfg) of (bands, ok) \<Rightarrow>
                if \<not> ok then None
                else
                  let recentVolumes = RecentVolumes s3 (bc_VolumeWindow cfg + 1)
                  in if int (length recentVolumes) < bc_VolumeWindow cfg + 1 then None
                  else
                    let volResult = VolumeBreakout recentVolumes (bc_VolumeWindow cfg) (bc_VolumeThreshold cfg);
                        closePrice = c_Close lst;
                        aboveVWAP = vw_VWAP vwapRes < closePrice;
                        belowVWAP = closePrice < vw_VWAP vwapRes;
                        aboveUpper = b_Upper bands < closePrice;
                        belowLower = closePrice < b_Lower bands
                    in if aboveVWAP \<and> vr_IsBreakout volResult \<and> aboveUpper
                       then Some \<lparr>ti_Ticker = symbol, ti_Side = SideLong, ti_CurrentPrice = closePrice,
                              ti_VWAP = vw_VWAP vwapRes, ti_VolumeRatio = vr_Ratio volResult,
                              ti_SignalReason = ''VWAP_breakout_plus_volume_plus_BB'', ti_Timestamp = now\<rparr>
                       else if belowVWAP \<and> vr_IsBreakout volResult \<and> belowLower
                       then Some \<lparr>ti_Ticker = symbol, ti_Side = SideShort, ti_CurrentPrice = closePrice,
                              ti_VWAP = vw_VWAP vwapRes, ti_VolumeRatio = vr_Ratio volResult,
                              ti_SignalReason = ''VWAP_breakout_plus_volume_plus_BB'', ti_Timestamp = now\<rparr>
                       else None))"

definition publish_intent :: "fault \<Rightarrow> TradeIntent \<Rightarrow> message list \<Rightarrow> message list" where
  "publish_intent reply intent sent =
     (case marshal_intent intent of
        Inl _ \<Rightarrow> sent
      | Inr data \<Rightarrow> snd (Publish reply SubjectIntentNew data sent))"

text \<open>One sweep: \<open>now\<close> and \<open>reply\<close> give the clock and the network's behaviour at each symbol's turn, and the
  rings are those at the start of the sweep. \<open>None\<close> is the panic.\<close>

fun evaluate_symbols :: "BreakoutConfig \<Rightarrow> TickerStore \<Rightarrow> (nat \<Rightarrow> Time) \<Rightarrow> (nat \<Rightarrow> fault) \<Rightarrow> nat \<Rightarrow>
    string list \<Rightarrow> message list \<Rightarrow> message list option" where
  "evaluate_symbols cfg ts now reply k [] sent = Some sent"
| "evaluate_symbols cfg ts now reply k (symbol # symbols) sent =
     (case Get symbol ts of
        None \<Rightarrow> evaluate_symbols cfg ts now reply (Suc k) symbols sent
      | Some store \<Rightarrow>
          if Len store < 2 then evaluate_symbols cfg ts now reply (Suc k) symbols sent
          else case evaluate cfg (now k) symbol store store store of
            None \<Rightarrow> None
          | Some None \<Rightarrow> evaluate_symbols cfg ts now reply (Suc k) symbols sent
          | Some (Some intent) \<Rightarrow>
              evaluate_symbols cfg ts now reply (Suc k) symbols (publish_intent (reply k) intent sent))"

definition evaluateAll :: "BreakoutConfig \<Rightarrow> Universe \<Rightarrow> TickerStore \<Rightarrow> (nat \<Rightarrow> Time) \<Rightarrow> (nat \<Rightarrow> fault) \<Rightarrow>
    message list \<Rightarrow> message list option" where
  "evaluateAll cfg u ts now reply sent = evaluate_symbols cfg ts now reply 0 (un_Symbols u) sent"

section \<open>What an intent certifies\<close>

lemma toIndicatorCandles_id [simp]: "toIndicatorCandles cs = cs"
  unfolding toIndicatorCandles_def by (rule map_idI) simp

lemma evaluate_SomeD:
  assumes "evaluate cfg now symbol s1 s2 s3 = Some (Some i)"
  shows "\<exists>candles bands. Candles s1 (bc_CandleDuration cfg) = Some candles \<and> 2 \<le> length candles \<and>
     vw_Valid (VWAPFromCandles candles) \<and>
     BollingerBands (RecentPrices s2 (bc_BollingerPeriod cfg)) (bc_BollingerPeriod cfg) (bc_BollingerMultiplier cfg) = (bands, True) \<and>
     vr_IsBreakout (VolumeBreakout (RecentVolumes s3 (bc_VolumeWindow cfg + 1)) (bc_VolumeWindow cfg) (bc_VolumeThreshold cfg)) \<and>
     ti_Ticker i = symbol \<and> ti_CurrentPrice i = c_Close (last candles) \<and> ti_Timestamp i = now \<and>
     ti_VWAP i = vw_VWAP (VWAPFromCandles candles) \<and> ti_SignalReason i = ''VWAP_breakout_plus_volume_plus_BB'' \<and>
     ti_VolumeRatio i = vr_Ratio (VolumeBreakout (RecentVolumes s3 (bc_VolumeWindow cfg + 1)) (bc_VolumeWindow cfg) (bc_VolumeThreshold cfg)) \<and>
     ((ti_Side i = SideLong \<and> ti_VWAP i < ti_CurrentPrice i \<and> b_Upper bands < ti_CurrentPrice i) \<or>
      (ti_Side i = SideShort \<and> ti_CurrentPrice i < ti_VWAP i \<and> ti_CurrentPrice i < b_Lower bands))"
  using assms
  by (auto simp: evaluate_def Let_def not_less split: option.splits prod.splits if_splits)

text \<open>The last candle closes at the price of the newest tick.\<close>

lemma Candles_newest:
  assumes c: "Candles s dur = Some cs" "cs \<noteq> []" and ok: "\<forall>t\<in>set (ring_contents s). tick_ok t"
  shows "c_Close (last cs) = tk_Price (last (ring_contents s))"
proof -
  let ?bs = "foldl (candle_step dur) [] (ring_contents s)"
  have cs: "cs = map acc_candle ?bs"
    using c by (auto simp: Candles_def ring_contents_def split: if_splits)
  obtain runs where runs: "concat runs = ring_contents s"
      "list_all2 (\<lambda>r b. candle_of dur r (acc_id b) (acc_candle b)) runs ?bs"
    using buckets_of_fold [OF ok, of dur] by (auto simp: buckets_of_def)
  have ne: "?bs \<noteq> []" "runs \<noteq> []" using c(2) cs list_all2_lengthD [OF runs(2)] by auto
  then have "list_all2 (\<lambda>r b. candle_of dur r (acc_id b) (acc_candle b)) (butlast runs @ [last runs]) (butlast ?bs @ [last ?bs])"
    using runs(2) by simp
  then have l: "candle_of dur (last runs) (acc_id (last ?bs)) (acc_candle (last ?bs))"
    using list_all2_lengthD [OF runs(2)] by (subst (asm) list_all2_append) auto
  then have "last runs \<noteq> []" by (simp add: candle_of_def)
  then have "last (concat (butlast runs @ [last runs])) = last (last runs)"
    by (simp only: concat_append concat.simps append_Nil2 last_appendR not_False_eq_True)
  then have "last (ring_contents s) = last (last runs)" using ne(2) runs(1) by simp
  moreover have "c_Close (last cs) = tk_Price (last (last runs))"
    using l ne(1) by (simp add: candle_of_def cs last_map)
  ultimately show ?thesis by simp
qed

lemma not_le_zero: "x \<noteq> NaN \<Longrightarrow> \<not> x \<le> 0 \<longleftrightarrow> 0 < (x :: float64)"
  using f64_not_less [of 0 x] by (auto simp: zero_float64_def)

text \<open>C37: Every intent of \<open>evaluate\<close> is justified by the ring. It is for the symbol asked about and carries
  the clock, the VWAP of the candles, the ratio of a volume breakout and, as its price, the close of the
  last candle, which is the price of the newest tick. Its side follows that price: LONG strictly above
  both the VWAP and the upper band, SHORT strictly below both the VWAP and the lower band. It passes the
  validation the Risk Manager applies exactly when that price is positive. A tick is stored with the
  price 0 when the message of the feed has none, and \<open>zero_price_short\<close> shows a short intent
  at the price 0, which is not valid.\<close>

theorem evaluate_sound:
  assumes i: "evaluate cfg now symbol s1 s2 s3 = Some (Some i)" and "symbol \<noteq> ''''"
    and ok: "\<forall>t\<in>set (ring_contents s1). tick_ok t"
  shows "(\<exists>candles bands volResult.
      Candles s1 (bc_CandleDuration cfg) = Some candles \<and> 2 \<le> length candles \<and>
      BollingerBands (RecentPrices s2 (bc_BollingerPeriod cfg)) (bc_BollingerPeriod cfg)
        (bc_BollingerMultiplier cfg) = (bands, True) \<and>
      VolumeBreakout (RecentVolumes s3 (bc_VolumeWindow cfg + 1)) (bc_VolumeWindow cfg)
        (bc_VolumeThreshold cfg) = volResult \<and> vr_IsBreakout volResult \<and>
      ti_Ticker i = symbol \<and> ti_Timestamp i = now \<and> ti_VolumeRatio i = vr_Ratio volResult \<and>
      ti_VWAP i = vw_VWAP (VWAPFromCandles candles) \<and> ti_CurrentPrice i = c_Close (last candles) \<and>
      ((ti_Side i = SideLong \<and> ti_VWAP i < ti_CurrentPrice i \<and> b_Upper bands < ti_CurrentPrice i) \<or>
       (ti_Side i = SideShort \<and> ti_CurrentPrice i < ti_VWAP i \<and> ti_CurrentPrice i < b_Lower bands))) \<and>
    ti_CurrentPrice i = tk_Price (last (ring_contents s1)) \<and>
    (validate_intent i = None \<longleftrightarrow> 0 < ti_CurrentPrice i)"
proof -
  from evaluate_SomeD [OF i] obtain candles bands where e:
      "Candles s1 (bc_CandleDuration cfg) = Some candles" "2 \<le> length candles"
      "BollingerBands (RecentPrices s2 (bc_BollingerPeriod cfg)) (bc_BollingerPeriod cfg) (bc_BollingerMultiplier cfg) = (bands, True)"
      "vr_IsBreakout (VolumeBreakout (RecentVolumes s3 (bc_VolumeWindow cfg + 1)) (bc_VolumeWindow cfg) (bc_VolumeThreshold cfg))"
      "ti_VolumeRatio i = vr_Ratio (VolumeBreakout (RecentVolumes s3 (bc_VolumeWindow cfg + 1)) (bc_VolumeWindow cfg) (bc_VolumeThreshold cfg))"
      "ti_Ticker i = symbol" "ti_Timestamp i = now" "ti_CurrentPrice i = c_Close (last candles)"
      "ti_VWAP i = vw_VWAP (VWAPFromCandles candles)" "ti_SignalReason i = ''VWAP_breakout_plus_volume_plus_BB''"
      "(ti_Side i = SideLong \<and> ti_VWAP i < ti_CurrentPrice i \<and> b_Upper bands < ti_CurrentPrice i) \<or>
       (ti_Side i = SideShort \<and> ti_CurrentPrice i < ti_VWAP i \<and> ti_CurrentPrice i < b_Lower bands)"
    by blast
  have "candles \<noteq> []" using e(2) by auto
  then have newest: "ti_CurrentPrice i = tk_Price (last (ring_contents s1))"
    using Candles_newest [OF e(1)] ok e(8) by simp
  have "ti_CurrentPrice i \<noteq> NaN" using e(11) by auto
  then have "\<not> ti_CurrentPrice i \<le> 0 \<longleftrightarrow> 0 < ti_CurrentPrice i" by (rule not_le_zero)
  moreover have "ti_Side i \<in> {SideLong, SideShort}" using e(11) by auto
  ultimately have "validate_intent i = None \<longleftrightarrow> 0 < ti_CurrentPrice i"
    using e(6,10) assms(2) by (simp add: validate_intent_ok)
  with e newest show ?thesis by blast
qed

definition sample_config :: BreakoutConfig where
  "sample_config = \<lparr>bc_BollingerPeriod = 2, bc_BollingerMultiplier = Fin (1/2), bc_VolumeWindow = 1,
     bc_VolumeThreshold = flt 2, bc_EvalInterval = Second, bc_CandleDuration = 60\<rparr>"

definition sample_ring :: TickStore where
  "sample_ring = Append \<lparr>tk_Price = Fin 104, tk_Volume = 30, tk_Timestamp = 120\<rparr>
     (Append \<lparr>tk_Price = Fin 100, tk_Volume = 10, tk_Timestamp = 60\<rparr> (NewTickStore 4))"

lemma sample_ring_contents:
  "ring_contents sample_ring = [\<lparr>tk_Price = Fin 100, tk_Volume = 10, tk_Timestamp = 60\<rparr>,
     \<lparr>tk_Price = Fin 104, tk_Volume = 30, tk_Timestamp = 120\<rparr>]"
  using NewTickStore_ok [of 4] ring.append_invar ring.append_capacity ring.append_contents
  by (simp add: sample_ring_def)

lemma isqrt_bits_square:
  assumes "0 \<le> m" "m < 2 ^ k" shows "isqrt_bits k (m * m) 0 = m"
proof -
  let ?s = "isqrt_bits k (m * m) 0"
  have "m * m < 2 ^ k * 2 ^ k" using assms by (intro mult_strict_mono) auto
  then have "?s * ?s \<le> m * m" "m * m < (?s + 1) * (?s + 1)" "0 \<le> ?s"
    using isqrt_bits_bounds [of 0 "m * m" k] by auto
  then have "?s\<^sup>2 \<le> m\<^sup>2" "m\<^sup>2 < (?s + 1)\<^sup>2" "0 \<le> ?s + 1" by (simp_all add: power2_eq_square)
  then have "?s \<le> m" "m < ?s + 1"
    using assms(1) power2_le_imp_le power2_less_imp_less by blast+
  then show ?thesis by simp
qed

lemma sqrt_4: "f64_sqrt (Fin 4) = Fin 2"
proof -
  have "ilog2 4 = 2" using ilog2_less [of 4 3] ilog2_ge [of 4 2] by simp
  then show ?thesis using isqrt_bits_square [of 72057594037927936 57] by (simp add: Let_def)
qed

lemma sample_evaluation:
  "evaluate sample_config 0 ''TCS'' sample_ring sample_ring sample_ring =
     Some (Some \<lparr>ti_Ticker = ''TCS'', ti_Side = SideLong, ti_CurrentPrice = Fin 104, ti_VWAP = Fin 103,
       ti_VolumeRatio = Fin 3, ti_SignalReason = ''VWAP_breakout_plus_volume_plus_BB'', ti_Timestamp = 0\<rparr>)"
proof -
  have c: "Candles sample_ring 60 = Some
     [\<lparr>c_Open = Fin 100, c_High = Fin 100, c_Low = Fin 100, c_Close = Fin 100, c_Volume = 10\<rparr>,
      \<lparr>c_Open = Fin 104, c_High = Fin 104, c_Low = Fin 104, c_Close = Fin 104, c_Volume = 30\<rparr>]"
  proof -
    have "count sample_ring = 2" using sample_ring_contents length_ring_contents [of sample_ring] by simp
    then show ?thesis using sample_ring_contents
      unfolding Candles_def ring_contents_def [symmetric] by (simp add: candle_step_def go_div_def)
  qed
  have p: "RecentPrices sample_ring 2 = [Fin 100, Fin 104]" "RecentVolumes sample_ring 2 = [10, 30]"
    by (simp_all add: RecentPrices_contents RecentVolumes_contents sample_ring_contents suffix_of_def)
  have "BollingerBands [Fin 100, Fin 104] 2 (Fin (1/2)) = (\<lparr>b_Upper = Fin 103, b_Middle = Fin 102, b_Lower = Fin 101\<rparr>, True)"
    by (simp add: BollingerBands_def bands_of_def Mean_def StatMath.Sum_def StdDev_def Variance_def
        zero_float64_Fin f64_minus_Fin sqrt_4 Let_def del: f64_sqrt.simps)
  moreover have "VolumeBreakout [10, 30] 1 (Fin 2) =
      \<lparr>vr_IsBreakout = True, vr_CurrentVolume = 30, vr_VolumeSMA = Fin 10, vr_Ratio = Fin 3, vr_Window = 1\<rparr>"
    by (simp add: VolumeBreakout_def Mean_def StatMath.Sum_def zero_float64_Fin)
  moreover have "VWAPFromCandles
     [\<lparr>c_Open = Fin 100, c_High = Fin 100, c_Low = Fin 100, c_Close = Fin 100, c_Volume = 10\<rparr>,
      \<lparr>c_Open = Fin 104, c_High = Fin 104, c_Low = Fin 104, c_Close = Fin 104, c_Volume = 30\<rparr>] =
      \<lparr>vw_VWAP = Fin 103, vw_TotalVolume = Fin 40, vw_PriceVolume = Fin 4120, vw_Valid = True\<rparr>"
    by (simp add: VWAPFromCandles_def VWAP_def zero_float64_Fin)
  ultimately show ?thesis using c p by (simp add: evaluate_def sample_config_def Let_def)
qed

lemma evaluate_sound_witness:
  "validate_intent \<lparr>ti_Ticker = ''TCS'', ti_Side = SideLong, ti_CurrentPrice = Fin 104, ti_VWAP = Fin 103,
     ti_VolumeRatio = Fin 3, ti_SignalReason = ''VWAP_breakout_plus_volume_plus_BB'', ti_Timestamp = 0\<rparr> = None"
  using evaluate_sound [OF sample_evaluation]
  by (simp add: sample_ring_contents tick_ok_def in_int64_def zero_float64_Fin)

text \<open>After a message without a price the newest tick stands at 0, and the detector takes it for a fall.\<close>

definition zero_price_ring :: TickStore where
  "zero_price_ring = Append \<lparr>tk_Price = Fin 0, tk_Volume = 30, tk_Timestamp = 120\<rparr>
     (Append \<lparr>tk_Price = Fin 4, tk_Volume = 10, tk_Timestamp = 60\<rparr> (NewTickStore 4))"

lemma zero_price_ring_contents:
  "ring_contents zero_price_ring = [\<lparr>tk_Price = Fin 4, tk_Volume = 10, tk_Timestamp = 60\<rparr>,
     \<lparr>tk_Price = Fin 0, tk_Volume = 30, tk_Timestamp = 120\<rparr>]"
  using NewTickStore_ok [of 4] ring.append_invar ring.append_capacity ring.append_contents
  by (simp add: zero_price_ring_def)

theorem zero_price_short:
  "\<exists>i. evaluate sample_config 0 ''TCS'' zero_price_ring zero_price_ring zero_price_ring = Some (Some i) \<and>
     ti_Side i = SideShort \<and> ti_CurrentPrice i = 0 \<and> validate_intent i \<noteq> None"
proof -
  let ?cs = "[\<lparr>c_Open = Fin 4, c_High = Fin 4, c_Low = Fin 4, c_Close = Fin 4, c_Volume = 10\<rparr>,
      \<lparr>c_Open = Fin 0, c_High = Fin 0, c_Low = Fin 0, c_Close = Fin 0, c_Volume = 30\<rparr>]"
  have "count zero_price_ring = 2"
    using zero_price_ring_contents length_ring_contents [of zero_price_ring] by simp
  then have c: "Candles zero_price_ring 60 = Some ?cs" using zero_price_ring_contents
    unfolding Candles_def ring_contents_def [symmetric] by (simp add: candle_step_def go_div_def)
  have p: "RecentPrices zero_price_ring 2 = [Fin 4, Fin 0]" "RecentVolumes zero_price_ring 2 = [10, 30]"
    by (simp_all add: RecentPrices_contents RecentVolumes_contents zero_price_ring_contents suffix_of_def)
  have "BollingerBands [Fin 4, Fin 0] 2 (Fin (1/2)) = (\<lparr>b_Upper = Fin 3, b_Middle = Fin 2, b_Lower = Fin 1\<rparr>, True)"
    by (simp add: BollingerBands_def bands_of_def Mean_def StatMath.Sum_def StdDev_def Variance_def
        zero_float64_Fin f64_minus_Fin sqrt_4 Let_def del: f64_sqrt.simps)
  moreover have "VolumeBreakout [10, 30] 1 (Fin 2) =
      \<lparr>vr_IsBreakout = True, vr_CurrentVolume = 30, vr_VolumeSMA = Fin 10, vr_Ratio = Fin 3, vr_Window = 1\<rparr>"
    by (simp add: VolumeBreakout_def Mean_def StatMath.Sum_def zero_float64_Fin)
  moreover have "VWAPFromCandles ?cs =
      \<lparr>vw_VWAP = Fin 1, vw_TotalVolume = Fin 40, vw_PriceVolume = Fin 40, vw_Valid = True\<rparr>"
    by (simp add: VWAPFromCandles_def VWAP_def zero_float64_Fin)
  ultimately show ?thesis using c p
    by (simp add: evaluate_def sample_config_def Let_def validate_intent_ok zero_float64_Fin less_eq_float64_def)
qed

end
