(* ===== verification/Feed.thy ===== *)
theory Feed
  imports Breakout
begin

text \<open>
  The feed connector of \<open>src/analysts/quantitative/feed.go\<close>: the snapshot poll that appends ticks to
  the rings, the throttled price stream, the resolution of exchange tokens, and the poll that patches
  volumes. A snapshot and the answers to quote requests are inputs here, like the clock and the bus; the client
  they come from, the start and the reconnection are in \<open>FeedClient\<close>, the loops that call these operations on
  timers in \<open>ScoutLoops\<close>.
\<close>

record LTPData =
  ld_TsInMillis :: int
  ld_LTP :: float64

record FeedInstrument =
  fi_Exchange :: Exchange
  fi_Segment :: Segment
  fi_ExchangeToken :: string

text \<open>\<open>fc_js\<close> says whether a JetStream handle was given.\<close>

record FeedConnector =
  fc_ts :: TickerStore
  fc_universe :: Universe
  fc_js :: bool
  fc_lastPricePub :: "string \<rightharpoonup> Time"

definition DefaultPollInterval :: Duration where "DefaultPollInterval = 100000000"
definition QuotePollInterval :: Duration where "QuotePollInterval = 5 * Second"
definition PricePublishInterval :: Duration where "PricePublishInterval = Second"

definition UnixMilli :: "int \<Rightarrow> Time" where
  "UnixMilli ms = ms * 1000000"

fun entry_symbol :: "UniverseEntry list \<Rightarrow> string \<Rightarrow> string" where
  "entry_symbol [] tokenKey = ''''"
| "entry_symbol (e # es) tokenKey =
     (if ue_ExchangeToken e = tokenKey then ue_Symbol e else entry_symbol es tokenKey)"

definition tokenSymbol :: "Universe \<Rightarrow> string \<Rightarrow> string \<Rightarrow> string \<Rightarrow> string" where
  "tokenSymbol u exchangeKey segmentKey tokenKey =
     (case un_TokenToSymbol u tokenKey of Some s \<Rightarrow> s | None \<Rightarrow> entry_symbol (un_Entries u) tokenKey)"

definition publishPrice :: "Time \<Rightarrow> fault \<Rightarrow> string \<Rightarrow> float64 \<Rightarrow> int \<Rightarrow>
    FeedConnector \<times> message list \<Rightarrow> FeedConnector \<times> message list" where
  "publishPrice now reply symbol price tsMillis = (\<lambda>(fc, sent).
     if \<not> fc_js fc then (fc, sent)
     else if (case fc_lastPricePub fc symbol of Some lst \<Rightarrow> now - lst < PricePublishInterval | None \<Rightarrow> False)
     then (fc, sent)
     else
       let fc = fc\<lparr>fc_lastPricePub := (fc_lastPricePub fc)(symbol \<mapsto> now)\<rparr>
       in case marshal_tick \<lparr>pt_Ticker = symbol, pt_Price = price, pt_TsInMillis = tsMillis\<rparr> of
            Inl _ \<Rightarrow> (fc, sent)
          | Inr data \<Rightarrow> (fc, snd (Publish reply (PriceSubject symbol) data sent)))"

text \<open>A snapshot is the list of its leaves in the order the three nested loops visit them, which Go
  leaves open; each comes with the clock and the bus's answer at its turn.\<close>

record leaf =
  lf_exchange :: string
  lf_segment :: string
  lf_token :: string
  lf_data :: LTPData
  lf_now :: Time
  lf_reply :: fault

definition process_leaf :: "leaf \<Rightarrow> FeedConnector \<times> message list \<Rightarrow> FeedConnector \<times> message list" where
  "process_leaf l = (\<lambda>(fc, sent).
     let symbol = tokenSymbol (fc_universe fc) (lf_exchange l) (lf_segment l) (lf_token l)
     in if symbol = '''' then (fc, sent)
        else case Store symbol (fc_ts fc) of
          (None, ts) \<Rightarrow> (fc\<lparr>fc_ts := ts\<rparr>, sent)
        | (Some _, ts) \<Rightarrow>
            let tick = \<lparr>tk_Price = ld_LTP (lf_data l), tk_Volume = 0, tk_Timestamp = UnixMilli (ld_TsInMillis (lf_data l))\<rparr>;
                fc = fc\<lparr>fc_ts := update_store symbol (Append tick) ts\<rparr>
            in publishPrice (lf_now l) (lf_reply l) symbol (ld_LTP (lf_data l)) (ld_TsInMillis (lf_data l)) (fc, sent))"

definition processSnapshot :: "leaf list option \<Rightarrow> FeedConnector \<times> message list \<Rightarrow> FeedConnector \<times> message list" where
  "processSnapshot ltp st = (case ltp of None \<Rightarrow> st | Some leaves \<Rightarrow> foldl (\<lambda>st l. process_leaf l st) st leaves)"

definition feedInstruments :: "FeedConnector \<Rightarrow> FeedInstrument list" where
  "feedInstruments fc =
     map (\<lambda>e. \<lparr>fi_Exchange = ue_Exchange e, fi_Segment = ue_Segment e, fi_ExchangeToken = ue_ExchangeToken e\<rparr>)
       (un_Entries (fc_universe fc))"

text \<open>\<open>GetQuote k\<close> is the REST client's answer to the request for the \<open>k\<close>-th entry: its volume.\<close>

fun poll_entries :: "(nat \<Rightarrow> Exchange \<Rightarrow> Segment \<Rightarrow> string \<Rightarrow> error + int) \<Rightarrow> nat \<Rightarrow> UniverseEntry list \<Rightarrow>
    FeedConnector \<Rightarrow> FeedConnector" where
  "poll_entries GetQuote k [] fc = fc"
| "poll_entries GetQuote k (e # es) fc =
     (case Get (ue_Symbol e) (fc_ts fc) of
        None \<Rightarrow> poll_entries GetQuote (Suc k) es fc
      | Some store \<Rightarrow>
          if Len store = 0 then poll_entries GetQuote (Suc k) es fc
          else case GetQuote k (ue_Exchange e) (ue_Segment e) (ue_Symbol e) of
            Inl _ \<Rightarrow> poll_entries GetQuote (Suc k) es fc
          | Inr volume \<Rightarrow>
              poll_entries GetQuote (Suc k) es
                (fc\<lparr>fc_ts := update_store (ue_Symbol e) (UpdateLatestVolume volume) (fc_ts fc)\<rparr>))"

definition pollQuotes :: "(nat \<Rightarrow> Exchange \<Rightarrow> Segment \<Rightarrow> string \<Rightarrow> error + int) \<Rightarrow> FeedConnector \<Rightarrow> FeedConnector" where
  "pollQuotes GetQuote fc = poll_entries GetQuote 0 (un_Entries (fc_universe fc)) fc"

section \<open>Token resolution\<close>

lemma entry_symbol_none: "(\<forall>e\<in>set es. ue_ExchangeToken e \<noteq> tok) \<Longrightarrow> entry_symbol es tok = ''''"
  by (induction es) auto

lemma tokenSymbol_resolved: "tok \<noteq> '''' \<Longrightarrow> tokenSymbol (ResolveUniverse raw) ex seg tok = ''''"
proof -
  assume tok: "tok \<noteq> ''''"
  obtain es where es: "ResolveUniverse raw = buildUniverse es"
      "\<forall>e\<in>set es. ue_ExchangeToken e = ''''"
    using ResolveUniverse_build [of raw] by auto
  then have "filter (\<lambda>e. ue_ExchangeToken e \<noteq> '''') es = []" by (auto simp: filter_empty_conv)
  then show ?thesis using es tok
    by (simp add: tokenSymbol_def buildUniverse_simps entry_symbol_none)
qed

text \<open>No universe that \<open>ResolveUniverse\<close> can produce carries an exchange token, so a snapshot whose
  instruments are named by proper tokens reaches neither the rings nor the price stream.\<close>

theorem snapshot_dropped:
  assumes "fc_universe fc = ResolveUniverse raw" "\<forall>l\<in>set leaves. lf_token l \<noteq> ''''"
  shows "processSnapshot (Some leaves) (fc, sent) = (fc, sent)"
  using assms
proof (induction leaves)
  case (Cons l leaves)
  then have "process_leaf l (fc, sent) = (fc, sent)" by (simp add: process_leaf_def tokenSymbol_resolved)
  with Cons show ?case by (simp add: processSnapshot_def)
qed (simp add: processSnapshot_def)

lemma snapshot_dropped_witness:
  "processSnapshot (Some [\<lparr>lf_exchange = ''NSE'', lf_segment = ''CASH'', lf_token = ''2885'',
       lf_data = \<lparr>ld_TsInMillis = 0, ld_LTP = Fin 100\<rparr>, lf_now = 0, lf_reply = NoFault\<rparr>])
     (\<lparr>fc_ts = NewTickerStore 25 256, fc_universe = ResolveUniverse '''', fc_js = True, fc_lastPricePub = Map.empty\<rparr>, []) =
   (\<lparr>fc_ts = NewTickerStore 25 256, fc_universe = ResolveUniverse '''', fc_js = True, fc_lastPricePub = Map.empty\<rparr>, [])"
  by (rule snapshot_dropped [of _ "''''"]) simp_all

section \<open>The price stream is throttled\<close>

record price_call =
  pc_now :: Time
  pc_reply :: fault
  pc_symbol :: string
  pc_price :: float64
  pc_millis :: int

text \<open>The messages a series of calls puts on the bus, each with the clock of its call.\<close>

fun price_run :: "FeedConnector \<Rightarrow> price_call list \<Rightarrow> (Time \<times> message) list" where
  "price_run fc [] = []"
| "price_run fc (c # cs) =
     (case publishPrice (pc_now c) (pc_reply c) (pc_symbol c) (pc_price c) (pc_millis c) (fc, []) of
        (fc', msgs) \<Rightarrow> map (\<lambda>m. (pc_now c, m)) msgs @ price_run fc' cs)"

lemma PriceSubject_inj [simp]: "PriceSubject a = PriceSubject b \<longleftrightarrow> a = b"
  by (simp add: PriceSubject_def)

lemma publishPrice_step:
  assumes "publishPrice now reply symbol price ms (fc, []) = (fc', msgs)"
  shows "(msgs = [] \<or> (\<exists>d. msgs = [(PriceSubject symbol, d)])) \<and>
    (msgs \<noteq> [] \<longrightarrow> fc_lastPricePub fc' symbol = Some now) \<and>
    (\<forall>other. fc_lastPricePub fc' other = fc_lastPricePub fc other \<or>
       (other = symbol \<and> fc_lastPricePub fc' symbol = Some now \<and>
        (\<forall>lst. fc_lastPricePub fc symbol = Some lst \<longrightarrow> lst + PricePublishInterval \<le> now))) \<and>
    (msgs \<noteq> [] \<longrightarrow> (\<forall>lst. fc_lastPricePub fc symbol = Some lst \<longrightarrow> lst + PricePublishInterval \<le> now))"
  using assms
  by (auto simp: publishPrice_def Let_def Publish_def split: if_splits fault.splits option.splits sum.splits)

lemma price_run_after:
  "(t, m) \<in> set (price_run fc cs) \<Longrightarrow> fst m = PriceSubject s \<Longrightarrow> fc_lastPricePub fc s = Some lst \<Longrightarrow>
     lst + PricePublishInterval \<le> t"
proof (induction cs arbitrary: fc lst)
  case (Cons c cs)
  obtain fc' msgs where step: "publishPrice (pc_now c) (pc_reply c) (pc_symbol c) (pc_price c) (pc_millis c) (fc, []) = (fc', msgs)"
    by (cases "publishPrice (pc_now c) (pc_reply c) (pc_symbol c) (pc_price c) (pc_millis c) (fc, [])")
  note st = publishPrice_step [OF step]
  show ?case
  proof (cases "(t, m) \<in> set (price_run fc' cs)")
    case True
    from st Cons.prems(3) have "\<exists>l. fc_lastPricePub fc' s = Some l \<and> lst \<le> l"
    proof (cases "fc_lastPricePub fc' s = fc_lastPricePub fc s")
      case False
      with st have "s = pc_symbol c \<and> fc_lastPricePub fc' s = Some (pc_now c) \<and> lst + PricePublishInterval \<le> pc_now c"
        using Cons.prems(3) by blast
      then show ?thesis by (auto simp: PricePublishInterval_def Second_def nsec_def)
    qed (use Cons.prems(3) in auto)
    then show ?thesis using Cons.IH [OF True Cons.prems(2)] by fastforce
  next
    case False
    then have "m \<in> set msgs" "t = pc_now c" using Cons.prems(1) step by auto
    then show ?thesis using st Cons.prems(2,3) by auto
  qed
qed simp

text \<open>The price stream is throttled: however the calls come and however the clock moves, two price
  messages of the same ticker are at least \<open>PricePublishInterval\<close> apart, the later one second.\<close>

theorem price_stream_throttled:
  "sorted_wrt (\<lambda>(t, _) (t', _). t + PricePublishInterval \<le> t')
     (filter (\<lambda>(_, m). fst m = PriceSubject s) (price_run fc calls))"
proof (induction calls arbitrary: fc)
  case (Cons c cs)
  obtain fc' msgs where step: "publishPrice (pc_now c) (pc_reply c) (pc_symbol c) (pc_price c) (pc_millis c) (fc, []) = (fc', msgs)"
    by (cases "publishPrice (pc_now c) (pc_reply c) (pc_symbol c) (pc_price c) (pc_millis c) (fc, [])")
  note st = publishPrice_step [OF step]
  show ?case
  proof (cases msgs)
    case Nil
    then show ?thesis using Cons.IH step by simp
  next
    case (Cons m ms)
    with st obtain d where m: "msgs = [(PriceSubject (pc_symbol c), d)]" by auto
    with st have "fc_lastPricePub fc' (pc_symbol c) = Some (pc_now c)" by simp
    then show ?thesis using Cons.IH [of fc'] step m price_run_after [of _ _ fc' cs "pc_symbol c" "pc_now c"]
      by auto
  qed
qed simp

section \<open>Volumes patched into the newest tick only\<close>

text \<open>A history in which ticks arrive without volume and at least \<open>k\<close> of them separate two patches;
  \<open>d\<close> counts the ticks since the last patch.\<close>

fun sparse_ops :: "nat \<Rightarrow> nat \<Rightarrow> ring_op list \<Rightarrow> bool" where
  "sparse_ops k d [] = True"
| "sparse_ops k d (OpAppend t # ops) = (tk_Volume t = 0 \<and> sparse_ops k (Suc d) ops)"
| "sparse_ops k d (OpVolume v # ops) = (k \<le> d \<and> sparse_ops k 0 ops)"

definition traded :: "Tick list \<Rightarrow> nat" where
  "traded xs = length (filter (\<lambda>t. tk_Volume t \<noteq> 0) xs)"

lemma traded_append [simp]: "traded (xs @ ys) = traded xs + traded ys" and traded_Nil [simp]: "traded [] = 0"
  by (simp_all add: traded_def)

lemma traded_drop: "traded (drop n xs) \<le> traded xs"
  using traded_append [of "take n xs" "drop n xs"] by (simp del: traded_append)

lemma suffix_of_suffix: "suffix_of m (suffix_of n xs) = suffix_of (min m n) xs"
proof -
  have "length xs - (length xs - n) - m + (length xs - n) = length xs - min m n" by arith
  then show ?thesis by (simp only: suffix_of_def length_drop drop_drop)
qed

lemma suffix_suffix: "traded (suffix_of m (suffix_of n xs)) \<le> traded (suffix_of n xs)"
  unfolding suffix_of_def [of m] by (rule traded_drop)

lemma suffix_mono: "m \<le> n \<Longrightarrow> traded (suffix_of m xs) \<le> traded (suffix_of n xs)"
  using suffix_suffix [of m n xs] by (simp add: suffix_of_suffix)

lemma suffix_window: "traded (suffix_of m (suffix_of n xs)) \<le> traded (suffix_of m xs)"
  by (simp add: suffix_of_suffix suffix_mono)

definition sparse :: "nat \<Rightarrow> nat \<Rightarrow> Tick list \<Rightarrow> bool" where
  "sparse k d xs \<longleftrightarrow> traded (suffix_of k xs) \<le> 1 \<and> traded (suffix_of d xs) = 0"

lemma sparse_append:
  assumes s: "sparse k d xs" and t: "tk_Volume t = 0" and k: "0 < k"
  shows "sparse k (Suc d) (suffix_of n (xs @ [t]))"
proof -
  have "traded (suffix_of k (xs @ [t])) \<le> 1" "traded (suffix_of (Suc d) (xs @ [t])) = 0"
    using s t k suffix_mono [of "k - 1" k xs] by (auto simp: sparse_def suffix_of_snoc) (simp_all add: traded_def)
  then show ?thesis
    using suffix_window [of k n "xs @ [t]"] suffix_window [of "Suc d" n "xs @ [t]"] by (simp add: sparse_def)
qed

lemma sparse_patch:
  assumes s: "sparse k d xs" and k: "0 < k" "k \<le> d" and xs: "xs \<noteq> []"
  shows "sparse k 0 (butlast xs @ [t])"
proof -
  obtain ys y where ys: "xs = ys @ [y]" using xs by (cases xs rule: rev_cases) auto
  have "traded (suffix_of k xs) = 0" using s suffix_mono [OF k(2), of xs] by (simp add: sparse_def)
  then have "traded (suffix_of (k - 1) ys) = 0" using k by (simp add: ys suffix_of_snoc)
  moreover have "traded [t] \<le> 1" by (simp add: traded_def)
  ultimately show ?thesis using k by (simp add: sparse_def ys suffix_of_snoc) (simp add: suffix_of_def)
qed

lemma sparse_fold:
  "sparse k d xs \<Longrightarrow> sparse_ops k d ops \<Longrightarrow> 0 < k \<Longrightarrow> \<exists>d'. sparse k d' (foldl (spec_step n) xs ops)"
proof (induction ops arbitrary: xs d)
  case (Cons op ops)
  show ?case
  proof (cases op)
    case (OpAppend t)
    with Cons.prems sparse_append [of k d xs t n] Cons.IH show ?thesis by simp
  next
    case (OpVolume v)
    have "sparse k 0 xs" using Cons.prems(1) by (simp add: sparse_def suffix_of_def)
    with OpVolume Cons.prems sparse_patch [of k d xs] have "sparse k 0 (spec_step n xs op)"
      by (cases "xs = []") auto
    moreover have "sparse_ops k 0 ops" using Cons.prems OpVolume by simp
    ultimately show ?thesis using Cons.IH Cons.prems(3) by simp
  qed
qed auto

lemma sparse_ops_prefix: "sparse_ops k d (xs @ ys) \<Longrightarrow> sparse_ops k d xs"
  by (induction k d xs rule: sparse_ops.induct) auto

lemma sparse_ring_silent:
  assumes "sparse_ops 11 11 ops"
  shows "evaluate DefaultBreakoutConfig now symbol s1 s2 (foldl ring_step (NewTickStore n) ops) \<noteq> Some (Some i)"
proof
  let ?s = "foldl ring_step (NewTickStore n) ops"
  assume "evaluate DefaultBreakoutConfig now symbol s1 s2 ?s = Some (Some i)"
  then have b: "vr_IsBreakout (VolumeBreakout (RecentVolumes ?s 11) 10 (flt 2))"
    using evaluate_SomeD by (fastforce simp: DefaultBreakoutConfig_def)
  have "sparse 11 11 []" by (simp add: sparse_def suffix_of_def)
  then obtain d where "sparse 11 d (ring_contents ?s)"
    using sparse_fold [OF _ assms] ring_steps [of "NewTickStore n" ops] NewTickStore_ok [of n] by auto
  then have "length (filter (\<lambda>v. v \<noteq> 0) (RecentVolumes ?s 11)) \<le> 1"
    by (simp add: RecentVolumes_contents sparse_def traded_def filter_map comp_def)
  with b show False using breakout_needs_two by blast
qed

text \<open>In production the scout cannot signal. With the default configuration, if the ring was filled
  the way the feed fills it, by ticks without volume and by patches of the newest tick at least eleven
  ticks apart (the polls run every 100 milliseconds and every 5 seconds), then \<open>evaluate\<close> returns no
  intent, whatever the prices, the volumes and the state of the ring at its other two reads.\<close>

theorem scout_never_signals:
  assumes "sparse_ops 11 11 ops"
  shows "evaluate DefaultBreakoutConfig now symbol s1 s2 (foldl ring_step (NewTickStore n) ops) \<noteq> Some (Some i)"
  by (rule sparse_ring_silent [OF assms])

definition sparse_history :: "ring_op list" where
  "sparse_history = replicate 11 (OpAppend \<lparr>tk_Price = Fin 100, tk_Volume = 0, tk_Timestamp = 0\<rparr>) @ [OpVolume 5000]"

lemma scout_never_signals_witness:
  "evaluate DefaultBreakoutConfig 0 ''TCS'' one_tick_ring one_tick_ring
     (foldl ring_step (NewTickStore 256) sparse_history) \<noteq>
   Some (Some \<lparr>ti_Ticker = ''TCS'', ti_Side = SideLong, ti_CurrentPrice = Fin 100, ti_VWAP = Fin 99,
     ti_VolumeRatio = Fin 3, ti_SignalReason = ''x'', ti_Timestamp = 0\<rparr>)"
  by (rule scout_never_signals) (simp add: sparse_history_def numeral_eq_Suc)

end
