(* ===== verification/FeedClient.thy ===== *)
theory FeedClient
  imports Feed Instruments
begin

text \<open>
  The broker's WebSocket feed, \<open>src/pkg/groww/feed.go\<close>: connecting, subscribing, the read loop with its
  dispatch to snapshots and callbacks, closing and reconnecting; and the loop of the scout's connector that keeps
  it alive (\<open>Start\<close>, \<open>consumeWithReconnect\<close> of \<open>src/analysts/quantitative/feed.go\<close>). Sockets are numbers; what the
  network does is an argument \<open>ws_env\<close> with a state of any type. Registered callbacks are numbers too, and
  their calls are listed in order. That a pong extends the read deadline is left to the library.
\<close>

section \<open>Snapshots\<close>

definition zero_LTPData :: LTPData where "zero_LTPData = \<lparr>ld_TsInMillis = 0, ld_LTP = 0\<rparr>"

definition dec_LTPData :: "string \<Rightarrow> json \<Rightarrow> LTPData \<Rightarrow> LTPData \<times> bool" where
  "dec_LTPData = dec_by [
     (''tsinmillis'', set_int (\<lambda>x. ld_TsInMillis_update (\<lambda>_. x))),
     (''ltp'', set_float (\<lambda>x. ld_LTP_update (\<lambda>_. x)))]"

record MarketDepthData =
  mdd_TsInMillis :: int
  mdd_BuyBook :: "(int \<times> DepthEntry) list option"
  mdd_SellBook :: "(int \<times> DepthEntry) list option"

definition zero_MarketDepthData :: MarketDepthData where
  "zero_MarketDepthData = \<lparr>mdd_TsInMillis = 0, mdd_BuyBook = None, mdd_SellBook = None\<rparr>"

text \<open>The keys of a Go map of type \<open>map[int]T\<close> are read as 64-bit integers; any other key is an error.\<close>

definition int_key :: "string \<Rightarrow> int option" where
  "int_key s =
     (let (neg, ds) = (case s of [] \<Rightarrow> (False, []) | c # cs \<Rightarrow>
            if c = CHR ''-'' then (True, cs) else if c = CHR ''+'' then (False, cs) else (False, c # cs));
          v = (if neg then - digits_value ds else digits_value ds)
      in if ds = [] \<or> (\<exists>c \<in> set ds. \<not> is_digit c) \<or> \<not> in_int64 v then None else Some v)"

fun dec_book :: "(string \<times> json) list \<Rightarrow> (int \<times> DepthEntry) list \<Rightarrow> (int \<times> DepthEntry) list \<times> bool" where
  "dec_book [] m = (m, False)"
| "dec_book ((k, v) # kvs) m =
     (case set_struct dec_DepthEntry id (\<lambda>x _. x) v zero_DepthEntry of (x, e) \<Rightarrow>
      case int_key k of
        None \<Rightarrow> (fst (dec_book kvs m), True)
      | Some i \<Rightarrow> (case dec_book kvs (AList.update i x m) of (m', e') \<Rightarrow> (m', e \<or> e')))"

definition set_book :: "((int \<times> DepthEntry) list option \<Rightarrow> MarketDepthData \<Rightarrow> MarketDepthData) \<Rightarrow> json \<Rightarrow>
    MarketDepthData \<Rightarrow> MarketDepthData \<times> bool" where
  "set_book put v st =
     (case v of
        JObj kvs \<Rightarrow> (case dec_book kvs [] of (m, bad) \<Rightarrow> (put (Some m) st, bad))
      | JNull \<Rightarrow> (put None st, False)
      | _ \<Rightarrow> (st, True))"

definition dec_MarketDepthData :: "string \<Rightarrow> json \<Rightarrow> MarketDepthData \<Rightarrow> MarketDepthData \<times> bool" where
  "dec_MarketDepthData = dec_by [
     (''tsinmillis'', set_int (\<lambda>x. mdd_TsInMillis_update (\<lambda>_. x))),
     (''buybook'', set_book (\<lambda>x. mdd_BuyBook_update (\<lambda>_. x))),
     (''sellbook'', set_book (\<lambda>x. mdd_SellBook_update (\<lambda>_. x)))]"

text \<open>A snapshot is a Go map of maps of maps, keyed by exchange, segment and exchange token.\<close>

type_synonym 'a tokens = "(string \<times> 'a) list option"
type_synonym 'a snapshot = "'a tokens tokens tokens"

definition parse_snapshot :: "(string \<Rightarrow> json \<Rightarrow> 'a \<Rightarrow> 'a \<times> bool) \<Rightarrow> 'a \<Rightarrow> json \<Rightarrow> error + 'a snapshot" where
  "parse_snapshot d zero j =
     unmarshal_map (set_map (set_map (set_struct d id (\<lambda>x _. x)) zero) None) None (Some j)"

definition entries :: "'a tokens \<Rightarrow> (string \<times> 'a) list" where
  "entries m = (case m of None \<Rightarrow> [] | Some xs \<Rightarrow> xs)"

definition snapshot_leaves :: "'a snapshot \<Rightarrow> (string \<times> string \<times> string \<times> 'a) list" where
  "snapshot_leaves snap = concat (map (\<lambda>(ex, segs). concat (map (\<lambda>(seg, toks).
     map (\<lambda>(tok, x). (ex, seg, tok, x)) (entries toks)) (entries segs))) (entries snap))"

section \<open>The client\<close>

type_synonym callback = nat

record FeedClient =
  fd_token :: string
  fd_feedURL :: string
  fd_conn :: "nat option"
  fd_connected :: bool
  fd_ltpSnapshot :: "LTPData snapshot"
  fd_indexSnapshot :: "IndexData snapshot"
  fd_depthSnapshot :: "MarketDepthData snapshot"
  fd_onData :: "callback option"
  fd_onLTP :: "callback option"
  fd_onDepth :: "callback option"

definition DefaultFeedURL :: string where "DefaultFeedURL = ''wss://api.groww.in/v1/feed''"

definition NewFeedClient :: "(string \<Rightarrow> string) \<Rightarrow> string \<Rightarrow> FeedClient" where
  "NewFeedClient getenv accessToken =
     \<lparr>fd_token = (if accessToken = '''' then getenv ''GROWW_ACCESS_TOKEN'' else accessToken),
      fd_feedURL = (if getenv ''GROWW_FEED_URL'' \<noteq> '''' then getenv ''GROWW_FEED_URL'' else DefaultFeedURL),
      fd_conn = None, fd_connected = False, fd_ltpSnapshot = None, fd_indexSnapshot = None, fd_depthSnapshot = None,
      fd_onData = None, fd_onLTP = None, fd_onDepth = None\<rparr>"

record 's ws_env =
  wx_dial :: "string \<Rightarrow> string \<Rightarrow> 's \<Rightarrow> (error + nat) \<times> 's"
  wx_setReadDeadline :: "nat \<Rightarrow> 's \<Rightarrow> error option \<times> 's"
  wx_writeJSON :: "nat \<Rightarrow> json \<Rightarrow> 's \<Rightarrow> error option \<times> 's"
  wx_writeClose :: "nat \<Rightarrow> 's \<Rightarrow> error option \<times> 's"
  wx_close :: "nat \<Rightarrow> 's \<Rightarrow> error option \<times> 's"
  wx_sleep :: "Duration \<Rightarrow> 's \<Rightarrow> 's"

definition SetFeedCallback :: "callback option \<Rightarrow> FeedClient \<Rightarrow> FeedClient" where
  "SetFeedCallback cb f = f\<lparr>fd_onData := cb\<rparr>"
definition SetLTPCallback :: "callback option \<Rightarrow> FeedClient \<Rightarrow> FeedClient" where
  "SetLTPCallback cb f = f\<lparr>fd_onLTP := cb\<rparr>"
definition SetDepthCallback :: "callback option \<Rightarrow> FeedClient \<Rightarrow> FeedClient" where
  "SetDepthCallback cb f = f\<lparr>fd_onDepth := cb\<rparr>"

definition Connect :: "'s ws_env \<Rightarrow> FeedClient \<Rightarrow> 's \<Rightarrow> error option \<times> FeedClient \<times> 's" where
  "Connect env f s =
     (case wx_dial env (fd_feedURL f) (''Bearer '' @ fd_token f) s of
        (Inl e, s) \<Rightarrow> (Some (Wrapf ''groww feed dial'' e), f, s)
      | (Inr conn, s) \<Rightarrow>
          (case wx_setReadDeadline env conn s of
             (Some e, s) \<Rightarrow> (Some (Wrapf ''groww feed read deadline'' e), f, snd (wx_close env conn s))
           | (None, s) \<Rightarrow> (None, f\<lparr>fd_conn := Some conn, fd_connected := True\<rparr>, s)))"

definition instrument_fields :: "FeedInstrument \<Rightarrow> (string \<times> json) list" where
  "instrument_fields i = [(''exchange'', JStr (fi_Exchange i)), (''segment'', JStr (fi_Segment i)),
     (''exchange_token'', JStr (fi_ExchangeToken i))]"

text \<open>\<open>subscribe\<close> and \<open>unsubscribe\<close> differ in the action they send; a nil list of instruments is sent as \<open>null\<close>.\<close>

definition send_action :: "'s ws_env \<Rightarrow> string \<Rightarrow> string \<Rightarrow> FeedInstrument list option \<Rightarrow> FeedClient \<Rightarrow> 's \<Rightarrow> error option \<times> 's" where
  "send_action env action feedType instruments f s =
     (case fd_conn f of
        None \<Rightarrow> (Some (NewErr ''groww feed: not connected''), s)
      | Some conn \<Rightarrow> wx_writeJSON env conn (JObj [(''action'', JStr action), (''feed_type'', JStr feedType),
          (''instruments'', case instruments of None \<Rightarrow> JNull | Some is \<Rightarrow> JArr (map (JObj \<circ> instrument_fields) is))]) s)"

definition subscribe :: "'s ws_env \<Rightarrow> string \<Rightarrow> FeedInstrument list option \<Rightarrow> FeedClient \<Rightarrow> 's \<Rightarrow> error option \<times> 's" where
  "subscribe env = send_action env ''subscribe''"

definition unsubscribe :: "'s ws_env \<Rightarrow> string \<Rightarrow> FeedInstrument list option \<Rightarrow> FeedClient \<Rightarrow> 's \<Rightarrow> error option \<times> 's" where
  "unsubscribe env = send_action env ''unsubscribe''"

text \<open>The optional callback replaces the registered one, even when the subscription then fails.\<close>

definition SubscribeLTP :: "'s ws_env \<Rightarrow> FeedInstrument list \<Rightarrow> callback option \<Rightarrow> FeedClient \<Rightarrow> 's \<Rightarrow> error option \<times> FeedClient \<times> 's" where
  "SubscribeLTP env instruments cb f s =
     (let f = (if cb \<noteq> None then SetLTPCallback cb f else f)
      in case subscribe env ''ltp'' (Some instruments) f s of (e, s) \<Rightarrow> (e, f, s))"

definition SubscribeMarketDepth :: "'s ws_env \<Rightarrow> FeedInstrument list \<Rightarrow> callback option \<Rightarrow> FeedClient \<Rightarrow> 's \<Rightarrow> error option \<times> FeedClient \<times> 's" where
  "SubscribeMarketDepth env instruments cb f s =
     (let f = (if cb \<noteq> None then SetDepthCallback cb f else f)
      in case subscribe env ''market_depth'' (Some instruments) f s of (e, s) \<Rightarrow> (e, f, s))"

definition SubscribeIndexValue :: "'s ws_env \<Rightarrow> FeedInstrument list \<Rightarrow> FeedClient \<Rightarrow> 's \<Rightarrow> error option \<times> 's" where
  "SubscribeIndexValue env instruments = subscribe env ''index_value'' (Some instruments)"

text \<open>The three subscriptions to updates of the account: of equity orders, derivative orders and positions.\<close>

definition SubscribeUpdates :: "'s ws_env \<Rightarrow> string \<Rightarrow> callback option \<Rightarrow> FeedClient \<Rightarrow> 's \<Rightarrow> error option \<times> FeedClient \<times> 's" where
  "SubscribeUpdates env feedType cb f s =
     (let f = (if cb \<noteq> None then SetFeedCallback cb f else f)
      in case subscribe env feedType None f s of (e, s) \<Rightarrow> (e, f, s))"

section \<open>Dispatch\<close>

datatype feed_call =
    DataCall callback FeedMetadata
  | LTPCall callback LTPData FeedMetadata
  | DepthCall callback MarketDepthData FeedMetadata

definition leaf_calls :: "(callback \<Rightarrow> 'a \<Rightarrow> FeedMetadata \<Rightarrow> feed_call) \<Rightarrow> callback option \<Rightarrow> 'a snapshot \<Rightarrow> FeedMetadata \<Rightarrow> feed_call list" where
  "leaf_calls mk cb snap meta =
     (case cb of None \<Rightarrow> [] | Some k \<Rightarrow> map (\<lambda>(_, _, _, x). mk k x meta) (snapshot_leaves snap))"

definition handleLTP :: "json \<Rightarrow> FeedMetadata \<Rightarrow> callback option \<Rightarrow> FeedClient \<Rightarrow> FeedClient \<times> feed_call list" where
  "handleLTP data meta cb f =
     (case parse_snapshot dec_LTPData zero_LTPData data of
        Inl _ \<Rightarrow> (f, [])
      | Inr parsed \<Rightarrow> (f\<lparr>fd_ltpSnapshot := parsed\<rparr>, leaf_calls LTPCall cb parsed meta))"

definition handleDepth :: "json \<Rightarrow> FeedMetadata \<Rightarrow> callback option \<Rightarrow> FeedClient \<Rightarrow> FeedClient \<times> feed_call list" where
  "handleDepth data meta cb f =
     (case parse_snapshot dec_MarketDepthData zero_MarketDepthData data of
        Inl _ \<Rightarrow> (f, [])
      | Inr parsed \<Rightarrow> (f\<lparr>fd_depthSnapshot := parsed\<rparr>, leaf_calls DepthCall cb parsed meta))"

definition handleIndex :: "json \<Rightarrow> FeedClient \<Rightarrow> FeedClient" where
  "handleIndex data f =
     (case parse_snapshot dec_IndexData zero_IndexData data of Inl _ \<Rightarrow> f | Inr parsed \<Rightarrow> f\<lparr>fd_indexSnapshot := parsed\<rparr>)"

text \<open>The top level of a message is a map, whose last member of a name counts; \<open>null\<close> is the empty one. The
  metadata are read as far as they can be.\<close>

definition top_level :: "payload \<Rightarrow> (string \<rightharpoonup> json) option" where
  "top_level data =
     (case data of Some JNull \<Rightarrow> Some Map.empty | Some (JObj kvs) \<Rightarrow> Some (map_of (rev kvs)) | _ \<Rightarrow> None)"

definition best_effort_meta :: "json option \<Rightarrow> FeedMetadata" where
  "best_effort_meta j =
     (case j of Some (JObj kvs) \<Rightarrow> fst (dec_members dec_FeedMetadata kvs zero_FeedMetadata) | _ \<Rightarrow> zero_FeedMetadata)"

definition dispatch :: "payload \<Rightarrow> FeedClient \<Rightarrow> FeedClient \<times> feed_call list" where
  "dispatch data f =
     (case top_level data of
        None \<Rightarrow> (f, [])
      | Some raw \<Rightarrow>
          (let meta = best_effort_meta (raw ''meta'');
               onLTP = fd_onLTP f; onDepth = fd_onDepth f;
               c0 = (case fd_onData f of None \<Rightarrow> [] | Some k \<Rightarrow> [DataCall k meta]);
               r1 = (case raw ''ltp'' of None \<Rightarrow> (f, []) | Some j \<Rightarrow> handleLTP j meta onLTP f);
               r2 = (case raw ''depth'' of None \<Rightarrow> (fst r1, []) | Some j \<Rightarrow> handleDepth j meta onDepth (fst r1));
               f3 = (case raw ''index'' of None \<Rightarrow> fst r2 | Some j \<Rightarrow> handleIndex j (fst r2))
           in (f3, c0 @ snd r1 @ snd r2)))"

text \<open>The read loop. An element of its input is one turn: what other goroutines do to the client before it
  looks at its socket, and what the read then gives. At the end of the input the loop is waiting.\<close>

fun Consume :: "((FeedClient \<Rightarrow> FeedClient) \<times> (error + payload)) list \<Rightarrow> FeedClient \<Rightarrow> FeedClient \<times> feed_call list" where
  "Consume [] f = (f, [])"
| "Consume ((others, r) # turns) f =
     (let f = others f in
      case fd_conn f of
        None \<Rightarrow> (f\<lparr>fd_connected := False\<rparr>, [])
      | Some conn \<Rightarrow>
          (case r of
             Inl _ \<Rightarrow> (f\<lparr>fd_connected := False\<rparr>, [])
           | Inr message \<Rightarrow>
               (case dispatch message f of (f, calls) \<Rightarrow>
                case Consume turns f of (f, calls') \<Rightarrow> (f, calls @ calls'))))"

section \<open>Closing and reconnecting\<close>

definition CloseFeed :: "'s ws_env \<Rightarrow> FeedClient \<Rightarrow> 's \<Rightarrow> error option \<times> FeedClient \<times> 's" where
  "CloseFeed env f s =
     (case fd_conn f of
        None \<Rightarrow> (None, f, s)
      | Some conn \<Rightarrow>
          (case wx_writeClose env conn s of (err, s) \<Rightarrow>
           case wx_close env conn s of (closeErr, s) \<Rightarrow>
             (if err \<noteq> None then err else closeErr, f\<lparr>fd_conn := None, fd_connected := False\<rparr>, s)))"

text \<open>The goroutine that \<open>Connect\<close> starts: a turn of its ticker, with the outcome of the write of the ping, or the channel \<open>done\<close>.
  The result is the number of pings sent and whether the goroutine has ended.\<close>

datatype ping_wake = PingTick "error option" | DoneClosed

fun pingLoop :: "ping_wake list \<Rightarrow> nat \<times> bool" where
  "pingLoop [] = (0, False)"
| "pingLoop (PingTick None # ws) = (case pingLoop ws of (n, ended) \<Rightarrow> (Suc n, ended))"
| "pingLoop (PingTick (Some e) # ws) = (0, True)"
| "pingLoop (DoneClosed # ws) = (0, True)"

text \<open>Nothing in the sources closes \<open>done\<close>, so the goroutine ends with the first ping that fails and not before.\<close>

lemma pingLoop_ends:
  "DoneClosed \<notin> set ws \<Longrightarrow> snd (pingLoop ws) \<longleftrightarrow> (\<exists>e. PingTick (Some e) \<in> set ws)"
  by (induction ws rule: pingLoop.induct) (auto split: prod.splits)

definition feed_backoff_cap :: Duration where "feed_backoff_cap = 30 * Second"

fun reconnect_loop :: "'s ws_env \<Rightarrow> nat \<Rightarrow> Duration \<Rightarrow> int \<Rightarrow> FeedClient \<Rightarrow> 's \<Rightarrow> error option \<times> FeedClient \<times> 's" where
  "reconnect_loop env 0 backoff maxRetries f s =
     (Some (NewErr (''groww feed: reconnect failed after '' @ string_of_int maxRetries @ '' attempts'')), f, s)"
| "reconnect_loop env (Suc left) backoff maxRetries f s =
     (case Connect env f s of
        (Some e, f, s) \<Rightarrow>
          (let s = wx_sleep env backoff s; b = backoff * 2; b = (if feed_backoff_cap < b then feed_backoff_cap else b)
           in reconnect_loop env left b maxRetries f s)
      | (None, f, s) \<Rightarrow> (None, f, s))"

definition Reconnect :: "'s ws_env \<Rightarrow> int \<Rightarrow> FeedClient \<Rightarrow> 's \<Rightarrow> error option \<times> FeedClient \<times> 's" where
  "Reconnect env maxRetries f s = reconnect_loop env (nat maxRetries) 100000000 maxRetries f s"

definition IsConnected :: "FeedClient \<Rightarrow> bool" where "IsConnected f = fd_connected f"
definition feed_GetLTP :: "FeedClient \<Rightarrow> LTPData snapshot" where "feed_GetLTP f = fd_ltpSnapshot f"
definition feed_GetMarketDepth :: "FeedClient \<Rightarrow> MarketDepthData snapshot" where "feed_GetMarketDepth f = fd_depthSnapshot f"
definition feed_GetIndexValue :: "FeedClient \<Rightarrow> IndexData snapshot" where "feed_GetIndexValue f = fd_indexSnapshot f"

section \<open>What a poll of the feed sees\<close>

text \<open>The scout's poll of a client: \<open>processSnapshot\<close> on what \<open>GetLTP\<close> returns. \<open>ans\<close> gives the clock and the
  bus's answer at each entry.\<close>

definition poll :: "(string \<times> string \<times> string \<times> LTPData \<Rightarrow> Time \<times> fault) \<Rightarrow> FeedClient \<Rightarrow>
    FeedConnector \<times> message list \<Rightarrow> FeedConnector \<times> message list" where
  "poll ans f = processSnapshot (case feed_GetLTP f of None \<Rightarrow> None | Some m \<Rightarrow> Some (map (\<lambda>(ex, seg, tok, d).
     \<lparr>lf_exchange = ex, lf_segment = seg, lf_token = tok, lf_data = d, lf_now = fst (ans (ex, seg, tok, d)),
      lf_reply = snd (ans (ex, seg, tok, d))\<rparr>) (snapshot_leaves (Some m))))"

definition ltp_of :: "payload \<Rightarrow> LTPData snapshot option" where
  "ltp_of data = (case top_level data of None \<Rightarrow> None | Some raw \<Rightarrow>
     (case raw ''ltp'' of None \<Rightarrow> None | Some j \<Rightarrow>
       (case parse_snapshot dec_LTPData zero_LTPData j of Inl _ \<Rightarrow> None | Inr snap \<Rightarrow> Some snap)))"

definition dispatch_all :: "payload list \<Rightarrow> FeedClient \<Rightarrow> FeedClient" where
  "dispatch_all msgs f = foldl (\<lambda>f m. fst (dispatch m f)) f msgs"

lemma handle_keeps_ltp:
  "fd_ltpSnapshot (fst (handleDepth j meta cb f)) = fd_ltpSnapshot f" "fd_ltpSnapshot (handleIndex j f) = fd_ltpSnapshot f"
  by (simp_all add: handleDepth_def handleIndex_def split: sum.split)

lemma dispatch_ltp: "fd_ltpSnapshot (fst (dispatch m f)) = (case ltp_of m of Some snap \<Rightarrow> snap | None \<Rightarrow> fd_ltpSnapshot f)"
proof (cases "top_level m")
  case (Some raw)
  let ?meta = "best_effort_meta (raw ''meta'')"
  define r1 where "r1 = (case raw ''ltp'' of None \<Rightarrow> (f, []) | Some j \<Rightarrow> handleLTP j ?meta (fd_onLTP f) f)"
  define r2 where "r2 = (case raw ''depth'' of None \<Rightarrow> (fst r1, []) | Some j \<Rightarrow> handleDepth j ?meta (fd_onDepth f) (fst r1))"
  have "fst (dispatch m f) = (case raw ''index'' of None \<Rightarrow> fst r2 | Some j \<Rightarrow> handleIndex j (fst r2))"
    unfolding dispatch_def Some option.case Let_def r1_def r2_def fst_conv ..
  then have "fd_ltpSnapshot (fst (dispatch m f)) = fd_ltpSnapshot (fst r2)" using handle_keeps_ltp(2) by (simp split: option.split)
  also have "\<dots> = fd_ltpSnapshot (fst r1)" using handle_keeps_ltp(1) by (simp add: r2_def split: option.split)
  also have "\<dots> = (case ltp_of m of Some snap \<Rightarrow> snap | None \<Rightarrow> fd_ltpSnapshot f)"
    by (simp add: r1_def ltp_of_def Some handleLTP_def split: option.split sum.split)
  finally show ?thesis .
qed (simp add: dispatch_def ltp_of_def)

lemma dispatch_all_quiet: "\<forall>x \<in> set ms. ltp_of x = None \<Longrightarrow> fd_ltpSnapshot (dispatch_all ms f) = fd_ltpSnapshot f"
  by (induction ms arbitrary: f) (simp_all add: dispatch_all_def dispatch_ltp)

lemma dispatch_all_last:
  assumes "ltp_of m = Some snap" "\<forall>x \<in> set later. ltp_of x = None"
  shows "fd_ltpSnapshot (dispatch_all (earlier @ m # later) f) = snap"
  using dispatch_all_quiet [OF assms(2), of "fst (dispatch m (dispatch_all earlier f))"] dispatch_ltp [of m] assms(1)
  by (simp add: dispatch_all_def)

lemma process_leaf_other:
  assumes "tokenSymbol (fc_universe fc) (lf_exchange l) (lf_segment l) (lf_token l) \<noteq> symbol"
  shows "fc_universe (fst (process_leaf l (fc, sent))) = fc_universe fc \<and>
    Get symbol (fc_ts (fst (process_leaf l (fc, sent)))) = Get symbol (fc_ts fc)"
  using assms
  by (auto simp: process_leaf_def publishPrice_def Store_def Get_def update_store_def update_conv' Let_def
    split: option.splits if_splits sum.splits)

lemma process_leaves_other:
  assumes "\<forall>l \<in> set ls. tokenSymbol (fc_universe fc) (lf_exchange l) (lf_segment l) (lf_token l) \<noteq> symbol"
  shows "Get symbol (fc_ts (fst (foldl (\<lambda>st l. process_leaf l st) (fc, sent) ls))) = Get symbol (fc_ts fc)"
  using assms
proof (induction ls arbitrary: fc sent)
  case (Cons l ls)
  obtain fc1 sent1 where p: "process_leaf l (fc, sent) = (fc1, sent1)" by (cases "process_leaf l (fc, sent)")
  have o: "fc_universe fc1 = fc_universe fc" "Get symbol (fc_ts fc1) = Get symbol (fc_ts fc)"
    using process_leaf_other [of fc l symbol sent] Cons.prems p by auto
  then show ?case using Cons.IH [of fc1 sent1] Cons.prems p by simp
qed simp

text \<open>A poll sees the last message only. Every message with prices replaces the whole snapshot, so that after any
  sequence of messages the client holds the prices of the last of them; a security which that message does
  not name gets no tick from the poll, whatever prices the messages before it carried.\<close>

theorem poll_sees_last_message:
  assumes "ltp_of m = Some snap" "\<forall>x \<in> set later. ltp_of x = None"
    and "\<forall>(ex, seg, tok, d) \<in> set (snapshot_leaves snap). tokenSymbol (fc_universe fc) ex seg tok \<noteq> symbol"
  shows "feed_GetLTP (dispatch_all (earlier @ m # later) f) = snap \<and>
    Get symbol (fc_ts (fst (poll ans (dispatch_all (earlier @ m # later) f) (fc, sent)))) = Get symbol (fc_ts fc)"
proof -
  have g: "feed_GetLTP (dispatch_all (earlier @ m # later) f) = snap"
    using dispatch_all_last [OF assms(1,2)] by (simp add: feed_GetLTP_def)
  moreover have "Get symbol (fc_ts (fst (poll ans (dispatch_all (earlier @ m # later) f) (fc, sent)))) = Get symbol (fc_ts fc)"
  proof (cases snap)
    case (Some sm)
    show ?thesis unfolding poll_def g Some option.case processSnapshot_def
      using assms(3) Some by (intro process_leaves_other) auto
  qed (simp add: poll_def g processSnapshot_def)
  ultimately show ?thesis by simp
qed

lemma process_leaf_append:
  assumes "tokenSymbol (fc_universe fc) (lf_exchange l) (lf_segment l) (lf_token l) = symbol" "symbol \<noteq> ''''"
    and "Get symbol (fc_ts fc) = Some s"
  shows "fc_universe (fst (process_leaf l (fc, sent))) = fc_universe fc \<and>
    Get symbol (fc_ts (fst (process_leaf l (fc, sent)))) =
      Some (Append \<lparr>tk_Price = ld_LTP (lf_data l), tk_Volume = 0, tk_Timestamp = UnixMilli (ld_TsInMillis (lf_data l))\<rparr> s)"
  using assms
  by (auto simp: process_leaf_def publishPrice_def Store_def Get_def update_store_def update_conv' Let_def
    split: option.splits if_splits sum.splits)

text \<open>An old price is counted again. Polling a client to which no new message has come appends the same tick once
  more, with the same time stamp: after \<open>n\<close> polls the ring has \<open>n\<close> copies of it, or nothing else.\<close>

theorem stale_price_counted_again:
  assumes "snapshot_leaves (feed_GetLTP f) = [(ex, seg, tok, d)]" "tokenSymbol (fc_universe fc) ex seg tok = symbol" "symbol \<noteq> ''''"
    and "Get symbol (fc_ts fc) = Some s" "ring_ok s"
  shows "\<exists>s'. Get symbol (fc_ts (fst ((poll ans f ^^ n) (fc, sent)))) = Some s' \<and> ring_ok s' \<and> Cap s' = Cap s \<and>
    ring_contents s' = suffix_of (Cap s) (ring_contents s @
      replicate n \<lparr>tk_Price = ld_LTP d, tk_Volume = 0, tk_Timestamp = UnixMilli (ld_TsInMillis d)\<rparr>)"
  using assms(2,4,5)
proof (induction n arbitrary: fc sent s)
  case 0
  then show ?case using ring.bounded by simp
next
  case (Suc n)
  define t where "t = \<lparr>tk_Price = ld_LTP d, tk_Volume = 0, tk_Timestamp = UnixMilli (ld_TsInMillis d)\<rparr>"
  obtain m where m: "feed_GetLTP f = Some m"
    using assms(1) by (cases "feed_GetLTP f") (auto simp: snapshot_leaves_def entries_def)
  obtain fc1 sent1 where p: "poll ans f (fc, sent) = (fc1, sent1)" by (cases "poll ans f (fc, sent)")
  define l where "l = \<lparr>lf_exchange = ex, lf_segment = seg, lf_token = tok, lf_data = d, lf_now = fst (ans (ex, seg, tok, d)),
    lf_reply = snd (ans (ex, seg, tok, d))\<rparr>"
  have "process_leaf l (fc, sent) = (fc1, sent1)" using p assms(1) by (simp add: poll_def processSnapshot_def m l_def)
  then have f1: "fc_universe fc1 = fc_universe fc" "Get symbol (fc_ts fc1) = Some (Append t s)"
    using process_leaf_append [of fc l symbol s sent] Suc.prems assms(3) by (simp_all add: l_def t_def)
  have a: "ring_ok (Append t s)" "Cap (Append t s) = Cap s" "ring_contents (Append t s) = suffix_of (Cap s) (ring_contents s @ [t])"
    using ring.append_invar ring.append_capacity ring.append_contents Suc.prems(3) by blast+
  have "tokenSymbol (fc_universe fc1) ex seg tok = symbol" using f1(1) Suc.prems(1) by simp
  from Suc.IH [OF this f1(2) a(1), of sent1] show ?case
    unfolding t_def [symmetric] a by (simp add: funpow_swap1 p suffix_of_append)
qed

section \<open>Reconnecting\<close>

text \<open>A script for the network: the outcomes of the dials to come, the sleeps so far, and what has been written to which
  socket. Where the script ends there is no network.\<close>

record script =
  sp_dials :: "(error + nat) list"
  sp_slept :: "Duration list"
  sp_written :: "(nat \<times> json) list"

definition scripted :: "script ws_env" where
  "scripted = \<lparr>wx_dial = (\<lambda>_ _ s. case sp_dials s of [] \<Rightarrow> (Inl (NewErr ''no network''), s) | r # rs \<Rightarrow> (r, s\<lparr>sp_dials := rs\<rparr>)),
     wx_setReadDeadline = (\<lambda>_ s. (None, s)), wx_writeJSON = (\<lambda>conn j s. (None, s\<lparr>sp_written := sp_written s @ [(conn, j)]\<rparr>)),
     wx_writeClose = (\<lambda>_ s. (None, s)), wx_close = (\<lambda>_ s. (None, s)), wx_sleep = (\<lambda>d s. s\<lparr>sp_slept := sp_slept s @ [d]\<rparr>)\<rparr>"

definition backoff_at :: "nat \<Rightarrow> Duration" where
  "backoff_at i = min (100000000 * 2 ^ i) feed_backoff_cap"

lemma scripted_sleep: "wx_sleep scripted d s = s\<lparr>sp_slept := sp_slept s @ [d]\<rparr>"
  by (simp add: scripted_def)

lemma upt_from: "[i..<i + Suc n] = i # [Suc i..<Suc i + n]"
  using upt_conv_Cons [of i "i + Suc n"] by simp

lemma backoff_step: "(if feed_backoff_cap < backoff_at i * 2 then feed_backoff_cap else backoff_at i * 2) = backoff_at (Suc i)"
proof -
  have "(0 :: int) < 2 ^ i" by simp
  then show ?thesis by (auto simp: backoff_at_def feed_backoff_cap_def Second_def nsec_def min_def)
qed

lemma Connect_scripted:
  "Connect scripted f s = (case sp_dials s of
     [] \<Rightarrow> (Some (Wrapf ''groww feed dial'' (NewErr ''no network'')), f, s)
   | Inl e # rs \<Rightarrow> (Some (Wrapf ''groww feed dial'' e), f, s\<lparr>sp_dials := rs\<rparr>)
   | Inr conn # rs \<Rightarrow> (None, f\<lparr>fd_conn := Some conn, fd_connected := True\<rparr>, s\<lparr>sp_dials := rs\<rparr>))"
  by (simp add: Connect_def scripted_def split: list.split sum.split)

lemma reconnect_fails:
  "length es = n \<Longrightarrow> sp_dials s = map Inl es @ rest \<Longrightarrow>
   reconnect_loop scripted n (backoff_at i) mx f s =
     (Some (NewErr (''groww feed: reconnect failed after '' @ string_of_int mx @ '' attempts'')), f,
      s\<lparr>sp_dials := rest, sp_slept := sp_slept s @ map backoff_at [i..<i + n]\<rparr>)"
proof (induction n arbitrary: es i s)
  case 0
  then show ?case by simp
next
  case (Suc n)
  then obtain e es' where e: "es = e # es'" by (cases es) auto
  have "reconnect_loop scripted n (backoff_at (Suc i)) mx f (s\<lparr>sp_dials := map Inl es' @ rest, sp_slept := sp_slept s @ [backoff_at i]\<rparr>) =
     (Some (NewErr (''groww feed: reconnect failed after '' @ string_of_int mx @ '' attempts'')), f,
      s\<lparr>sp_dials := rest, sp_slept := sp_slept s @ map backoff_at [i..<i + Suc n]\<rparr>)"
    unfolding upt_from using Suc.IH [of es' _ "Suc i"] Suc.prems e by simp
  then show ?case using Suc.prems e
    by (simp add: Connect_scripted scripted_sleep Let_def backoff_step)
qed

lemma reconnect_succeeds:
  "length es < n \<Longrightarrow> sp_dials s = map Inl es @ Inr conn # rest \<Longrightarrow>
   reconnect_loop scripted n (backoff_at i) mx f s =
     (None, f\<lparr>fd_conn := Some conn, fd_connected := True\<rparr>,
      s\<lparr>sp_dials := rest, sp_slept := sp_slept s @ map backoff_at [i..<i + length es]\<rparr>)"
proof (induction es arbitrary: n i s)
  case Nil
  then show ?case by (cases n) (simp_all add: Connect_scripted)
next
  case (Cons e es)
  then obtain n' where n: "n = Suc n'" by (cases n) auto
  show ?case unfolding list.size(4) add_Suc_right [symmetric] using upt_from [of i "length es"] Cons.IH [of n' "s\<lparr>sp_dials := map Inl es @ Inr conn # rest, sp_slept := sp_slept s @ [backoff_at i]\<rparr>" "Suc i"] Cons.prems
    by (simp add: n Connect_scripted scripted_sleep Let_def backoff_step)
qed

lemma backoff_first: "backoff_at 0 = 100000000"
  by (simp add: backoff_at_def feed_backoff_cap_def Second_def nsec_def)

text \<open>Reconnecting is bounded and backs off: \<open>Reconnect\<close> dials until a dial succeeds, at most \<open>maxRetries\<close> times,
  sleeping 100 ms after the first failure, twice as long after every further one, and never longer than 30 s. It
  also sleeps after the last failure, so that the 20 attempts of the scout take 381.1 s when they all fail.\<close>

theorem Reconnect_backs_off:
  "(length es < nat mx \<longrightarrow> Reconnect scripted mx f \<lparr>sp_dials = map Inl es @ Inr conn # rest, sp_slept = [], sp_written = []\<rparr> =
      (None, f\<lparr>fd_conn := Some conn, fd_connected := True\<rparr>,
       \<lparr>sp_dials = rest, sp_slept = map backoff_at [0..<length es], sp_written = []\<rparr>)) \<and>
   (length es = nat mx \<longrightarrow> (\<exists>e. Reconnect scripted mx f \<lparr>sp_dials = map Inl es @ rest, sp_slept = [], sp_written = []\<rparr> =
      (Some e, f, \<lparr>sp_dials = rest, sp_slept = map backoff_at [0..<nat mx], sp_written = []\<rparr>))) \<and>
   (\<Sum>d\<leftarrow>map backoff_at [0..<20]. d) = 381100 * 1000000"
proof (intro conjI impI)
  show "Reconnect scripted mx f \<lparr>sp_dials = map Inl es @ Inr conn # rest, sp_slept = [], sp_written = []\<rparr> =
      (None, f\<lparr>fd_conn := Some conn, fd_connected := True\<rparr>, \<lparr>sp_dials = rest, sp_slept = map backoff_at [0..<length es], sp_written = []\<rparr>)"
    if "length es < nat mx"
    unfolding Reconnect_def using reconnect_succeeds [OF that, of "\<lparr>sp_dials = map Inl es @ Inr conn # rest, sp_slept = [], sp_written = []\<rparr>" conn rest 0]
    by (simp add: backoff_first)
  show "\<exists>e. Reconnect scripted mx f \<lparr>sp_dials = map Inl es @ rest, sp_slept = [], sp_written = []\<rparr> =
      (Some e, f, \<lparr>sp_dials = rest, sp_slept = map backoff_at [0..<nat mx], sp_written = []\<rparr>)" if "length es = nat mx"
    unfolding Reconnect_def using reconnect_fails [OF that, of "\<lparr>sp_dials = map Inl es @ rest, sp_slept = [], sp_written = []\<rparr>" rest 0]
    by (simp add: backoff_first)
  show "(\<Sum>d\<leftarrow>map backoff_at [0..<20]. d) = 381100 * 1000000"
    by (simp add: upt_conv_Cons backoff_at_def feed_backoff_cap_def Second_def nsec_def)
qed

section \<open>The connector keeps the feed alive\<close>

definition Start :: "'s ws_env \<Rightarrow> FeedConnector \<Rightarrow> FeedClient \<Rightarrow> 's \<Rightarrow> error option \<times> FeedClient \<times> 's" where
  "Start env fc f s =
     (case Connect env f s of
        (Some e, f, s) \<Rightarrow> (Some e, f, s)
      | (None, f, s) \<Rightarrow>
          (case SubscribeLTP env (feedInstruments fc) None f s of
             (Some e, f, s) \<Rightarrow> (case CloseFeed env f s of (_, f, s) \<Rightarrow> (Some e, f, s))
           | (None, f, s) \<Rightarrow> (None, f, s)))"

text \<open>A round of the loop: the turns of its read loop; whether \<open>Stop\<close> was called meanwhile; the times at which it
  looks at the market, each with whether \<open>Stop\<close> comes in the minute of waiting after it; and whether
  \<open>Stop\<close> comes in the minute after a failed reconnect or subscription.\<close>

record feed_round =
  rd_turns :: "((FeedClient \<Rightarrow> FeedClient) \<times> (error + payload)) list"
  rd_stopped :: bool
  rd_checks :: "(Time \<times> bool) list"
  rd_stopRetry :: bool
  rd_stopResub :: bool

text \<open>\<open>Some True\<close> when the market is found open, \<open>Some False\<close> when stopped, \<open>None\<close> while waiting.\<close>

fun wait_open :: "(Time \<times> bool) list \<Rightarrow> bool option" where
  "wait_open [] = None"
| "wait_open ((now, stop) # checks) = (if IsMarketOpen now then Some True else if stop then Some False else wait_open checks)"

text \<open>The result says whether the loop has returned; if not, it is waiting at the end of its input.\<close>

fun consumeWithReconnect :: "'s ws_env \<Rightarrow> FeedInstrument list \<Rightarrow> feed_round list \<Rightarrow> FeedClient \<Rightarrow> 's \<Rightarrow> bool \<times> FeedClient \<times> 's" where
  "consumeWithReconnect env instruments [] f s = (False, f, s)"
| "consumeWithReconnect env instruments (r # rounds) f s =
     (let f = fst (Consume (rd_turns r) f) in
      if rd_stopped r then (True, f, s)
      else case wait_open (rd_checks r) of
        None \<Rightarrow> (False, f, s)
      | Some False \<Rightarrow> (True, f, s)
      | Some True \<Rightarrow>
          (case Reconnect env 20 f s of
             (Some _, f, s) \<Rightarrow> if rd_stopRetry r then (True, f, s) else consumeWithReconnect env instruments rounds f s
           | (None, f, s) \<Rightarrow>
               (case SubscribeLTP env instruments None f s of
                  (Some _, f, s) \<Rightarrow> if rd_stopResub r then (True, f, s) else consumeWithReconnect env instruments rounds f s
                | (None, f, s) \<Rightarrow> consumeWithReconnect env instruments rounds f s)))"

lemma wait_open_stop: "wait_open checks = Some False \<Longrightarrow> \<exists>(t, stop) \<in> set checks. stop"
  by (induction checks rule: wait_open.induct) (auto split: if_splits)

lemma wait_open_market: "wait_open checks = Some True \<Longrightarrow> \<exists>(t, stop) \<in> set checks. IsMarketOpen t"
  by (induction checks rule: wait_open.induct) (auto split: if_splits)

definition asked_to_stop :: "feed_round \<Rightarrow> bool" where
  "asked_to_stop r \<longleftrightarrow> rd_stopped r \<or> rd_stopRetry r \<or> rd_stopResub r \<or> (\<exists>(t, stop) \<in> set (rd_checks r). stop)"

lemma returns_only_when_stopped:
  "consumeWithReconnect env instruments rounds f s = (True, f', s') \<Longrightarrow> \<exists>r \<in> set rounds. asked_to_stop r"
proof (induction rounds arbitrary: f s)
  case (Cons r rounds)
  then show ?case using wait_open_stop [of "rd_checks r"]
    by (force simp: asked_to_stop_def Let_def split: if_splits option.splits bool.splits prod.splits)
qed simp

text \<open>The request for prices of the instruments, as it is written to the socket.\<close>

definition ltp_request :: "FeedInstrument list \<Rightarrow> json" where
  "ltp_request instruments = JObj [(''action'', JStr ''subscribe''), (''feed_type'', JStr ''ltp''),
     (''instruments'', JArr (map (JObj \<circ> instrument_fields) instruments))]"

text \<open>C27: The feed is kept alive. The loop returns only when it is told to stop; it leaves the network alone while the
  market is closed; and when a connection breaks in market hours and fewer than 20 dials fail before one succeeds,
  the client ends the round connected, and exactly one request has gone out, through the new socket: the
  subscription to the prices of all the instruments. When all 20 dials fail, nothing is sent and the loop goes on.\<close>

theorem feed_kept_alive:
  "(\<forall>f' s'. consumeWithReconnect env instruments rounds f s = (True, f', s') \<longrightarrow> (\<exists>r \<in> set rounds. asked_to_stop r)) \<and>
   ((\<forall>r \<in> set rounds. \<forall>(t, stop) \<in> set (rd_checks r). \<not> IsMarketOpen t) \<longrightarrow>
      snd (snd (consumeWithReconnect env instruments rounds f s)) = s) \<and>
   (\<not> rd_stopped r \<and> wait_open (rd_checks r) = Some True \<and> length es < 20 \<longrightarrow>
      (\<exists>f' s'. consumeWithReconnect scripted instruments [r] f \<lparr>sp_dials = map Inl es @ Inr conn # rest, sp_slept = [], sp_written = []\<rparr> =
           (False, f', s') \<and>
         IsConnected f' \<and> fd_conn f' = Some conn \<and> sp_written s' = [(conn, ltp_request instruments)] \<and> sp_dials s' = rest)) \<and>
   (\<not> rd_stopped r \<and> wait_open (rd_checks r) = Some True \<and> length es = 20 \<and> \<not> rd_stopRetry r \<longrightarrow>
      (\<exists>f' s'. consumeWithReconnect scripted instruments [r] f \<lparr>sp_dials = map Inl es @ rest, sp_slept = [], sp_written = []\<rparr> =
           (False, f', s') \<and> sp_written s' = [] \<and> sp_dials s' = rest))"
proof (intro conjI impI allI)
  fix f' s' assume "consumeWithReconnect env instruments rounds f s = (True, f', s')"
  then show "\<exists>r \<in> set rounds. asked_to_stop r" by (rule returns_only_when_stopped)
next
  assume c: "\<forall>r \<in> set rounds. \<forall>(t, stop) \<in> set (rd_checks r). \<not> IsMarketOpen t"
  show "snd (snd (consumeWithReconnect env instruments rounds f s)) = s"
  proof (cases rounds)
    case (Cons r rs)
    then have "wait_open (rd_checks r) \<noteq> Some True" using c wait_open_market [of "rd_checks r"] by fastforce
    then show ?thesis using Cons by (auto simp: Let_def split: option.split bool.split)
  qed simp
next
  let ?s = "\<lparr>sp_dials = map Inl es @ Inr conn # rest, sp_slept = [], sp_written = []\<rparr>"
  assume h: "\<not> rd_stopped r \<and> wait_open (rd_checks r) = Some True \<and> length es < 20"
  define f1 where "f1 = fst (Consume (rd_turns r) f)"
  have "Reconnect scripted 20 f1 ?s = (None, f1\<lparr>fd_conn := Some conn, fd_connected := True\<rparr>,
      \<lparr>sp_dials = rest, sp_slept = map backoff_at [0..<length es], sp_written = []\<rparr>)"
    unfolding Reconnect_def using reconnect_succeeds [of es "nat 20" ?s conn rest 0] h
    by (simp add: backoff_first)
  then show "\<exists>f' s'. consumeWithReconnect scripted instruments [r] f ?s = (False, f', s') \<and>
         IsConnected f' \<and> fd_conn f' = Some conn \<and> sp_written s' = [(conn, ltp_request instruments)] \<and> sp_dials s' = rest"
    using h by (simp add: f1_def [symmetric] SubscribeLTP_def subscribe_def send_action_def scripted_def Let_def IsConnected_def ltp_request_def)
next
  let ?s = "\<lparr>sp_dials = map Inl es @ rest, sp_slept = [], sp_written = []\<rparr>"
  assume h: "\<not> rd_stopped r \<and> wait_open (rd_checks r) = Some True \<and> length es = 20 \<and> \<not> rd_stopRetry r"
  define f1 where "f1 = fst (Consume (rd_turns r) f)"
  have "\<exists>e. Reconnect scripted 20 f1 ?s = (Some e, f1, \<lparr>sp_dials = rest, sp_slept = map backoff_at [0..<20], sp_written = []\<rparr>)"
    unfolding Reconnect_def using reconnect_fails [of es "nat 20" ?s rest 0 20 f1] h
    by (simp add: backoff_first)
  then show "\<exists>f' s'. consumeWithReconnect scripted instruments [r] f ?s = (False, f', s') \<and> sp_written s' = [] \<and> sp_dials s' = rest"
    using h by (auto simp: f1_def [symmetric] Let_def)
qed

section \<open>Examples\<close>

definition ltp_message :: "string \<Rightarrow> payload" where
  "ltp_message token = Some (JObj [(''ltp'', JObj [(''NSE'', JObj [(''CASH'', JObj [(token, JObj [(''ltp'', JInt 100)])])])])])"

lemma ltp_message_snapshot:
  "ltp_of (ltp_message token) = Some (Some [(''NSE'', Some [(''CASH'', Some [(token, \<lparr>ld_TsInMillis = 0, ld_LTP = Fin 100\<rparr>)])])])"
  by (simp add: ltp_of_def ltp_message_def top_level_def parse_snapshot_def unmarshal_map_def set_map_def dec_LTPData_def dec_by_def
    zero_LTPData_def fold_key_def lower_char_def)

definition named_universe :: Universe where
  "named_universe = \<lparr>un_Entries = [], un_Symbols = [''TCS'', ''INFY''],
     un_TokenToSymbol = [''1'' \<mapsto> ''TCS'', ''2'' \<mapsto> ''INFY''], un_SymbolToSector = Map.empty\<rparr>"

definition named_connector :: FeedConnector where
  "named_connector = \<lparr>fc_ts = snd (Store ''TCS'' (NewTickerStore 25 256)), fc_universe = named_universe, fc_js = False,
     fc_lastPricePub = Map.empty\<rparr>"

lemma named_leaves:
  "snapshot_leaves (Some [(''NSE'', Some [(''CASH'', Some [(token, d)])])]) = [(''NSE'', ''CASH'', token, d)]"
  by (simp add: snapshot_leaves_def entries_def)

lemma named_symbol: "tokenSymbol named_universe ex seg ''1'' = ''TCS''" "tokenSymbol named_universe ex seg ''2'' = ''INFY''"
  by (simp_all add: tokenSymbol_def named_universe_def)

lemma poll_sees_last_message_witness:
  "Get ''TCS'' (fc_ts (fst (poll (\<lambda>_. (0, NoFault)) (dispatch_all ([ltp_message ''1''] @ [ltp_message ''2'']) (NewFeedClient (\<lambda>_. '''') '''')) (named_connector, [])))) =
   Get ''TCS'' (fc_ts named_connector)"
proof -
  have "\<forall>(ex, seg, tok, d) \<in> set (snapshot_leaves (Some [(''NSE'', Some [(''CASH'', Some [(''2'', \<lparr>ld_TsInMillis = 0, ld_LTP = Fin 100\<rparr>)])])])).
      tokenSymbol (fc_universe named_connector) ex seg tok \<noteq> ''TCS''"
    by (simp add: named_leaves named_connector_def named_symbol)
  from poll_sees_last_message [OF ltp_message_snapshot [of "''2''"] _ this, of "[]" "[ltp_message ''1'']"] show ?thesis by simp
qed

lemma stale_price_counted_again_witness:
  "\<exists>s'. Get ''TCS'' (fc_ts (fst ((poll (\<lambda>_. (0, NoFault)) (dispatch_all [ltp_message ''1''] (NewFeedClient (\<lambda>_. '''') '''')) ^^ 300) (named_connector, [])))) = Some s' \<and>
     ring_contents s' = replicate 256 \<lparr>tk_Price = Fin 100, tk_Volume = 0, tk_Timestamp = 0\<rparr>"
proof -
  let ?f = "dispatch_all [ltp_message ''1''] (NewFeedClient (\<lambda>_. '''') '''')"
  have g: "snapshot_leaves (feed_GetLTP ?f) = [(''NSE'', ''CASH'', ''1'', \<lparr>ld_TsInMillis = 0, ld_LTP = Fin 100\<rparr>)]"
    using dispatch_all_last [OF ltp_message_snapshot [of "''1''"], of "[]" "[]"] by (simp add: feed_GetLTP_def named_leaves)
  have s: "Get ''TCS'' (fc_ts named_connector) = Some (NewTickStore 256)"
    by (simp add: named_connector_def Get_def Store_def NewTickerStore_def DefaultMaxTickers_def Let_def)
  have r: "ring_ok (NewTickStore 256)" "Cap (NewTickStore 256) = 256" "ring_contents (NewTickStore 256) = []"
    by (simp_all add: NewTickStore_def ring_ok_def Cap_def ring_contents_def count_def)
  have "tokenSymbol (fc_universe named_connector) ''NSE'' ''CASH'' ''1'' = ''TCS''"
    by (simp add: named_connector_def named_symbol)
  from stale_price_counted_again [OF g this _ s r(1), where ans = "\<lambda>_. (0, NoFault)" and n = 300 and sent = "[]"] show ?thesis
    by (auto simp: r UnixMilli_def suffix_of_def drop_replicate)
qed

lemma Reconnect_backs_off_witness:
  "\<exists>e. Reconnect scripted 1 (NewFeedClient (\<lambda>_. '''') '''') \<lparr>sp_dials = [Inl (NewErr ''refused'')], sp_slept = [], sp_written = []\<rparr> =
     (Some e, NewFeedClient (\<lambda>_. '''') '''', \<lparr>sp_dials = [], sp_slept = [100000000], sp_written = []\<rparr>)"
  using Reconnect_backs_off [of "[NewErr ''refused'']" 1 _ _ "[]"] by (simp add: backoff_first)

definition morning_round :: feed_round where
  "morning_round = \<lparr>rd_turns = [], rd_stopped = False, rd_checks = [(19800 * nsec, False)], rd_stopRetry = False, rd_stopResub = False\<rparr>"

lemma feed_kept_alive_witness:
  "\<exists>f' s'. consumeWithReconnect scripted [] [morning_round] (NewFeedClient (\<lambda>_. '''') '''')
       \<lparr>sp_dials = map Inl [] @ [Inr 7], sp_slept = [], sp_written = []\<rparr> = (False, f', s') \<and>
     IsConnected f' \<and> fd_conn f' = Some 7 \<and> sp_written s' = [(7, ltp_request [])] \<and> sp_dials s' = []"
proof -
  have "IsMarketOpen (19800 * nsec)" by code_simp
  then have h: "\<not> rd_stopped morning_round \<and> wait_open (rd_checks morning_round) = Some True \<and> length ([] :: error list) < 20"
    by (simp add: morning_round_def)
  show ?thesis by (rule feed_kept_alive [THEN conjunct2, THEN conjunct2, THEN conjunct1, rule_format, OF h])
qed

end
