(* ===== verification/Wiring.thy ===== *)
theory Wiring
  imports Programs FeedClient GrowwClient RiskManager ExitMonitor Sentiment LLM
begin

text \<open>
  The production agents: the constructors \<open>NewAgent\<close> of the five packages under \<open>src/analysts/\<close>, which connect to the
  bus and the database and put the components together, and the table of \<open>main\<close> filled with them. The client
  library of the bus, the database driver, the broker's environment, the reading of durations and the
  directory of the archive are arguments.
\<close>

section \<open>The constructors\<close>

record ScoutAgent =
  qa_js :: JetStream
  qa_tickerStore :: TickerStore
  qa_universe :: Universe
  qa_feedClient :: FeedClient
  qa_feedConnector :: FeedConnector
  qa_restClient :: Client
  qa_cfg :: BreakoutConfig

definition NewFeedConnector :: "TickerStore \<Rightarrow> Universe \<Rightarrow> bool \<Rightarrow> FeedConnector" where
  "NewFeedConnector ts u js = \<lparr>fc_ts = ts, fc_universe = u, fc_js = js, fc_lastPricePub = Map.empty\<rparr>"

definition scout_NewAgent :: "'s jetlib \<Rightarrow> 's groww_env \<Rightarrow> 's \<Rightarrow> (error + ScoutAgent) \<times> 's" where
  "scout_NewAgent lib env s =
     (case ConnectJetStream lib (ge_getenv env) s of
        (Inl e, s) \<Rightarrow> (Inl e, s)
      | (Inr js, s) \<Rightarrow>
          let js = SetDurablePrefix ''navier-scout'' js;
              universe = ResolveUniverse (ge_getenv env ''QUANT_UNIVERSE'');
              tickerStore = NewTickerStore DefaultMaxTickers 256;
              feedClient = NewFeedClient (ge_getenv env) (ge_getenv env ''GROWW_ACCESS_TOKEN'')
          in case NewClient env (ge_getenv env ''GROWW_ACCESS_TOKEN'') s of
               (restClient, s) \<Rightarrow>
                 (Inr \<lparr>qa_js = js, qa_tickerStore = tickerStore, qa_universe = universe, qa_feedClient = feedClient,
                       qa_feedConnector = NewFeedConnector tickerStore universe True, qa_restClient = restClient,
                       qa_cfg = DefaultBreakoutConfig\<rparr>, s))"

record RiskAgent =
  ra_js :: JetStream
  ra_agent :: Analyst

definition risk_NewAgent :: "'s jetlib \<Rightarrow> (string \<Rightarrow> string) \<Rightarrow> 's \<Rightarrow> (error + RiskAgent) \<times> 's" where
  "risk_NewAgent lib getenv s =
     (case ConnectJetStream lib getenv s of
        (Inl e, s) \<Rightarrow> (Inl e, s)
      | (Inr js, s) \<Rightarrow>
          (Inr \<lparr>ra_js = SetDurablePrefix ''navier-rm'' js,
                ra_agent = NewAgent (getenv ''QUANT_UNIVERSE'') (getenv ''RISK_MIN_CONFIDENCE'') (getenv ''TOTAL_CAPITAL'')\<rparr>, s))"

record 'd TraderAgent =
  tg_js :: JetStream
  tg_db :: 'd
  tg_exit :: ExitMonitor

definition trader_NewAgent :: "'s jetlib \<Rightarrow> (string \<Rightarrow> string \<Rightarrow> error + 'd) \<Rightarrow> (string \<Rightarrow> string) \<Rightarrow> 's \<Rightarrow> (error + 'd TraderAgent) \<times> 's" where
  "trader_NewAgent lib sql_Open getenv s =
     (case ConnectJetStream lib getenv s of
        (Inl e, s) \<Rightarrow> (Inl (Wrapf ''trader: nats'' e), s)
      | (Inr js, s) \<Rightarrow>
          let js = SetDurablePrefix ''navier-trader'' js
          in case db_Connect sql_Open getenv of
               Inl e \<Rightarrow> (Inl (Wrapf ''trader: db'' e), js_Close lib js s)
             | Inr db \<Rightarrow> (Inr \<lparr>tg_js = js, tg_db = db, tg_exit = NewExitMonitor\<rparr>, s))"

record 'd SentimentRunner =
  sn_js :: JetStream
  sn_db :: 'd
  sn_llm :: LLMClient
  sn_agent :: SentimentAgent

definition sentiment_NewAgent :: "'s jetlib \<Rightarrow> (string \<Rightarrow> string \<Rightarrow> error + 'd) \<Rightarrow> ('d \<Rightarrow> 's \<Rightarrow> 's) \<Rightarrow> (string \<Rightarrow> string) \<Rightarrow> (string \<Rightarrow> Duration option) \<Rightarrow>
    's \<Rightarrow> (error + 'd SentimentRunner) \<times> 's" where
  "sentiment_NewAgent lib sql_Open db_Close getenv parse_duration s =
     (case ConnectJetStream lib getenv s of
        (Inl e, s) \<Rightarrow> (Inl (Wrapf ''sentiment: nats'' e), s)
      | (Inr js, s) \<Rightarrow>
          let js = SetDurablePrefix ''navier-sentiment'' js
          in case db_Connect sql_Open getenv of
               Inl e \<Rightarrow> (Inl (Wrapf ''sentiment: db'' e), js_Close lib js s)
             | Inr db \<Rightarrow>
                 (case NewLLMClient (LLMConfigFromEnv getenv parse_duration) of
                    Inl e \<Rightarrow> (Inl (Wrapf ''sentiment: llm'' e), db_Close db (js_Close lib js s))
                  | Inr llm \<Rightarrow> (Inr \<lparr>sn_js = js, sn_db = db, sn_llm = llm, sn_agent = production_analyst getenv parse_duration\<rparr>, s)))"

text \<open>\<open>open_store\<close> is the result of \<open>os.MkdirAll\<close> and the zone of the archive's days.\<close>

record RecorderAgent =
  rc_js :: JetStream
  rc_store :: TickArchive

definition recorder_NewAgent :: "'s jetlib \<Rightarrow> error option \<times> int \<Rightarrow> (string \<Rightarrow> string) \<Rightarrow> 's \<Rightarrow> (error + RecorderAgent) \<times> 's" where
  "recorder_NewAgent lib open_store getenv s =
     (case OpenTickStore (fst open_store) (snd open_store) (envTicksDir (getenv ''TICKS_DIR'')) of
        Inl e \<Rightarrow> (Inl (Wrapf ''recorder'' e), s)
      | Inr store \<Rightarrow>
          (case ConnectJetStream lib getenv s of
             (Inl e, s) \<Rightarrow> (Inl (Wrapf ''recorder: nats'' e), s)
           | (Inr js, s) \<Rightarrow> (Inr \<lparr>rc_js = SetDurablePrefix ''navier-recorder'' js, rc_store = store\<rparr>, s)))"

text \<open>The interface \<open>Agent\<close> of \<open>main\<close> is met by the five.\<close>

datatype 'd agent = Scout ScoutAgent | Risk RiskAgent | Trader "'d TraderAgent" | SentimentA "'d SentimentRunner" | Recorder RecorderAgent

fun agent_js :: "'d agent \<Rightarrow> JetStream" where
  "agent_js (Scout a) = qa_js a"
| "agent_js (Risk a) = ra_js a"
| "agent_js (Trader a) = tg_js a"
| "agent_js (SentimentA a) = sn_js a"
| "agent_js (Recorder a) = rc_js a"

definition constructed :: "('a \<Rightarrow> 'b) \<Rightarrow> (error + 'a) \<times> 's \<Rightarrow> (error + 'b) \<times> 's" where
  "constructed f r = (map_sum id f (fst r), snd r)"

definition production_table :: "'s jetlib \<Rightarrow> 's groww_env \<Rightarrow> (string \<Rightarrow> string \<Rightarrow> error + 'd) \<Rightarrow> ('d \<Rightarrow> 's \<Rightarrow> 's) \<Rightarrow> (string \<Rightarrow> Duration option) \<Rightarrow>
    error option \<times> int \<Rightarrow> ('d agent, 's) agentDef list" where
  "production_table lib env sql_Open db_Close parse_duration open_store =
     agent_table (\<lambda>s. constructed Scout (scout_NewAgent lib env s)) (\<lambda>s. constructed Risk (risk_NewAgent lib (ge_getenv env) s))
       (\<lambda>s. constructed Trader (trader_NewAgent lib sql_Open (ge_getenv env) s))
       (\<lambda>s. constructed SentimentA (sentiment_NewAgent lib sql_Open db_Close (ge_getenv env) parse_duration s))
       (\<lambda>s. constructed Recorder (recorder_NewAgent lib open_store (ge_getenv env) s))"

section \<open>Connections\<close>

text \<open>What the client library documents of connections, and that the clock and the database driver do not touch them:
  \<open>Connect\<close> opens a connection of its own or none, \<open>Close\<close> ends the one it is called on.\<close>

definition connection_server :: "'s jetlib \<Rightarrow> 's groww_env \<Rightarrow> ('d \<Rightarrow> 's \<Rightarrow> 's) \<Rightarrow> ('s \<Rightarrow> nat set) \<Rightarrow> bool" where
  "connection_server lib env db_Close conns \<longleftrightarrow>
     (\<forall>url s. case jl_Connect lib url s of
        (Inl e, s') \<Rightarrow> conns s' = conns s
      | (Inr c, s') \<Rightarrow> c \<notin> conns s \<and> conns s' = insert c (conns s)) \<and>
     (\<forall>c s. conns (snd (jl_JetStream lib c s)) = conns s) \<and>
     (\<forall>c s. conns (jl_Close lib c s) = conns s - {c}) \<and>
     (\<forall>s. conns (snd (ge_now env s)) = conns s) \<and>
     (\<forall>db s. conns (db_Close db s) = conns s)"

lemma connection_server_simps:
  assumes "connection_server lib env db_Close conns"
  shows "conns (snd (jl_JetStream lib c s)) = conns s" "conns (jl_Close lib c s) = conns s - {c}"
    "conns (snd (ge_now env s)) = conns s" "conns (db_Close db s) = conns s"
  using assms by (simp_all add: connection_server_def)

lemma connection_server_Connect:
  assumes "connection_server lib env db_Close conns"
  shows "jl_Connect lib url s = (Inl e, s') \<Longrightarrow> conns s' = conns s"
    "jl_Connect lib url s = (Inr c, s') \<Longrightarrow> c \<notin> conns s \<and> conns s' = insert c (conns s)"
  using assms unfolding connection_server_def by (metis (mono_tags, lifting) case_prod_conv sum.case(1), metis (mono_tags, lifting) case_prod_conv sum.case(2))

text \<open>What an operation that may produce a holder of a connection does to the connections.\<close>

definition opens_one :: "('s \<Rightarrow> nat set) \<Rightarrow> ('a \<Rightarrow> JetStream) \<Rightarrow> string \<Rightarrow> 's \<Rightarrow> (error + 'a) \<times> 's \<Rightarrow> bool" where
  "opens_one conns js prefix s out \<longleftrightarrow>
     (case out of
        (Inl e, s') \<Rightarrow> conns s' = conns s
      | (Inr a, s') \<Rightarrow> js_conn (js a) \<notin> conns s \<and> conns s' = insert (js_conn (js a)) (conns s) \<and> js_durablePrefix (js a) = prefix)"

lemma ConnectJetStream_opens_one:
  assumes "connection_server lib env db_Close conns"
  shows "opens_one conns (\<lambda>j. j) '''' s (ConnectJetStream lib getenv s)"
proof -
  note laws = connection_server_simps [OF assms] connection_server_Connect [OF assms]
  obtain r s1 where c: "nats_Connect lib getenv s = (r, s1)" by fastforce
  show ?thesis
  proof (cases r)
    case (Inl e)
    with c show ?thesis using laws(5) [of _ s e s1] by (simp add: opens_one_def ConnectJetStream_def nats_Connect_def)
  next
    case (Inr nc)
    with c have n: "nc \<notin> conns s" "conns s1 = insert nc (conns s)" using laws(6) [of _ s nc s1] by (simp_all add: nats_Connect_def)
    obtain r2 s2 where j: "jl_JetStream lib nc s1 = (r2, s2)" by fastforce
    then have "conns s2 = insert nc (conns s)" using laws(1) [of nc s1] n by simp
    with c Inr j n show ?thesis by (cases r2) (simp_all add: opens_one_def ConnectJetStream_def laws(2))
  qed
qed

text \<open>\<open>ConnectJetStream\<close> inside a constructor: each outcome of it settles what the rest has to do.\<close>

lemma opens_oneE:
  assumes "opens_one conns js prefix s (r, s')"
  obtains e where "r = Inl e" "conns s' = conns s"
  | a where "r = Inr a" "js_conn (js a) \<notin> conns s" "conns s' = insert (js_conn (js a)) (conns s)" "js_durablePrefix (js a) = prefix"
  using assms by (cases r) (auto simp: opens_one_def)

lemma newClient_keeps:
  assumes "connection_server lib env db_Close conns"
  shows "conns (snd (newClient env t k sec s)) = conns s"
  using connection_server_simps(3) [OF assms] by (simp add: newClient_def Let_def split: prod.split) (metis snd_conv)

lemmas constructor_defs = scout_NewAgent_def risk_NewAgent_def trader_NewAgent_def sentiment_NewAgent_def recorder_NewAgent_def

lemma NewAgent_opens_one:
  assumes "connection_server lib env db_Close conns"
  shows "opens_one conns qa_js ''navier-scout'' s (scout_NewAgent lib env s)"
    "opens_one conns ra_js ''navier-rm'' s (risk_NewAgent lib getenv s)"
    "opens_one conns tg_js ''navier-trader'' s (trader_NewAgent lib sql_Open getenv s)"
    "opens_one conns sn_js ''navier-sentiment'' s (sentiment_NewAgent lib sql_Open db_Close getenv parse_duration s)"
    "opens_one conns rc_js ''navier-recorder'' s (recorder_NewAgent lib open_store getenv s)"
proof -
  note laws = connection_server_simps [OF assms]
  have keep: "conns s2 = conns s1" if "NewClient env t s1 = (c, s2)" for t s1 c s2
    using newClient_keeps [OF assms, of _ _ _ s1] that unfolding NewClient_def by (metis snd_conv)
  obtain r s1 where c: "ConnectJetStream lib (ge_getenv env) s = (r, s1)" by fastforce
  obtain cl s2 where n: "NewClient env (ge_getenv env ''GROWW_ACCESS_TOKEN'') s1 = (cl, s2)" by fastforce
  show "opens_one conns qa_js ''navier-scout'' s (scout_NewAgent lib env s)"
    using ConnectJetStream_opens_one [OF assms, of s "ge_getenv env", unfolded c]
    by (rule opens_oneE) (simp_all add: opens_one_def scout_NewAgent_def c n keep [OF n] Let_def SetDurablePrefix_def)
  obtain r s1 where c: "ConnectJetStream lib getenv s = (r, s1)" by fastforce
  from ConnectJetStream_opens_one [OF assms, of s getenv, unfolded c]
  show "opens_one conns ra_js ''navier-rm'' s (risk_NewAgent lib getenv s)"
    "opens_one conns tg_js ''navier-trader'' s (trader_NewAgent lib sql_Open getenv s)"
    "opens_one conns sn_js ''navier-sentiment'' s (sentiment_NewAgent lib sql_Open db_Close getenv parse_duration s)"
    "opens_one conns rc_js ''navier-recorder'' s (recorder_NewAgent lib open_store getenv s)"
    by (rule opens_oneE; simp add: opens_one_def constructor_defs c Let_def SetDurablePrefix_def js_Close_def laws split: sum.split)+
qed

definition durable_prefixes :: "string list" where
  "durable_prefixes = [''navier-scout'', ''navier-rm'', ''navier-trader'', ''navier-sentiment'', ''navier-recorder'']"

definition conn_of :: "string \<times> 'd agent \<Rightarrow> nat" where "conn_of r = js_conn (agent_js (snd r))"

definition prefix_of :: "string \<times> 'd agent \<Rightarrow> string" where "prefix_of r = js_durablePrefix (agent_js (snd r))"

lemma constructed_opens_one:
  assumes "opens_one conns js p s r" "\<And>a. agent_js (f a) = js a"
  shows "opens_one conns agent_js p s (constructed f r)"
  using assms by (cases r; cases "fst r") (auto simp: opens_one_def constructed_def)

lemma production_opens_one:
  assumes "connection_server lib env db_Close conns"
  shows "list_all2 (\<lambda>(_, new) p. \<forall>s. opens_one conns agent_js p s (new s))
    (production_table lib env sql_Open db_Close parse_duration open_store) durable_prefixes"
proof -
  note c = NewAgent_opens_one [OF assms, THEN constructed_opens_one]
  show ?thesis
    unfolding production_table_def agent_table_def durable_prefixes_def list_all2_Cons list_all2_Nil2 prod.case
    by (intro conjI allI c) simp_all
qed

lemma start_agents_connections:
  assumes "list_all2 (\<lambda>(_, new) p. \<forall>s. opens_one conns agent_js p s (new s)) defs ps" "start_agents defs s = (running, failed, s')"
  shows "conns s' = conns s \<union> set (map conn_of running) \<and> distinct (map conn_of running) \<and>
    set (map conn_of running) \<inter> conns s = {} \<and> map prefix_of running = take (length running) ps"
  using assms
proof (induction defs ps arbitrary: s running rule: list_all2_induct)
  case Nil
  then show ?case by simp
next
  case (Cons d defs p ps)
  obtain name new where d: "d = (name, new)" by (cases d)
  obtain r s1 where n: "new s = (r, s1)" by (cases "new s")
  have "\<forall>s. opens_one conns agent_js p s (new s)" using Cons.hyps(1) by (simp add: d)
  from this [rule_format, of s] have "opens_one conns agent_js p s (r, s1)" by (simp add: n)
  then show ?case
  proof (rule opens_oneE)
    fix e assume e: "r = Inl e" "conns s1 = conns s"
    with Cons.prems have "running = [] \<and> s' = s1" by (simp add: d n)
    with e show ?thesis by simp
  next
    fix a assume a: "r = Inr a" "js_conn (agent_js a) \<notin> conns s" "conns s1 = insert (js_conn (agent_js a)) (conns s)"
      "js_durablePrefix (agent_js a) = p"
    obtain rest f2 s2 where e: "start_agents defs s1 = (rest, f2, s2)" by (metis prod_cases3)
    then have r: "start_agents defs s1 = (rest, failed, s')" "running = (name, a) # rest"
      using Cons.prems by (simp_all add: d n a(1))
    have h: "conn_of (name, a) = js_conn (agent_js a)" "prefix_of (name, a) = p" using a(4) by (simp_all add: conn_of_def prefix_of_def)
    from Cons.IH [OF r(1)] have "conns s' = insert (conn_of (name, a)) (conns s) \<union> set (map conn_of rest)" "distinct (map conn_of rest)"
      "set (map conn_of rest) \<inter> insert (conn_of (name, a)) (conns s) = {}" "map prefix_of rest = take (length rest) ps"
      using a(3) h by simp_all
    then show ?thesis using a(2) h unfolding r(2) by simp
  qed
qed

text \<open>The prefixes part ways at their eighth or ninth character.\<close>

lemma durableName_apart:
  assumes "i < 5" "k < 5" "i \<noteq> k"
  shows "durableName (durable_prefixes ! i) subj \<noteq> durableName (durable_prefixes ! k) subj'"
proof -
  have h: "take 9 (durableName (durable_prefixes ! j) x) = take 9 (durable_prefixes ! j)" if "j < 5" for j x
    using that by (auto simp: durable_prefixes_def durableName_def Let_def less_Suc_eq numeral_eq_Suc)
  have "distinct (map (take 9) durable_prefixes)" "length durable_prefixes = 5" by (simp_all add: durable_prefixes_def)
  then have "take 9 (durable_prefixes ! i) \<noteq> take 9 (durable_prefixes ! k)"
    using assms nth_eq_iff_index_eq [of "map (take 9) durable_prefixes" i k] by simp
  then show ?thesis using h assms(1,2) by metis
qed

text \<open>C20: No connection is lost or shared at start-up. When the production agents are started, each one that runs has a
  connection of its own, and nothing else is open that was not open before: an agent whose constructor
  fails, at whatever point, has closed what it opened. And no two agents ever have a durable consumer of the
  same name, whatever subjects they subscribe to, so none takes messages meant for another.\<close>

theorem agents_own_their_connections:
  assumes "connection_server lib env db_Close conns"
    and "start_agents (production_table lib env sql_Open db_Close parse_duration open_store) s = (running, failed, s')"
  shows "conns s' = conns s \<union> set (map conn_of running) \<and> distinct (map conn_of running) \<and>
    set (map conn_of running) \<inter> conns s = {} \<and>
    (\<forall>i < length running. \<forall>k < length running. i \<noteq> k \<longrightarrow>
       durableName (prefix_of (running ! i)) subj \<noteq> durableName (prefix_of (running ! k)) subj')"
proof -
  note s = start_agents_connections [OF production_opens_one [OF assms(1)] assms(2)]
  have p: "length running \<le> 5" "prefix_of (running ! i) = durable_prefixes ! i" if "i < length running" for i
  proof -
    have m: "map prefix_of running = take (length running) durable_prefixes" using s by blast
    then have "length running = min (length durable_prefixes) (length running)" by (metis length_map length_take)
    then show "length running \<le> 5" by (simp add: durable_prefixes_def)
    show "prefix_of (running ! i) = durable_prefixes ! i" using m that by (metis nth_map nth_take)
  qed
  have "durableName (prefix_of (running ! i)) subj \<noteq> durableName (prefix_of (running ! k)) subj'"
    if "i < length running" "k < length running" "i \<noteq> k" for i k
    unfolding p(2) [OF that(1)] p(2) [OF that(2)] using that p(1) [OF that(1)] by (intro durableName_apart) auto
  with s show ?thesis by blast
qed

text \<open>The example: a server that numbers its connections, and a database driver that opens nothing, so that the
  trader cannot be made.\<close>

definition counting_server :: "(nat \<times> nat set) jetlib" where
  "counting_server = \<lparr>jl_DefaultURL = ''nats://127.0.0.1:4222'', jl_Connect = (\<lambda>_ (n, cs). (Inr n, (Suc n, insert n (cs - {n})))),
     jl_JetStream = (\<lambda>_ s. (None, s)), jl_Close = (\<lambda>c (n, cs). (n, cs - {c})), jl_ErrStreamNotFound = Sentinel ''nats: stream not found'',
     jl_StreamInfo = (\<lambda>_ _ s. (None, s)), jl_AddStream = (\<lambda>_ _ s. (None, s)), jl_Subscribe = (\<lambda>_ _ _ s. (Inr 0, s)),
     jl_QueueSubscribe = (\<lambda>_ _ _ _ s. (Inr 0, s)), jl_PullSubscribe = (\<lambda>_ _ _ s. (Inr 0, s)),
     jl_Publish = (\<lambda>_ _ s. (None, s)), jl_PublishMsg = (\<lambda>_ _ s. (None, s))\<rparr>"

definition still_env :: "(nat \<times> nat set) groww_env" where
  "still_env = \<lparr>ge_now = (\<lambda>s. (0, s)), ge_sleep = (\<lambda>_ s. s), ge_http = (\<lambda>_ s. (Undelivered (NewErr ''down''), s)), ge_getenv = (\<lambda>_. ''''), ge_sha256hex = (\<lambda>s. s)\<rparr>"

text \<open>Its open connections are those numbered below the counter that were not closed.\<close>

definition live :: "nat \<times> nat set \<Rightarrow> nat set" where "live s = {c \<in> snd s. c < fst s}"

lemma counting_connections: "connection_server counting_server still_env (\<lambda>(_ :: unit) s. s) live"
  unfolding connection_server_def
proof (intro conjI allI)
  fix url s
  show "case jl_Connect counting_server url s of (Inl e, s') \<Rightarrow> live s' = live s | (Inr c, s') \<Rightarrow> c \<notin> live s \<and> live s' = insert c (live s)"
    by (cases s) (auto simp: counting_server_def live_def)
qed (simp_all add: counting_server_def still_env_def live_def split: prod.split, auto)

lemma counting_Connect: "ConnectJetStream counting_server getenv (n, cs) = (Inr \<lparr>js_conn = n, js_durablePrefix = ''''\<rparr>, (Suc n, insert n (cs - {n})))"
  by (simp add: ConnectJetStream_def nats_Connect_def counting_server_def)

lemma agents_own_their_connections_witness:
  "\<exists>running s'. start_agents (production_table counting_server still_env (\<lambda>_ _. Inl (NewErr ''db'')) (\<lambda>(_ :: unit) s. s) (\<lambda>_. None) (None, 0)) (0, {}) =
     (running, Some ''TraderGateway'', s') \<and> live s' = {0, 1}"
proof -
  obtain q s1 where q: "scout_NewAgent counting_server still_env (0, {}) = (Inr q, s1)" "js_conn (qa_js q) = 0" "s1 = (1, {0})"
    by (simp add: scout_NewAgent_def counting_Connect NewClient_def newClient_def still_env_def Let_def SetDurablePrefix_def)
  obtain r where r: "risk_NewAgent counting_server (ge_getenv still_env) (1, {0}) = (Inr r, (2, {0, 1}))" "js_conn (ra_js r) = 1"
    by (simp add: risk_NewAgent_def counting_Connect SetDurablePrefix_def insert_commute)
  have t: "trader_NewAgent counting_server (\<lambda>_ _. Inl (NewErr ''db'') :: error + unit) (ge_getenv still_env) (2, {0, 1}) =
      (Inl (Wrapf ''trader: db'' (NewErr ''db'')), js_Close counting_server \<lparr>js_conn = 2, js_durablePrefix = ''navier-trader''\<rparr> (Suc 2, insert 2 ({0, 1} - {2})))"
    by (simp only: trader_NewAgent_def counting_Connect SetDurablePrefix_def db_Connect_def Let_def prod.case sum.case JetStream.simps)
  let ?t = "production_table counting_server still_env (\<lambda>_ _. Inl (NewErr ''db'')) (\<lambda>(_ :: unit) s. s) (\<lambda>_. None) (None, 0)"
  let ?r = "[(''QuantitativeScout'', Scout q), (''RiskManager'', Risk r :: unit agent)]"
  obtain s' where s: "start_agents ?t (0, {}) = (?r, Some ''TraderGateway'', s')"
    unfolding production_table_def agent_table_def start_agents.simps constructed_def q(1) fst_conv snd_conv map_sum.simps prod.case sum.case q(3)
      r(1) t by blast
  have "map conn_of ?r = [0, 1]" by (simp add: conn_of_def q(2) r(2))
  moreover have "live (0, {}) = {}" by (simp add: live_def)
  ultimately have "live s' = {0, 1}" using agents_own_their_connections [OF counting_connections s] by simp
  with s show ?thesis by blast
qed

end
