(* ===== verification/ScoutLoops.thy ===== *)
theory ScoutLoops
  imports Wiring
begin

text \<open>
  The three loops of the scout at work: \<open>pollLoop\<close> and \<open>quoteLoop\<close> of \<open>src/analysts/quantitative/feed.go\<close> and
  \<open>evalLoop\<close> of \<open>breakout.go\<close>, started by \<open>Run\<close> of \<open>agent.go\<close>. They share the rings, each access to which is atomic:
  an event is one access, and a run of the scout is any sequence of events. The turns of \<open>Feed\<close> and \<open>Breakout\<close> are
  runs of their events without interruption.
\<close>

section \<open>Events\<close>

text \<open>\<open>sl_eval\<close> is the evaluation under way: the symbol with the ring as it was when the candles were read, and then
  also as it was when the prices were.\<close>

record ScoutState =
  sl_fc :: FeedConnector
  sl_eval :: "(string \<times> TickStore \<times> TickStore option) option"
  sl_sent :: "message list"

datatype scout_event =
    SnapshotLeaf leaf
  | QuoteEntry UniverseEntry "error + int"
  | EvalBegin string
  | EvalPrices
  | EvalEnd Time fault

definition quote_entry :: "UniverseEntry \<Rightarrow> error + int \<Rightarrow> FeedConnector \<Rightarrow> FeedConnector" where
  "quote_entry e answer fc =
     (case Get (ue_Symbol e) (fc_ts fc) of
        None \<Rightarrow> fc
      | Some store \<Rightarrow>
          if Len store = 0 then fc
          else case answer of
            Inl _ \<Rightarrow> fc
          | Inr volume \<Rightarrow> fc\<lparr>fc_ts := update_store (ue_Symbol e) (UpdateLatestVolume volume) (fc_ts fc)\<rparr>)"

text \<open>\<open>None\<close> is the panic of \<open>evaluate\<close>. A symbol that is not evaluated leaves no evaluation under way, and the two events
  after it then do nothing.\<close>

fun scout_event_step :: "BreakoutConfig \<Rightarrow> scout_event \<Rightarrow> ScoutState \<Rightarrow> ScoutState option" where
  "scout_event_step cfg (SnapshotLeaf l) st =
     (case process_leaf l (sl_fc st, sl_sent st) of (fc, sent) \<Rightarrow> Some (st\<lparr>sl_fc := fc, sl_sent := sent\<rparr>))"
| "scout_event_step cfg (QuoteEntry e answer) st = Some (st\<lparr>sl_fc := quote_entry e answer (sl_fc st)\<rparr>)"
| "scout_event_step cfg (EvalBegin symbol) st =
     Some (st\<lparr>sl_eval := (case Get symbol (fc_ts (sl_fc st)) of
        None \<Rightarrow> None
      | Some store \<Rightarrow> if Len store < 2 then None else Some (symbol, store, None))\<rparr>)"
| "scout_event_step cfg EvalPrices st =
     Some (st\<lparr>sl_eval := (case sl_eval st of
        Some (symbol, s1, None) \<Rightarrow> Some (symbol, s1, Get symbol (fc_ts (sl_fc st)))
      | other \<Rightarrow> other)\<rparr>)"
| "scout_event_step cfg (EvalEnd now reply) st =
     (case sl_eval st of
        Some (symbol, s1, Some s2) \<Rightarrow>
          (case Get symbol (fc_ts (sl_fc st)) of
             None \<Rightarrow> Some (st\<lparr>sl_eval := None\<rparr>)
           | Some s3 \<Rightarrow>
               (case evaluate cfg now symbol s1 s2 s3 of
                  None \<Rightarrow> None
                | Some None \<Rightarrow> Some (st\<lparr>sl_eval := None\<rparr>)
                | Some (Some intent) \<Rightarrow> Some (st\<lparr>sl_eval := None, sl_sent := publish_intent reply intent (sl_sent st)\<rparr>)))
      | _ \<Rightarrow> Some (st\<lparr>sl_eval := None\<rparr>))"

fun scout_run :: "BreakoutConfig \<Rightarrow> scout_event list \<Rightarrow> ScoutState \<Rightarrow> ScoutState option" where
  "scout_run cfg [] st = Some st"
| "scout_run cfg (e # es) st = (case scout_event_step cfg e st of None \<Rightarrow> None | Some st \<Rightarrow> scout_run cfg es st)"

lemma scout_run_append:
  "scout_run cfg (xs @ ys) st = (case scout_run cfg xs st of None \<Rightarrow> None | Some st \<Rightarrow> scout_run cfg ys st)"
  by (induction xs arbitrary: st) (simp_all split: option.split)

section \<open>The turns of the loops\<close>

definition quote_events :: "(nat \<Rightarrow> Exchange \<Rightarrow> Segment \<Rightarrow> string \<Rightarrow> error + int) \<Rightarrow> nat \<Rightarrow> UniverseEntry list \<Rightarrow> scout_event list" where
  "quote_events GetQuote k es =
     map (\<lambda>(i, e). QuoteEntry e (GetQuote i (ue_Exchange e) (ue_Segment e) (ue_Symbol e))) (enumerate k es)"

definition eval_events :: "(nat \<Rightarrow> Time) \<Rightarrow> (nat \<Rightarrow> fault) \<Rightarrow> nat \<Rightarrow> string list \<Rightarrow> scout_event list" where
  "eval_events now reply k symbols =
     concat (map (\<lambda>(i, symbol). [EvalBegin symbol, EvalPrices, EvalEnd (now i) (reply i)]) (enumerate k symbols))"

text \<open>A loop waits for its ticker or for its stop channel, and ends with the latter. \<open>Fires\<close> carries what the turn meets.\<close>

datatype 'a wake = Fires 'a | StopClosed

definition snapshot_events :: "leaf list option \<Rightarrow> scout_event list" where
  "snapshot_events ltp = (case ltp of None \<Rightarrow> [] | Some leaves \<Rightarrow> map SnapshotLeaf leaves)"

fun pollLoop :: "leaf list option wake list \<Rightarrow> scout_event list" where
  "pollLoop [] = []"
| "pollLoop (Fires ltp # ws) = snapshot_events ltp @ pollLoop ws"
| "pollLoop (StopClosed # ws) = []"

fun quoteLoop :: "UniverseEntry list \<Rightarrow> (nat \<Rightarrow> Exchange \<Rightarrow> Segment \<Rightarrow> string \<Rightarrow> error + int) wake list \<Rightarrow> scout_event list" where
  "quoteLoop table [] = []"
| "quoteLoop table (Fires GetQuote # ws) = quote_events GetQuote 0 table @ quoteLoop table ws"
| "quoteLoop table (StopClosed # ws) = []"

fun evalLoop :: "string list \<Rightarrow> ((nat \<Rightarrow> Time) \<times> (nat \<Rightarrow> fault)) wake list \<Rightarrow> scout_event list" where
  "evalLoop symbols [] = []"
| "evalLoop symbols (Fires (now, reply) # ws) = eval_events now reply 0 symbols @ evalLoop symbols ws"
| "evalLoop symbols (StopClosed # ws) = []"

lemma leaf_turn:
  "scout_run cfg (map SnapshotLeaf leaves) st =
     Some (case processSnapshot (Some leaves) (sl_fc st, sl_sent st) of (fc, sent) \<Rightarrow> st\<lparr>sl_fc := fc, sl_sent := sent\<rparr>)"
proof (induction leaves arbitrary: st)
  case (Cons l leaves)
  obtain fc sent where "process_leaf l (sl_fc st, sl_sent st) = (fc, sent)" by fastforce
  then show ?case using Cons.IH by (simp add: processSnapshot_def)
qed (simp add: processSnapshot_def)

lemma quote_turn:
  "scout_run cfg (quote_events GetQuote k es) st = Some (st\<lparr>sl_fc := poll_entries GetQuote k es (sl_fc st)\<rparr>)"
proof (induction es arbitrary: k st)
  case (Cons e es)
  have "poll_entries GetQuote k (e # es) fc =
      poll_entries GetQuote (Suc k) es (quote_entry e (GetQuote k (ue_Exchange e) (ue_Segment e) (ue_Symbol e)) fc)" for fc
    by (simp add: quote_entry_def split: option.split sum.split)
  with Cons.IH show ?case by (simp add: quote_events_def)
qed (simp add: quote_events_def)

lemma eval_turn:
  assumes "sl_eval st = None"
  shows "scout_run cfg (eval_events now reply k symbols) st =
    map_option (\<lambda>sent. st\<lparr>sl_sent := sent\<rparr>) (evaluate_symbols cfg (fc_ts (sl_fc st)) now reply k symbols (sl_sent st))"
  using assms
proof (induction symbols arbitrary: k st)
  case (Cons symbol symbols)
  let ?tl = "scout_run cfg (eval_events now reply (Suc k) symbols)"
  have same: "st\<lparr>sl_eval := None\<rparr> = st" using Cons.prems by simp
  have e: "eval_events now reply k (symbol # symbols) =
      [EvalBegin symbol, EvalPrices, EvalEnd (now k) (reply k)] @ eval_events now reply (Suc k) symbols"
    by (simp add: eval_events_def)
  show ?case
  proof (cases "Get symbol (fc_ts (sl_fc st))")
    case None
    then show ?thesis using Cons.IH [OF Cons.prems] by (simp add: e same Cons.prems)
  next
    case (Some store)
    show ?thesis
    proof (cases "Len store < 2")
      case True
      then show ?thesis using Cons.IH [OF Cons.prems] Some by (simp add: e same Cons.prems)
    next
      case False
      then show ?thesis using Cons.IH Cons.prems Some
        by (simp add: e same Cons.prems split: option.split)
    qed
  qed
qed (simp add: eval_events_def)

text \<open>The turns of the three loops are runs of events. When nothing comes between them, the events of a turn of
  \<open>pollLoop\<close> do what \<open>processSnapshot\<close> does, those of \<open>quoteLoop\<close> what \<open>pollQuotes\<close> does, and those of \<open>evalLoop\<close> what
  \<open>evaluateAll\<close> does, its panic included; after its stop channel is closed a loop does nothing.\<close>

theorem turns_are_event_runs:
  assumes "sl_eval st = None"
  shows "scout_run cfg (pollLoop (Fires ltp # StopClosed # ws)) st =
      Some (case processSnapshot ltp (sl_fc st, sl_sent st) of (fc, sent) \<Rightarrow> st\<lparr>sl_fc := fc, sl_sent := sent\<rparr>) \<and>
    scout_run cfg (quoteLoop (un_Entries (fc_universe (sl_fc st))) (Fires GetQuote # StopClosed # qs)) st =
      Some (st\<lparr>sl_fc := pollQuotes GetQuote (sl_fc st)\<rparr>) \<and>
    scout_run cfg (evalLoop (un_Symbols u) (Fires (now, reply) # StopClosed # es)) st =
      map_option (\<lambda>sent. st\<lparr>sl_sent := sent\<rparr>) (evaluateAll cfg u (fc_ts (sl_fc st)) now reply (sl_sent st))"
proof -
  have "scout_run cfg (snapshot_events ltp) st =
      Some (case processSnapshot ltp (sl_fc st, sl_sent st) of (fc, sent) \<Rightarrow> st\<lparr>sl_fc := fc, sl_sent := sent\<rparr>)"
    using leaf_turn by (cases ltp) (simp_all add: snapshot_events_def processSnapshot_def)
  then show ?thesis using quote_turn eval_turn [OF assms] by (simp add: pollQuotes_def evaluateAll_def)
qed

section \<open>What the rings hold\<close>

definition leaf_symbol :: "Universe \<Rightarrow> leaf \<Rightarrow> string" where
  "leaf_symbol u l = tokenSymbol u (lf_exchange l) (lf_segment l) (lf_token l)"

definition leaf_tick :: "leaf \<Rightarrow> Tick" where
  "leaf_tick l = \<lparr>tk_Price = ld_LTP (lf_data l), tk_Volume = 0, tk_Timestamp = UnixMilli (ld_TsInMillis (lf_data l))\<rparr>"

text \<open>What a run does to the ring of a symbol, if it has one.\<close>

fun event_ops :: "Universe \<Rightarrow> string \<Rightarrow> scout_event \<Rightarrow> ring_op list" where
  "event_ops u symbol (SnapshotLeaf l) = (if leaf_symbol u l = symbol \<and> symbol \<noteq> '''' then [OpAppend (leaf_tick l)] else [])"
| "event_ops u symbol (QuoteEntry e (Inr v)) = (if ue_Symbol e = symbol then [OpVolume v] else [])"
| "event_ops u symbol _ = []"

definition ring_ops :: "Universe \<Rightarrow> string \<Rightarrow> scout_event list \<Rightarrow> ring_op list" where
  "ring_ops u symbol es = concat (map (event_ops u symbol) es)"

lemma ring_ops_snoc: "ring_ops u symbol (es @ [e]) = ring_ops u symbol es @ event_ops u symbol e"
  by (simp add: ring_ops_def)

definition only_volumes :: "ring_op list \<Rightarrow> bool" where
  "only_volumes ops \<longleftrightarrow> (\<forall>op \<in> set ops. \<exists>v. op = OpVolume v)"

lemma only_volumes_ring: "only_volumes ops \<Longrightarrow> foldl ring_step (NewTickStore n) ops = NewTickStore n"
proof (induction ops)
  case (Cons op ops)
  then obtain v where op: "op = OpVolume v" by (auto simp: only_volumes_def)
  have "UpdateLatestVolume v (NewTickStore n) = NewTickStore n"
    by (simp add: UpdateLatestVolume_def NewTickStore_def count_def Let_def)
  with Cons op show ?case by (simp add: only_volumes_def)
qed simp

text \<open>A symbol has no ring while only volumes came for it, or if it came when the table was full, which it then stays.\<close>

definition rings_follow :: "int \<Rightarrow> Universe \<Rightarrow> scout_event list \<Rightarrow> TickerStore \<Rightarrow> bool" where
  "rings_follow n u es ts \<longleftrightarrow> tst_bufCap ts = n \<and>
     (\<forall>symbol. case Get symbol ts of
        Some r \<Rightarrow> r = foldl ring_step (NewTickStore n) (ring_ops u symbol es)
      | None \<Rightarrow> only_volumes (ring_ops u symbol es) \<or> tst_max ts \<le> int (length (tst_stores ts)))"

lemma rings_followD:
  assumes "rings_follow n u es ts"
  shows "Get symbol ts = Some r \<Longrightarrow> r = foldl ring_step (NewTickStore n) (ring_ops u symbol es)"
    "Get symbol ts = None \<Longrightarrow> only_volumes (ring_ops u symbol es) \<or> tst_max ts \<le> int (length (tst_stores ts))"
    "tst_bufCap ts = n"
  using assms by (auto simp: rings_follow_def dest!: spec [of _ symbol])

text \<open>An event that leaves the rings of all other symbols, the table's size and its bounds alone.\<close>

lemma rings_follow_one:
  assumes f: "rings_follow n u es ts"
    and other: "\<And>x. x \<noteq> symbol \<Longrightarrow> Get x ts' = Get x ts \<and> event_ops u x e = []"
    and same: "tst_bufCap ts' = tst_bufCap ts" "tst_max ts' = tst_max ts" "length (tst_stores ts) \<le> length (tst_stores ts')"
    and one: "case Get symbol ts' of
        Some r \<Rightarrow> r = foldl ring_step (NewTickStore n) (ring_ops u symbol (es @ [e]))
      | None \<Rightarrow> only_volumes (ring_ops u symbol (es @ [e])) \<or> tst_max ts' \<le> int (length (tst_stores ts'))"
  shows "rings_follow n u (es @ [e]) ts'"
  unfolding rings_follow_def
proof (intro conjI allI)
  show "tst_bufCap ts' = n" using rings_followD(3) [OF f] same by simp
  fix x
  show "case Get x ts' of
      Some r \<Rightarrow> r = foldl ring_step (NewTickStore n) (ring_ops u x (es @ [e]))
    | None \<Rightarrow> only_volumes (ring_ops u x (es @ [e])) \<or> tst_max ts' \<le> int (length (tst_stores ts'))"
  proof (cases "x = symbol")
    case False
    then have "Get x ts' = Get x ts" "ring_ops u x (es @ [e]) = ring_ops u x es" using other by (simp_all add: ring_ops_snoc)
    then show ?thesis using rings_followD(1,2) [OF f, of x] same by (auto split: option.split)
  next
    case True
    show ?thesis unfolding True by (rule one)
  qed
qed

lemma Publish_adds: "set (snd (Publish reply subj data sent)) \<subseteq> set sent \<union> {m. fst m = subj}"
  by (auto simp: Publish_def split: fault.splits if_splits)

lemma publishPrice_keeps:
  assumes "publishPrice now reply s p ms (fc, sent) = (fc', sent')"
  shows "fc_ts fc' = fc_ts fc \<and> fc_universe fc' = fc_universe fc \<and> set sent' \<subseteq> set sent \<union> {m. fst m = PriceSubject s}"
proof (cases "\<not> fc_js fc \<or> (case fc_lastPricePub fc s of Some lst \<Rightarrow> now - lst < PricePublishInterval | None \<Rightarrow> False)")
  case True
  then have "fc' = fc \<and> sent' = sent" using assms by (simp only: publishPrice_def prod.case) (metis prod.inject)
  then show ?thesis by simp
next
  case False
  let ?fc = "fc\<lparr>fc_lastPricePub := (fc_lastPricePub fc)(s \<mapsto> now)\<rparr>"
  from False assms have p: "(case marshal_tick \<lparr>pt_Ticker = s, pt_Price = p, pt_TsInMillis = ms\<rparr> of Inl _ \<Rightarrow> (?fc, sent)
      | Inr data \<Rightarrow> (?fc, snd (Publish reply (PriceSubject s) data sent))) = (fc', sent')"
    by (simp only: publishPrice_def prod.case Let_def) (metis (full_types))
  show ?thesis
  proof (cases "marshal_tick \<lparr>pt_Ticker = s, pt_Price = p, pt_TsInMillis = ms\<rparr>")
    case (Inl e)
    with p show ?thesis by (simp only: sum.case prod.inject) auto
  next
    case (Inr d)
    with p have "fc' = ?fc" "sent' = snd (Publish reply (PriceSubject s) d sent)" by (simp_all only: sum.case prod.inject)
    then show ?thesis using Publish_adds by auto
  qed
qed

lemma process_leaf_eq:
  "process_leaf l (fc, sent) =
     (let symbol = leaf_symbol (fc_universe fc) l
      in if symbol = '''' then (fc, sent)
         else case Store symbol (fc_ts fc) of
           (None, ts) \<Rightarrow> (fc\<lparr>fc_ts := ts\<rparr>, sent)
         | (Some _, ts) \<Rightarrow>
             publishPrice (lf_now l) (lf_reply l) symbol (ld_LTP (lf_data l)) (ld_TsInMillis (lf_data l))
               (fc\<lparr>fc_ts := update_store symbol (Append (leaf_tick l)) ts\<rparr>, sent))"
  by (simp only: process_leaf_def leaf_symbol_def leaf_tick_def Let_def prod.case)

lemma process_leaf_cases:
  assumes "process_leaf l (fc, sent) = (fc', sent')"
  obtains "leaf_symbol (fc_universe fc) l = ''''" "fc' = fc" "sent' = sent"
  | "leaf_symbol (fc_universe fc) l \<noteq> ''''" "Store (leaf_symbol (fc_universe fc) l) (fc_ts fc) = (None, fc_ts fc)"
      "fc_ts fc' = fc_ts fc" "fc_universe fc' = fc_universe fc" "sent' = sent"
  | r ts where "leaf_symbol (fc_universe fc) l \<noteq> ''''" "Store (leaf_symbol (fc_universe fc) l) (fc_ts fc) = (Some r, ts)"
      "fc_ts fc' = update_store (leaf_symbol (fc_universe fc) l) (Append (leaf_tick l)) ts" "fc_universe fc' = fc_universe fc"
      "set sent' \<subseteq> set sent \<union> {m. fst m = PriceSubject (leaf_symbol (fc_universe fc) l)}"
proof (cases "leaf_symbol (fc_universe fc) l = ''''")
  case True
  then have "fc' = fc" "sent' = sent" using assms by (simp_all add: process_leaf_eq)
  with True show ?thesis by (rule that(1))
next
  case False
  obtain r ts where s: "Store (leaf_symbol (fc_universe fc) l) (fc_ts fc) = (r, ts)" by (rule prod.exhaust)
  show ?thesis
  proof (cases r)
    case None
    have "ts = fc_ts fc" using s None by (simp add: Store_def Let_def split: option.splits if_splits)
    then have "fc' = fc" "sent' = sent" using assms False s None by (simp_all add: process_leaf_eq)
    with False s None \<open>ts = fc_ts fc\<close> show ?thesis by (intro that(2)) simp_all
  next
    case (Some r')
    let ?fc = "fc\<lparr>fc_ts := update_store (leaf_symbol (fc_universe fc) l) (Append (leaf_tick l)) ts\<rparr>"
    have "publishPrice (lf_now l) (lf_reply l) (leaf_symbol (fc_universe fc) l) (ld_LTP (lf_data l)) (ld_TsInMillis (lf_data l)) (?fc, sent) = (fc', sent')"
      using assms False s Some by (simp add: process_leaf_eq Let_def)
    from publishPrice_keeps [OF this] have "fc_ts fc' = fc_ts ?fc" "fc_universe fc' = fc_universe ?fc"
      "set sent' \<subseteq> set sent \<union> {m. fst m = PriceSubject (leaf_symbol (fc_universe fc) l)}" by blast+
    then have "fc_ts fc' = update_store (leaf_symbol (fc_universe fc) l) (Append (leaf_tick l)) ts" "fc_universe fc' = fc_universe fc"
      "set sent' \<subseteq> set sent \<union> {m. fst m = PriceSubject (leaf_symbol (fc_universe fc) l)}" by simp_all
    then show ?thesis using that(3) False s [unfolded Some] by blast
  qed
qed

lemma Get_Store:
  assumes "Store symbol ts = (r, ts')"
  shows "Get symbol ts' = r" "x \<noteq> symbol \<Longrightarrow> Get x ts' = Get x ts" "tst_bufCap ts' = tst_bufCap ts" "tst_max ts' = tst_max ts"
    "length (tst_stores ts) \<le> length (tst_stores ts')"
    "r = (case Get symbol ts of Some s \<Rightarrow> Some s
        | None \<Rightarrow> if tst_max ts \<le> int (length (tst_stores ts)) then None else Some (NewTickStore (tst_bufCap ts)))"
  using assms
  by (auto simp: Store_def Get_def Let_def update_conv' length_AList_update split: option.splits if_splits)

lemma Get_update_store:
  "Get x (update_store symbol f ts) = (if x = symbol then map_option f (Get x ts) else Get x ts)"
  "tst_bufCap (update_store symbol f ts) = tst_bufCap ts" "tst_max (update_store symbol f ts) = tst_max ts"
  "length (tst_stores ts) \<le> length (tst_stores (update_store symbol f ts))"
  by (auto simp: update_store_def Get_def update_conv' length_AList_update split: option.splits)

lemma rings_follow_idle:
  assumes "\<And>x. event_ops u x e = []"
  shows "rings_follow n u (es @ [e]) ts \<longleftrightarrow> rings_follow n u es ts"
proof -
  have "ring_ops u x (es @ [e]) = ring_ops u x es" for x using assms by (simp add: ring_ops_snoc)
  then show ?thesis by (simp add: rings_follow_def split: option.split)
qed

lemma only_volumes_append: "only_volumes (xs @ ys) \<longleftrightarrow> only_volumes xs \<and> only_volumes ys"
  by (auto simp: only_volumes_def)

lemma leaf_follows:
  assumes f: "rings_follow n (fc_universe fc) es (fc_ts fc)" and p: "process_leaf l (fc, sent) = (fc', sent')"
  shows "rings_follow n (fc_universe fc) (es @ [SnapshotLeaf l]) (fc_ts fc') \<and> fc_universe fc' = fc_universe fc \<and>
    (\<exists>symbol. set sent' \<subseteq> set sent \<union> {m. fst m = PriceSubject symbol})"
proof -
  let ?u = "fc_universe fc" and ?s = "leaf_symbol (fc_universe fc) l"
  have none: "event_ops ?u x (SnapshotLeaf l) = []" if "x \<noteq> ?s \<or> ?s = ''''" for x using that by auto
  have mine: "event_ops ?u ?s (SnapshotLeaf l) = [OpAppend (leaf_tick l)]" if "?s \<noteq> ''''" using that by simp
  from p show ?thesis
  proof (cases rule: process_leaf_cases)
    case 1
    then have "event_ops ?u x (SnapshotLeaf l) = []" for x by (intro none) simp
    then show ?thesis using f 1 rings_follow_idle by simp
  next
    case 2
    have full: "Get ?s (fc_ts fc) = None" "tst_max (fc_ts fc) \<le> int (length (tst_stores (fc_ts fc)))"
      using Get_Store(6) [OF 2(2)] by (auto split: option.splits if_splits)
    have "rings_follow n ?u (es @ [SnapshotLeaf l]) (fc_ts fc)"
      by (rule rings_follow_one [OF f, of ?s]) (use none full in \<open>simp_all\<close>)
    then show ?thesis using 2 by auto
  next
    case (3 r ts)
    note s = Get_Store [OF 3(2)]
    have "tst_bufCap (fc_ts fc) = n" by (rule rings_followD(3) [OF f])
    have r: "r = foldl ring_step (NewTickStore n) (ring_ops ?u ?s es)"
    proof (cases "Get ?s (fc_ts fc)")
      case None
      then have "\<not> tst_max (fc_ts fc) \<le> int (length (tst_stores (fc_ts fc)))" "r = NewTickStore n"
        using s(6) rings_followD(3) [OF f] by (auto split: if_splits)
      then show ?thesis using rings_followD(2) [OF f None] only_volumes_ring by metis
    next
      case (Some r')
      then show ?thesis using s(6) rings_followD(1) [OF f] by simp
    qed
    have g: "Get ?s (fc_ts fc') = Some (foldl ring_step (NewTickStore n) (ring_ops ?u ?s (es @ [SnapshotLeaf l])))"
      using 3(3) s(1) r mine [OF 3(1)] by (simp add: Get_update_store ring_ops_snoc)
    have "rings_follow n ?u (es @ [SnapshotLeaf l]) (fc_ts fc')"
    proof (rule rings_follow_one [OF f, of ?s])
      show "Get x (fc_ts fc') = Get x (fc_ts fc) \<and> event_ops ?u x (SnapshotLeaf l) = []" if "x \<noteq> ?s" for x
        using that none 3(3) s(2) by (simp add: Get_update_store)
      show "length (tst_stores (fc_ts fc)) \<le> length (tst_stores (fc_ts fc'))"
        using 3(3) s(5) Get_update_store(4) by (metis le_trans)
      show "case Get ?s (fc_ts fc') of
          Some r \<Rightarrow> r = foldl ring_step (NewTickStore n) (ring_ops ?u ?s (es @ [SnapshotLeaf l]))
        | None \<Rightarrow> only_volumes (ring_ops ?u ?s (es @ [SnapshotLeaf l])) \<or> tst_max (fc_ts fc') \<le> int (length (tst_stores (fc_ts fc')))"
        unfolding g by simp
    qed (use 3(3) s(3,4) in \<open>simp_all add: Get_update_store\<close>)
    then show ?thesis using 3 by blast
  qed
qed

lemma quote_follows:
  assumes f: "rings_follow n (fc_universe fc) es (fc_ts fc)"
  shows "rings_follow n (fc_universe fc) (es @ [QuoteEntry e answer]) (fc_ts (quote_entry e answer fc)) \<and>
    fc_universe (quote_entry e answer fc) = fc_universe fc"
proof -
  let ?u = "fc_universe fc" and ?s = "ue_Symbol e"
  show ?thesis
  proof (cases answer)
    case (Inl err)
    then have "event_ops ?u x (QuoteEntry e answer) = []" for x by simp
    moreover have "quote_entry e answer fc = fc" using Inl by (simp add: quote_entry_def split: option.split)
    ultimately show ?thesis using f rings_follow_idle by simp
  next
    case (Inr v)
    have ops: "event_ops ?u x (QuoteEntry e answer) = (if x = ?s then [OpVolume v] else [])" for x using Inr by simp
    show ?thesis
    proof (cases "Get ?s (fc_ts fc)")
      case None
      then have "rings_follow n ?u (es @ [QuoteEntry e answer]) (fc_ts fc)"
        using rings_followD(2) [OF f None]
        by (intro rings_follow_one [OF f, of ?s]) (auto simp: ops ring_ops_snoc only_volumes_append, simp add: only_volumes_def)
      then show ?thesis using None by (simp add: quote_entry_def)
    next
      case (Some r)
      then have r: "r = foldl ring_step (NewTickStore n) (ring_ops ?u ?s es)" by (rule rings_followD(1) [OF f])
      have "UpdateLatestVolume v r = r" if "Len r = 0" using that by (simp add: UpdateLatestVolume_def Len_def count_def split: if_splits)
      then have g: "Get x (fc_ts (quote_entry e answer fc)) = (if x = ?s then Some (UpdateLatestVolume v r) else Get x (fc_ts fc))" for x
        using Some Inr by (simp add: quote_entry_def Get_update_store)
      have "rings_follow n ?u (es @ [QuoteEntry e answer]) (fc_ts (quote_entry e answer fc))"
      proof (rule rings_follow_one [OF f, of ?s])
        show "length (tst_stores (fc_ts fc)) \<le> length (tst_stores (fc_ts (quote_entry e answer fc)))"
          using Some Inr by (simp add: quote_entry_def Get_update_store)
        show "case Get ?s (fc_ts (quote_entry e answer fc)) of
            Some r \<Rightarrow> r = foldl ring_step (NewTickStore n) (ring_ops ?u ?s (es @ [QuoteEntry e answer]))
          | None \<Rightarrow> only_volumes (ring_ops ?u ?s (es @ [QuoteEntry e answer])) \<or>
              tst_max (fc_ts (quote_entry e answer fc)) \<le> int (length (tst_stores (fc_ts (quote_entry e answer fc))))"
          unfolding g ring_ops_snoc ops r by simp
        show "Get x (fc_ts (quote_entry e answer fc)) = Get x (fc_ts fc) \<and> event_ops ?u x (QuoteEntry e answer) = []" if "x \<noteq> ?s" for x
          using that by (simp add: g ops)
      qed (use Some Inr in \<open>simp_all add: quote_entry_def Get_update_store\<close>)
      then show ?thesis using Some Inr by (simp add: quote_entry_def)
    qed
  qed
qed

section \<open>The scout is silent\<close>

lemma evaluate_default_total: "evaluate DefaultBreakoutConfig now symbol s1 s2 s3 \<noteq> None"
proof -
  have "bc_CandleDuration DefaultBreakoutConfig \<noteq> 0" by (simp add: DefaultBreakoutConfig_def Minute_def nsec_def)
  then have "Candles s1 (bc_CandleDuration DefaultBreakoutConfig) \<noteq> None" by (simp add: Candles_def)
  then show ?thesis by (auto simp: evaluate_def)
qed

definition scout_start :: "FeedConnector \<Rightarrow> ScoutState" where
  "scout_start fc = \<lparr>sl_fc = fc, sl_eval = None, sl_sent = []\<rparr>"

definition silent :: "Universe \<Rightarrow> scout_event list \<Rightarrow> ScoutState \<Rightarrow> bool" where
  "silent u es st \<longleftrightarrow> fc_universe (sl_fc st) = u \<and> rings_follow 256 u es (fc_ts (sl_fc st)) \<and>
     (\<forall>m \<in> set (sl_sent st). \<exists>ticker. fst m = PriceSubject ticker)"

lemma silent_start: "silent u [] (scout_start (NewFeedConnector (NewTickerStore DefaultMaxTickers 256) u js))"
  by (simp add: silent_def scout_start_def NewFeedConnector_def rings_follow_def NewTickerStore_def Get_def ring_ops_def only_volumes_def)

lemma silent_idle:
  assumes "silent u es st" "sl_fc st' = sl_fc st" "sl_sent st' = sl_sent st" "\<And>x. event_ops u x e = []"
  shows "silent u (es @ [e]) st'"
  using assms(1-3) rings_follow_idle [of u e, OF assms(4)] by (simp add: silent_def)

lemma silent_step:
  assumes s: "silent u es st" and h: "\<And>symbol. sparse_ops 11 11 (ring_ops u symbol es)"
  shows "\<exists>st'. scout_event_step DefaultBreakoutConfig e st = Some st' \<and> silent u (es @ [e]) st'"
proof (cases e)
  case (SnapshotLeaf l)
  obtain fc sent where p: "process_leaf l (sl_fc st, sl_sent st) = (fc, sent)" by fastforce
  from s have "fc_universe (sl_fc st) = u" "rings_follow 256 (fc_universe (sl_fc st)) es (fc_ts (sl_fc st))"
    by (simp_all add: silent_def)
  with leaf_follows [OF this(2) p] have "rings_follow 256 u (es @ [e]) (fc_ts fc)" "fc_universe fc = u"
    "\<exists>symbol. set sent \<subseteq> set (sl_sent st) \<union> {m. fst m = PriceSubject symbol}" using SnapshotLeaf by simp_all
  then show ?thesis using s SnapshotLeaf p by (fastforce simp: silent_def)
next
  case (QuoteEntry x answer)
  from s have "fc_universe (sl_fc st) = u" "rings_follow 256 (fc_universe (sl_fc st)) es (fc_ts (sl_fc st))"
    by (simp_all add: silent_def)
  with quote_follows [OF this(2), of x answer] show ?thesis using s QuoteEntry by (simp add: silent_def)
next
  case (EvalBegin symbol)
  then show ?thesis using silent_idle [OF s, of _ e] by simp
next
  case EvalPrices
  then show ?thesis using silent_idle [OF s, of _ e] by simp
next
  case (EvalEnd now reply)
  let ?q = "st\<lparr>sl_eval := None\<rparr>"
  have q: "silent u (es @ [e]) ?q" by (rule silent_idle [OF s]) (simp_all add: EvalEnd)
  have "scout_event_step DefaultBreakoutConfig e st = Some ?q"
  proof (cases "\<exists>symbol s1 s2 s3. sl_eval st = Some (symbol, s1, Some s2) \<and> Get symbol (fc_ts (sl_fc st)) = Some s3")
    case True
    then obtain symbol s1 s2 s3 where e: "sl_eval st = Some (symbol, s1, Some s2)" "Get symbol (fc_ts (sl_fc st)) = Some s3" by blast
    have "s3 = foldl ring_step (NewTickStore 256) (ring_ops u symbol es)"
      using s rings_followD(1) [OF _ e(2)] by (simp add: silent_def)
    then have "\<forall>i. evaluate DefaultBreakoutConfig now symbol s1 s2 s3 \<noteq> Some (Some i)" using sparse_ring_silent [OF h] by blast
    then have "evaluate DefaultBreakoutConfig now symbol s1 s2 s3 = Some None"
      using evaluate_default_total [of now symbol s1 s2 s3] by (metis option.exhaust)
    then show ?thesis using e EvalEnd by simp
  next
    case False
    then show ?thesis using EvalEnd by (auto split: option.split)
  qed
  with q show ?thesis by blast
qed

text \<open>C10: The scout publishes no intent. Let its three loops run in any order, one access to a ring at a time, over any
  universe, from the rings of \<open>NewAgent\<close> and with its configuration. If for every symbol at least eleven ticks come
  before the first patch of a volume and between any two (the polls run every 100 milliseconds and every
  5 seconds), then the run does not panic and every message it has put on the bus is a price.\<close>

theorem scout_publishes_prices_only:
  assumes "\<forall>symbol. sparse_ops 11 11 (ring_ops u symbol es)"
  shows "\<exists>st. scout_run DefaultBreakoutConfig es (scout_start (NewFeedConnector (NewTickerStore DefaultMaxTickers 256) u js)) = Some st \<and>
    (\<forall>m \<in> set (sl_sent st). fst m \<noteq> SubjectIntentNew \<and> (\<exists>ticker. fst m = PriceSubject ticker))"
proof -
  let ?start = "scout_start (NewFeedConnector (NewTickerStore DefaultMaxTickers 256) u js)"
  have "\<exists>st. scout_run DefaultBreakoutConfig es ?start = Some st \<and> silent u es st"
    using assms
  proof (induction es rule: rev_induct)
    case Nil
    then show ?case using silent_start by simp
  next
    case (snoc e es)
    then have h: "sparse_ops 11 11 (ring_ops u symbol es)" for symbol
      using sparse_ops_prefix by (fastforce simp: ring_ops_snoc)
    then obtain st where st: "scout_run DefaultBreakoutConfig es ?start = Some st" "silent u es st" using snoc.IH by blast
    obtain st' where "scout_event_step DefaultBreakoutConfig e st = Some st'" "silent u (es @ [e]) st'"
      using silent_step [OF st(2) h] by blast
    then show ?case using st(1) by (simp add: scout_run_append)
  qed
  moreover have "PriceSubject ticker \<noteq> SubjectIntentNew" for ticker by (simp add: subject_defs)
  ultimately show ?thesis unfolding silent_def by metis
qed

text \<open>C32: With the universe of the repository the scout is mute. No entry that \<open>ResolveUniverse\<close> can produce carries an exchange
  token, so as long as the broker names its instruments by tokens, whatever the loops do in whatever order, no
  ring ever exists and nothing is ever published, no price either: the exit monitor, the Risk Manager and the
  recorder, which live on the price stream, never hear of one.\<close>

theorem scout_is_mute:
  assumes "scout_NewAgent lib env s = (Inr a, s')"
    and "\<forall>l. SnapshotLeaf l \<in> set es \<longrightarrow> lf_token l \<noteq> ''''"
  shows "\<exists>st. scout_run (qa_cfg a) es (scout_start (qa_feedConnector a)) = Some st \<and> sl_sent st = [] \<and>
    (\<forall>symbol. Get symbol (fc_ts (sl_fc st)) = None)"
proof -
  let ?fc = "qa_feedConnector a"
  have u: "fc_universe ?fc = ResolveUniverse (ge_getenv env ''QUANT_UNIVERSE'')" and ts: "Get symbol (fc_ts ?fc) = None" for symbol
    using assms(1) by (auto simp: scout_NewAgent_def NewFeedConnector_def NewTickerStore_def Get_def Let_def split: prod.splits sum.splits)
  have "scout_run (qa_cfg a) es (scout_start ?fc) = Some (scout_start ?fc)" using assms(2)
  proof (induction es)
    case (Cons e es)
    have "scout_event_step (qa_cfg a) e (scout_start ?fc) = Some (scout_start ?fc)"
    proof (cases e)
      case (SnapshotLeaf l)
      then have "leaf_symbol (fc_universe ?fc) l = ''''" using Cons.prems tokenSymbol_resolved by (simp add: u leaf_symbol_def)
      then have "process_leaf l (?fc, []) = (?fc, [])" by (simp add: process_leaf_eq)
      then show ?thesis using SnapshotLeaf by (simp add: scout_start_def)
    qed (simp_all add: scout_start_def quote_entry_def ts)
    then show ?case using Cons by simp
  qed simp
  then show ?thesis using ts by (simp add: scout_start_def)
qed

section \<open>Examples\<close>

definition tcs_entry :: UniverseEntry where
  "tcs_entry = \<lparr>ue_Symbol = ''TCS'', ue_Exchange = ''NSE'', ue_Segment = ''CASH'', ue_ExchangeToken = ''11536'', ue_Sector = ''IT''\<rparr>"

definition tcs_leaf :: "int \<Rightarrow> leaf" where
  "tcs_leaf ms = \<lparr>lf_exchange = ''NSE'', lf_segment = ''CASH'', lf_token = ''11536'',
     lf_data = \<lparr>ld_TsInMillis = ms, ld_LTP = Fin 100\<rparr>, lf_now = UnixMilli ms, lf_reply = NoFault\<rparr>"

lemma turns_are_event_runs_witness:
  "scout_run DefaultBreakoutConfig (pollLoop [Fires None, StopClosed]) (scout_start (NewFeedConnector (NewTickerStore 1 1) DefaultUniverse True)) =
     Some (scout_start (NewFeedConnector (NewTickerStore 1 1) DefaultUniverse True))"
  using turns_are_event_runs [of "scout_start (NewFeedConnector (NewTickerStore 1 1) DefaultUniverse True)" DefaultBreakoutConfig None "[]"]
  by (simp add: scout_start_def processSnapshot_def)

definition tcs_leaf' :: "nat \<Rightarrow> scout_event" where "tcs_leaf' i = SnapshotLeaf (tcs_leaf (int i))"

definition busy_run :: "scout_event list" where
  "busy_run = map tcs_leaf' [0..<20] @ [QuoteEntry tcs_entry (Inr 5000), EvalBegin ''TCS'', EvalPrices, EvalEnd 0 NoFault]"

lemma busy_ops:
  "ring_ops (buildUniverse [tcs_entry]) symbol busy_run =
     (if symbol = ''TCS'' then map (\<lambda>i. OpAppend (leaf_tick (tcs_leaf (int i)))) [0..<20] @ [OpVolume 5000] else [])"
proof -
  have "leaf_symbol (buildUniverse [tcs_entry]) (tcs_leaf ms) = ''TCS''" for ms
    by (simp add: leaf_symbol_def tokenSymbol_def buildUniverse_simps tcs_leaf_def tcs_entry_def)
  then have "event_ops (buildUniverse [tcs_entry]) symbol (tcs_leaf' i) =
      (if symbol = ''TCS'' then [OpAppend (leaf_tick (tcs_leaf (int i)))] else [])" for i
    by (auto simp: tcs_leaf'_def)
  then have "concat (map (event_ops (buildUniverse [tcs_entry]) symbol \<circ> tcs_leaf') is) =
      (if symbol = ''TCS'' then map (\<lambda>i. OpAppend (leaf_tick (tcs_leaf (int i)))) is else [])" for "is"
    by (induction "is") simp_all
  then show ?thesis by (simp add: ring_ops_def busy_run_def tcs_entry_def)
qed

lemma sparse_ticks: "(\<forall>t \<in> set ts. tk_Volume t = 0) \<Longrightarrow> sparse_ops k d (map OpAppend ts @ ops) \<longleftrightarrow> sparse_ops k (length ts + d) ops"
  by (induction ts arbitrary: d) simp_all

lemma scout_publishes_prices_only_witness:
  "\<exists>st. scout_run DefaultBreakoutConfig busy_run
      (scout_start (NewFeedConnector (NewTickerStore DefaultMaxTickers 256) (buildUniverse [tcs_entry]) True)) = Some st \<and>
    SubjectIntentNew \<notin> fst ` set (sl_sent st)"
proof -
  have "sparse_ops 11 11 (ring_ops (buildUniverse [tcs_entry]) symbol busy_run)" for symbol
    using sparse_ticks [of "map (\<lambda>i. leaf_tick (tcs_leaf (int i))) [0..<20]" 11 11 "[OpVolume 5000]"]
    by (simp add: busy_ops leaf_tick_def comp_def)
  then show ?thesis using scout_publishes_prices_only [of "buildUniverse [tcs_entry]" busy_run True] by fastforce
qed

lemma scout_is_mute_witness:
  "\<exists>a s' st. scout_NewAgent counting_server still_env (0, {}) = (Inr a, s') \<and>
     scout_run (qa_cfg a) [SnapshotLeaf (tcs_leaf 0), EvalBegin ''TCS'', EvalPrices, EvalEnd 0 NoFault] (scout_start (qa_feedConnector a)) = Some st \<and>
     sl_sent st = []"
proof -
  obtain a s' where a: "scout_NewAgent counting_server still_env (0, {}) = (Inr a, s')"
    by (simp add: scout_NewAgent_def counting_Connect NewClient_def newClient_def still_env_def Let_def SetDurablePrefix_def)
  show ?thesis
    using scout_is_mute [OF a, of "[SnapshotLeaf (tcs_leaf 0), EvalBegin ''TCS'', EvalPrices, EvalEnd 0 NoFault]"] a
    by (auto simp: tcs_leaf_def)
qed

end
