(* ===== verification/Spec2Isabelle.thy ===== *)
theory Spec2Isabelle
  imports TradingSystem Archive GrowwApi Instruments Scheduler Calendar ScoutLoops
begin

text \<open>
  A model of the trading system \<open>Navier-Stocks\<close> (Go, \<open>src/\<close>) with the theorems about it.

  THE PROGRAM. Five agents run in one process (\<open>src/main/main.go\<close>) and talk over a JetStream bus
  (\<open>src/pkg/nats\<close>) and a PostgreSQL database (\<open>src/pkg/database\<close>). The scout (\<open>src/analysts/quantitative\<close>) keeps the
  broker's price feed (\<open>src/pkg/groww\<close>) in one ring buffer per security, publishes a throttled price stream and, when
  volume, VWAP and Bollinger band agree, a trade intent. The Risk Manager (\<open>src/analysts/riskmanager\<close>) passes an
  intent through its gates, sizes it and publishes an execution; at 15:15 IST it squares everything off. The trader
  (\<open>src/analysts/trader\<close>) carries executions out on paper, and its exit monitor closes positions whose stop or target
  a price crosses. The Sentiment Analyst (\<open>src/analysts/sentiment\<close>) has news scored by a language model for the gate of
  the Risk Manager. The recorder (\<open>src/analysts/recorder\<close>) archives the prices, which \<open>src/tools/replay\<close> publishes
  again; \<open>src/tools/report\<close> sums up the closed positions.

  HOW IT IS MODELLED. Structs are records, enumerations strings or datatypes as the sources have them, errors
  are values (\<open>error\<close> of \<open>Prelude\<close>: a result is \<open>error + 'a\<close>, an error alone \<open>error option\<close>), \<open>float64\<close> is IEEE
  binary64 with its roundings and special values (\<open>Float64\<close>), \<open>int\<close> and \<open>int64\<close> are integers with \<open>wrap64\<close> where
  an overflow matters, times are nanoseconds since 1970. An operation is a function from the state of its
  component, and of the world behind it, to the new ones. What is not under \<open>src/\<close> is an argument: the bus client
  (\<open>jetlib\<close> of \<open>JetStream\<close>), the broker's servers with clock and environment (\<open>groww_env\<close>, \<open>ws_env\<close>), the
  language model's and the news servers (\<open>transport\<close>), and the readers of XML, HTML, CSV, free text and \<open>.env\<close> files.
  Calls to the database, the bus and the disk meet the next fault of a script, lost before or after the server has
  acted; theorems that speak of success assume an empty script, the others any. Locks make each operation
  atomic; where goroutines interleave in ways that matter, the model is a step relation or a sequence of events. In \<open>TradingSystem\<close>
  a handler runs as a whole; as the invariants hold after each of its calls, they do not depend on that.

  THE THEORIES.
  \<^item> Foundations: \<open>Prelude\<close>, \<open>Float64\<close>, \<open>GoTime\<close> (calendar, \<open>pkg/utils/time.go\<close>), \<open>GoStrings\<close>, \<open>GoJson\<close> and
    \<open>GoHttp\<close> (what the sources use of Go's libraries), \<open>Models\<close> (\<open>pkg/models\<close>: messages, validation, codecs),
    \<open>StatMath\<close> (\<open>pkg/math\<close>), \<open>Bus\<close> and \<open>JetStream\<close> (\<open>pkg/nats\<close>), \<open>Ports\<close> (the interfaces of the agents).
  \<^item> Scout: \<open>Indicators\<close> (\<open>indicators/\<close>), \<open>TickStore\<close>, \<open>Universe\<close>, \<open>Breakout\<close>, \<open>Feed\<close> (the files of these names),
    \<open>FeedClient\<close> (\<open>pkg/groww/feed.go\<close> and the connection loop), \<open>ScoutLoops\<close> (the three loops interleaved).
  \<^item> Risk Manager: \<open>Gates\<close> (\<open>timeguard.go\<close>, \<open>allocator.go\<close>, \<open>sentiment.go\<close>, targets), \<open>Exposure\<close>, \<open>RiskManager\<close>
    (\<open>agent.go\<close>, \<open>executor.go\<close>, \<open>squareoff.go\<close>), and its theorems in \<open>SquareOff\<close> and \<open>Admission\<close>.
  \<^item> Trader: \<open>Trader\<close>, \<open>ExitMonitor\<close>. Database: \<open>Database\<close> (tables with their constraints, stores), \<open>Report\<close>,
    \<open>ReportTool\<close>.
  \<^item> Sentiment Analyst: \<open>LLM\<close>, \<open>Scraper\<close>, \<open>Scheduler\<close>, \<open>Sentiment\<close>. Recorder and replay: \<open>Archive\<close>.
  \<^item> Broker's REST client: \<open>GrowwTypes\<close>, \<open>GrowwClient\<close>, \<open>GrowwApi\<close>, \<open>Instruments\<close>.
  \<^item> The system: \<open>Ledger\<close> (what one call may do to tables and bus, and the record of the day it keeps), \<open>Handlers\<close> (the
    handlers of the agents as sequences of such moves), \<open>TradingSystem\<close> (Risk Manager, trader, exit monitor and Sentiment
    Analyst over one database and one bus, as a step relation), \<open>Calendar\<close> (the dates the programs print and read).
  \<^item> Programs: \<open>Lifecycle\<close> (\<open>Run\<close> and \<open>Stop\<close> of the five agents as step relations), \<open>Programs\<close> (boot,
    migrations, environment, replay tool), \<open>Wiring\<close> (the five constructors and the table of \<open>main\<close>).

  THE INTERFACES are locales, each interpreted on the model that provides it: the ring buffer (\<open>tick_history\<close>), the
  book behind the exposure tracker (\<open>exposure_book\<close>), the position store of the Risk Manager (\<open>position_store\<close>, met by
  the database), the backend of the trader (\<open>trader_backend\<close>, met by the paper trader), and the life of an agent
  (\<open>agent_life\<close>: until the end some statement brings the end nearer, so that it can always be reached, met by four of
  the agents; \<open>idling_life\<close>: and a fair run ends or waits for \<open>Stop\<close>, met by the trader with its ticker;
  \<open>terminating_life\<close>: and every run ends, met by the recorder).

  WHAT IS SHOWN, besides the behaviour of each operation on its branches:
  \<^item> The whole system, under any order of its handlers, with redelivery, faults and restarts: each position in the database comes
    from a published order that the Risk Manager built from a published valid intent, the step that closes one publishes
    its closing order, the trade log holds entry fills only, at most one per position, and what the database has recorded is
    final. The proof refines every handler to moves of the ledger. \<open>w_bus\<close> is the history of what the server accepted: the server
    keeps a message of the trading stream for 24 hours only, so that it delivers fewer of them than the steps of the model do. What does not hold is shown by runs: one lost confirmation opens two positions, and restarts lift
    the ceilings of the tracker.
  \<^item> Across components: an admitted intent ends as one open position (below), a scored article decides the next
    sentiment gate that is given the table, a recorded day is replayed as it was acknowledged, the production agents
    each own one connection and no two share a consumer.
  \<^item> Invariants: the ceilings of the exposure tracker, the table of rings. Refinements: the ring buffer by a list, its candles
    by a partition of that list, the exposure tracker by the multiset of positions. Equivalences: the report's figures,
    the volume test and the bias gate, in floats, with their exact counterparts.
  \<^item> Delivery and order: an execution delivered again opens no second position; an order is placed at most once
    through any number of token refreshes; the square-off and the exit monitor order before they close.
  \<^item> Ends: when a request of the broker client returns, how agents stop and which of them do not stop cleanly.
  \<^item> Defects: short orders never reach the database; at the rates of its polls the scout publishes no intent, and with
    its universe nothing at all; the agent that \<open>NewAgent\<close> builds never squares off; the report tool always fails on the schema
    of the repository; a trader without prices takes orders unguarded.

  BOUNDS AND FUEL. Loops of the sources that may not end are \<open>partial_function\<close> (the retry after a refreshed
  token, \<open>GrowwClient\<close>), where \<open>None\<close> is not returning and both answers are characterised; loops with a bound of
  the code run on it (\<open>find_env\<close> on its five levels, \<open>reconnect_loop\<close> on its retries); loops driven from outside
  run on the list of what they meet. No other fuel is used. Numbers in hypotheses, such as moderate prices, 10
  characters of a ticker or 64 of a reference, are those of the schema or of exactness in binary64.

  NOT MODELLED. \<open>pkg/groww/portfolio.go\<close> declares nothing. That the bus server drops messages by their age is left out of its
  history, as said above. Log output, the flags of the tools, signals and the alignment of
  the report's table are left out, as are constants of the broker's enumerations that nothing uses. The effect of
  \<open>Go\<close>'s garbage collector and of deadlines inside the client libraries is that of the libraries. Texts of JSON are not
  modelled, only documents; strings are byte strings taken to be valid UTF-8; time zones have a fixed offset.
\<close>

section \<open>From an intent to a position\<close>

text \<open>C4: A good intent becomes a position. When no call fails, a long intent that the Risk Manager admits at a moderate
  price, and which the capital affords, is acknowledged; the one message it leaves on the bus, handed to the
  trader, is acknowledged too and opens one position for the ticker at the intent's price, with a stop below
  and a target above it, and writes one audit row linked to it.\<close>

theorem intent_becomes_position:
  assumes "unmarshal_intent data = Inr i" "admitted db_ports c1 i g w" "quiet w" "rm_js g"
    and "ti_CurrentPrice i = Fin x" "moderate x" "rm_capital g = Fin C" "1 \<le> C" "7 * x \<le> C" "C \<le> 2 ^ 31 * x"
    and "ti_Side i = SideLong" "ti_SignalReason i \<notin> {ReasonStopLoss, ReasonTakeProfit, ReasonSquareOff}"
    and "length (ti_Ticker i) \<le> 10" "rm_sectors g = Some (resolveSectorMap u)" "0 \<le> c2" "c2 < 2 ^ 63"
    and "''risk-'' @ ti_Ticker i @ ''-'' @ string_of_int c2 \<notin> pr_execution_ref ` set (w_positions w)"
  shows "\<exists>g' w1 j w2 row fill. handleIntent db_ports c1 c2 data g w = (Ack, g', w1) \<and>
    w_bus w1 = w_bus w @ [(ExecuteSubject (ti_Ticker i), j)] \<and>
    handleExecution PaperTrader_Execute c3 (Some j) w1 = (Ack, w2) \<and>
    w_positions w2 = w_positions w @ [row] \<and> w_trade_log w2 = w_trade_log w @ [fill] \<and> tr_position_id fill = pr_id row \<and>
    pr_status row = ''OPEN'' \<and> pr_ticker row = ti_Ticker i \<and> pr_entry_price row = ti_CurrentPrice i \<and> 0 < pr_quantity row \<and>
    pr_stop_loss row < pr_entry_price row \<and> pr_entry_price row < pr_take_profit row"
proof -
  obtain ex j where e: "handleIntent db_ports c1 c2 data g w =
      (Ack, g\<lparr>rm_accepted := rm_accepted g + 1, rm_exposure := map_option (Register (te_Side ex) (te_Sector ex)) (rm_exposure g)\<rparr>,
       w\<lparr>w_bus := w_bus w @ [(ExecuteSubject (te_Ticker ex), j)]\<rparr>)"
    "buildExecution c2 g i = Inr ex" "unmarshal_execution (Some j) = Inr ex" "0 < te_Quantity ex" "te_Quantity ex < 2 ^ 31"
    using accepted_run [OF assms(1-10)] by blast
  let ?w = "w\<lparr>w_bus := w_bus w @ [(ExecuteSubject (te_Ticker ex), j)]\<rparr>"
  have v: "validate_intent i = None" using assms(2) by (simp add: admitted_def)
  note bv = built_valid [OF e(2) v]
  have db: "w_db_faults ?w = []" "te_ExecutionRef ex \<notin> pr_execution_ref ` set (w_positions ?w)"
    using assms(3,17) bv by (simp_all add: quiet_def)
  from built_filled [OF e(2) v assms(5,6,11,12,13,14,15,16) e(4,5) db e(3), of c3]
  obtain w2 where h: "handleExecution PaperTrader_Execute c3 (Some j) ?w = (Ack, w2)"
    and f: "w_positions w2 = w_positions w @ [new_position_row (posFromExec ex) ?w]"
    "w_trade_log w2 = w_trade_log w @ [new_trade_row (ex\<lparr>te_PositionID := w_position_seq ?w\<rparr>) ?w]" by auto
  have t: "sound_terms i ex" using terms_ordered [OF _ _ assms(5) e(2)] moderate_wide [OF assms(6)] by blast
  show ?thesis
    using e(1,4) h f t terms_kept [OF t] assms(11)
    by (intro exI [of _ "w2"] exI [of _ j] exI [of _ ?w] exI conjI) (auto simp: sound_terms_def new_position_row_def new_trade_row_def
      posFromExec_def Let_def PositionOpen_def SideLong_def SideShort_def)
qed

lemma intent_becomes_position_witness:
  "\<exists>g' w1 j w2 row. handleIntent db_ports morning morning sample_payload production empty_world = (Ack, g', w1) \<and>
     handleExecution PaperTrader_Execute morning (Some j) w1 = (Ack, w2) \<and> w_positions w2 = w_positions empty_world @ [row] \<and>
     pr_ticker row = ti_Ticker sample_intent \<and> pr_entry_price row = ti_CurrentPrice sample_intent"
proof -
  have "ti_Side sample_intent = SideLong" "ti_SignalReason sample_intent \<notin> {ReasonStopLoss, ReasonTakeProfit, ReasonSquareOff}"
    "length (ti_Ticker sample_intent) \<le> 10" "rm_sectors production = Some (resolveSectorMap '''')" "0 \<le> morning" "morning < 2 ^ 63"
    "''risk-'' @ ti_Ticker sample_intent @ ''-'' @ string_of_int morning \<notin> pr_execution_ref ` set (w_positions empty_world)"
    by (simp_all add: sample_intent_def enum_defs empty_world_def production_def NewAgent_def morning_def Hour_def nsec_def)
  note p = intent_becomes_position [OF production_run_facts production_margin this, of morning]
  show ?thesis using p by (elim exE conjE) (intro exI conjI; assumption)
qed

end
